(* ===== verification/Prelude.thy ===== *)
theory Prelude
  imports Main
begin

text \<open>
  The shared layer of the development: JavaScript strings as lists of UTF-16 code units with the
  string functions the broker uses, the outcome of an operation that may throw, database tables as
  row lists with the SQL statements the broker issues (UPDATE ... WHERE, DELETE ... WHERE, single
  row SELECT, ORDER BY ... LIMIT), partial unique indexes, and a locale for machines whose
  invariant is kept by every step.
\<close>

named_theorems row_simps \<open>rewriting of table statements\<close>
named_theorems res_simps \<open>rewriting of outcomes\<close>

section \<open>JavaScript strings\<close>

text \<open>
  A JavaScript string is a sequence of UTF-16 code units. Literals of the source are written as
  HOL string literals and turned into code units by \<open>js\<close>.
\<close>

type_synonym js_string = "nat list"

definition js :: "string \<Rightarrow> js_string" where
  "js s = map of_char s"

lemma js_Nil [simp]: "js [] = []"
  by (simp add: js_def)

lemma js_Cons [simp]: "js (c # s) = of_char c # js s"
  by (simp add: js_def)

definition is_digit :: "nat \<Rightarrow> bool" where
  "is_digit c \<longleftrightarrow> 48 \<le> c \<and> c \<le> 57"

definition is_upper :: "nat \<Rightarrow> bool" where
  "is_upper c \<longleftrightarrow> 65 \<le> c \<and> c \<le> 90"

definition is_lower :: "nat \<Rightarrow> bool" where
  "is_lower c \<longleftrightarrow> 97 \<le> c \<and> c \<le> 122"

definition is_alnum :: "nat \<Rightarrow> bool" where
  "is_alnum c \<longleftrightarrow> is_digit c \<or> is_upper c \<or> is_lower c"

definition is_hex :: "nat \<Rightarrow> bool" where
  "is_hex c \<longleftrightarrow> is_digit c \<or> (65 \<le> c \<and> c \<le> 70) \<or> (97 \<le> c \<and> c \<le> 102)"

lemmas char_class_defs = is_digit_def is_upper_def is_lower_def is_alnum_def is_hex_def

definition ascii_str :: "js_string \<Rightarrow> bool" where
  "ascii_str s \<longleftrightarrow> list_all (\<lambda>c. c < 128) s"

definition lower_unit :: "nat \<Rightarrow> nat" where
  "lower_unit c = (if is_upper c then c + 32 else c)"

definition ascii_lower :: "js_string \<Rightarrow> js_string" where
  "ascii_lower s = map lower_unit s"

lemma lower_unit_idem [simp]: "lower_unit (lower_unit c) = lower_unit c"
  by (simp add: lower_unit_def is_upper_def)

lemma ascii_lower_idem [simp]: "ascii_lower (ascii_lower s) = ascii_lower s"
  by (simp add: ascii_lower_def comp_def)

lemma length_ascii_lower [simp]: "length (ascii_lower s) = length s"
  by (simp add: ascii_lower_def)

lemma ascii_lower_Nil [simp]: "ascii_lower [] = []"
  by (simp add: ascii_lower_def)

lemma ascii_lower_append: "ascii_lower (s @ t) = ascii_lower s @ ascii_lower t"
  by (simp add: ascii_lower_def)

lemma ascii_ascii_lower: "ascii_str s \<Longrightarrow> ascii_str (ascii_lower s)"
  by (auto simp: ascii_str_def ascii_lower_def lower_unit_def is_upper_def list_all_iff)

text \<open>
  \<open>String.prototype.normalize\<close> and \<open>String.prototype.toLowerCase\<close> are tables of the Unicode
  standard. On ASCII text they are the identity and the ASCII case fold; on other text they stay
  a parameter of the definitions that use them.
\<close>

record unicode =
  nfc :: "js_string \<Rightarrow> js_string"
  to_lower :: "js_string \<Rightarrow> js_string"

definition unicode_ok :: "unicode \<Rightarrow> bool" where
  "unicode_ok U \<longleftrightarrow>
     (\<forall>s. ascii_str s \<longrightarrow> nfc U s = s) \<and> (\<forall>s. ascii_str s \<longrightarrow> to_lower U s = ascii_lower s)"

definition ascii_unicode :: unicode where
  "ascii_unicode = \<lparr>nfc = (\<lambda>s. s), to_lower = ascii_lower\<rparr>"

lemma unicode_ok_ascii [simp]: "unicode_ok ascii_unicode"
  by (simp add: unicode_ok_def ascii_unicode_def)

definition js_space :: "nat \<Rightarrow> bool" where
  "js_space c \<longleftrightarrow> (9 \<le> c \<and> c \<le> 13) \<or> c = 32 \<or> c = 160 \<or> c = 5760 \<or> (8192 \<le> c \<and> c \<le> 8202)
     \<or> c = 8232 \<or> c = 8233 \<or> c = 8239 \<or> c = 8287 \<or> c = 12288 \<or> c = 65279"

definition js_trim :: "js_string \<Rightarrow> js_string" where
  "js_trim s = rev (dropWhile js_space (rev (dropWhile js_space s)))"

fun starts_with :: "js_string \<Rightarrow> js_string \<Rightarrow> bool" where
  "starts_with s [] = True"
| "starts_with [] (p # ps) = False"
| "starts_with (c # s) (p # ps) = (c = p \<and> starts_with s ps)"

lemma starts_with_append [simp]: "starts_with (p @ s) p"
  by (induction p) simp_all

lemma starts_with_iff: "starts_with s p \<longleftrightarrow> (\<exists>t. s = p @ t)"
  by (induction s p rule: starts_with.induct) auto

text \<open>Regular expressions of the shape \<open>^[class]{lo,hi}$\<close>.\<close>

definition matches_class :: "(nat \<Rightarrow> bool) \<Rightarrow> nat \<Rightarrow> nat \<Rightarrow> js_string \<Rightarrow> bool" where
  "matches_class p lo hi s \<longleftrightarrow> lo \<le> length s \<and> length s \<le> hi \<and> list_all p s"

text \<open>
  \<open>Buffer.byteLength(s, 'utf8')\<close>: a code unit below 128 takes one byte, below 2048 two, a
  surrogate pair four, every other unit three (a lone surrogate is encoded as U+FFFD).
\<close>

definition high_surrogate :: "nat \<Rightarrow> bool" where
  "high_surrogate c \<longleftrightarrow> 55296 \<le> c \<and> c \<le> 56319"

definition low_surrogate :: "nat \<Rightarrow> bool" where
  "low_surrogate c \<longleftrightarrow> 56320 \<le> c \<and> c \<le> 57343"

fun byteLen :: "js_string \<Rightarrow> nat" where
  "byteLen [] = 0"
| "byteLen (c # s) =
     (if c < 128 then 1 + byteLen s
      else if c < 2048 then 2 + byteLen s
      else case s of
             [] \<Rightarrow> 3
           | d # s' \<Rightarrow> if high_surrogate c \<and> low_surrogate d then 4 + byteLen s' else 3 + byteLen s)"

lemma byteLen_bounds: "length s \<le> byteLen s \<and> byteLen s \<le> 3 * length s"
proof (induction s rule: byteLen.induct)
  case 1
  then show ?case by simp
next
  case (2 c s)
  then show ?case by (cases s) auto
qed

lemma byteLen_ascii: "ascii_str s \<Longrightarrow> byteLen s = length s"
  by (induction s rule: byteLen.induct) (auto simp: ascii_str_def)

section \<open>Outcomes\<close>

text \<open>
  An operation maps a state to a state and either the thrown error or the returned value. The
  state survives a throw; undoing it is the business of the transaction that surrounds the code.
\<close>

type_synonym ('s, 'e, 'a) outcome = "'s \<times> ('e + 'a)"

definition throw :: "'e \<Rightarrow> 's \<Rightarrow> ('s, 'e, 'a) outcome" where
  [simp]: "throw e s = (s, Inl e)"

definition ret :: "'a \<Rightarrow> 's \<Rightarrow> ('s, 'e, 'a) outcome" where
  [simp]: "ret x s = (s, Inr x)"

definition andThen :: "('s, 'e, 'a) outcome \<Rightarrow> ('a \<Rightarrow> 's \<Rightarrow> ('s, 'e, 'b) outcome) \<Rightarrow> ('s, 'e, 'b) outcome" where
  "andThen r k = (case r of (s, Inl e) \<Rightarrow> (s, Inl e) | (s, Inr x) \<Rightarrow> k x s)"

lemma andThen_Inl [simp]: "andThen (s, Inl e) k = (s, Inl e)"
  by (simp add: andThen_def)

lemma andThen_Inr [simp]: "andThen (s, Inr x) k = k x s"
  by (simp add: andThen_def)

lemma andThen_eq_Inr:
  "andThen r k = (t, Inr y) \<longleftrightarrow> (\<exists>s x. r = (s, Inr x) \<and> k x s = (t, Inr y))"
  by (cases r; cases "snd r") (auto simp: andThen_def)

lemma andThen_eq_Inl:
  "andThen r k = (t, Inl e) \<longleftrightarrow> r = (t, Inl e) \<or> (\<exists>s x. r = (s, Inr x) \<and> k x s = (t, Inl e))"
  by (cases r; cases "snd r") (auto simp: andThen_def)

lemmas andThen_cases [res_simps] = andThen_eq_Inr andThen_eq_Inl

section \<open>Tables\<close>

text \<open>
  A table is the list of its rows in rowid order. \<open>upd_where\<close>, \<open>del_where\<close> and \<open>changes\<close> are
  UPDATE, DELETE and the number of rows a statement touched; \<open>List.find\<close> is \<open>.get()\<close>,
  \<open>filter\<close> is \<open>.all()\<close>, \<open>sort_key\<close> is ORDER BY ASC (ties in rowid order) and \<open>take\<close> is LIMIT.
\<close>

definition upd_where :: "('r \<Rightarrow> bool) \<Rightarrow> ('r \<Rightarrow> 'r) \<Rightarrow> 'r list \<Rightarrow> 'r list" where
  "upd_where p f rs = map (\<lambda>r. if p r then f r else r) rs"

definition del_where :: "('r \<Rightarrow> bool) \<Rightarrow> 'r list \<Rightarrow> 'r list" where
  "del_where p rs = filter (\<lambda>r. \<not> p r) rs"

definition changes :: "('r \<Rightarrow> bool) \<Rightarrow> 'r list \<Rightarrow> nat" where
  "changes p rs = length (filter p rs)"

lemma upd_where_Nil [simp]: "upd_where p f [] = []"
  by (simp add: upd_where_def)

lemma upd_where_Cons [simp]: "upd_where p f (r # rs) = (if p r then f r else r) # upd_where p f rs"
  by (simp add: upd_where_def)

lemma upd_where_append [simp]: "upd_where p f (xs @ ys) = upd_where p f xs @ upd_where p f ys"
  by (simp add: upd_where_def)

lemma length_upd_where [simp]: "length (upd_where p f rs) = length rs"
  by (simp add: upd_where_def)

lemma set_upd_where: "set (upd_where p f rs) = (\<lambda>r. if p r then f r else r) ` set rs"
  by (simp add: upd_where_def)

lemma upd_where_id: "(\<And>r. r \<in> set rs \<Longrightarrow> \<not> p r) \<Longrightarrow> upd_where p f rs = rs"
  by (induction rs) auto

lemma map_upd_where:
  "(\<And>r. r \<in> set rs \<Longrightarrow> p r \<Longrightarrow> k (f r) = k r) \<Longrightarrow> map k (upd_where p f rs) = map k rs"
  by (induction rs) auto

lemma list_ex_upd_where: "(\<And>r. q (f r) = q r) \<Longrightarrow> list_ex q (upd_where p f rs) = list_ex q rs"
  by (induction rs) auto

lemma changes_0_iff: "changes p rs = 0 \<longleftrightarrow> (\<forall>r\<in>set rs. \<not> p r)"
  by (auto simp: changes_def filter_empty_conv)

lemma changes_pos_iff: "0 < changes p rs \<longleftrightarrow> (\<exists>r\<in>set rs. p r)"
  by (simp add: changes_0_iff flip: neq0_conv)

lemma changes_0_upd: "changes p rs = 0 \<Longrightarrow> upd_where p f rs = rs"
  by (rule upd_where_id) (simp add: changes_0_iff)

lemma set_del_where [simp]: "set (del_where p rs) = {r \<in> set rs. \<not> p r}"
  by (auto simp: del_where_def)

lemma find_append: "List.find p (xs @ ys) = (case List.find p xs of None \<Rightarrow> List.find p ys | Some x \<Rightarrow> Some x)"
  by (induction xs) simp_all

lemma find_SomeD: "List.find p xs = Some x \<Longrightarrow> x \<in> set xs \<and> p x"
  by (auto simp: find_Some_iff)

lemma find_None_conv: "List.find p xs = None \<longleftrightarrow> (\<forall>x\<in>set xs. \<not> p x)"
  by (auto simp: find_None_iff)

text \<open>A read by key after an update that keeps keys sees the updated row.\<close>

lemma find_upd_where:
  assumes "\<And>r. q (if p r then f r else r) = q r"
  shows "List.find q (upd_where p f rs) = map_option (\<lambda>r. if p r then f r else r) (List.find q rs)"
  using assms by (induction rs) auto

lemma find_upd_key:
  assumes "\<And>r. k (f r) = k r"
  shows "List.find (\<lambda>r. k r = x) (upd_where p f rs)
         = map_option (\<lambda>r. if p r then f r else r) (List.find (\<lambda>r. k r = x) rs)"
  by (rule find_upd_where) (simp add: assms)

lemma find_del_other:
  assumes "\<And>r. q r \<Longrightarrow> \<not> p r"
  shows "List.find q (del_where p rs) = List.find q rs"
  using assms by (induction rs) (auto simp: del_where_def)

lemma find_key_unique:
  assumes "distinct (map k rs)" and "r \<in> set rs"
  shows "List.find (\<lambda>x. k x = k r) rs = Some r"
  using assms by (induction rs) (auto simp: rev_image_eqI)

lemma distinct_map_inj: "distinct (map k rs) \<Longrightarrow> r \<in> set rs \<Longrightarrow> r' \<in> set rs \<Longrightarrow> k r = k r' \<Longrightarrow> r = r'"
  by (induction rs) (auto simp: rev_image_eqI)

text \<open>ORDER BY key DESC LIMIT 1 (the first of the greatest rows) and LIMIT with a negative bound.\<close>

fun top_by :: "('r \<Rightarrow> 'k::linorder) \<Rightarrow> 'r list \<Rightarrow> 'r option" where
  "top_by k [] = None"
| "top_by k (r # rs) =
     (case top_by k rs of None \<Rightarrow> Some r | Some s \<Rightarrow> if k r < k s then Some s else Some r)"

lemma top_by_None [simp]: "top_by k rs = None \<longleftrightarrow> rs = []"
  by (cases rs) (auto split: option.splits)

lemma top_by_Some: "top_by k rs = Some x \<Longrightarrow> x \<in> set rs \<and> (\<forall>r\<in>set rs. k r \<le> k x)"
proof (induction rs arbitrary: x)
  case (Cons r rs)
  show ?case
  proof (cases "top_by k rs")
    case None
    with Cons.prems show ?thesis by simp
  next
    case (Some s)
    with Cons.IH [OF Some] Cons.prems show ?thesis by (force split: if_splits)
  qed
qed simp

definition sql_limit :: "int \<Rightarrow> 'r list \<Rightarrow> 'r list" where
  "sql_limit n rs = (if n < 0 then rs else take (nat n) rs)"

lemma sql_limit_subset: "set (sql_limit n rs) \<subseteq> set rs"
  by (auto simp: sql_limit_def dest: in_set_takeD)

lemma distinct_sql_limit: "distinct (map k rs) \<Longrightarrow> distinct (map k (sql_limit n rs))"
  by (auto simp: sql_limit_def take_map [symmetric] intro: distinct_take)

lemma sorted_sql_limit: "sorted (map k rs) \<Longrightarrow> sorted (map k (sql_limit n rs))"
  by (auto simp: sql_limit_def take_map [symmetric] intro: sorted_wrt_take)

text \<open>Setting a property of a plain object, given as its entries in insertion order.\<close>

fun obj_put :: "'k \<Rightarrow> 'v \<Rightarrow> ('k \<times> 'v) list \<Rightarrow> ('k \<times> 'v) list" where
  "obj_put k v [] = [(k, v)]"
| "obj_put k v ((k', v') # es) = (if k' = k then (k, v) # es else (k', v') # obj_put k v es)"

lemma map_of_obj_put [simp]: "map_of (obj_put k v es) = (map_of es)(k \<mapsto> v)"
  by (induction k v es rule: obj_put.induct) auto

section \<open>Partial unique indexes\<close>

text \<open>
  \<open>CREATE UNIQUE INDEX ... ON t(key) WHERE cond\<close>: the keys of the rows that satisfy the
  condition are pairwise different.
\<close>

definition unique_on :: "('r \<Rightarrow> bool) \<Rightarrow> ('r \<Rightarrow> 'k) \<Rightarrow> 'r list \<Rightarrow> bool" where
  "unique_on live key rs \<longleftrightarrow> distinct (map key (filter live rs))"

lemma unique_on_Nil [simp]: "unique_on live key []"
  by (simp add: unique_on_def)

lemma unique_on_append1:
  "unique_on live key (rs @ [r]) \<longleftrightarrow>
     unique_on live key rs \<and> (live r \<longrightarrow> (\<forall>r'\<in>set rs. live r' \<longrightarrow> key r' \<noteq> key r))"
  unfolding unique_on_def by (auto simp: rev_image_eqI)

lemma unique_on_del: "unique_on live key rs \<Longrightarrow> unique_on live key (del_where p rs)"
  unfolding unique_on_def del_where_def
  by (induction rs) (auto split: if_splits)

text \<open>An update that only takes rows out of the index, or leaves their key alone, keeps it.\<close>

lemma unique_on_upd:
  assumes "unique_on live key rs"
    and "\<And>r. r \<in> set rs \<Longrightarrow> p r \<Longrightarrow> live (f r) \<Longrightarrow> live r \<and> key (f r) = key r"
  shows "unique_on live key (upd_where p f rs)"
proof -
  have "distinct (map key (filter live (upd_where p f xs))) \<and>
        key ` set (filter live (upd_where p f xs)) \<subseteq> key ` set (filter live xs)"
    if "set xs \<subseteq> set rs" "distinct (map key (filter live xs))" for xs
    using that
  proof (induction xs)
    case Nil
    then show ?case by simp
  next
    case (Cons x xs)
    then have IH: "distinct (map key (filter live (upd_where p f xs)))"
      "key ` set (filter live (upd_where p f xs)) \<subseteq> key ` set (filter live xs)"
      by (auto split: if_splits)
    from Cons.prems assms(2) have "live (if p x then f x else x) \<Longrightarrow>
        live x \<and> key (if p x then f x else x) = key x"
      by auto
    with IH Cons.prems show ?case by (auto split: if_splits)
  qed
  with assms(1) show ?thesis by (auto simp: unique_on_def)
qed

text \<open>
  An update that puts the rows with identity \<open>x\<close> into the index under a key nobody else holds
  keeps it: the shape of every name or alias claim.
\<close>

lemma unique_on_claim:
  assumes "unique_on live key rs" and "distinct (map ident rs)"
    and "\<And>r. r \<in> set rs \<Longrightarrow> ident r \<noteq> x \<Longrightarrow> live r \<Longrightarrow> key r \<noteq> k"
    and "\<And>r. key (f r) = k"
  shows "unique_on live key (upd_where (\<lambda>r. ident r = x) f rs)"
  using assms(1-3)
proof (induction rs)
  case Nil
  then show ?case by simp
next
  case (Cons r rs)
  have tail: "unique_on live key (upd_where (\<lambda>r. ident r = x) f rs)"
    using Cons by (auto simp: unique_on_def split: if_splits)
  show ?case
  proof (cases "ident r = x")
    case True
    with Cons.prems(2) have "upd_where (\<lambda>r. ident r = x) f rs = rs"
      by (intro upd_where_id) (metis distinct.simps(2) image_eqI list.map(2) set_map)
    moreover from True Cons.prems have "key r' \<noteq> k" if "r' \<in> set rs" "live r'" for r'
      using that by (metis distinct.simps(2) image_eqI insert_iff list.map(2) list.set(2) set_map)
    ultimately show ?thesis
      using True tail by (auto simp: unique_on_def assms(4))
  next
    case False
    have "key r \<notin> key ` set (filter live (upd_where (\<lambda>r. ident r = x) f rs))" if "live r"
    proof
      assume "key r \<in> key ` set (filter live (upd_where (\<lambda>r. ident r = x) f rs))"
      then obtain r' where "r' \<in> set rs" "key r = key (if ident r' = x then f r' else r')"
        "live (if ident r' = x then f r' else r')"
        by (auto simp: set_upd_where)
      with False that Cons.prems show False
        by (auto simp: unique_on_def assms(4) split: if_splits)
    qed
    with False tail show ?thesis by (auto simp: unique_on_def)
  qed
qed

section \<open>Step systems\<close>

text \<open>
  A machine given by its start states and steps. A property that holds at the start and is kept
  by every step holds in every reachable state.
\<close>

locale step_system =
  fixes start :: "'s \<Rightarrow> bool" and step :: "'s \<Rightarrow> 's \<Rightarrow> bool" and good :: "'s \<Rightarrow> bool"
  assumes start_good: "start s \<Longrightarrow> good s"
    and step_good: "good s \<Longrightarrow> step s t \<Longrightarrow> good t"
begin

lemma run_good: "step\<^sup>*\<^sup>* s t \<Longrightarrow> good s \<Longrightarrow> good t"
  by (induction rule: rtranclp_induct) (auto intro: step_good)

lemma reachable_good: "start s \<Longrightarrow> step\<^sup>*\<^sup>* s t \<Longrightarrow> good t"
  by (rule run_good) (auto intro: start_good)

end

text \<open>
  An observation of the state that every step either keeps or moves along \<open>may\<close>; once it is in
  an absorbing value it never leaves.
\<close>

locale observed_steps =
  fixes step :: "'s \<Rightarrow> 's \<Rightarrow> bool" and obs :: "'s \<Rightarrow> 'v" and may :: "'v \<Rightarrow> 'v \<Rightarrow> bool"
  assumes step_may: "step s t \<Longrightarrow> obs t = obs s \<or> may (obs s) (obs t)"
begin

lemma run_may: "step\<^sup>*\<^sup>* s t \<Longrightarrow> may\<^sup>*\<^sup>* (obs s) (obs t)"
proof (induction rule: rtranclp_induct)
  case base
  then show ?case by simp
next
  case (step t u)
  with step_may [OF step.hyps(2)] show ?case by (auto intro: rtranclp.rtrancl_into_rtrancl)
qed

lemma absorbed: "step\<^sup>*\<^sup>* s t \<Longrightarrow> obs s = v \<Longrightarrow> (\<And>w. \<not> may v w) \<Longrightarrow> obs t = v"
  by (induction rule: rtranclp_induct) (auto dest: step_may)

end

end
