(* ===== verification/Delivery_States.thy ===== *)
theory Delivery_States
  imports Prelude
begin

text \<open>
  The delivery state machine of \<^verbatim>\<open>src/protocol/states.ts\<close>: states, triggers, the edge table,
  \<open>resolveTransition\<close>, \<open>isLegalTransition\<close> and \<open>isTerminal\<close>, with the facts that make the table a
  machine: it is deterministic, its terminal states are exactly its dead ends, each state lies on
  a path from \<open>queued\<close> to a terminal one, and a run is bounded by the number of retries it makes.
\<close>

section \<open>Model\<close>

datatype delivery_state =
    Queued | Dispatching | Transport_Written | Accepted | Completed
  | Retry_Wait | Rejected | Expired | Dead_Letter | Cancelled

definition TERMINAL_STATES :: "delivery_state list" where
  "TERMINAL_STATES = [Completed, Rejected, Expired, Dead_Letter, Cancelled]"

datatype trigger =
    Pickup | Write_Ok | Write_Fail | Ack_Accept | Ack_Reject | Complete
  | Ack_Timeout | Backoff_Elapsed | Max_Attempts | Expire | Cancel

datatype edge_guard = RequiresAck0 | RequiresAck1

record edge =
  e_from :: delivery_state
  e_trigger :: trigger
  e_to :: delivery_state
  e_guard :: "edge_guard option"
  e_incrementsAttempt :: bool

definition plain_edge :: "delivery_state \<Rightarrow> trigger \<Rightarrow> delivery_state \<Rightarrow> edge" where
  "plain_edge a t b = \<lparr>e_from = a, e_trigger = t, e_to = b, e_guard = None, e_incrementsAttempt = False\<rparr>"

definition EDGES :: "edge list" where
  "EDGES =
    [plain_edge Queued Pickup Dispatching,
     plain_edge Queued Expire Expired,
     plain_edge Queued Cancel Cancelled,
     plain_edge Dispatching Write_Ok Transport_Written,
     plain_edge Dispatching Write_Fail Retry_Wait,
     plain_edge Dispatching Expire Expired,
     plain_edge Dispatching Cancel Cancelled,
     plain_edge Transport_Written Ack_Accept Accepted,
     plain_edge Transport_Written Ack_Reject Rejected,
     (plain_edge Transport_Written Complete Completed)\<lparr>e_guard := Some RequiresAck0\<rparr>,
     plain_edge Transport_Written Ack_Timeout Retry_Wait,
     plain_edge Transport_Written Expire Expired,
     plain_edge Transport_Written Cancel Cancelled,
     plain_edge Accepted Complete Completed,
     plain_edge Accepted Ack_Reject Rejected,
     plain_edge Accepted Expire Expired,
     plain_edge Accepted Cancel Cancelled,
     (plain_edge Retry_Wait Backoff_Elapsed Dispatching)\<lparr>e_incrementsAttempt := True\<rparr>,
     plain_edge Retry_Wait Max_Attempts Dead_Letter,
     plain_edge Retry_Wait Expire Expired,
     plain_edge Retry_Wait Cancel Cancelled]"

text \<open>
  \<open>EDGE_INDEX\<close> is a \<open>Map\<close> filled in table order, so a later edge with the same key would replace
  an earlier one: a lookup finds the last edge with that key.
\<close>

definition edge_index :: "delivery_state \<Rightarrow> trigger \<Rightarrow> edge option" where
  "edge_index from trig = List.find (\<lambda>e. e_from e = from \<and> e_trigger e = trig) (rev EDGES)"

record transition_result =
  tr_to :: delivery_state
  tr_guard :: "edge_guard option"
  tr_incrementsAttempt :: bool

definition resolveTransition :: "delivery_state \<Rightarrow> trigger \<Rightarrow> transition_result option" where
  "resolveTransition from trig =
     (case edge_index from trig of
        None \<Rightarrow> None
      | Some e \<Rightarrow> Some \<lparr>tr_to = e_to e, tr_guard = e_guard e, tr_incrementsAttempt = e_incrementsAttempt e\<rparr>)"

definition isLegalTransition :: "delivery_state \<Rightarrow> delivery_state \<Rightarrow> bool" where
  "isLegalTransition from to = list_ex (\<lambda>e. e_from e = from \<and> e_to e = to) EDGES"

definition isTerminal :: "delivery_state \<Rightarrow> bool" where
  "isTerminal s = List.member TERMINAL_STATES s"

section \<open>Facts about the table\<close>

lemmas table_defs = EDGES_def plain_edge_def

lemma EDGES_keys_distinct: "distinct (map (\<lambda>e. (e_from e, e_trigger e)) EDGES)"
  by (simp add: table_defs)

lemma edge_index_Some: "edge_index a t = Some e \<longleftrightarrow> e \<in> set EDGES \<and> e_from e = a \<and> e_trigger e = t"
proof
  assume "edge_index a t = Some e"
  then show "e \<in> set EDGES \<and> e_from e = a \<and> e_trigger e = t"
    by (auto simp: edge_index_def dest: find_SomeD)
next
  assume e: "e \<in> set EDGES \<and> e_from e = a \<and> e_trigger e = t"
  have "distinct (map (\<lambda>e. (e_from e, e_trigger e)) (rev EDGES))"
    using EDGES_keys_distinct by (simp flip: rev_map)
  moreover from e have "e \<in> set (rev EDGES)" by simp
  ultimately have "List.find (\<lambda>x. (e_from x, e_trigger x) = (e_from e, e_trigger e)) (rev EDGES) = Some e"
    by (rule find_key_unique)
  with e show "edge_index a t = Some e" by (simp add: edge_index_def)
qed

lemma resolveTransition_Some:
  "resolveTransition a t = Some r \<longleftrightarrow>
     (\<exists>e\<in>set EDGES. e_from e = a \<and> e_trigger e = t \<and>
        r = \<lparr>tr_to = e_to e, tr_guard = e_guard e, tr_incrementsAttempt = e_incrementsAttempt e\<rparr>)"
proof (cases "edge_index a t")
  case None
  then have "\<not> (e \<in> set EDGES \<and> e_from e = a \<and> e_trigger e = t)" for e
    by (metis edge_index_Some option.distinct(1))
  with None show ?thesis by (auto simp: resolveTransition_def)
next
  case (Some e)
  then have e: "e \<in> set EDGES" "e_from e = a" "e_trigger e = t"
    by (simp_all add: edge_index_Some)
  have u: "e' = e" if "e' \<in> set EDGES" "e_from e' = a" "e_trigger e' = t" for e'
    using that Some edge_index_Some [of a t e'] by simp
  show ?thesis
    using e by (auto simp: resolveTransition_def Some intro!: bexI [of _ e] dest!: u)
qed

lemma isLegal_resolve: "isLegalTransition a b \<longleftrightarrow> (\<exists>t r. resolveTransition a t = Some r \<and> tr_to r = b)"
  by (fastforce simp: isLegalTransition_def list_ex_iff resolveTransition_Some)

lemma isTerminal_iff: "isTerminal s \<longleftrightarrow> s \<in> {Completed, Rejected, Expired, Dead_Letter, Cancelled}"
  by (auto simp: isTerminal_def TERMINAL_STATES_def)

section \<open>Runs of the table\<close>

text \<open>A run is a list of triggers; the second result counts the attempts the run consumed.\<close>

fun run_triggers :: "delivery_state \<Rightarrow> trigger list \<Rightarrow> (delivery_state \<times> nat) option" where
  "run_triggers s [] = Some (s, 0)"
| "run_triggers s (t # ts) =
     (case resolveTransition s t of
        None \<Rightarrow> None
      | Some r \<Rightarrow>
          map_option (\<lambda>(s', n). (s', n + (if tr_incrementsAttempt r then 1 else 0))) (run_triggers (tr_to r) ts))"

text \<open>Every edge but the retry one goes down in rank, and a retry climbs back by at most two.\<close>

fun rank :: "delivery_state \<Rightarrow> nat" where
  "rank Queued = 5"
| "rank Dispatching = 4"
| "rank Transport_Written = 3"
| "rank Accepted = 2"
| "rank Retry_Wait = 2"
| "rank _ = 0"

lemma edge_rank:
  "e \<in> set EDGES \<Longrightarrow> rank (e_to e) + 1 \<le> rank (e_from e) + (if e_incrementsAttempt e then 3 else 0)"
  by (auto simp: table_defs)

lemma resolve_rank:
  "resolveTransition a t = Some r \<Longrightarrow> rank (tr_to r) + 1 \<le> rank a + (if tr_incrementsAttempt r then 3 else 0)"
  by (auto simp: resolveTransition_Some dest: edge_rank)

lemma run_length: "run_triggers s ts = Some (s', n) \<Longrightarrow> length ts + rank s' \<le> rank s + 3 * n"
proof (induction ts arbitrary: s n)
  case Nil
  then show ?case by simp
next
  case (Cons t ts)
  then obtain r m where r: "resolveTransition s t = Some r"
    and m: "run_triggers (tr_to r) ts = Some (s', m)" and n: "n = m + (if tr_incrementsAttempt r then 1 else 0)"
    by (auto split: option.splits)
  from Cons.IH [OF m] resolve_rank [OF r] n show ?case by (auto split: if_splits)
qed

section \<open>Correctness of the table\<close>

lemma terminal_stuck: "isTerminal s \<Longrightarrow> resolveTransition s t = None"
proof -
  assume "isTerminal s"
  then have "e_from e \<noteq> s" if "e \<in> set EDGES" for e
    using that by (auto simp: table_defs isTerminal_iff)
  then show ?thesis by (metis not_None_eq resolveTransition_Some)
qed

lemma run_snoc_stuck: "run_triggers q us = Some (s, k) \<Longrightarrow> isTerminal s \<Longrightarrow> run_triggers q (us @ [t]) = None"
  by (induction us arbitrary: q k) (auto simp: terminal_stuck split: option.splits)

text \<open>The terminal states are exactly the states no trigger leaves, and from every state some sequence of
  triggers leads to a terminal one.\<close>

theorem terminal_iff_stuck:
  "(isTerminal s \<longleftrightarrow> (\<forall>t. resolveTransition s t = None))
   \<and> (\<exists>ts s' n. run_triggers s ts = Some (s', n) \<and> isTerminal s')"
proof
  show "isTerminal s \<longleftrightarrow> (\<forall>t. resolveTransition s t = None)"
  proof
    assume "isTerminal s"
    then show "\<forall>t. resolveTransition s t = None" by (simp add: terminal_stuck)
  next
    assume stuck: "\<forall>t. resolveTransition s t = None"
    show "isTerminal s"
    proof (rule ccontr)
      assume "\<not> isTerminal s"
      then have "resolveTransition s Expire \<noteq> None"
        by (cases s) (auto simp: isTerminal_iff resolveTransition_def edge_index_def table_defs)
      with stuck show False by simp
    qed
  qed
  show "\<exists>ts s' n. run_triggers s ts = Some (s', n) \<and> isTerminal s'"
  proof (cases "isTerminal s")
    case True
    then show ?thesis by (intro exI [of _ "[]"]) simp
  next
    case False
    then have "run_triggers s [Expire] = Some (Expired, 0)"
      by (cases s) (auto simp: isTerminal_iff resolveTransition_def edge_index_def table_defs)
    moreover have "isTerminal Expired" by (simp add: isTerminal_iff)
    ultimately show ?thesis by blast
  qed
qed

text \<open>A run of the table from \<open>queued\<close> makes at most five steps plus three for every retry it consumes, so a
  delivery with a bounded number of attempts cannot cycle for ever.\<close>

theorem run_bounded:
  assumes "run_triggers Queued ts = Some (s, n)"
  shows "length ts + rank s \<le> 5 + 3 * n \<and> (isTerminal s \<longrightarrow> run_triggers Queued (ts @ [t]) = None)"
  using run_length [OF assms] run_snoc_stuck [OF assms] by auto

theorem run_bounded_witness:
  "length [Pickup, Write_Ok, Ack_Timeout, Backoff_Elapsed, Write_Ok, Ack_Accept, Complete] + rank Completed \<le> 5 + 3 * 1
   \<and> run_triggers Queued ([Pickup, Write_Ok, Ack_Timeout, Backoff_Elapsed, Write_Ok, Ack_Accept, Complete] @ [Expire]) = None"
proof -
  have "run_triggers Queued [Pickup, Write_Ok, Ack_Timeout, Backoff_Elapsed, Write_Ok, Ack_Accept, Complete] = Some (Completed, 1)"
    by (simp add: resolveTransition_def edge_index_def table_defs)
  from run_bounded [OF this] show ?thesis by (simp add: isTerminal_iff)
qed

end
