(* ===== verification/Protocol.thy ===== *)
theory Protocol
  imports Prelude
begin

text \<open>
  The protocol layer of \<^verbatim>\<open>src/protocol\<close> and \<^verbatim>\<open>src/identity/components.ts\<close>: error codes and
  errors, JSON values, the wire version check, the compatibility handshake and the
  role/operation matrix.
\<close>

section \<open>Errors and JSON values\<close>

datatype error_code =
    UNKNOWN_RECIPIENT | AMBIGUOUS_RECIPIENT | INVALID_ALIAS
  | INVALID_SESSION_NAME | SESSION_NAME_TAKEN | RECLAIM_CREDENTIAL_INVALID
  | RECIPIENT_SESSION_EXPIRED | SESSION_NOT_REGISTERED | SESSION_ALREADY_BOUND
  | SESSION_FENCED | IDENTITY_MISMATCH
  | MESSAGE_EXPIRED | MESSAGE_NOT_FOUND | NOT_RECIPIENT | ILLEGAL_STATE_TRANSITION
  | PAYLOAD_TOO_LARGE | PROTOCOL_MISMATCH | PROTOCOL_VIOLATION | FRAME_TOO_LARGE
  | RESERVED_METADATA_KEY | RESERVED_KIND | AUTH_FAILED | PEERCRED_REFUSED
  | PERMISSION_RELAY_FORBIDDEN | FORBIDDEN_ROLE | INVALID_RECEIPT | INJECTION_NOT_FOUND
  | RECEIPT_EXPIRED | RECEIPT_REPLAYED | SESSION_ALREADY_ACTIVE | BLOCKED
  | BROKER_ALREADY_RUNNING | BROKER_CONTENDED | EPOCH_MISMATCH | VERSION_INCOMPATIBLE
  | BROKER_UNAVAILABLE | CHANNEL_BLOCKED | POLICY_BLOCKED | DATABASE_ERROR
  | AUDIT_PERSISTENCE_FAILED | RATE_LIMITED | CONN_LIMIT | SLOWLORIS_TIMEOUT
  | BUFFER_BUDGET_EXCEEDED

fun error_name :: "error_code \<Rightarrow> string" where
  "error_name UNKNOWN_RECIPIENT = ''XBUS_UNKNOWN_RECIPIENT''"
| "error_name AMBIGUOUS_RECIPIENT = ''XBUS_AMBIGUOUS_RECIPIENT''"
| "error_name INVALID_ALIAS = ''XBUS_INVALID_ALIAS''"
| "error_name INVALID_SESSION_NAME = ''XBUS_INVALID_SESSION_NAME''"
| "error_name SESSION_NAME_TAKEN = ''XBUS_SESSION_NAME_TAKEN''"
| "error_name RECLAIM_CREDENTIAL_INVALID = ''XBUS_RECLAIM_CREDENTIAL_INVALID''"
| "error_name RECIPIENT_SESSION_EXPIRED = ''XBUS_RECIPIENT_SESSION_EXPIRED''"
| "error_name SESSION_NOT_REGISTERED = ''XBUS_SESSION_NOT_REGISTERED''"
| "error_name SESSION_ALREADY_BOUND = ''XBUS_SESSION_ALREADY_BOUND''"
| "error_name SESSION_FENCED = ''XBUS_SESSION_FENCED''"
| "error_name IDENTITY_MISMATCH = ''XBUS_IDENTITY_MISMATCH''"
| "error_name MESSAGE_EXPIRED = ''XBUS_MESSAGE_EXPIRED''"
| "error_name MESSAGE_NOT_FOUND = ''XBUS_MESSAGE_NOT_FOUND''"
| "error_name NOT_RECIPIENT = ''XBUS_NOT_RECIPIENT''"
| "error_name ILLEGAL_STATE_TRANSITION = ''XBUS_ILLEGAL_STATE_TRANSITION''"
| "error_name PAYLOAD_TOO_LARGE = ''XBUS_PAYLOAD_TOO_LARGE''"
| "error_name PROTOCOL_MISMATCH = ''XBUS_PROTOCOL_MISMATCH''"
| "error_name PROTOCOL_VIOLATION = ''XBUS_PROTOCOL_VIOLATION''"
| "error_name FRAME_TOO_LARGE = ''XBUS_FRAME_TOO_LARGE''"
| "error_name RESERVED_METADATA_KEY = ''XBUS_RESERVED_METADATA_KEY''"
| "error_name RESERVED_KIND = ''XBUS_RESERVED_KIND''"
| "error_name AUTH_FAILED = ''XBUS_AUTH_FAILED''"
| "error_name PEERCRED_REFUSED = ''XBUS_PEERCRED_REFUSED''"
| "error_name PERMISSION_RELAY_FORBIDDEN = ''XBUS_PERMISSION_RELAY_FORBIDDEN''"
| "error_name FORBIDDEN_ROLE = ''XBUS_FORBIDDEN_ROLE''"
| "error_name INVALID_RECEIPT = ''XBUS_INVALID_RECEIPT''"
| "error_name INJECTION_NOT_FOUND = ''XBUS_INJECTION_NOT_FOUND''"
| "error_name RECEIPT_EXPIRED = ''XBUS_RECEIPT_EXPIRED''"
| "error_name RECEIPT_REPLAYED = ''XBUS_RECEIPT_REPLAYED''"
| "error_name SESSION_ALREADY_ACTIVE = ''XBUS_SESSION_ALREADY_ACTIVE''"
| "error_name BLOCKED = ''XBUS_BLOCKED''"
| "error_name BROKER_ALREADY_RUNNING = ''XBUS_BROKER_ALREADY_RUNNING''"
| "error_name BROKER_CONTENDED = ''XBUS_BROKER_CONTENDED''"
| "error_name EPOCH_MISMATCH = ''XBUS_EPOCH_MISMATCH''"
| "error_name VERSION_INCOMPATIBLE = ''XBUS_VERSION_INCOMPATIBLE''"
| "error_name BROKER_UNAVAILABLE = ''XBUS_BROKER_UNAVAILABLE''"
| "error_name CHANNEL_BLOCKED = ''XBUS_CHANNEL_BLOCKED''"
| "error_name POLICY_BLOCKED = ''XBUS_POLICY_BLOCKED''"
| "error_name DATABASE_ERROR = ''XBUS_DATABASE_ERROR''"
| "error_name AUDIT_PERSISTENCE_FAILED = ''XBUS_AUDIT_PERSISTENCE_FAILED''"
| "error_name RATE_LIMITED = ''XBUS_RATE_LIMITED''"
| "error_name CONN_LIMIT = ''XBUS_CONN_LIMIT''"
| "error_name SLOWLORIS_TIMEOUT = ''XBUS_SLOWLORIS_TIMEOUT''"
| "error_name BUFFER_BUDGET_EXCEEDED = ''XBUS_BUFFER_BUDGET_EXCEEDED''"

text \<open>JSON values as JavaScript holds them. Numbers are the safe integers the broker stores.\<close>

datatype jval =
    JNull
  | JBool bool
  | JNum int
  | JStr js_string
  | JArr "jval list"
  | JObj "(js_string \<times> jval) list"

text \<open>
  What an operation throws: an \<open>XBusError\<close> with its code and structured detail (the message text
  is not modelled), the exception of the SQLite driver on a violated constraint, the
  \<open>TypeError\<close> of reading a property of \<open>undefined\<close>, or the \<open>RangeError\<close> of printing a date
  outside the range of dates.
\<close>

datatype xerror =
    XBusError error_code "(js_string \<times> jval) list"
  | SqliteConstraint
  | JsTypeError
  | JsRangeError

abbreviation xerr :: "error_code \<Rightarrow> xerror" where
  "xerr c \<equiv> XBusError c []"

section \<open>Protocol version and handshake\<close>

text \<open>A JavaScript number is an integer or something else (a fraction, NaN, an infinity).\<close>

datatype js_number = Integer int | NonInteger

definition PROTOCOL_VERSION :: int where
  "PROTOCOL_VERSION = 1"

definition MIN_SUPPORTED_PROTOCOL_VERSION :: int where
  "MIN_SUPPORTED_PROTOCOL_VERSION = 1"

fun isProtocolCompatible :: "js_number \<Rightarrow> bool" where
  "isProtocolCompatible (Integer v) \<longleftrightarrow> MIN_SUPPORTED_PROTOCOL_VERSION \<le> v \<and> v \<le> PROTOCOL_VERSION"
| "isProtocolCompatible NonInteger \<longleftrightarrow> False"

record hello_info =
  h_protocolVersion :: int
  h_minimumProtocolVersion :: int
  h_maximumProtocolVersion :: int
  h_schemaVersion :: int

datatype compatibility_result =
    Compatible | Upgrade_Component | Restart_Broker | Upgrade_Broker | Migration_Required | Unsupported

record compatibility_verdict =
  cv_result :: compatibility_result
  cv_ok :: bool

definition MIGRATION_VERSIONS :: "int list" where
  "MIGRATION_VERSIONS = [1, 2, 3, 4, 5, 6, 7, 8, 9, 10, 11]"

definition SCHEMA_VERSION :: int where
  "SCHEMA_VERSION = foldl max 0 MIGRATION_VERSIONS"

definition brokerHelloInfo :: hello_info where
  "brokerHelloInfo =
     \<lparr>h_protocolVersion = PROTOCOL_VERSION,
      h_minimumProtocolVersion = MIN_SUPPORTED_PROTOCOL_VERSION,
      h_maximumProtocolVersion = PROTOCOL_VERSION,
      h_schemaVersion = SCHEMA_VERSION\<rparr>"

definition checkCompatibility :: "hello_info \<Rightarrow> hello_info \<Rightarrow> compatibility_verdict" where
  "checkCompatibility client broker =
     (let lo = max (h_minimumProtocolVersion client) (h_minimumProtocolVersion broker);
          hi = min (h_maximumProtocolVersion client) (h_maximumProtocolVersion broker)
      in if lo > hi then
           (if h_maximumProtocolVersion client < h_minimumProtocolVersion broker
            then \<lparr>cv_result = Upgrade_Component, cv_ok = False\<rparr>
            else \<lparr>cv_result = Upgrade_Broker, cv_ok = False\<rparr>)
         else if h_schemaVersion client > h_schemaVersion broker
         then \<lparr>cv_result = Restart_Broker, cv_ok = False\<rparr>
         else if h_schemaVersion client < h_schemaVersion broker
         then \<lparr>cv_result = Upgrade_Component, cv_ok = False\<rparr>
         else \<lparr>cv_result = Compatible, cv_ok = True\<rparr>)"

lemma checkCompatibility_ok:
  "cv_ok (checkCompatibility c b) \<longleftrightarrow>
     max (h_minimumProtocolVersion c) (h_minimumProtocolVersion b)
       \<le> min (h_maximumProtocolVersion c) (h_maximumProtocolVersion b)
     \<and> h_schemaVersion c = h_schemaVersion b"
  by (auto simp: checkCompatibility_def Let_def)

lemma checkCompatibility_result:
  "cv_ok (checkCompatibility c b) \<longleftrightarrow> cv_result (checkCompatibility c b) = Compatible"
  by (simp add: checkCompatibility_def Let_def)

section \<open>Roles and operations\<close>

datatype component_role = MCP | HOOK | TRANSPORT | CLI | ADMIN

datatype operation =
    Op_Register | Op_Send | Op_Pull_Hook_Checkpoint | Op_Mark_Injected | Op_Ack | Op_Reply
  | Op_List_Inbox | Op_List_Sessions | Op_Get_Metrics | Op_Dead_Letter | Op_Change_Alias | Op_Shutdown

fun MATRIX :: "component_role \<Rightarrow> operation list" where
  "MATRIX MCP = [Op_Register, Op_Send, Op_Ack, Op_Reply, Op_List_Inbox, Op_List_Sessions, Op_Change_Alias]"
| "MATRIX HOOK = [Op_Register, Op_Pull_Hook_Checkpoint, Op_Mark_Injected, Op_List_Inbox]"
| "MATRIX TRANSPORT = [Op_Register, Op_Mark_Injected]"
| "MATRIX CLI = [Op_Register, Op_Send, Op_List_Sessions, Op_List_Inbox]"
| "MATRIX ADMIN = [Op_Register, Op_Send, Op_List_Sessions, Op_List_Inbox, Op_Get_Metrics, Op_Dead_Letter,
     Op_Change_Alias, Op_Shutdown]"

definition isAllowed :: "component_role \<Rightarrow> operation \<Rightarrow> bool" where
  "isAllowed role op = List.member (MATRIX role) op"

lemma isAllowed_iff: "isAllowed role op \<longleftrightarrow> op \<in> set (MATRIX role)"
  by (simp add: isAllowed_def)

definition assertAllowed :: "component_role \<Rightarrow> operation \<Rightarrow> xerror option" where
  "assertAllowed role op = (if \<not> isAllowed role op then Some (xerr FORBIDDEN_ROLE) else None)"

lemma assertAllowed_None [simp]: "assertAllowed role op = None \<longleftrightarrow> isAllowed role op"
  by (simp add: assertAllowed_def)

lemma ack_reply_pull_roles:
  "isAllowed role Op_Ack \<longleftrightarrow> role = MCP"
  "isAllowed role Op_Reply \<longleftrightarrow> role = MCP"
  "isAllowed role Op_Pull_Hook_Checkpoint \<longleftrightarrow> role = HOOK"
  by (cases role; simp add: isAllowed_iff)+

section \<open>Correctness of the handshake and the roles\<close>

text \<open>The handshake admits a client exactly when some wire version lies in both declared ranges and the schema
  versions agree; a refusal names the side to upgrade, and the broker accepts itself.\<close>

theorem handshake_sound:
  assumes "h_minimumProtocolVersion c \<le> h_maximumProtocolVersion c" "h_minimumProtocolVersion b \<le> h_maximumProtocolVersion b"
  shows "(cv_ok (checkCompatibility c b) \<longleftrightarrow>
      (\<exists>v. h_minimumProtocolVersion c \<le> v \<and> v \<le> h_maximumProtocolVersion c \<and>
           h_minimumProtocolVersion b \<le> v \<and> v \<le> h_maximumProtocolVersion b) \<and> h_schemaVersion c = h_schemaVersion b)
    \<and> (cv_result (checkCompatibility c b) = Upgrade_Broker \<longleftrightarrow> h_maximumProtocolVersion b < h_minimumProtocolVersion c)
    \<and> cv_result (checkCompatibility brokerHelloInfo brokerHelloInfo) = Compatible"
proof -
  have "(\<exists>v. h_minimumProtocolVersion c \<le> v \<and> v \<le> h_maximumProtocolVersion c \<and>
           h_minimumProtocolVersion b \<le> v \<and> v \<le> h_maximumProtocolVersion b) \<longleftrightarrow>
       max (h_minimumProtocolVersion c) (h_minimumProtocolVersion b)
       \<le> min (h_maximumProtocolVersion c) (h_maximumProtocolVersion b)"
    by (meson max.bounded_iff min.bounded_iff order.trans order_refl)
  then have "cv_ok (checkCompatibility c b) \<longleftrightarrow>
      (\<exists>v. h_minimumProtocolVersion c \<le> v \<and> v \<le> h_maximumProtocolVersion c \<and>
           h_minimumProtocolVersion b \<le> v \<and> v \<le> h_maximumProtocolVersion b) \<and> h_schemaVersion c = h_schemaVersion b"
    by (simp only: checkCompatibility_ok)
  moreover have "cv_result (checkCompatibility c b) = Upgrade_Broker \<longleftrightarrow> h_maximumProtocolVersion b < h_minimumProtocolVersion c"
    using assms by (auto simp: checkCompatibility_def Let_def)
  moreover have "cv_result (checkCompatibility brokerHelloInfo brokerHelloInfo) = Compatible"
    by (simp add: checkCompatibility_def brokerHelloInfo_def PROTOCOL_VERSION_def MIN_SUPPORTED_PROTOCOL_VERSION_def)
  ultimately show ?thesis by blast
qed

theorem handshake_sound_witness:
  "cv_ok (checkCompatibility \<lparr>h_protocolVersion = 2, h_minimumProtocolVersion = 1, h_maximumProtocolVersion = 2, h_schemaVersion = 11\<rparr>
     brokerHelloInfo)"
  using handshake_sound [of "\<lparr>h_protocolVersion = 2, h_minimumProtocolVersion = 1, h_maximumProtocolVersion = 2, h_schemaVersion = 11\<rparr>"
      brokerHelloInfo]
  by (simp add: brokerHelloInfo_def PROTOCOL_VERSION_def MIN_SUPPORTED_PROTOCOL_VERSION_def SCHEMA_VERSION_def
      MIGRATION_VERSIONS_def) (rule exI [of _ 1], simp)

end
