(* ===== verification/Schemas.thy ===== *)
theory Schemas
  imports Protocol
begin

text \<open>
  The inbound trust boundary of \<^verbatim>\<open>src/protocol/schemas.ts\<close>: limits, reserved metadata keys and
  \<open>validateSendInput\<close>. The schema library (zod) is a parameter: \<open>safeParse\<close> maps the raw value to
  the number of issues or to the parsed input.
\<close>

section \<open>Limits and reserved keys\<close>

definition TEXT_BYTES :: nat where "TEXT_BYTES = 64 * 1024"
definition METADATA_ENTRIES :: nat where "METADATA_ENTRIES = 32"
definition METADATA_KEY_BYTES :: nat where "METADATA_KEY_BYTES = 64"
definition METADATA_VALUE_BYTES :: nat where "METADATA_VALUE_BYTES = 1024"
definition FRAME_BYTES :: nat where "FRAME_BYTES = 1024 * 1024"
definition IDEMPOTENCY_KEY_BYTES :: nat where "IDEMPOTENCY_KEY_BYTES = 128"

datatype message_kind = Request | Event | Reply | CancelKind | System

definition PEER_KINDS :: "message_kind list" where
  "PEER_KINDS = [Request, Event, Reply, CancelKind]"

definition RESERVED_METADATA_KEYS :: "js_string list" where
  "RESERVED_METADATA_KEYS = map js
     [''permission'', ''permissions'', ''approve'', ''approval'', ''approved'', ''deny'', ''allow'',
      ''mode'', ''permissionmode'', ''policy'', ''authority'', ''grant'', ''escalate'', ''sudo'',
      ''system'', ''systemprompt'', ''prompt'', ''credential'', ''credentials'', ''secret'',
      ''token'', ''role'', ''__proto__'', ''prototype'', ''constructor'']"

definition normalizeKey :: "unicode \<Rightarrow> js_string \<Rightarrow> js_string" where
  "normalizeKey U key = to_lower U (js_trim (nfc U key))"

definition isReservedMetadataKey :: "unicode \<Rightarrow> js_string \<Rightarrow> bool" where
  "isReservedMetadataKey U key =
     (let k = normalizeKey U key in
      if List.member RESERVED_METADATA_KEYS k then True
      else if List.member k 47 then True
      else if starts_with k (js ''claude'') \<or> starts_with k (js ''xbus'') then True
      else False)"

section \<open>Send input\<close>

record send_input =
  si_to :: js_string
  si_text :: js_string
  si_kind :: message_kind
  si_requiresAck :: bool
  si_requiresReply :: bool
  si_ttlSeconds :: "int option"
  si_idempotencyKey :: "js_string option"
  si_metadata :: "(js_string \<times> js_string) list option"

text \<open>\<open>Object.getOwnPropertyNames\<close>; an array has its indices and \<open>length\<close>.\<close>

definition dec_digit :: "nat \<Rightarrow> nat" where
  "dec_digit d = 48 + d"

fun dec_str :: "nat \<Rightarrow> js_string" where
  "dec_str n = (if n < 10 then [dec_digit n] else dec_str (n div 10) @ [dec_digit (n mod 10)])"

declare dec_str.simps [simp del]

fun ownPropertyNames :: "jval \<Rightarrow> js_string list" where
  "ownPropertyNames (JObj kvs) = map fst kvs"
| "ownPropertyNames (JArr xs) = map dec_str [0..<length xs] @ [js ''length'']"
| "ownPropertyNames _ = []"

definition raw_metadata :: "jval \<Rightarrow> jval option" where
  "raw_metadata raw = (case raw of JObj kvs \<Rightarrow> map_of kvs (js ''metadata'') | _ \<Rightarrow> None)"

definition raw_reserved :: "unicode \<Rightarrow> jval \<Rightarrow> bool" where
  "raw_reserved U raw =
     (case raw_metadata raw of
        None \<Rightarrow> False
      | Some md \<Rightarrow> list_ex (isReservedMetadataKey U) (ownPropertyNames md))"

fun check_entries :: "unicode \<Rightarrow> (js_string \<times> js_string) list \<Rightarrow> xerror option" where
  "check_entries U [] = None"
| "check_entries U ((k, v) # es) =
     (if isReservedMetadataKey U k then Some (xerr RESERVED_METADATA_KEY)
      else if byteLen k > METADATA_KEY_BYTES
      then Some (XBusError PAYLOAD_TOO_LARGE [(js ''limit'', JNum (int METADATA_KEY_BYTES))])
      else if byteLen v > METADATA_VALUE_BYTES
      then Some (XBusError PAYLOAD_TOO_LARGE [(js ''limit'', JNum (int METADATA_VALUE_BYTES))])
      else check_entries U es)"

definition check_metadata :: "unicode \<Rightarrow> (js_string \<times> js_string) list option \<Rightarrow> xerror option" where
  "check_metadata U md =
     (case md of
        None \<Rightarrow> None
      | Some es \<Rightarrow>
          if length es > METADATA_ENTRIES
          then Some (XBusError PAYLOAD_TOO_LARGE
                 [(js ''limit'', JNum (int METADATA_ENTRIES)), (js ''actual'', JNum (int (length es)))])
          else check_entries U es)"

definition validateSendInput ::
  "unicode \<Rightarrow> (jval \<Rightarrow> nat + send_input) \<Rightarrow> jval \<Rightarrow> xerror + send_input" where
  "validateSendInput U safeParse raw =
     (if raw_reserved U raw then Inl (xerr RESERVED_METADATA_KEY)
      else case safeParse raw of
        Inl issues \<Rightarrow> Inl (XBusError PROTOCOL_VIOLATION [(js ''issues'', JNum (int issues))])
      | Inr input \<Rightarrow>
          if \<not> List.member PEER_KINDS (si_kind input) then Inl (xerr RESERVED_KIND)
          else if byteLen (si_text input) > TEXT_BYTES
          then Inl (XBusError PAYLOAD_TOO_LARGE
                 [(js ''limit'', JNum (int TEXT_BYTES)), (js ''actual'', JNum (int (byteLen (si_text input))))])
          else if (case si_idempotencyKey input of
                     None \<Rightarrow> False
                   | Some k \<Rightarrow> k \<noteq> [] \<and> byteLen k > IDEMPOTENCY_KEY_BYTES)
          then Inl (XBusError PAYLOAD_TOO_LARGE [(js ''limit'', JNum (int IDEMPOTENCY_KEY_BYTES))])
          else case check_metadata U (si_metadata input) of
                 Some e \<Rightarrow> Inl e
               | None \<Rightarrow> Inr input)"

section \<open>What validation admits\<close>

lemma check_entries_None:
  "check_entries U es = None \<longleftrightarrow>
     (\<forall>(k, v)\<in>set es. \<not> isReservedMetadataKey U k \<and> byteLen k \<le> METADATA_KEY_BYTES
        \<and> byteLen v \<le> METADATA_VALUE_BYTES)"
  by (induction U es rule: check_entries.induct) auto

lemma check_entries_code:
  "check_entries U es = Some e \<Longrightarrow> \<exists>c d. e = XBusError c d \<and> c \<in> {RESERVED_METADATA_KEY, PAYLOAD_TOO_LARGE}"
  by (induction U es rule: check_entries.induct) (auto split: if_splits)

lemma check_metadata_None:
  "check_metadata U md = None \<longleftrightarrow>
     (\<forall>es. md = Some es \<longrightarrow> length es \<le> METADATA_ENTRIES \<and> check_entries U es = None)"
  by (auto simp: check_metadata_def split: option.splits)

lemma validateSendInput_Inr:
  "validateSendInput U parse raw = Inr i \<longleftrightarrow>
     \<not> raw_reserved U raw \<and> parse raw = Inr i \<and> si_kind i \<in> set PEER_KINDS
     \<and> byteLen (si_text i) \<le> TEXT_BYTES
     \<and> (\<forall>k. si_idempotencyKey i = Some k \<longrightarrow> byteLen k \<le> IDEMPOTENCY_KEY_BYTES)
     \<and> check_metadata U (si_metadata i) = None"
proof (cases "parse raw")
  case (Inr j)
  have "(case si_idempotencyKey j of None \<Rightarrow> False | Some k \<Rightarrow> k \<noteq> [] \<and> byteLen k > IDEMPOTENCY_KEY_BYTES)
        \<longleftrightarrow> \<not> (\<forall>k. si_idempotencyKey j = Some k \<longrightarrow> byteLen k \<le> IDEMPOTENCY_KEY_BYTES)"
    by (auto split: option.splits)
  with Inr show ?thesis
    by (cases "i = j") (auto simp: validateSendInput_def split: option.splits)
qed (simp add: validateSendInput_def)

section \<open>Correctness of the trust boundary\<close>

lemma reserved_ascii:
  assumes "unicode_ok U" "ascii_str k" "ascii_lower (js_trim k) \<in> set RESERVED_METADATA_KEYS"
  shows "isReservedMetadataKey U k"
proof -
  have "set (js_trim k) \<subseteq> set k" by (auto simp: js_trim_def dest!: set_dropWhileD)
  then have "ascii_str (js_trim k)" using assms(2) by (auto simp: ascii_str_def list_all_iff)
  with assms show ?thesis by (simp add: isReservedMetadataKey_def normalizeKey_def unicode_ok_def)
qed

text \<open>C30: whatever the parser lets through, an admitted send input has a peer kind, respects the byte limits on its text,
  its idempotency key and its metadata, and carries no reserved metadata key, neither in the parsed entries nor in the raw object, whatever the letter case or
  surrounding blanks of the key.\<close>

theorem send_input_admitted:
  assumes "unicode_ok U" and "validateSendInput U parse raw = Inr i"
  shows "si_kind i \<noteq> System \<and> byteLen (si_text i) \<le> 65536
    \<and> (\<forall>k. si_idempotencyKey i = Some k \<longrightarrow> byteLen k \<le> 128)
    \<and> (\<forall>es. si_metadata i = Some es \<longrightarrow> length es \<le> 32 \<and>
       (\<forall>(k, v)\<in>set es. byteLen k \<le> 64 \<and> byteLen v \<le> 1024 \<and> \<not> isReservedMetadataKey U k))
    \<and> (\<forall>kvs k v. raw_metadata raw = Some (JObj kvs) \<and> (k, v) \<in> set kvs \<and> ascii_str k \<longrightarrow>
       ascii_lower (js_trim k) \<notin> set RESERVED_METADATA_KEYS)"
proof (intro conjI)
  note a = assms(2) [unfolded validateSendInput_Inr]
  show "si_kind i \<noteq> System" using a by (auto simp: PEER_KINDS_def)
  show "byteLen (si_text i) \<le> 65536" using a by (simp add: TEXT_BYTES_def)
  show "\<forall>k. si_idempotencyKey i = Some k \<longrightarrow> byteLen k \<le> 128" using a by (simp add: IDEMPOTENCY_KEY_BYTES_def)
  show "\<forall>es. si_metadata i = Some es \<longrightarrow> length es \<le> 32 \<and>
       (\<forall>(k, v)\<in>set es. byteLen k \<le> 64 \<and> byteLen v \<le> 1024 \<and> \<not> isReservedMetadataKey U k)"
    using a by (auto simp: check_metadata_None check_entries_None METADATA_ENTRIES_def METADATA_KEY_BYTES_def
        METADATA_VALUE_BYTES_def)
  show "\<forall>kvs k v. raw_metadata raw = Some (JObj kvs) \<and> (k, v) \<in> set kvs \<and> ascii_str k \<longrightarrow>
       ascii_lower (js_trim k) \<notin> set RESERVED_METADATA_KEYS"
    using a reserved_ascii [OF assms(1)] by (force simp: raw_reserved_def list_ex_iff)
qed

definition sample_input :: send_input where
  "sample_input = \<lparr>si_to = js ''api'', si_text = js ''hi'', si_kind = Request, si_requiresAck = True, si_requiresReply = False,
     si_ttlSeconds = None, si_idempotencyKey = Some (js ''k1''), si_metadata = Some [(js ''ticket'', js ''42'')]\<rparr>"

theorem send_input_admitted_witness:
  "si_kind sample_input \<noteq> System \<and> byteLen (si_text sample_input) \<le> 65536 \<and> byteLen (js ''k1'') \<le> 128
   \<and> \<not> isReservedMetadataKey ascii_unicode (js ''ticket'')"
proof -
  have "validateSendInput ascii_unicode (\<lambda>_. Inr sample_input)
      (JObj [(js ''metadata'', JObj [(js ''ticket'', JStr (js ''42''))])]) = Inr sample_input"
    by (simp add: validateSendInput_def sample_input_def raw_reserved_def raw_metadata_def isReservedMetadataKey_def
        normalizeKey_def ascii_unicode_def js_trim_def js_space_def ascii_lower_def lower_unit_def is_upper_def
        RESERVED_METADATA_KEYS_def PEER_KINDS_def TEXT_BYTES_def IDEMPOTENCY_KEY_BYTES_def check_metadata_def
        METADATA_ENTRIES_def METADATA_KEY_BYTES_def METADATA_VALUE_BYTES_def)
  from send_input_admitted [OF _ this] show ?thesis by (simp add: sample_input_def)
qed

end
