(* ===== verification/Identity.thy ===== *)
theory Identity
  imports Protocol
begin

text \<open>
  Routing identity: aliases and recipient references of \<^verbatim>\<open>src/identity/aliases.ts\<close> and session names
  of \<^verbatim>\<open>src/identity/session-name.ts\<close>. After a regular expression has admitted only ASCII text,
  \<open>toLowerCase\<close> is the ASCII case fold; before that, normalisation and case folding go through the
  \<open>unicode\<close> parameter.
\<close>

section \<open>Aliases\<close>

definition alias_char :: "nat \<Rightarrow> bool" where
  "alias_char c \<longleftrightarrow> is_alnum c \<or> c = 95 \<or> c = 45"

definition ALIAS_RE :: "js_string \<Rightarrow> bool" where
  "ALIAS_RE s = matches_class alias_char 1 128 s"

definition SESSION_PREFIX :: js_string where
  "SESSION_PREFIX = js ''session-''"

definition RESERVED_NAMES :: "js_string list" where
  "RESERVED_NAMES = map js [''all'', ''broadcast'', ''self'', ''main'', ''system'', ''everyone'', ''none'']"

record normalized_alias =
  na_display :: js_string
  na_ci :: js_string

definition ALIAS_CHARS :: nat where
  "ALIAS_CHARS = 128"

definition validateUserAlias :: "js_string \<Rightarrow> xerror + normalized_alias" where
  "validateUserAlias raw =
     (if raw = [] then Inl (xerr INVALID_ALIAS)
      else if length raw > ALIAS_CHARS
      then Inl (XBusError INVALID_ALIAS [(js ''limit'', JNum (int ALIAS_CHARS))])
      else if \<not> ALIAS_RE raw then Inl (xerr INVALID_ALIAS)
      else let ci = ascii_lower raw in
           if starts_with ci SESSION_PREFIX then Inl (xerr INVALID_ALIAS)
           else if List.member RESERVED_NAMES ci then Inl (xerr INVALID_ALIAS)
           else Inr \<lparr>na_display = raw, na_ci = ci\<rparr>)"

definition automaticAlias :: "js_string \<Rightarrow> normalized_alias" where
  "automaticAlias sessionId =
     (let cut = ascii_lower (take 8 (filter is_alnum sessionId));
          safe = (if cut = [] then js ''unknown0'' else cut);
          display = SESSION_PREFIX @ safe
      in \<lparr>na_display = display, na_ci = ascii_lower display\<rparr>)"

datatype recipient_ref =
    SessionRef js_string
  | QualifiedRef js_string js_string
  | AliasRef js_string

fun uuid_blocks :: "(nat \<Rightarrow> bool) \<Rightarrow> nat list \<Rightarrow> js_string \<Rightarrow> bool" where
  "uuid_blocks p [] s \<longleftrightarrow> s = []"
| "uuid_blocks p [n] s \<longleftrightarrow> length s = n \<and> list_all p s"
| "uuid_blocks p (n # m # ns) s \<longleftrightarrow>
     n < length s \<and> list_all p (take n s) \<and> s ! n = 45 \<and> uuid_blocks p (m # ns) (drop (Suc n) s)"

definition UUID_RE :: "js_string \<Rightarrow> bool" where
  "UUID_RE s = uuid_blocks is_hex [8, 4, 4, 4, 12] s"

definition validateRecipientAliasPart :: "js_string \<Rightarrow> xerror option" where
  "validateRecipientAliasPart part = (if \<not> ALIAS_RE part then Some (xerr INVALID_ALIAS) else None)"

definition parseRecipient :: "js_string \<Rightarrow> xerror + recipient_ref" where
  "parseRecipient raw =
     (let r = js_trim raw in
      if r = [] then Inl (xerr UNKNOWN_RECIPIENT)
      else if UUID_RE r then Inr (SessionRef r)
      else if List.member r 47 then
        (let projectAlias = takeWhile (\<lambda>c. c \<noteq> 47) r;
             alias = tl (dropWhile (\<lambda>c. c \<noteq> 47) r)
         in if List.member alias 47 then Inl (xerr INVALID_ALIAS)
            else case validateRecipientAliasPart projectAlias of
                   Some e \<Rightarrow> Inl e
                 | None \<Rightarrow>
                     (case validateRecipientAliasPart alias of
                        Some e \<Rightarrow> Inl e
                      | None \<Rightarrow> Inr (QualifiedRef projectAlias alias)))
      else case validateRecipientAliasPart r of
             Some e \<Rightarrow> Inl e
           | None \<Rightarrow> Inr (AliasRef r))"

section \<open>Session names\<close>

definition SESSION_NAME_MIN :: nat where "SESSION_NAME_MIN = 2"
definition SESSION_NAME_MAX :: nat where "SESSION_NAME_MAX = 48"

definition name_head :: "nat \<Rightarrow> bool" where
  "name_head c \<longleftrightarrow> is_lower c \<or> is_digit c"

definition name_char :: "nat \<Rightarrow> bool" where
  "name_char c \<longleftrightarrow> name_head c \<or> c = 46 \<or> c = 95 \<or> c = 45"

definition SESSION_NAME_RE :: "js_string \<Rightarrow> bool" where
  "SESSION_NAME_RE s =
     (case s of [] \<Rightarrow> False | c # t \<Rightarrow> name_head c \<and> matches_class name_char 1 47 t)"

definition ASCII_NAME_RE :: "js_string \<Rightarrow> bool" where
  "ASCII_NAME_RE s \<longleftrightarrow> s \<noteq> [] \<and> list_all (\<lambda>c. is_alnum c \<or> c = 46 \<or> c = 95 \<or> c = 45) s"

definition ALL_NUMERIC_RE :: "js_string \<Rightarrow> bool" where
  "ALL_NUMERIC_RE s \<longleftrightarrow> s \<noteq> [] \<and> list_all is_digit s"

definition LOWER_UUID_RE :: "js_string \<Rightarrow> bool" where
  "LOWER_UUID_RE s = uuid_blocks (\<lambda>c. is_digit c \<or> (97 \<le> c \<and> c \<le> 102)) [8, 4, 4, 4, 12] s"

definition PATH_LIKE_RE :: "js_string \<Rightarrow> bool" where
  "PATH_LIKE_RE s \<longleftrightarrow> list_ex (\<lambda>c. c = 58 \<or> c = 47 \<or> c = 92) s"

definition RESERVED_SESSION_NAMES :: "js_string list" where
  "RESERVED_SESSION_NAMES = map js [''xbus'', ''broker'', ''admin'', ''system'', ''root'', ''all'',
     ''broadcast'', ''self'', ''none'', ''operator'', ''local-operator'']"

definition GENERIC_SESSION_NAMES :: "js_string list" where
  "GENERIC_SESSION_NAMES = map js [''session'', ''agent'', ''claude'', ''codex'', ''hermes'', ''default'',
     ''test'', ''temp'', ''new-session'', ''new'', ''untitled'', ''example'', ''sample'', ''foo'', ''bar'']"

record normalized_session_name =
  nsn_display :: js_string
  nsn_normalized :: js_string

definition validateSessionName :: "unicode \<Rightarrow> js_string \<Rightarrow> xerror + normalized_session_name" where
  "validateSessionName U raw =
     (if raw = [] then Inl (xerr INVALID_SESSION_NAME)
      else let n = nfc U raw in
      if PATH_LIKE_RE n then Inl (xerr INVALID_SESSION_NAME)
      else if \<not> ASCII_NAME_RE n then Inl (xerr INVALID_SESSION_NAME)
      else if length n < SESSION_NAME_MIN \<or> length n > SESSION_NAME_MAX
      then Inl (XBusError INVALID_SESSION_NAME
             [(js ''min'', JNum (int SESSION_NAME_MIN)), (js ''max'', JNum (int SESSION_NAME_MAX))])
      else let normalized = ascii_lower n in
      if \<not> SESSION_NAME_RE normalized then Inl (xerr INVALID_SESSION_NAME)
      else if starts_with normalized SESSION_PREFIX then Inl (xerr INVALID_SESSION_NAME)
      else if List.member RESERVED_SESSION_NAMES normalized then Inl (xerr INVALID_SESSION_NAME)
      else if List.member GENERIC_SESSION_NAMES normalized then Inl (xerr INVALID_SESSION_NAME)
      else if ALL_NUMERIC_RE normalized then Inl (xerr INVALID_SESSION_NAME)
      else if LOWER_UUID_RE normalized then Inl (xerr INVALID_SESSION_NAME)
      else Inr \<lparr>nsn_display = raw, nsn_normalized = normalized\<rparr>)"

definition isValidSessionName :: "unicode \<Rightarrow> js_string \<Rightarrow> bool" where
  "isValidSessionName U raw = (case validateSessionName U raw of Inl _ \<Rightarrow> False | Inr _ \<Rightarrow> True)"

text \<open>\<open>replace(/[^a-z0-9._-]+/g, '-')\<close>: the flag tells whether the scan is inside a run.\<close>

fun dash_runs :: "bool \<Rightarrow> js_string \<Rightarrow> js_string" where
  "dash_runs b [] = []"
| "dash_runs b (c # s) =
     (if name_char c then c # dash_runs False s
      else if b then dash_runs True s
      else 45 # dash_runs True s)"

definition trim_separators :: "js_string \<Rightarrow> js_string" where
  "trim_separators s = rev (dropWhile (\<lambda>c. c = 45 \<or> c = 46 \<or> c = 95) (rev s))"

definition sanitizeToSessionName :: "unicode \<Rightarrow> js_string \<Rightarrow> js_string option" where
  "sanitizeToSessionName U raw =
     (let s = to_lower U (nfc U raw);
          s = dash_runs False s;
          s = dropWhile (\<lambda>c. \<not> name_head c) s;
          s = trim_separators s;
          s = (if length s > SESSION_NAME_MAX then trim_separators (take SESSION_NAME_MAX s) else s)
      in if length s < SESSION_NAME_MIN then None
         else if SESSION_NAME_RE s then Some s else None)"

record name_suggestion_inputs =
  ns_savedName :: "js_string option"
  ns_gitRepo :: "js_string option"
  ns_dirName :: "js_string option"
  ns_agentType :: "js_string option"
  ns_projectId :: "js_string option"

definition truthy :: "js_string option \<Rightarrow> bool" where
  "truthy v = (case v of None \<Rightarrow> False | Some s \<Rightarrow> s \<noteq> [])"

definition name_candidates :: "name_suggestion_inputs \<Rightarrow> js_string option list" where
  "name_candidates inp =
     [ns_savedName inp, ns_gitRepo inp, ns_dirName inp,
      if truthy (ns_agentType inp) \<and> truthy (ns_projectId inp)
      then Some (the (ns_agentType inp) @ js ''-'' @ the (ns_projectId inp)) else None]"

fun first_valid :: "unicode \<Rightarrow> js_string option list \<Rightarrow> js_string option" where
  "first_valid U [] = None"
| "first_valid U (c # cs) =
     (if \<not> truthy c then first_valid U cs
      else case sanitizeToSessionName U (the c) of
             None \<Rightarrow> first_valid U cs
           | Some s \<Rightarrow> if isValidSessionName U s then Some s else first_valid U cs)"

definition suggestSessionName :: "unicode \<Rightarrow> name_suggestion_inputs \<Rightarrow> js_string option" where
  "suggestSessionName U inp = first_valid U (name_candidates inp)"

section \<open>What validation admits\<close>

lemma alias_char_ascii: "alias_char c \<Longrightarrow> c < 128"
  by (auto simp: alias_char_def char_class_defs)

lemma ALIAS_RE_ascii: "ALIAS_RE s \<Longrightarrow> ascii_str s"
  by (auto simp: ALIAS_RE_def matches_class_def ascii_str_def list_all_iff alias_char_ascii)

lemma alias_char_lower: "alias_char c \<Longrightarrow> alias_char (lower_unit c)"
  by (auto simp: alias_char_def lower_unit_def char_class_defs)

lemma ALIAS_RE_lower: "ALIAS_RE s \<Longrightarrow> ALIAS_RE (ascii_lower s)"
  by (auto simp: ALIAS_RE_def matches_class_def ascii_lower_def list_all_iff alias_char_lower)

lemma validateUserAlias_Inr:
  "validateUserAlias raw = Inr a \<longleftrightarrow>
     a = \<lparr>na_display = raw, na_ci = ascii_lower raw\<rparr> \<and> ALIAS_RE raw \<and>
     \<not> starts_with (ascii_lower raw) SESSION_PREFIX \<and> ascii_lower raw \<notin> set RESERVED_NAMES"
  by (auto simp: validateUserAlias_def Let_def ALIAS_RE_def ALIAS_CHARS_def matches_class_def)

lemma lower_SESSION_PREFIX [simp]: "ascii_lower SESSION_PREFIX = SESSION_PREFIX"
  by (simp add: SESSION_PREFIX_def ascii_lower_def lower_unit_def is_upper_def)

lemma automaticAlias_ci: "na_ci (automaticAlias i) = na_display (automaticAlias i)"
proof -
  have "ascii_lower (js ''unknown0'') = js ''unknown0''"
    by (simp add: ascii_lower_def lower_unit_def is_upper_def)
  then show ?thesis by (simp add: automaticAlias_def Let_def ascii_lower_append)
qed

lemma automaticAlias_prefix: "starts_with (na_ci (automaticAlias i)) SESSION_PREFIX"
  by (simp add: automaticAlias_def Let_def ascii_lower_append)

lemma alnum_alias: "is_alnum c \<Longrightarrow> alias_char (lower_unit c)"
  by (rule alias_char_lower) (simp add: alias_char_def)

lemma automaticAlias_RE: "ALIAS_RE (na_display (automaticAlias i))"
proof -
  have "\<forall>c\<in>set (take 8 (filter is_alnum i)). alias_char (lower_unit c)"
    by (auto simp: alnum_alias dest: in_set_takeD)
  moreover have "length (take 8 (filter is_alnum i)) \<le> 8" by simp
  moreover have "list_all alias_char SESSION_PREFIX" "list_all alias_char (js ''unknown0'')"
    by (simp_all add: SESSION_PREFIX_def alias_char_def char_class_defs)
  moreover have "length SESSION_PREFIX = 8" "length (js ''unknown0'') = 8"
    by (simp_all add: SESSION_PREFIX_def)
  ultimately show ?thesis
    by (auto simp: ALIAS_RE_def matches_class_def automaticAlias_def Let_def ascii_lower_def list_all_iff)
qed

lemma name_char_ascii: "name_char c \<Longrightarrow> c < 128 \<and> lower_unit c = c"
  by (auto simp: name_char_def name_head_def lower_unit_def char_class_defs)

lemma SESSION_NAME_RE_D:
  assumes "SESSION_NAME_RE s"
  shows "list_all name_char s" "2 \<le> length s" "length s \<le> 48" "ascii_str s" "ascii_lower s = s"
proof -
  from assms show all: "list_all name_char s" and "2 \<le> length s" and "length s \<le> 48"
    by (auto simp: SESSION_NAME_RE_def matches_class_def name_char_def split: list.splits)
  from all show "ascii_str s" by (auto simp: ascii_str_def list_all_iff name_char_ascii)
  from all show "ascii_lower s = s"
    by (auto simp: ascii_lower_def list_all_iff name_char_ascii intro!: map_idI)
qed

lemma validateSessionName_Inr:
  assumes "validateSessionName U raw = Inr n"
  shows "nsn_display n = raw" "nsn_normalized n = ascii_lower (nfc U raw)"
    "SESSION_NAME_RE (nsn_normalized n)" "\<not> starts_with (nsn_normalized n) SESSION_PREFIX"
    "nsn_normalized n \<notin> set RESERVED_SESSION_NAMES" "nsn_normalized n \<notin> set GENERIC_SESSION_NAMES"
    "\<not> ALL_NUMERIC_RE (nsn_normalized n)" "\<not> LOWER_UUID_RE (nsn_normalized n)"
  using assms by (auto simp: validateSessionName_def Let_def split: if_splits)

lemma name_char_ascii_name: "name_char c \<Longrightarrow> is_alnum c \<or> c = 46 \<or> c = 95 \<or> c = 45"
  by (auto simp: name_char_def name_head_def is_alnum_def)

lemma SESSION_NAME_RE_gates:
  assumes "SESSION_NAME_RE s"
  shows "ASCII_NAME_RE s" "\<not> PATH_LIKE_RE s"
proof -
  note all = SESSION_NAME_RE_D(1) [OF assms]
  have "s \<noteq> []" using SESSION_NAME_RE_D(2) [OF assms] by auto
  with all show "ASCII_NAME_RE s"
    by (auto simp: ASCII_NAME_RE_def list_all_iff dest: name_char_ascii_name)
  from all show "\<not> PATH_LIKE_RE s"
    by (auto simp: PATH_LIKE_RE_def list_ex_iff list_all_iff name_char_def name_head_def char_class_defs)
qed

text \<open>A name in normal form is accepted exactly by the deny lists, and is its own normal form.\<close>

lemma validate_normal_form:
  assumes "unicode_ok U" and "SESSION_NAME_RE s"
    and "\<not> starts_with s SESSION_PREFIX" "s \<notin> set RESERVED_SESSION_NAMES" "s \<notin> set GENERIC_SESSION_NAMES"
    and "\<not> ALL_NUMERIC_RE s" "\<not> LOWER_UUID_RE s"
  shows "validateSessionName U s = Inr \<lparr>nsn_display = s, nsn_normalized = s\<rparr>"
proof -
  note D = SESSION_NAME_RE_D [OF assms(2)] SESSION_NAME_RE_gates [OF assms(2)]
  have "s \<noteq> []" using D(2) by auto
  moreover have "nfc U s = s" using assms(1) D(4) by (simp add: unicode_ok_def)
  ultimately show ?thesis
    using D assms(2-) by (simp add: validateSessionName_def SESSION_NAME_MIN_def SESSION_NAME_MAX_def)
qed

lemma sanitize_Some: "sanitizeToSessionName U raw = Some s \<Longrightarrow> SESSION_NAME_RE s"
  by (auto simp: sanitizeToSessionName_def Let_def split: if_splits)

lemma first_valid_Some:
  "first_valid U cs = Some s \<Longrightarrow> SESSION_NAME_RE s \<and> isValidSessionName U s"
  by (induction U cs rule: first_valid.induct)
    (auto split: if_splits option.splits dest: sanitize_Some)

section \<open>Correctness of names and recipients\<close>

lemma alias_char_not_special: "alias_char c \<Longrightarrow> \<not> js_space c \<and> c \<noteq> 47"
  by (auto simp: alias_char_def js_space_def char_class_defs)

lemma name_char_not_special: "name_char c \<Longrightarrow> \<not> js_space c \<and> c \<noteq> 47"
  by (auto simp: name_char_def name_head_def js_space_def char_class_defs)

lemma dropWhile_space_id: "list_all (\<lambda>c. \<not> js_space c) s \<Longrightarrow> dropWhile js_space s = s"
  by (cases s) auto

lemma trim_no_space: "list_all (\<lambda>c. \<not> js_space c) s \<Longrightarrow> js_trim s = s"
  by (simp add: js_trim_def dropWhile_space_id list_all_rev)

lemma parse_alias_text:
  assumes "ALIAS_RE s"
  shows "parseRecipient s = Inr (if UUID_RE s then SessionRef s else AliasRef s)"
proof -
  have all: "list_all alias_char s" and "s \<noteq> []" using assms by (auto simp: ALIAS_RE_def matches_class_def)
  moreover have "js_trim s = s" using all by (intro trim_no_space) (auto simp: list_all_iff alias_char_not_special)
  moreover have "47 \<notin> set s" using all by (auto simp: list_all_iff dest: alias_char_not_special)
  ultimately show ?thesis using assms by (simp add: parseRecipient_def validateRecipientAliasPart_def)
qed

text \<open>C31: an accepted alias is never in the namespace of broker-minted aliases, and as a recipient it parses back to
  itself, unless it has the shape of a UUID, in which case it is read as a session id and the alias cannot be reached.\<close>

theorem alias_roundtrip:
  assumes "validateUserAlias raw = Inr a"
  shows "na_ci a \<noteq> na_ci (automaticAlias i)
    \<and> parseRecipient (na_display a) = Inr (if UUID_RE raw then SessionRef raw else AliasRef raw)
    \<and> validateUserAlias (na_ci a) = Inr \<lparr>na_display = na_ci a, na_ci = na_ci a\<rparr>"
proof (intro conjI)
  note v = assms [unfolded validateUserAlias_Inr]
  show "na_ci a \<noteq> na_ci (automaticAlias i)" using v automaticAlias_prefix [of i] by auto
  show "parseRecipient (na_display a) = Inr (if UUID_RE raw then SessionRef raw else AliasRef raw)"
    using v parse_alias_text by auto
  show "validateUserAlias (na_ci a) = Inr \<lparr>na_display = na_ci a, na_ci = na_ci a\<rparr>"
    using v ALIAS_RE_lower by (simp add: validateUserAlias_Inr)
qed

theorem alias_roundtrip_witness:
  "parseRecipient (js ''Api-1'') = Inr (AliasRef (js ''Api-1''))
   \<and> js ''api-1'' \<noteq> na_ci (automaticAlias (js ''api-1''))"
proof -
  have v: "validateUserAlias (js ''Api-1'') = Inr \<lparr>na_display = js ''Api-1'', na_ci = js ''api-1''\<rparr>"
    by (simp add: validateUserAlias_def ALIAS_CHARS_def ALIAS_RE_def matches_class_def alias_char_def char_class_defs
        ascii_lower_def lower_unit_def SESSION_PREFIX_def RESERVED_NAMES_def)
  have u: "\<not> UUID_RE (js ''Api-1'')" by (simp add: UUID_RE_def)
  show ?thesis using alias_roundtrip [OF v, of "js ''api-1''"] u by simp
qed

lemma uuid_blocks_mono: "uuid_blocks p ns s \<Longrightarrow> (\<And>c. c \<in> set s \<Longrightarrow> p c \<Longrightarrow> q c) \<Longrightarrow> uuid_blocks q ns s"
proof (induction ns arbitrary: s rule: induct_list012)
  case (3 n m ns)
  have "q c" if "c \<in> set (take n s)" for c
    using 3(3,4) that in_set_takeD [OF that] by (auto simp: list_all_iff)
  moreover have "uuid_blocks q (m # ns) (drop (Suc n) s)"
    using 3(3,4) by (intro 3(2)) (auto dest: in_set_dropD)
  ultimately show ?case using 3(3) by (auto simp: list_all_iff)
qed (auto simp: list_all_iff)

text \<open>A valid session name can be used as a recipient exactly when it has no dot. A dotted name, which
  \<open>validateSessionName\<close> accepts, is refused by \<open>parseRecipient\<close>, so such a session cannot be addressed by its name.\<close>

theorem name_routable_iff:
  assumes "unicode_ok U" and "validateSessionName U raw = Inr n"
  shows "parseRecipient (nsn_normalized n) =
           (if 46 \<in> set (nsn_normalized n) then Inl (xerr INVALID_ALIAS) else Inr (AliasRef (nsn_normalized n)))"
proof -
  let ?s = "nsn_normalized n"
  note v = validateSessionName_Inr [OF assms(2)]
  note d = SESSION_NAME_RE_D [OF v(3)]
  have "is_digit c \<or> (97 \<le> c \<and> c \<le> 102)" if "c \<in> set ?s" "is_hex c" for c
    using that d(1) by (auto simp: list_all_iff char_class_defs name_char_def name_head_def)
  then have uuid: "\<not> UUID_RE ?s"
    using v(8) unfolding UUID_RE_def LOWER_UUID_RE_def by (metis (no_types, lifting) uuid_blocks_mono)
  show ?thesis
  proof (cases "46 \<in> set ?s")
    case True
    have "js_trim ?s = ?s" "47 \<notin> set ?s"
      using d(1) name_char_not_special by (auto intro!: trim_no_space simp: list_all_iff)
    moreover have "?s \<noteq> []" using d(2) by auto
    moreover have "\<not> ALIAS_RE ?s" using True by (auto simp: ALIAS_RE_def matches_class_def list_all_iff alias_char_def char_class_defs intro!: bexI [of _ 46])
    ultimately show ?thesis using True uuid by (simp add: parseRecipient_def validateRecipientAliasPart_def)
  next
    case False
    then have "ALIAS_RE ?s"
      using d(1-3) by (auto simp: ALIAS_RE_def matches_class_def list_all_iff alias_char_def name_char_def name_head_def is_alnum_def)
    with False uuid show ?thesis by (simp add: parse_alias_text)
  qed
qed

theorem name_routable_iff_witness:
  "parseRecipient (js ''api.v2'') = Inl (xerr INVALID_ALIAS)"
proof -
  have "validateSessionName ascii_unicode (js ''api.v2'') = Inr \<lparr>nsn_display = js ''api.v2'', nsn_normalized = js ''api.v2''\<rparr>"
    by (rule validate_normal_form)
      (simp_all add: SESSION_NAME_RE_def matches_class_def name_char_def name_head_def char_class_defs SESSION_PREFIX_def
        RESERVED_SESSION_NAMES_def GENERIC_SESSION_NAMES_def ALL_NUMERIC_RE_def LOWER_UUID_RE_def)
  from name_routable_iff [OF _ this] show ?thesis by simp
qed

text \<open>whatever \<open>suggestSessionName\<close> proposes is a valid session name in normal form: validating it again succeeds
  and changes nothing.\<close>

theorem suggestion_valid:
  assumes "unicode_ok U" and "suggestSessionName U inp = Some s"
  shows "validateSessionName U s = Inr \<lparr>nsn_display = s, nsn_normalized = s\<rparr>"
proof -
  have re: "SESSION_NAME_RE s" and "isValidSessionName U s"
    using first_valid_Some assms(2) by (auto simp: suggestSessionName_def)
  then obtain n where n: "validateSessionName U s = Inr n" by (auto simp: isValidSessionName_def split: sum.splits)
  have "nsn_normalized n = s"
    using validateSessionName_Inr(2) [OF n] SESSION_NAME_RE_D [OF re] assms(1) by (simp add: unicode_ok_def)
  with n validateSessionName_Inr(1) [OF n] show ?thesis by simp
qed

theorem suggestion_valid_witness:
  "validateSessionName ascii_unicode (js ''my-app'') = Inr \<lparr>nsn_display = js ''my-app'', nsn_normalized = js ''my-app''\<rparr>"
proof -
  have "suggestSessionName ascii_unicode \<lparr>ns_savedName = None, ns_gitRepo = Some (js ''My App''), ns_dirName = None,
      ns_agentType = None, ns_projectId = None\<rparr> = Some (js ''my-app'')"
    by (simp add: suggestSessionName_def name_candidates_def truthy_def sanitizeToSessionName_def ascii_unicode_def
        ascii_lower_def lower_unit_def trim_separators_def SESSION_NAME_MAX_def SESSION_NAME_MIN_def SESSION_NAME_RE_def
        matches_class_def name_char_def name_head_def char_class_defs isValidSessionName_def validateSessionName_def
        PATH_LIKE_RE_def ASCII_NAME_RE_def SESSION_PREFIX_def RESERVED_SESSION_NAMES_def GENERIC_SESSION_NAMES_def
        ALL_NUMERIC_RE_def LOWER_UUID_RE_def Let_def)
  from suggestion_valid [OF _ this] show ?thesis by simp
qed

end
