(* ===== verification/Policy.thy ===== *)
theory Policy
  imports Protocol Complex_Main
begin

text \<open>
  The pure policies of the broker: session readiness (\<^verbatim>\<open>src/broker/readiness.ts\<close>), the retry taxonomy
  and backoff (\<^verbatim>\<open>src/broker/retry.ts\<close>) and the time domains (\<^verbatim>\<open>src/broker/deadlines.ts\<close>).
\<close>

section \<open>Readiness\<close>

datatype readiness =
    Initializing | Ready_Checkpoint | Ready_Live
  | Degraded_Ack_Unavailable | Degraded_Hook_Unavailable | Incompatible | Disconnected

definition READY_STATES :: "readiness list" where
  "READY_STATES = [Ready_Checkpoint, Ready_Live]"

definition acceptsInjection :: "readiness \<Rightarrow> bool" where
  "acceptsInjection r = List.member READY_STATES r"

record readiness_hints =
  rh_ackAvailable :: "bool option"
  rh_hookAvailable :: "bool option"
  rh_live :: "bool option"
  rh_versionOk :: "bool option"

definition resolveReadiness :: "js_string \<Rightarrow> js_string list \<Rightarrow> readiness_hints \<Rightarrow> readiness" where
  "resolveReadiness receiveMode capabilities hints =
     (if rh_versionOk hints = Some False then Incompatible
      else let canAck = (case rh_ackAvailable hints of
                           Some b \<Rightarrow> b
                         | None \<Rightarrow> List.member capabilities (js ''ack'')) in
      if \<not> canAck then Degraded_Ack_Unavailable
      else if receiveMode = js ''hook_checkpoint'' then
        (if rh_hookAvailable hints = Some False then Degraded_Hook_Unavailable
         else Ready_Checkpoint)
      else if rh_live hints = Some True then Ready_Live
      else Ready_Checkpoint)"

fun readiness_name :: "readiness \<Rightarrow> string" where
  "readiness_name Initializing = ''initializing''"
| "readiness_name Ready_Checkpoint = ''ready_checkpoint''"
| "readiness_name Ready_Live = ''ready_live''"
| "readiness_name Degraded_Ack_Unavailable = ''degraded_ack_unavailable''"
| "readiness_name Degraded_Hook_Unavailable = ''degraded_hook_unavailable''"
| "readiness_name Incompatible = ''incompatible''"
| "readiness_name Disconnected = ''disconnected''"

lemma acceptsInjection_iff: "acceptsInjection r \<longleftrightarrow> r = Ready_Checkpoint \<or> r = Ready_Live"
  by (auto simp: acceptsInjection_def READY_STATES_def)

section \<open>Retry taxonomy and backoff\<close>

datatype retry_disposition = Transient | Permanent | Waiting

definition PERMANENT :: "error_code list" where
  "PERMANENT = [UNKNOWN_RECIPIENT, BLOCKED, PROTOCOL_VIOLATION, PROTOCOL_MISMATCH, VERSION_INCOMPATIBLE,
     FORBIDDEN_ROLE, INVALID_RECEIPT, INJECTION_NOT_FOUND, RESERVED_METADATA_KEY, RESERVED_KIND,
     MESSAGE_EXPIRED, PAYLOAD_TOO_LARGE, INVALID_ALIAS, POLICY_BLOCKED, PERMISSION_RELAY_FORBIDDEN]"

definition TRANSIENT :: "error_code list" where
  "TRANSIENT = [BROKER_UNAVAILABLE, DATABASE_ERROR, RATE_LIMITED]"

definition dispositionForError :: "error_code \<Rightarrow> retry_disposition" where
  "dispositionForError code =
     (if List.member PERMANENT code then Permanent
      else if List.member TRANSIENT code then Transient
      else Permanent)"

record backoff_config =
  bc_initialDelayMs :: nat
  bc_maxDelayMs :: nat
  bc_maxAttempts :: nat
  bc_factor :: nat

definition DEFAULT_BACKOFF :: backoff_config where
  "DEFAULT_BACKOFF = \<lparr>bc_initialDelayMs = 1000, bc_maxDelayMs = 60000, bc_maxAttempts = 6, bc_factor = 2\<rparr>"

definition backoff_ceil :: "nat \<Rightarrow> backoff_config \<Rightarrow> nat" where
  "backoff_ceil attempt cfg = min (bc_maxDelayMs cfg) (bc_initialDelayMs cfg * bc_factor cfg ^ attempt)"

text \<open>\<open>rng\<close> is the number drawn, as a fraction of the unit interval.\<close>

definition nextBackoffMs :: "nat \<Rightarrow> backoff_config \<Rightarrow> rat \<Rightarrow> int" where
  "nextBackoffMs attempt cfg rng = \<lfloor>rng * of_nat (backoff_ceil attempt cfg)\<rfloor>"

definition attemptsExhausted :: "nat \<Rightarrow> backoff_config \<Rightarrow> bool" where
  "attemptsExhausted attempt cfg \<longleftrightarrow> bc_maxAttempts cfg \<le> attempt"

lemma nextBackoff_bounds:
  assumes "0 \<le> rng" and "rng \<le> 1"
  shows "0 \<le> nextBackoffMs a cfg rng" "nextBackoffMs a cfg rng \<le> int (backoff_ceil a cfg)"
proof -
  show "0 \<le> nextBackoffMs a cfg rng" using assms(1) by (simp add: nextBackoffMs_def)
  have "rng * of_nat (backoff_ceil a cfg) \<le> of_nat (backoff_ceil a cfg)"
    using assms by (simp add: mult_left_le_one_le)
  then have "\<lfloor>rng * of_nat (backoff_ceil a cfg)\<rfloor> \<le> \<lfloor>of_nat (backoff_ceil a cfg) :: rat\<rfloor>"
    by (rule floor_mono)
  then show "nextBackoffMs a cfg rng \<le> int (backoff_ceil a cfg)"
    by (simp add: nextBackoffMs_def)
qed

lemma backoff_ceil_mono: "0 < bc_factor cfg \<Longrightarrow> a \<le> b \<Longrightarrow> backoff_ceil a cfg \<le> backoff_ceil b cfg"
  unfolding backoff_ceil_def
  by (intro min.mono order_refl mult_le_mono power_increasing) auto

section \<open>Time domains\<close>

record time_domains =
  td_acceptanceTtlMs :: int
  td_responseDeadlineMs :: int
  td_retentionMs :: int
  td_waitingCountsTowardAcceptance :: bool

definition DEFAULT_TIME_DOMAINS :: time_domains where
  "DEFAULT_TIME_DOMAINS =
     \<lparr>td_acceptanceTtlMs = 24 * 60 * 60000, td_responseDeadlineMs = 10 * 60000,
      td_retentionMs = 7 * 24 * 60 * 60000, td_waitingCountsTowardAcceptance = False\<rparr>"

definition acceptanceExpiryMs :: "int \<Rightarrow> int \<Rightarrow> time_domains \<Rightarrow> int" where
  "acceptanceExpiryMs createdAtMs pausedAccumMs d =
     (let effective = (if td_waitingCountsTowardAcceptance d then createdAtMs else createdAtMs + pausedAccumMs)
      in effective + td_acceptanceTtlMs d)"

definition responseDeadlineMs :: "int \<Rightarrow> time_domains \<Rightarrow> int" where
  "responseDeadlineMs injectedAtMs d = injectedAtMs + td_responseDeadlineMs d"

definition retentionCutoffMs :: "int \<Rightarrow> time_domains \<Rightarrow> int" where
  "retentionCutoffMs nowMs d = nowMs - td_retentionMs d"

text \<open>\<open>opts\<close> holds the monotonic elapsed time and its budget when the caller has both.\<close>

definition isExpired :: "int \<Rightarrow> int \<Rightarrow> (int \<times> int) option \<Rightarrow> bool" where
  "isExpired deadlineMs nowWallMs opts =
     (let wallPassed = deadlineMs \<le> nowWallMs in
      case opts of
        Some (elapsed, budget) \<Rightarrow> wallPassed \<and> budget \<le> elapsed
      | None \<Rightarrow> wallPassed)"

section \<open>Correctness of the policies\<close>

text \<open>A session accepts injection after a readiness signal exactly when its version is not refused, it can
  acknowledge, and, in hook mode, its hook is not reported missing.\<close>

theorem readiness_gate:
  "acceptsInjection (resolveReadiness mode caps hints) \<longleftrightarrow>
     rh_versionOk hints \<noteq> Some False \<and>
     (rh_ackAvailable hints = Some True \<or> rh_ackAvailable hints = None \<and> js ''ack'' \<in> set caps) \<and>
     (mode = js ''hook_checkpoint'' \<longrightarrow> rh_hookAvailable hints \<noteq> Some False)"
  by (auto simp: resolveReadiness_def acceptsInjection_iff Let_def split: option.splits if_splits)

theorem readiness_gate_witness:
  "acceptsInjection (resolveReadiness (js ''hook_checkpoint'') [js ''ack'']
     \<lparr>rh_ackAvailable = None, rh_hookAvailable = None, rh_live = None, rh_versionOk = Some True\<rparr>)"
  by (subst readiness_gate) simp

text \<open>A retry delay is never negative and never above the exponential ceiling of its attempt, which grows with
  the attempt and stays below the configured maximum.\<close>

theorem backoff_bounded:
  assumes "0 \<le> rng" "rng < 1" "a \<le> b" "0 < bc_factor cfg"
  shows "0 \<le> nextBackoffMs a cfg rng \<and> nextBackoffMs a cfg rng \<le> int (bc_initialDelayMs cfg * bc_factor cfg ^ b)
    \<and> nextBackoffMs a cfg rng \<le> int (bc_maxDelayMs cfg)"
proof (intro conjI)
  have r: "rng \<le> 1" using assms(2) by simp
  note n = nextBackoff_bounds [OF assms(1) r, of a cfg]
  show "0 \<le> nextBackoffMs a cfg rng" by (rule n(1))
  have "backoff_ceil b cfg \<le> bc_initialDelayMs cfg * bc_factor cfg ^ b" "backoff_ceil b cfg \<le> bc_maxDelayMs cfg"
    by (simp_all add: backoff_ceil_def)
  with n(2) backoff_ceil_mono [OF assms(4,3)]
  show "nextBackoffMs a cfg rng \<le> int (bc_initialDelayMs cfg * bc_factor cfg ^ b)"
    and "nextBackoffMs a cfg rng \<le> int (bc_maxDelayMs cfg)"
    by (meson le_trans of_nat_mono order_trans)+
qed

theorem backoff_bounded_witness: "nextBackoffMs 3 DEFAULT_BACKOFF (1/2) \<le> int (1000 * 2 ^ 3)"
  using backoff_bounded [of "1/2" 3 3 DEFAULT_BACKOFF] by (simp add: DEFAULT_BACKOFF_def)

end
