(* ===== verification/Database.thy ===== *)
theory Database
  imports Delivery_States Schemas Identity Policy
begin

text \<open>
  The broker's durable state: one record per table of \<^verbatim>\<open>src/database/migrations.ts\<close>, the database
  as a record of row lists, the injected dependencies (clock, id generator, random sources, hash,
  liveness classifier) as an environment, and the transaction combinator of
  \<^verbatim>\<open>src/database/connection.ts\<close>. A timestamp column holds an instant in milliseconds: the ISO-8601
  strings the broker stores have a fixed width, so comparing them is comparing instants. Columns
  that hold JSON text hold the JSON value.
\<close>

section \<open>Rows\<close>

datatype connection_state = Conn_Connected | Conn_Disconnected
datatype name_state = Unnamed | Pending | Active | Retired
datatype ownership_state = Own_Active | Own_Pending | Own_Released
datatype component_state = Comp_Live | Comp_Superseded | Comp_Closed
datatype lease_state = Held | Lease_Expired
datatype management_state = Mgmt_Active | Mgmt_Dormant | Mgmt_Unmanaged
datatype receipt_op = AckOp | ReplyOp
datatype actor_kind = Claude | Operator
datatype schedule_kind = Once | Interval | Cron
datatype schedule_state = Sched_Active | Sched_Paused | Sched_Exhausted | Sched_Cancelled
datatype run_state = Run_Claimed | Run_Sent | Run_Skipped | Run_Failed
datatype run_error = Run_Error error_code | Run_Internal

record session_row =
  s_id :: js_string
  s_logical :: "js_string option"
  s_instance :: "js_string option"
  s_generation :: nat
  s_highWater :: nat
  s_epoch :: nat
  s_fencing :: "nat option"
  s_boundConn :: "js_string option"
  s_autoAlias :: js_string
  s_projectId :: js_string
  s_projectAlias :: "js_string option"
  s_cwd :: js_string
  s_repoRoot :: "js_string option"
  s_ccVersion :: "js_string option"
  s_capabilities :: "js_string list"
  s_receiveMode :: js_string
  s_state :: connection_state
  s_readiness :: readiness
  s_readinessAt :: "int option"
  s_agentType :: "js_string option"
  s_connectedAt :: "int option"
  s_disconnectedAt :: "int option"
  s_lastSeenAt :: int
  s_lastCheckpointAt :: "int option"
  s_createdAt :: int
  s_updatedAt :: int
  s_name :: "js_string option"
  s_normName :: "js_string option"
  s_nameState :: name_state
  s_pendingNameExpiresAt :: "int option"
  s_lastActivityAt :: "int option"
  s_expiresAt :: "int option"
  s_expiredAt :: "int option"
  s_expReason :: "string option"
  s_mgmt :: management_state
  s_sourceLast :: "string option"
  s_confidence :: string
  s_transcript :: "js_string option"
  s_firstSeenAt :: "int option"
  s_lastSeenSourceAt :: "int option"
  s_title :: "js_string option"
  s_titleSource :: "string option"
  s_titleAt :: "int option"
  s_pinned :: bool
  s_archived :: bool
  s_archivedAt :: "int option"
  s_managed :: bool
  s_managedPid :: "int option"
  s_managedStartedAt :: "int option"
  s_managedKey :: "js_string option"

record alias_row =
  al_id :: js_string
  al_alias :: js_string
  al_ci :: js_string
  al_global :: bool
  al_session :: js_string
  al_active :: bool
  al_createdAt :: int
  al_retiredAt :: "int option"

record message_row =
  m_id :: js_string
  m_sender :: js_string
  m_senderAlias :: js_string
  m_recipient :: js_string
  m_recipientAlias :: js_string
  m_kind :: message_kind
  m_correlation :: js_string
  m_causation :: "js_string option"
  m_parent :: "js_string option"
  m_sequence :: nat
  m_idempotency :: "js_string option"
  m_text :: js_string
  m_bodyHash :: js_string
  m_metadata :: "(js_string \<times> js_string) list option"
  m_requiresAck :: bool
  m_requiresReply :: bool
  m_expiresAt :: "int option"
  m_createdAt :: int
  m_trace :: js_string
  m_thread :: "js_string option"
  m_threadSequence :: "nat option"
  m_author :: actor_kind

record delivery_row =
  d_id :: js_string
  d_message :: js_string
  d_recipient :: js_string
  d_targetInstance :: "js_string option"
  d_targetGeneration :: "nat option"
  d_fencing :: "nat option"
  d_attempt :: nat
  d_attemptTransport :: nat
  d_attemptInjection :: nat
  d_attemptAckTimeout :: nat
  d_attemptReply :: nat
  d_state :: delivery_state
  d_rejectedReason :: "js_string option"
  d_failureCategory :: "string option"
  d_leaseAcquiredAt :: "int option"
  d_leaseExpiresAt :: "int option"
  d_transportWrittenAt :: "int option"
  d_acceptedAt :: "int option"
  d_completedAt :: "int option"
  d_nextAttemptAt :: "int option"
  d_createdAt :: int
  d_updatedAt :: int

record receipt_row =
  rc_id :: js_string
  rc_message :: js_string
  rc_session :: js_string
  rc_instance :: js_string
  rc_epoch :: nat
  rc_type :: receipt_op
  rc_status :: string
  rc_note :: "js_string option"
  rc_bodyHash :: js_string
  rc_createdAt :: int

record write_log_row =
  wl_id :: js_string
  wl_delivery :: js_string
  wl_message :: js_string
  wl_instance :: js_string
  wl_attempt :: nat
  wl_at :: int

record audit_row =
  au_id :: js_string
  au_event :: string
  au_session :: "js_string option"
  au_instance :: "js_string option"
  au_message :: "js_string option"
  au_trace :: "js_string option"
  au_metadata :: "(string \<times> jval) list"
  au_createdAt :: int

record epoch_row =
  ep_session :: js_string
  ep_epoch :: nat
  ep_tokenHash :: js_string
  ep_startedAt :: int
  ep_supersededAt :: "int option"
  ep_reason :: "string option"

record component_row =
  c_id :: js_string
  c_session :: js_string
  c_epoch :: nat
  c_role :: component_role
  c_pid :: int
  c_conn :: "js_string option"
  c_buildId :: "js_string option"
  c_capabilities :: "js_string list"
  c_connectedAt :: int
  c_disconnectedAt :: "int option"
  c_state :: component_state

record injection_row =
  ci_id :: js_string
  ci_message :: js_string
  ci_session :: js_string
  ci_epoch :: nat
  ci_checkpoint :: js_string
  ci_component :: js_string
  ci_capHash :: js_string
  ci_injectedAt :: int
  ci_expiresAt :: int
  ci_consumedAt :: "int option"
  ci_consumedOp :: "receipt_op option"
  ci_logical :: nat

record control_row =
  ctl_session :: js_string
  ctl_receiving :: int
  ctl_pausedAt :: "int option"
  ctl_updatedAt :: int

record blocked_row =
  bl_id :: js_string
  bl_owner :: js_string
  bl_alias :: js_string
  bl_createdAt :: int

record lease_row =
  ls_id :: js_string
  ls_message :: js_string
  ls_delivery :: js_string
  ls_expiresAt :: int
  ls_releasedAt :: "int option"
  ls_state :: lease_state

record ledger_row =
  le_id :: js_string
  le_seq :: nat
  le_event :: string
  le_actor :: js_string
  le_subject :: "jval option"
  le_payload :: "jval option"
  le_createdAt :: js_string
  le_prev :: js_string
  le_entry :: js_string

record anchor_row =
  an_seq :: nat
  an_hash :: js_string

record thread_row =
  t_id :: js_string
  t_root :: js_string
  t_subject :: "js_string option"
  t_createdBy :: js_string
  t_open :: bool
  t_createdAt :: int
  t_updatedAt :: int
  t_lastMessageAt :: int
  t_lastSequence :: nat

record participant_row =
  p_id :: js_string
  p_thread :: js_string
  p_session :: js_string
  p_kind :: actor_kind
  p_joinedAt :: int
  p_lastRead :: nat

record map_row =
  pm_physical :: js_string
  pm_canonical :: js_string
  pm_logical :: js_string
  pm_createdAt :: int

record ownership_row =
  o_logical :: js_string
  o_normName :: "js_string option"
  o_display :: "js_string option"
  o_secretHash :: "js_string option"
  o_state :: ownership_state
  o_session :: "js_string option"
  o_supersededAt :: "int option"
  o_createdAt :: int
  o_updatedAt :: int

record seq_row =
  q_key :: js_string
  q_next :: nat

record collection_row =
  co_id :: js_string
  co_name :: js_string
  co_normName :: js_string
  co_sortOrder :: int
  co_state :: js_string
  co_createdAt :: int
  co_updatedAt :: int

record member_row =
  cm_collection :: js_string
  cm_agent :: js_string
  cm_sortOrder :: nat
  cm_createdAt :: int

record schedule_row =
  sc_id :: js_string
  sc_actor :: js_string
  sc_title :: "js_string option"
  sc_target :: js_string
  sc_payloadKind :: js_string
  sc_payload :: js_string
  sc_requiresAck :: bool
  sc_requiresReply :: bool
  sc_kind :: schedule_kind
  sc_expr :: "js_string option"
  sc_timezone :: js_string
  sc_quiet :: "js_string option"
  sc_deliveryMode :: js_string
  sc_budget :: "js_string option"
  sc_concurrency :: "js_string option"
  sc_minInterval :: int
  sc_wakeLimit :: "int option"
  sc_wakesToday :: int
  sc_wakesDate :: "js_string option"
  sc_nextRun :: "int option"
  sc_lastRun :: "int option"
  sc_maxFires :: "int option"
  sc_firesUsed :: int
  sc_originGuard :: bool
  sc_state :: schedule_state
  sc_createdAt :: int
  sc_updatedAt :: int

record run_row =
  sr_id :: js_string
  sr_schedule :: js_string
  sr_scheduledFor :: int
  sr_idempotency :: js_string
  sr_state :: run_state
  sr_skipReason :: "string option"
  sr_claimedAt :: int
  sr_message :: "js_string option"
  sr_error :: "run_error option"
  sr_createdAt :: int
  sr_updatedAt :: int

section \<open>Database and environment\<close>

record db =
  sessions :: "session_row list"
  aliases :: "alias_row list"
  recipient_sequences :: "seq_row list"
  messages :: "message_row list"
  deliveries :: "delivery_row list"
  receipts :: "receipt_row list"
  write_log :: "write_log_row list"
  audit_events :: "audit_row list"
  session_epochs :: "epoch_row list"
  component_instances :: "component_row list"
  context_injections :: "injection_row list"
  session_controls :: "control_row list"
  blocked_peers :: "blocked_row list"
  delivery_leases :: "lease_row list"
  ledger_events :: "ledger_row list"
  ledger_anchors :: "anchor_row list"
  threads :: "thread_row list"
  thread_participants :: "participant_row list"
  thread_sequences :: "seq_row list"
  physical_session_map :: "map_row list"
  name_ownership :: "ownership_row list"
  collections :: "collection_row list"
  collection_members :: "member_row list"
  schedules :: "schedule_row list"
  schedule_runs :: "run_row list"
  fencing_counter :: nat
  ids_drawn :: nat
  secrets_drawn :: nat
  capabilities_drawn :: nat

definition empty_db :: db where
  "empty_db =
     \<lparr>sessions = [], aliases = [], recipient_sequences = [], messages = [], deliveries = [],
      receipts = [], write_log = [], audit_events = [], session_epochs = [],
      component_instances = [], context_injections = [], session_controls = [], blocked_peers = [],
      delivery_leases = [], ledger_events = [], ledger_anchors = [], threads = [],
      thread_participants = [], thread_sequences = [], physical_session_map = [],
      name_ownership = [], collections = [], collection_members = [], schedules = [],
      schedule_runs = [], fencing_counter = 0, ids_drawn = 0, secrets_drawn = 0,
      capabilities_drawn = 0\<rparr>"

lemma empty_db_simps [simp]:
  "sessions empty_db = []"
  "aliases empty_db = []"
  "recipient_sequences empty_db = []"
  "messages empty_db = []"
  "deliveries empty_db = []"
  "receipts empty_db = []"
  "write_log empty_db = []"
  "audit_events empty_db = []"
  "session_epochs empty_db = []"
  "component_instances empty_db = []"
  "context_injections empty_db = []"
  "session_controls empty_db = []"
  "blocked_peers empty_db = []"
  "delivery_leases empty_db = []"
  "ledger_events empty_db = []"
  "ledger_anchors empty_db = []"
  "threads empty_db = []"
  "thread_participants empty_db = []"
  "thread_sequences empty_db = []"
  "physical_session_map empty_db = []"
  "name_ownership empty_db = []"
  "collections empty_db = []"
  "collection_members empty_db = []"
  "schedules empty_db = []"
  "schedule_runs empty_db = []"
  "fencing_counter empty_db = 0"
  "ids_drawn empty_db = 0"
  "secrets_drawn empty_db = 0"
  "capabilities_drawn empty_db = 0"
  by (simp_all add: empty_db_def)

datatype liveness_verdict = Proven_Live_Broker | Proven_Dead_Or_Recycled | Inconclusive

text \<open>
  The dependencies the constructors take. The clock is read as one instant per operation.
  \<open>id_of n\<close>, \<open>secret_of n\<close> and \<open>capability_of n\<close> are the \<open>n\<close>-th value drawn from the id generator,
  from the credential source and from the receipt-capability source; the counters of the database
  record say how many were drawn.
\<close>

record env =
  now :: int
  now_iso :: js_string
  id_of :: "nat \<Rightarrow> js_string"
  sha256 :: "js_string \<Rightarrow> js_string"
  secret_of :: "nat \<Rightarrow> js_string"
  capability_of :: "nat \<Rightarrow> js_string"
  liveness :: "int \<Rightarrow> liveness_verdict"
  uni :: unicode

type_synonym 'a result = "(db, xerror, 'a) outcome"

text \<open>
  \<open>transaction\<close>: COMMIT keeps the new state, a throw restores the tables. Values drawn from the
  generators are not given back.
\<close>

definition transaction :: "(db \<Rightarrow> 'a result) \<Rightarrow> db \<Rightarrow> 'a result" where
  "transaction f d =
     (case f d of
        (d', Inl e) \<Rightarrow>
          (d\<lparr>ids_drawn := ids_drawn d', secrets_drawn := secrets_drawn d',
             capabilities_drawn := capabilities_drawn d'\<rparr>, Inl e)
      | (d', Inr x) \<Rightarrow> (d', Inr x))"

lemma transaction_Inr [res_simps]: "transaction f d = (d', Inr x) \<longleftrightarrow> f d = (d', Inr x)"
  by (auto simp: transaction_def split: prod.splits sum.splits)

text \<open>Two databases agree on every table.\<close>

definition same_tables :: "db \<Rightarrow> db \<Rightarrow> bool" where
  "same_tables d d' \<longleftrightarrow>
     d' = d\<lparr>ids_drawn := ids_drawn d', secrets_drawn := secrets_drawn d',
            capabilities_drawn := capabilities_drawn d'\<rparr>"

lemma same_tables_refl [simp]: "same_tables d d"
  by (simp add: same_tables_def)

text \<open>A throw inside a transaction leaves every table as it was.\<close>

lemma transaction_Inl: "transaction f d = (d', Inl e) \<Longrightarrow> same_tables d d' \<and> (\<exists>d''. f d = (d'', Inl e))"
  by (auto simp: transaction_def same_tables_def split: prod.splits sum.splits)

lemma same_tables_fields:
  assumes "same_tables d d'"
  shows "sessions d' = sessions d" "messages d' = messages d" "deliveries d' = deliveries d"
    "context_injections d' = context_injections d" "receipts d' = receipts d"
    "audit_events d' = audit_events d" "ledger_events d' = ledger_events d"
    "name_ownership d' = name_ownership d" "aliases d' = aliases d"
    "component_instances d' = component_instances d"
    "recipient_sequences d' = recipient_sequences d" "physical_session_map d' = physical_session_map d"
  using assms unfolding same_tables_def
  by (metis (no_types, lifting) db.select_convs db.update_convs db.surjective)+

section \<open>Shared statements\<close>

definition next_id :: "env \<Rightarrow> db \<Rightarrow> js_string \<times> db" where
  "next_id E d = (id_of E (ids_drawn d), d\<lparr>ids_drawn := Suc (ids_drawn d)\<rparr>)"

definition session_row :: "db \<Rightarrow> js_string \<Rightarrow> session_row option" where
  "session_row d i = List.find (\<lambda>s. s_id s = i) (sessions d)"

definition message_row :: "db \<Rightarrow> js_string \<Rightarrow> message_row option" where
  "message_row d i = List.find (\<lambda>m. m_id m = i) (messages d)"

definition delivery_row :: "db \<Rightarrow> js_string \<Rightarrow> delivery_row option" where
  "delivery_row d i = List.find (\<lambda>x. d_message x = i) (deliveries d)"

definition upd_session :: "js_string \<Rightarrow> (session_row \<Rightarrow> session_row) \<Rightarrow> db \<Rightarrow> db" where
  "upd_session i f d = d\<lparr>sessions := upd_where (\<lambda>s. s_id s = i) f (sessions d)\<rparr>"

definition str_field :: "string \<Rightarrow> (string \<times> jval) list \<Rightarrow> js_string option" where
  "str_field k fs = (case map_of fs k of Some (JStr s) \<Rightarrow> Some s | _ \<Rightarrow> None)"

text \<open>
  INSERT INTO \<open>audit_events\<close>, and the \<open>audit\<close> method of \<open>BrokerStore\<close> and \<open>DeliveryOps\<close>: the actor,
  instance, message and trace columns are read out of the given fields.
\<close>

definition insert_audit ::
  "env \<Rightarrow> string \<Rightarrow> js_string option \<Rightarrow> js_string option \<Rightarrow> js_string option \<Rightarrow> js_string option \<Rightarrow>
     (string \<times> jval) list \<Rightarrow> db \<Rightarrow> db" where
  "insert_audit E ev sess inst msg trace fs d =
     (let (i, d) = next_id E d in
      d\<lparr>audit_events := audit_events d @
          [\<lparr>au_id = i, au_event = ev, au_session = sess, au_instance = inst, au_message = msg,
            au_trace = trace, au_metadata = fs, au_createdAt = now E\<rparr>]\<rparr>)"

definition audit :: "env \<Rightarrow> string \<Rightarrow> (string \<times> jval) list \<Rightarrow> db \<Rightarrow> db" where
  "audit E ev fs d =
     insert_audit E ev (str_field ''sessionId'' fs) (str_field ''instanceId'' fs)
       (str_field ''messageId'' fs) (str_field ''traceId'' fs) fs d"

text \<open>
  The frame of an audit insert: everything but the audit table and the id counter.
\<close>

lemma insert_audit_frame [simp]:
  "sessions (insert_audit E ev se ins ms tr fs d) = sessions d"
  "aliases (insert_audit E ev se ins ms tr fs d) = aliases d"
  "recipient_sequences (insert_audit E ev se ins ms tr fs d) = recipient_sequences d"
  "messages (insert_audit E ev se ins ms tr fs d) = messages d"
  "deliveries (insert_audit E ev se ins ms tr fs d) = deliveries d"
  "receipts (insert_audit E ev se ins ms tr fs d) = receipts d"
  "write_log (insert_audit E ev se ins ms tr fs d) = write_log d"
  "session_epochs (insert_audit E ev se ins ms tr fs d) = session_epochs d"
  "component_instances (insert_audit E ev se ins ms tr fs d) = component_instances d"
  "context_injections (insert_audit E ev se ins ms tr fs d) = context_injections d"
  "session_controls (insert_audit E ev se ins ms tr fs d) = session_controls d"
  "blocked_peers (insert_audit E ev se ins ms tr fs d) = blocked_peers d"
  "delivery_leases (insert_audit E ev se ins ms tr fs d) = delivery_leases d"
  "ledger_events (insert_audit E ev se ins ms tr fs d) = ledger_events d"
  "ledger_anchors (insert_audit E ev se ins ms tr fs d) = ledger_anchors d"
  "threads (insert_audit E ev se ins ms tr fs d) = threads d"
  "thread_participants (insert_audit E ev se ins ms tr fs d) = thread_participants d"
  "thread_sequences (insert_audit E ev se ins ms tr fs d) = thread_sequences d"
  "physical_session_map (insert_audit E ev se ins ms tr fs d) = physical_session_map d"
  "name_ownership (insert_audit E ev se ins ms tr fs d) = name_ownership d"
  "collections (insert_audit E ev se ins ms tr fs d) = collections d"
  "collection_members (insert_audit E ev se ins ms tr fs d) = collection_members d"
  "schedules (insert_audit E ev se ins ms tr fs d) = schedules d"
  "schedule_runs (insert_audit E ev se ins ms tr fs d) = schedule_runs d"
  "fencing_counter (insert_audit E ev se ins ms tr fs d) = fencing_counter d"
  "secrets_drawn (insert_audit E ev se ins ms tr fs d) = secrets_drawn d"
  "capabilities_drawn (insert_audit E ev se ins ms tr fs d) = capabilities_drawn d"
  "ids_drawn (insert_audit E ev se ins ms tr fs d) = Suc (ids_drawn d)"
  by (simp_all add: insert_audit_def next_id_def)

lemma audit_frame [simp]:
  "sessions (audit E ev fs d) = sessions d"
  "aliases (audit E ev fs d) = aliases d"
  "recipient_sequences (audit E ev fs d) = recipient_sequences d"
  "messages (audit E ev fs d) = messages d"
  "deliveries (audit E ev fs d) = deliveries d"
  "receipts (audit E ev fs d) = receipts d"
  "write_log (audit E ev fs d) = write_log d"
  "session_epochs (audit E ev fs d) = session_epochs d"
  "component_instances (audit E ev fs d) = component_instances d"
  "context_injections (audit E ev fs d) = context_injections d"
  "session_controls (audit E ev fs d) = session_controls d"
  "blocked_peers (audit E ev fs d) = blocked_peers d"
  "delivery_leases (audit E ev fs d) = delivery_leases d"
  "ledger_events (audit E ev fs d) = ledger_events d"
  "ledger_anchors (audit E ev fs d) = ledger_anchors d"
  "threads (audit E ev fs d) = threads d"
  "thread_participants (audit E ev fs d) = thread_participants d"
  "thread_sequences (audit E ev fs d) = thread_sequences d"
  "physical_session_map (audit E ev fs d) = physical_session_map d"
  "name_ownership (audit E ev fs d) = name_ownership d"
  "collections (audit E ev fs d) = collections d"
  "collection_members (audit E ev fs d) = collection_members d"
  "schedules (audit E ev fs d) = schedules d"
  "schedule_runs (audit E ev fs d) = schedule_runs d"
  "fencing_counter (audit E ev fs d) = fencing_counter d"
  "secrets_drawn (audit E ev fs d) = secrets_drawn d"
  "capabilities_drawn (audit E ev fs d) = capabilities_drawn d"
  "ids_drawn (audit E ev fs d) = Suc (ids_drawn d)"
  by (simp_all add: audit_def)

lemma audit_rows [simp]:
  "session_row (insert_audit E ev se ins ms tr fs d) i = session_row d i"
  "message_row (insert_audit E ev se ins ms tr fs d) i = message_row d i"
  "delivery_row (insert_audit E ev se ins ms tr fs d) i = delivery_row d i"
  "session_row (audit E ev fs d) i = session_row d i"
  "message_row (audit E ev fs d) i = message_row d i"
  "delivery_row (audit E ev fs d) i = delivery_row d i"
  by (simp_all add: session_row_def message_row_def delivery_row_def)

lemma session_row_upd:
  assumes "\<And>s. s_id (f s) = s_id s"
  shows "session_row (upd_session i f d) j = (if j = i then map_option f (session_row d i) else session_row d j)"
proof -
  have "List.find (\<lambda>s. s_id s = j) (upd_where (\<lambda>s. s_id s = i) f (sessions d))
        = map_option (\<lambda>r. if s_id r = i then f r else r) (List.find (\<lambda>s. s_id s = j) (sessions d))"
    by (rule find_upd_key) (rule assms)
  then show ?thesis
    by (cases "List.find (\<lambda>s. s_id s = j) (sessions d)")
      (auto simp: upd_session_def session_row_def dest: find_SomeD)
qed

lemma upd_session_frame [simp]:
  "aliases (upd_session i f d) = aliases d"
  "recipient_sequences (upd_session i f d) = recipient_sequences d"
  "messages (upd_session i f d) = messages d"
  "deliveries (upd_session i f d) = deliveries d"
  "receipts (upd_session i f d) = receipts d"
  "write_log (upd_session i f d) = write_log d"
  "session_epochs (upd_session i f d) = session_epochs d"
  "component_instances (upd_session i f d) = component_instances d"
  "context_injections (upd_session i f d) = context_injections d"
  "session_controls (upd_session i f d) = session_controls d"
  "blocked_peers (upd_session i f d) = blocked_peers d"
  "delivery_leases (upd_session i f d) = delivery_leases d"
  "ledger_events (upd_session i f d) = ledger_events d"
  "ledger_anchors (upd_session i f d) = ledger_anchors d"
  "threads (upd_session i f d) = threads d"
  "thread_participants (upd_session i f d) = thread_participants d"
  "thread_sequences (upd_session i f d) = thread_sequences d"
  "physical_session_map (upd_session i f d) = physical_session_map d"
  "name_ownership (upd_session i f d) = name_ownership d"
  "collections (upd_session i f d) = collections d"
  "collection_members (upd_session i f d) = collection_members d"
  "schedules (upd_session i f d) = schedules d"
  "schedule_runs (upd_session i f d) = schedule_runs d"
  "fencing_counter (upd_session i f d) = fencing_counter d"
  "secrets_drawn (upd_session i f d) = secrets_drawn d"
  "capabilities_drawn (upd_session i f d) = capabilities_drawn d"
  "audit_events (upd_session i f d) = audit_events d"
  "ids_drawn (upd_session i f d) = ids_drawn d"
  by (simp_all add: upd_session_def)

lemma upd_session_rows [simp]:
  "message_row (upd_session i f d) j = message_row d j"
  "delivery_row (upd_session i f d) j = delivery_row d j"
  by (simp_all add: message_row_def delivery_row_def)

text \<open>
  \<open>refreshMeaningfulActivity\<close> of the store and \<open>refreshActivity\<close> of the delivery operations: the
  same statement, guarded on \<open>expired_at IS NULL\<close>.
\<close>

definition MEANINGFUL_ACTIVITY_RETENTION_MS :: int where
  "MEANINGFUL_ACTIVITY_RETENTION_MS = 15 * 24 * 60 * 60000"

definition refreshMeaningfulActivity :: "env \<Rightarrow> js_string \<Rightarrow> db \<Rightarrow> db" where
  "refreshMeaningfulActivity E sid d =
     d\<lparr>sessions := upd_where (\<lambda>s. s_id s = sid \<and> s_expiredAt s = None)
         (\<lambda>s. s\<lparr>s_lastActivityAt := Some (now E),
                s_expiresAt := Some (now E + MEANINGFUL_ACTIVITY_RETENTION_MS), s_updatedAt := now E\<rparr>)
         (sessions d)\<rparr>"

lemma refresh_frame [simp]:
  "aliases (refreshMeaningfulActivity E sid d) = aliases d"
  "recipient_sequences (refreshMeaningfulActivity E sid d) = recipient_sequences d"
  "messages (refreshMeaningfulActivity E sid d) = messages d"
  "deliveries (refreshMeaningfulActivity E sid d) = deliveries d"
  "receipts (refreshMeaningfulActivity E sid d) = receipts d"
  "write_log (refreshMeaningfulActivity E sid d) = write_log d"
  "session_epochs (refreshMeaningfulActivity E sid d) = session_epochs d"
  "component_instances (refreshMeaningfulActivity E sid d) = component_instances d"
  "context_injections (refreshMeaningfulActivity E sid d) = context_injections d"
  "session_controls (refreshMeaningfulActivity E sid d) = session_controls d"
  "blocked_peers (refreshMeaningfulActivity E sid d) = blocked_peers d"
  "delivery_leases (refreshMeaningfulActivity E sid d) = delivery_leases d"
  "ledger_events (refreshMeaningfulActivity E sid d) = ledger_events d"
  "ledger_anchors (refreshMeaningfulActivity E sid d) = ledger_anchors d"
  "threads (refreshMeaningfulActivity E sid d) = threads d"
  "thread_participants (refreshMeaningfulActivity E sid d) = thread_participants d"
  "thread_sequences (refreshMeaningfulActivity E sid d) = thread_sequences d"
  "physical_session_map (refreshMeaningfulActivity E sid d) = physical_session_map d"
  "name_ownership (refreshMeaningfulActivity E sid d) = name_ownership d"
  "collections (refreshMeaningfulActivity E sid d) = collections d"
  "collection_members (refreshMeaningfulActivity E sid d) = collection_members d"
  "schedules (refreshMeaningfulActivity E sid d) = schedules d"
  "schedule_runs (refreshMeaningfulActivity E sid d) = schedule_runs d"
  "fencing_counter (refreshMeaningfulActivity E sid d) = fencing_counter d"
  "secrets_drawn (refreshMeaningfulActivity E sid d) = secrets_drawn d"
  "capabilities_drawn (refreshMeaningfulActivity E sid d) = capabilities_drawn d"
  "audit_events (refreshMeaningfulActivity E sid d) = audit_events d"
  "ids_drawn (refreshMeaningfulActivity E sid d) = ids_drawn d"
  by (simp_all add: refreshMeaningfulActivity_def)

lemma refresh_rows [simp]:
  "message_row (refreshMeaningfulActivity E sid d) j = message_row d j"
  "delivery_row (refreshMeaningfulActivity E sid d) j = delivery_row d j"
  by (simp_all add: message_row_def delivery_row_def)

section \<open>Authority and the epoch fence\<close>

record authority =
  a_session :: js_string
  a_instance :: js_string
  a_component :: js_string
  a_role :: component_role
  a_epoch :: nat
  a_fencing :: "nat option"
  a_conn :: js_string

text \<open>
  \<open>assertCurrentEpoch\<close> of \<open>BrokerStore\<close> and \<open>DeliveryOps\<close>. The store calls it inside a transaction,
  so that its audit row is undone by the throw; the delivery operations call it before theirs.
\<close>

definition assertCurrentEpoch :: "env \<Rightarrow> authority \<Rightarrow> db \<Rightarrow> unit result" where
  "assertCurrentEpoch E auth d =
     (case session_row d (a_session auth) of
        None \<Rightarrow> (d, Inl (xerr SESSION_NOT_REGISTERED))
      | Some s \<Rightarrow>
          if s_epoch s \<noteq> a_epoch auth
          then (audit E ''EPOCH_MISMATCH_REJECTED''
                  [(''sessionId'', JStr (a_session auth)), (''instanceId'', JStr (a_component auth))] d,
                Inl (xerr EPOCH_MISMATCH))
          else (d, Inr ()))"

definition current_epoch :: "db \<Rightarrow> authority \<Rightarrow> bool" where
  "current_epoch d auth \<longleftrightarrow>
     (case session_row d (a_session auth) of None \<Rightarrow> False | Some s \<Rightarrow> s_epoch s = a_epoch auth)"

lemma assertCurrentEpoch_Inr [res_simps]:
  "assertCurrentEpoch E auth d = (d', Inr u) \<longleftrightarrow> d' = d \<and> current_epoch d auth"
  by (auto simp: assertCurrentEpoch_def current_epoch_def split: option.splits)

lemma assertCurrentEpoch_current: "current_epoch d auth \<Longrightarrow> assertCurrentEpoch E auth d = (d, Inr ())"
  by (auto simp: assertCurrentEpoch_def current_epoch_def split: option.splits)

lemma assertCurrentEpoch_stale:
  "\<not> current_epoch d auth \<Longrightarrow>
     \<exists>e d'. assertCurrentEpoch E auth d = (d', Inl e) \<and> e \<in> {xerr SESSION_NOT_REGISTERED, xerr EPOCH_MISMATCH}"
  by (auto simp: assertCurrentEpoch_def current_epoch_def split: option.splits)

section \<open>Sample rows for the witnesses\<close>

definition sample_session :: "js_string \<Rightarrow> session_row" where
  "sample_session i =
     \<lparr>s_id = i, s_logical = Some i, s_instance = None, s_generation = 1, s_highWater = 1, s_epoch = 1,
      s_fencing = Some 1, s_boundConn = None, s_autoAlias = SESSION_PREFIX @ i, s_projectId = js ''p'', s_projectAlias = None,
      s_cwd = js ''/'', s_repoRoot = None, s_ccVersion = None, s_capabilities = [js ''ack''], s_receiveMode = js ''hook_checkpoint'',
      s_state = Conn_Connected, s_readiness = Ready_Checkpoint, s_readinessAt = None, s_agentType = None,
      s_connectedAt = None, s_disconnectedAt = None, s_lastSeenAt = 0, s_lastCheckpointAt = None, s_createdAt = 0, s_updatedAt = 0,
      s_name = None, s_normName = None, s_nameState = Unnamed, s_pendingNameExpiresAt = None,
      s_lastActivityAt = None, s_expiresAt = None, s_expiredAt = None, s_expReason = None, s_mgmt = Mgmt_Active,
      s_sourceLast = None, s_confidence = ''signal'', s_transcript = None, s_firstSeenAt = None,
      s_lastSeenSourceAt = None, s_title = None, s_titleSource = None, s_titleAt = None, s_pinned = False,
      s_archived = False, s_archivedAt = None, s_managed = False, s_managedPid = None, s_managedStartedAt = None,
      s_managedKey = None\<rparr>"

definition sample_thread :: "js_string \<Rightarrow> thread_row" where
  "sample_thread t = \<lparr>t_id = t, t_root = t, t_subject = None, t_createdBy = t, t_open = True, t_createdAt = 0,
     t_updatedAt = 0, t_lastMessageAt = 0, t_lastSequence = 0\<rparr>"

lemma sample_session_simps [simp]:
  "s_id (sample_session i) = i"
  "s_logical (sample_session i) = Some i"
  "s_epoch (sample_session i) = 1"
  "s_fencing (sample_session i) = Some 1"
  "s_boundConn (sample_session i) = None"
  "s_capabilities (sample_session i) = [js ''ack'']"
  "s_receiveMode (sample_session i) = js ''hook_checkpoint''"
  "s_state (sample_session i) = Conn_Connected"
  "s_readiness (sample_session i) = Ready_Checkpoint"
  "s_name (sample_session i) = None"
  "s_normName (sample_session i) = None"
  "s_nameState (sample_session i) = Unnamed"
  "s_expiresAt (sample_session i) = None"
  "s_expiredAt (sample_session i) = None"
  "s_mgmt (sample_session i) = Mgmt_Active"
  "s_autoAlias (sample_session i) = SESSION_PREFIX @ i"
  by (simp_all add: sample_session_def)

lemma sample_thread_id [simp]: "t_id (sample_thread t) = t"
  by (simp add: sample_thread_def)

end
