(* ===== verification/Controls.thy ===== *)
theory Controls
  imports Database
begin

text \<open>
  Receive controls and the sender block list of \<^verbatim>\<open>src/broker/controls.ts\<close> (\<open>ControlsStore\<close>), with the
  contract the delivery gate and the send path rely on: a read returns the last value written for
  that session and no other session is affected.
\<close>

section \<open>Model\<close>

datatype receive_control = RC_Active | RC_Paused | RC_Do_Not_Disturb | RC_Manual_Checkpoint

definition control_row_of :: "db \<Rightarrow> js_string \<Rightarrow> control_row option" where
  "control_row_of d sid = List.find (\<lambda>r. ctl_session r = sid) (session_controls d)"

definition getControl :: "db \<Rightarrow> js_string \<Rightarrow> receive_control" where
  "getControl d sid =
     (case control_row_of d sid of
        None \<Rightarrow> RC_Active
      | Some r \<Rightarrow>
          if ctl_receiving r = 0 then RC_Paused
          else if ctl_receiving r = 2 then RC_Do_Not_Disturb
          else if ctl_receiving r = 3 then RC_Manual_Checkpoint
          else RC_Active)"

definition setControl :: "env \<Rightarrow> js_string \<Rightarrow> receive_control \<Rightarrow> db \<Rightarrow> db" where
  "setControl E sid mode d =
     (let v = (if mode = RC_Paused then 0 else if mode = RC_Do_Not_Disturb then 2
               else if mode = RC_Manual_Checkpoint then 3 else 1);
          row = \<lparr>ctl_session = sid, ctl_receiving = v,
                 ctl_pausedAt = (if mode = RC_Active then None else Some (now E)), ctl_updatedAt = now E\<rparr>
      in d\<lparr>session_controls :=
            (if control_row_of d sid = None then session_controls d @ [row]
             else upd_where (\<lambda>r. ctl_session r = sid) (\<lambda>_. row) (session_controls d))\<rparr>)"

definition autoDeliveryEnabled :: "db \<Rightarrow> js_string \<Rightarrow> bool" where
  "autoDeliveryEnabled d sid \<longleftrightarrow> getControl d sid = RC_Active"

definition isBlocked :: "env \<Rightarrow> db \<Rightarrow> js_string \<Rightarrow> js_string \<Rightarrow> bool" where
  "isBlocked E d owner senderAliasCi =
     list_ex (\<lambda>b. bl_owner b = owner \<and> bl_alias b = to_lower (uni E) senderAliasCi) (blocked_peers d)"

text \<open>INSERT OR IGNORE against UNIQUE(owner_session_id, blocked_alias_ci).\<close>

definition blockPeer :: "env \<Rightarrow> js_string \<Rightarrow> js_string \<Rightarrow> db \<Rightarrow> db" where
  "blockPeer E owner blockedAliasCi d =
     (let (i, d) = next_id E d;
          a = to_lower (uni E) blockedAliasCi
      in if list_ex (\<lambda>b. bl_owner b = owner \<and> bl_alias b = a) (blocked_peers d) then d
         else d\<lparr>blocked_peers := blocked_peers d @
                 [\<lparr>bl_id = i, bl_owner = owner, bl_alias = a, bl_createdAt = now E\<rparr>]\<rparr>)"

definition unblockPeer :: "env \<Rightarrow> js_string \<Rightarrow> js_string \<Rightarrow> db \<Rightarrow> db" where
  "unblockPeer E owner blockedAliasCi d =
     d\<lparr>blocked_peers :=
        del_where (\<lambda>b. bl_owner b = owner \<and> bl_alias b = to_lower (uni E) blockedAliasCi) (blocked_peers d)\<rparr>"

section \<open>The contract of a per-key setting\<close>

locale keyed_setting =
  fixes get :: "'s \<Rightarrow> 'k \<Rightarrow> 'v" and set_to :: "'e \<Rightarrow> 'k \<Rightarrow> 'v \<Rightarrow> 's \<Rightarrow> 's"
  assumes get_set: "get (set_to e k v s) k = v"
    and get_other: "j \<noteq> k \<Longrightarrow> get (set_to e k v s) j = get s j"
begin

text \<open>After a sequence of writes, each key reads as the last value written to it.\<close>

lemma get_writes:
  "get (fold (\<lambda>(e, k, v). set_to e k v) ws s) j
   = (case map_of (rev (map (\<lambda>(e, k, v). (k, v)) ws)) j of None \<Rightarrow> get s j | Some v \<Rightarrow> v)"
proof (induction ws rule: rev_induct)
  case Nil
  then show ?case by simp
next
  case (snoc w ws)
  obtain e k v where "w = (e, k, v)" by (cases w)
  with snoc show ?case by (cases "j = k") (simp_all add: get_set get_other)
qed

end

lemma getControl_setControl: "getControl (setControl E i m d) j = (if j = i then m else getControl d j)"
proof (cases "control_row_of d i")
  case None
  then show ?thesis
    by (cases m) (auto simp: getControl_def setControl_def control_row_of_def Let_def find_append split: option.splits)
next
  case (Some r)
  have "List.find (\<lambda>r. ctl_session r = j) (upd_where (\<lambda>r. ctl_session r = i) (\<lambda>_. row) (session_controls d))
        = (if j = i then Some row else List.find (\<lambda>r. ctl_session r = j) (session_controls d))"
    if "ctl_session row = i" for row
  proof -
    have "List.find (\<lambda>r. ctl_session r = j) (upd_where (\<lambda>r. ctl_session r = i) (\<lambda>_. row) (session_controls d))
        = map_option (\<lambda>r. if ctl_session r = i then row else r) (List.find (\<lambda>r. ctl_session r = j) (session_controls d))"
      using that by (intro find_upd_where) auto
    with Some show ?thesis
      by (cases "List.find (\<lambda>r. ctl_session r = j) (session_controls d)")
        (auto simp: control_row_of_def dest: find_SomeD)
  qed
  with Some show ?thesis
    by (cases m) (auto simp: getControl_def setControl_def control_row_of_def Let_def)
qed

interpretation receive: keyed_setting getControl setControl
  by unfold_locales (simp_all add: getControl_setControl)

lemma setControl_frame [simp]:
  "sessions (setControl E i m d) = sessions d" "messages (setControl E i m d) = messages d"
  "deliveries (setControl E i m d) = deliveries d" "receipts (setControl E i m d) = receipts d"
  "context_injections (setControl E i m d) = context_injections d"
  "name_ownership (setControl E i m d) = name_ownership d" "aliases (setControl E i m d) = aliases d"
  "ledger_events (setControl E i m d) = ledger_events d" "ledger_anchors (setControl E i m d) = ledger_anchors d"
  "recipient_sequences (setControl E i m d) = recipient_sequences d"
  "physical_session_map (setControl E i m d) = physical_session_map d"
  by (simp_all add: setControl_def Let_def)

section \<open>The block list\<close>

lemma isBlocked_blockPeer:
  "isBlocked E (blockPeer E o' a d) i b \<longleftrightarrow>
     isBlocked E d i b \<or> (i = o' \<and> to_lower (uni E) b = to_lower (uni E) a)"
  by (auto simp: isBlocked_def blockPeer_def Let_def next_id_def list_ex_iff)

lemma isBlocked_unblockPeer:
  "isBlocked E (unblockPeer E o' a d) i b \<longleftrightarrow>
     isBlocked E d i b \<and> \<not> (i = o' \<and> to_lower (uni E) b = to_lower (uni E) a)"
  by (auto simp: isBlocked_def unblockPeer_def list_ex_iff)

section \<open>Correctness of the controls\<close>

text \<open>after any sequence of control changes a session has the mode last set for it, sessions never set keep theirs,
  and automatic delivery is on exactly in the active mode.\<close>

theorem control_last_write:
  "autoDeliveryEnabled (fold (\<lambda>(E, i, m). setControl E i m) ws d) j \<longleftrightarrow>
     (case map_of (rev (map (\<lambda>(E, i, m). (i, m)) ws)) j of None \<Rightarrow> autoDeliveryEnabled d j | Some m \<Rightarrow> m = RC_Active)"
  using receive.get_writes [of ws d j] by (simp add: autoDeliveryEnabled_def split: option.splits)

end
