(* ===== verification/Sequences.thy ===== *)
theory Sequences
  imports Database
begin

text \<open>
  Rows every message writes: the per-recipient and per-thread sequence counters, the thread and its
  participants (the thread helpers of \<^verbatim>\<open>src/broker/store.ts\<close> and \<^verbatim>\<open>src/broker/delivery.ts\<close>,
  \<open>allocSequence\<close> of \<^verbatim>\<open>src/broker/daemon.ts\<close>) and the message itself, with the unique indexes and
  foreign keys of \<^verbatim>\<open>src/database/migrations.ts\<close> as error branches.
\<close>

section \<open>Counters\<close>

definition seq_next :: "js_string \<Rightarrow> seq_row list \<Rightarrow> nat" where
  "seq_next k rs = (case List.find (\<lambda>r. q_key r = k) rs of None \<Rightarrow> 1 | Some r \<Rightarrow> q_next r)"

text \<open>INSERT OR REPLACE.\<close>

definition seq_put :: "js_string \<Rightarrow> nat \<Rightarrow> seq_row list \<Rightarrow> seq_row list" where
  "seq_put k n rs = del_where (\<lambda>r. q_key r = k) rs @ [\<lparr>q_key = k, q_next = n\<rparr>]"

lemma seq_next_Nil [simp]: "seq_next k [] = 1"
  by (simp add: seq_next_def)

lemma seq_next_put: "seq_next j (seq_put k n rs) = (if j = k then n else seq_next j rs)"
proof -
  have "List.find (\<lambda>r. q_key r = j) (del_where (\<lambda>r. q_key r = k) rs)
        = (if j = k then None else List.find (\<lambda>r. q_key r = j) rs)"
    by (auto simp: find_None_conv intro: find_del_other)
  then show ?thesis by (simp add: seq_next_def seq_put_def find_append split: option.splits)
qed

text \<open>The counter row refers to a session (foreign key).\<close>

definition allocSequence :: "js_string \<Rightarrow> db \<Rightarrow> nat result" where
  "allocSequence sid d =
     (let n = seq_next sid (recipient_sequences d) in
      if session_row d sid = None then (d, Inl SqliteConstraint)
      else (d\<lparr>recipient_sequences := seq_put sid (n + 1) (recipient_sequences d)\<rparr>, Inr n))"

definition thread_of :: "db \<Rightarrow> js_string \<Rightarrow> thread_row option" where
  "thread_of d t = List.find (\<lambda>r. t_id r = t) (threads d)"

definition allocThreadSequence :: "js_string \<Rightarrow> db \<Rightarrow> nat result" where
  "allocThreadSequence t d =
     (let n = seq_next t (thread_sequences d) in
      if thread_of d t = None then (d, Inl SqliteConstraint)
      else (d\<lparr>thread_sequences := seq_put t (n + 1) (thread_sequences d)\<rparr>, Inr n))"

section \<open>Threads and participants\<close>

definition ensureThread :: "env \<Rightarrow> js_string \<Rightarrow> js_string \<Rightarrow> js_string \<Rightarrow> db \<Rightarrow> db" where
  "ensureThread E t rootMsg actor d =
     (let d = (if thread_of d t \<noteq> None then d
               else d\<lparr>threads := threads d @
                     [\<lparr>t_id = t, t_root = rootMsg, t_subject = None, t_createdBy = actor, t_open = True,
                       t_createdAt = now E, t_updatedAt = now E, t_lastMessageAt = now E, t_lastSequence = 0\<rparr>]\<rparr>)
      in if List.find (\<lambda>r. q_key r = t) (thread_sequences d) \<noteq> None then d
         else d\<lparr>thread_sequences := thread_sequences d @ [\<lparr>q_key = t, q_next = 1\<rparr>]\<rparr>)"

definition ensureParticipant :: "env \<Rightarrow> js_string \<Rightarrow> js_string \<Rightarrow> actor_kind \<Rightarrow> db \<Rightarrow> db" where
  "ensureParticipant E t sid kind d =
     (let (i, d) = next_id E d in
      if list_ex (\<lambda>p. p_thread p = t \<and> p_session p = sid) (thread_participants d) then d
      else d\<lparr>thread_participants := thread_participants d @
              [\<lparr>p_id = i, p_thread = t, p_session = sid, p_kind = kind, p_joinedAt = now E, p_lastRead = 0\<rparr>]\<rparr>)"

definition touchThread :: "env \<Rightarrow> js_string \<Rightarrow> nat \<Rightarrow> db \<Rightarrow> db" where
  "touchThread E t n d =
     d\<lparr>threads := upd_where (\<lambda>r. t_id r = t)
         (\<lambda>r. r\<lparr>t_updatedAt := now E, t_lastMessageAt := now E, t_lastSequence := max (t_lastSequence r) n\<rparr>)
         (threads d)\<rparr>"

definition markRead :: "js_string \<Rightarrow> js_string \<Rightarrow> nat \<Rightarrow> db \<Rightarrow> db" where
  "markRead t sid n d =
     d\<lparr>thread_participants := upd_where (\<lambda>p. p_thread p = t \<and> p_session p = sid)
         (\<lambda>p. p\<lparr>p_lastRead := max (p_lastRead p) n\<rparr>) (thread_participants d)\<rparr>"

section \<open>Message and delivery rows\<close>

text \<open>
  INSERT INTO messages: the primary key, \<open>ux_idem\<close> and \<open>ux_recipseq\<close>.
\<close>

definition message_conflict :: "message_row \<Rightarrow> message_row \<Rightarrow> bool" where
  "message_conflict m r \<longleftrightarrow> m_id r = m_id m
     \<or> (m_sender r = m_sender m \<and> m_idempotency m \<noteq> None \<and> m_idempotency r = m_idempotency m)
     \<or> (m_recipient r = m_recipient m \<and> m_sequence r = m_sequence m)"

definition insert_message :: "message_row \<Rightarrow> db \<Rightarrow> unit result" where
  "insert_message m d =
     (if list_ex (message_conflict m) (messages d) then (d, Inl SqliteConstraint)
      else (d\<lparr>messages := messages d @ [m]\<rparr>, Inr ()))"

definition insert_delivery :: "env \<Rightarrow> js_string \<Rightarrow> js_string \<Rightarrow> db \<Rightarrow> db" where
  "insert_delivery E msg sid d =
     (let (i, d) = next_id E d in
      d\<lparr>deliveries := deliveries d @
         [\<lparr>d_id = i, d_message = msg, d_recipient = sid, d_targetInstance = None, d_targetGeneration = None,
           d_fencing = None, d_attempt = 0, d_attemptTransport = 0, d_attemptInjection = 0,
           d_attemptAckTimeout = 0, d_attemptReply = 0, d_state = Queued, d_rejectedReason = None,
           d_failureCategory = None, d_leaseAcquiredAt = None, d_leaseExpiresAt = None,
           d_transportWrittenAt = None, d_acceptedAt = None, d_completedAt = None, d_nextAttemptAt = None,
           d_createdAt = now E, d_updatedAt = now E\<rparr>]\<rparr>)"

definition hashBody :: "env \<Rightarrow> js_string \<Rightarrow> js_string" where
  "hashBody E t = sha256 E t"

section \<open>The contract of a counter\<close>

text \<open>A sequence of allocations for the given keys.\<close>

fun alloc_all :: "('k \<Rightarrow> 's \<Rightarrow> ('s, 'e, nat) outcome) \<Rightarrow> 'k list \<Rightarrow> 's \<Rightarrow> ('s, 'e, ('k \<times> nat) list) outcome" where
  "alloc_all alloc [] s = (s, Inr [])"
| "alloc_all alloc (k # ks) s =
     andThen (alloc k s) (\<lambda>n s. andThen (alloc_all alloc ks s) (\<lambda>ns s. (s, Inr ((k, n) # ns))))"

text \<open>
  An allocation returns the next number of its key and moves that key on by one; a refused
  allocation changes nothing.
\<close>

locale sequence_allocator =
  fixes alloc :: "'k \<Rightarrow> 's \<Rightarrow> ('s, 'e, nat) outcome" and next_of :: "'s \<Rightarrow> 'k \<Rightarrow> nat"
  assumes alloc_Inr: "alloc k s = (t, Inr n) \<Longrightarrow> n = next_of s k \<and> next_of t k = n + 1"
    and alloc_other: "alloc k s = (t, r) \<Longrightarrow> j \<noteq> k \<Longrightarrow> next_of t j = next_of s j"
begin

text \<open>Interleaved allocations give each key consecutive numbers, in order.\<close>

lemma alloc_all_consecutive:
  "alloc_all alloc ks s = (t, Inr ns) \<Longrightarrow>
     map snd (filter (\<lambda>(k, n). k = j) ns) = [next_of s j ..< next_of t j] \<and> next_of s j \<le> next_of t j"
proof (induction ks arbitrary: s ns)
  case Nil
  then show ?case by simp
next
  case (Cons k ks)
  then obtain u n ms where a: "alloc k s = (u, Inr n)" and r: "alloc_all alloc ks u = (t, Inr ms)"
    and ns: "ns = (k, n) # ms"
    by (auto simp: res_simps)
  note IH = Cons.IH [OF r]
  show ?case
  proof (cases "j = k")
    case True
    with alloc_Inr [OF a] IH ns show ?thesis by (simp add: upt_conv_Cons)
  next
    case False
    with alloc_other [OF a False] IH ns show ?thesis by simp
  qed
qed

end

interpretation recipient: sequence_allocator allocSequence "\<lambda>d k. seq_next k (recipient_sequences d)"
  by unfold_locales (auto simp: allocSequence_def Let_def seq_next_put split: if_splits)

interpretation thread: sequence_allocator allocThreadSequence "\<lambda>d k. seq_next k (thread_sequences d)"
  by unfold_locales (auto simp: allocThreadSequence_def Let_def seq_next_put split: if_splits)

section \<open>Frames\<close>

lemma allocSequence_frame [simp]:
  "sessions (fst (allocSequence i d)) = sessions d"
  "aliases (fst (allocSequence i d)) = aliases d"
  "messages (fst (allocSequence i d)) = messages d"
  "deliveries (fst (allocSequence i d)) = deliveries d"
  "receipts (fst (allocSequence i d)) = receipts d"
  "write_log (fst (allocSequence i d)) = write_log d"
  "audit_events (fst (allocSequence i d)) = audit_events d"
  "session_epochs (fst (allocSequence i d)) = session_epochs d"
  "component_instances (fst (allocSequence i d)) = component_instances d"
  "context_injections (fst (allocSequence i d)) = context_injections d"
  "session_controls (fst (allocSequence i d)) = session_controls d"
  "blocked_peers (fst (allocSequence i d)) = blocked_peers d"
  "delivery_leases (fst (allocSequence i d)) = delivery_leases d"
  "ledger_events (fst (allocSequence i d)) = ledger_events d"
  "ledger_anchors (fst (allocSequence i d)) = ledger_anchors d"
  "threads (fst (allocSequence i d)) = threads d"
  "thread_participants (fst (allocSequence i d)) = thread_participants d"
  "thread_sequences (fst (allocSequence i d)) = thread_sequences d"
  "physical_session_map (fst (allocSequence i d)) = physical_session_map d"
  "name_ownership (fst (allocSequence i d)) = name_ownership d"
  "collections (fst (allocSequence i d)) = collections d"
  "collection_members (fst (allocSequence i d)) = collection_members d"
  "schedules (fst (allocSequence i d)) = schedules d"
  "schedule_runs (fst (allocSequence i d)) = schedule_runs d"
  "fencing_counter (fst (allocSequence i d)) = fencing_counter d"
  "ids_drawn (fst (allocSequence i d)) = ids_drawn d"
  "secrets_drawn (fst (allocSequence i d)) = secrets_drawn d"
  "capabilities_drawn (fst (allocSequence i d)) = capabilities_drawn d"
  by (simp_all add: allocSequence_def Let_def)

lemma allocThread_frame [simp]:
  "sessions (fst (allocThreadSequence i d)) = sessions d"
  "aliases (fst (allocThreadSequence i d)) = aliases d"
  "recipient_sequences (fst (allocThreadSequence i d)) = recipient_sequences d"
  "messages (fst (allocThreadSequence i d)) = messages d"
  "deliveries (fst (allocThreadSequence i d)) = deliveries d"
  "receipts (fst (allocThreadSequence i d)) = receipts d"
  "write_log (fst (allocThreadSequence i d)) = write_log d"
  "audit_events (fst (allocThreadSequence i d)) = audit_events d"
  "session_epochs (fst (allocThreadSequence i d)) = session_epochs d"
  "component_instances (fst (allocThreadSequence i d)) = component_instances d"
  "context_injections (fst (allocThreadSequence i d)) = context_injections d"
  "session_controls (fst (allocThreadSequence i d)) = session_controls d"
  "blocked_peers (fst (allocThreadSequence i d)) = blocked_peers d"
  "delivery_leases (fst (allocThreadSequence i d)) = delivery_leases d"
  "ledger_events (fst (allocThreadSequence i d)) = ledger_events d"
  "ledger_anchors (fst (allocThreadSequence i d)) = ledger_anchors d"
  "threads (fst (allocThreadSequence i d)) = threads d"
  "thread_participants (fst (allocThreadSequence i d)) = thread_participants d"
  "physical_session_map (fst (allocThreadSequence i d)) = physical_session_map d"
  "name_ownership (fst (allocThreadSequence i d)) = name_ownership d"
  "collections (fst (allocThreadSequence i d)) = collections d"
  "collection_members (fst (allocThreadSequence i d)) = collection_members d"
  "schedules (fst (allocThreadSequence i d)) = schedules d"
  "schedule_runs (fst (allocThreadSequence i d)) = schedule_runs d"
  "fencing_counter (fst (allocThreadSequence i d)) = fencing_counter d"
  "ids_drawn (fst (allocThreadSequence i d)) = ids_drawn d"
  "secrets_drawn (fst (allocThreadSequence i d)) = secrets_drawn d"
  "capabilities_drawn (fst (allocThreadSequence i d)) = capabilities_drawn d"
  by (simp_all add: allocThreadSequence_def Let_def)

lemma ensureThread_frame [simp]:
  "sessions (ensureThread E t r a d) = sessions d"
  "aliases (ensureThread E t r a d) = aliases d"
  "recipient_sequences (ensureThread E t r a d) = recipient_sequences d"
  "messages (ensureThread E t r a d) = messages d"
  "deliveries (ensureThread E t r a d) = deliveries d"
  "receipts (ensureThread E t r a d) = receipts d"
  "write_log (ensureThread E t r a d) = write_log d"
  "audit_events (ensureThread E t r a d) = audit_events d"
  "session_epochs (ensureThread E t r a d) = session_epochs d"
  "component_instances (ensureThread E t r a d) = component_instances d"
  "context_injections (ensureThread E t r a d) = context_injections d"
  "session_controls (ensureThread E t r a d) = session_controls d"
  "blocked_peers (ensureThread E t r a d) = blocked_peers d"
  "delivery_leases (ensureThread E t r a d) = delivery_leases d"
  "ledger_events (ensureThread E t r a d) = ledger_events d"
  "ledger_anchors (ensureThread E t r a d) = ledger_anchors d"
  "thread_participants (ensureThread E t r a d) = thread_participants d"
  "physical_session_map (ensureThread E t r a d) = physical_session_map d"
  "name_ownership (ensureThread E t r a d) = name_ownership d"
  "collections (ensureThread E t r a d) = collections d"
  "collection_members (ensureThread E t r a d) = collection_members d"
  "schedules (ensureThread E t r a d) = schedules d"
  "schedule_runs (ensureThread E t r a d) = schedule_runs d"
  "fencing_counter (ensureThread E t r a d) = fencing_counter d"
  "ids_drawn (ensureThread E t r a d) = ids_drawn d"
  "secrets_drawn (ensureThread E t r a d) = secrets_drawn d"
  "capabilities_drawn (ensureThread E t r a d) = capabilities_drawn d"
  by (simp_all add: ensureThread_def Let_def)

lemma ensureParticipant_frame [simp]:
  "sessions (ensureParticipant E t i k d) = sessions d"
  "aliases (ensureParticipant E t i k d) = aliases d"
  "recipient_sequences (ensureParticipant E t i k d) = recipient_sequences d"
  "messages (ensureParticipant E t i k d) = messages d"
  "deliveries (ensureParticipant E t i k d) = deliveries d"
  "receipts (ensureParticipant E t i k d) = receipts d"
  "write_log (ensureParticipant E t i k d) = write_log d"
  "audit_events (ensureParticipant E t i k d) = audit_events d"
  "session_epochs (ensureParticipant E t i k d) = session_epochs d"
  "component_instances (ensureParticipant E t i k d) = component_instances d"
  "context_injections (ensureParticipant E t i k d) = context_injections d"
  "session_controls (ensureParticipant E t i k d) = session_controls d"
  "blocked_peers (ensureParticipant E t i k d) = blocked_peers d"
  "delivery_leases (ensureParticipant E t i k d) = delivery_leases d"
  "ledger_events (ensureParticipant E t i k d) = ledger_events d"
  "ledger_anchors (ensureParticipant E t i k d) = ledger_anchors d"
  "threads (ensureParticipant E t i k d) = threads d"
  "thread_sequences (ensureParticipant E t i k d) = thread_sequences d"
  "physical_session_map (ensureParticipant E t i k d) = physical_session_map d"
  "name_ownership (ensureParticipant E t i k d) = name_ownership d"
  "collections (ensureParticipant E t i k d) = collections d"
  "collection_members (ensureParticipant E t i k d) = collection_members d"
  "schedules (ensureParticipant E t i k d) = schedules d"
  "schedule_runs (ensureParticipant E t i k d) = schedule_runs d"
  "fencing_counter (ensureParticipant E t i k d) = fencing_counter d"
  "secrets_drawn (ensureParticipant E t i k d) = secrets_drawn d"
  "capabilities_drawn (ensureParticipant E t i k d) = capabilities_drawn d"
  by (simp_all add: ensureParticipant_def next_id_def Let_def)

lemma touchThread_frame [simp]:
  "sessions (touchThread E t n d) = sessions d"
  "aliases (touchThread E t n d) = aliases d"
  "recipient_sequences (touchThread E t n d) = recipient_sequences d"
  "messages (touchThread E t n d) = messages d"
  "deliveries (touchThread E t n d) = deliveries d"
  "receipts (touchThread E t n d) = receipts d"
  "write_log (touchThread E t n d) = write_log d"
  "audit_events (touchThread E t n d) = audit_events d"
  "session_epochs (touchThread E t n d) = session_epochs d"
  "component_instances (touchThread E t n d) = component_instances d"
  "context_injections (touchThread E t n d) = context_injections d"
  "session_controls (touchThread E t n d) = session_controls d"
  "blocked_peers (touchThread E t n d) = blocked_peers d"
  "delivery_leases (touchThread E t n d) = delivery_leases d"
  "ledger_events (touchThread E t n d) = ledger_events d"
  "ledger_anchors (touchThread E t n d) = ledger_anchors d"
  "thread_participants (touchThread E t n d) = thread_participants d"
  "thread_sequences (touchThread E t n d) = thread_sequences d"
  "physical_session_map (touchThread E t n d) = physical_session_map d"
  "name_ownership (touchThread E t n d) = name_ownership d"
  "collections (touchThread E t n d) = collections d"
  "collection_members (touchThread E t n d) = collection_members d"
  "schedules (touchThread E t n d) = schedules d"
  "schedule_runs (touchThread E t n d) = schedule_runs d"
  "fencing_counter (touchThread E t n d) = fencing_counter d"
  "ids_drawn (touchThread E t n d) = ids_drawn d"
  "secrets_drawn (touchThread E t n d) = secrets_drawn d"
  "capabilities_drawn (touchThread E t n d) = capabilities_drawn d"
  by (simp_all add: touchThread_def)

lemma markRead_frame [simp]:
  "sessions (markRead t i n d) = sessions d"
  "aliases (markRead t i n d) = aliases d"
  "recipient_sequences (markRead t i n d) = recipient_sequences d"
  "messages (markRead t i n d) = messages d"
  "deliveries (markRead t i n d) = deliveries d"
  "receipts (markRead t i n d) = receipts d"
  "write_log (markRead t i n d) = write_log d"
  "audit_events (markRead t i n d) = audit_events d"
  "session_epochs (markRead t i n d) = session_epochs d"
  "component_instances (markRead t i n d) = component_instances d"
  "context_injections (markRead t i n d) = context_injections d"
  "session_controls (markRead t i n d) = session_controls d"
  "blocked_peers (markRead t i n d) = blocked_peers d"
  "delivery_leases (markRead t i n d) = delivery_leases d"
  "ledger_events (markRead t i n d) = ledger_events d"
  "ledger_anchors (markRead t i n d) = ledger_anchors d"
  "threads (markRead t i n d) = threads d"
  "thread_sequences (markRead t i n d) = thread_sequences d"
  "physical_session_map (markRead t i n d) = physical_session_map d"
  "name_ownership (markRead t i n d) = name_ownership d"
  "collections (markRead t i n d) = collections d"
  "collection_members (markRead t i n d) = collection_members d"
  "schedules (markRead t i n d) = schedules d"
  "schedule_runs (markRead t i n d) = schedule_runs d"
  "fencing_counter (markRead t i n d) = fencing_counter d"
  "ids_drawn (markRead t i n d) = ids_drawn d"
  "secrets_drawn (markRead t i n d) = secrets_drawn d"
  "capabilities_drawn (markRead t i n d) = capabilities_drawn d"
  by (simp_all add: markRead_def)

lemma insert_message_frame [simp]:
  "sessions (fst (insert_message m d)) = sessions d"
  "aliases (fst (insert_message m d)) = aliases d"
  "recipient_sequences (fst (insert_message m d)) = recipient_sequences d"
  "deliveries (fst (insert_message m d)) = deliveries d"
  "receipts (fst (insert_message m d)) = receipts d"
  "write_log (fst (insert_message m d)) = write_log d"
  "audit_events (fst (insert_message m d)) = audit_events d"
  "session_epochs (fst (insert_message m d)) = session_epochs d"
  "component_instances (fst (insert_message m d)) = component_instances d"
  "context_injections (fst (insert_message m d)) = context_injections d"
  "session_controls (fst (insert_message m d)) = session_controls d"
  "blocked_peers (fst (insert_message m d)) = blocked_peers d"
  "delivery_leases (fst (insert_message m d)) = delivery_leases d"
  "ledger_events (fst (insert_message m d)) = ledger_events d"
  "ledger_anchors (fst (insert_message m d)) = ledger_anchors d"
  "threads (fst (insert_message m d)) = threads d"
  "thread_participants (fst (insert_message m d)) = thread_participants d"
  "thread_sequences (fst (insert_message m d)) = thread_sequences d"
  "physical_session_map (fst (insert_message m d)) = physical_session_map d"
  "name_ownership (fst (insert_message m d)) = name_ownership d"
  "collections (fst (insert_message m d)) = collections d"
  "collection_members (fst (insert_message m d)) = collection_members d"
  "schedules (fst (insert_message m d)) = schedules d"
  "schedule_runs (fst (insert_message m d)) = schedule_runs d"
  "fencing_counter (fst (insert_message m d)) = fencing_counter d"
  "ids_drawn (fst (insert_message m d)) = ids_drawn d"
  "secrets_drawn (fst (insert_message m d)) = secrets_drawn d"
  "capabilities_drawn (fst (insert_message m d)) = capabilities_drawn d"
  by (simp_all add: insert_message_def)

lemma insert_delivery_frame [simp]:
  "sessions (insert_delivery E m i d) = sessions d"
  "aliases (insert_delivery E m i d) = aliases d"
  "recipient_sequences (insert_delivery E m i d) = recipient_sequences d"
  "messages (insert_delivery E m i d) = messages d"
  "receipts (insert_delivery E m i d) = receipts d"
  "write_log (insert_delivery E m i d) = write_log d"
  "audit_events (insert_delivery E m i d) = audit_events d"
  "session_epochs (insert_delivery E m i d) = session_epochs d"
  "component_instances (insert_delivery E m i d) = component_instances d"
  "context_injections (insert_delivery E m i d) = context_injections d"
  "session_controls (insert_delivery E m i d) = session_controls d"
  "blocked_peers (insert_delivery E m i d) = blocked_peers d"
  "delivery_leases (insert_delivery E m i d) = delivery_leases d"
  "ledger_events (insert_delivery E m i d) = ledger_events d"
  "ledger_anchors (insert_delivery E m i d) = ledger_anchors d"
  "threads (insert_delivery E m i d) = threads d"
  "thread_participants (insert_delivery E m i d) = thread_participants d"
  "thread_sequences (insert_delivery E m i d) = thread_sequences d"
  "physical_session_map (insert_delivery E m i d) = physical_session_map d"
  "name_ownership (insert_delivery E m i d) = name_ownership d"
  "collections (insert_delivery E m i d) = collections d"
  "collection_members (insert_delivery E m i d) = collection_members d"
  "schedules (insert_delivery E m i d) = schedules d"
  "schedule_runs (insert_delivery E m i d) = schedule_runs d"
  "fencing_counter (insert_delivery E m i d) = fencing_counter d"
  "secrets_drawn (insert_delivery E m i d) = secrets_drawn d"
  "capabilities_drawn (insert_delivery E m i d) = capabilities_drawn d"
  by (simp_all add: insert_delivery_def next_id_def Let_def)

section \<open>Correctness of the counters\<close>

text \<open>However allocations for different recipients interleave, each recipient's messages get consecutive sequence
  numbers in allocation order, with no gap and no repetition; threads likewise.\<close>

theorem sequences_consecutive:
  assumes "alloc_all allocSequence ks d = (d', Inr ns)" and "alloc_all allocThreadSequence ts e = (e', Inr ms)"
  shows "map snd (filter (\<lambda>(k, n). k = j) ns) = [seq_next j (recipient_sequences d) ..< seq_next j (recipient_sequences d')]
    \<and> map snd (filter (\<lambda>(k, n). k = t) ms) = [seq_next t (thread_sequences e) ..< seq_next t (thread_sequences e')]"
  using recipient.alloc_all_consecutive [OF assms(1)] thread.alloc_all_consecutive [OF assms(2)] by auto

definition sample_db :: db where
  "sample_db = empty_db\<lparr>sessions := [sample_session (js ''a''), sample_session (js ''b'')], threads := [sample_thread (js ''t'')]\<rparr>"

theorem sequences_consecutive_witness:
  "\<exists>d ns e ms. alloc_all allocSequence [js ''a'', js ''b'', js ''a''] sample_db = (d, Inr ns) \<and>
     map snd (filter (\<lambda>(k, n). k = js ''a'') ns) = [1 ..< 3] \<and>
     alloc_all allocThreadSequence [js ''t''] sample_db = (e, Inr ms) \<and> map snd (filter (\<lambda>(k, n). k = js ''t'') ms) = [1 ..< 2]"
proof -
  have r: "alloc_all allocSequence [js ''a'', js ''b'', js ''a''] sample_db
      = (sample_db\<lparr>recipient_sequences := seq_put (js ''a'') (Suc (Suc 1)) (seq_put (js ''b'') (Suc 1) (seq_put (js ''a'') (Suc 1) []))\<rparr>,
         Inr [(js ''a'', 1), (js ''b'', 1), (js ''a'', Suc 1)])"
    by (simp add: sample_db_def allocSequence_def seq_next_put session_row_def)
  have t: "alloc_all allocThreadSequence [js ''t''] sample_db
      = (sample_db\<lparr>thread_sequences := seq_put (js ''t'') (Suc 1) []\<rparr>, Inr [(js ''t'', 1)])"
    by (simp add: sample_db_def allocThreadSequence_def thread_of_def)
  show ?thesis
    using r t sequences_consecutive [OF r t, of "js ''a''" "js ''t''"]
    by (intro exI conjI) (assumption | simp add: seq_next_put sample_db_def eval_nat_numeral)+
qed

end
