(* ===== verification/Receipts.thy ===== *)
theory Receipts
  imports Database
begin

text \<open>
  Context injections of \<^verbatim>\<open>src/broker/receipts.ts\<close> (\<open>ReceiptStore\<close>): recording an injection at most
  once per (message, epoch, logical number), authorising an ack or reply by the injection recorded
  for the caller's session and epoch, and consuming it.
\<close>

section \<open>Model\<close>

definition injected :: "db \<Rightarrow> js_string \<Rightarrow> nat \<Rightarrow> nat \<Rightarrow> bool" where
  "injected d m ep lg =
     list_ex (\<lambda>r. ci_message r = m \<and> ci_epoch r = ep \<and> ci_logical r = lg) (context_injections d)"

record issue_params =
  ip_message :: js_string
  ip_session :: js_string
  ip_epoch :: nat
  ip_checkpoint :: js_string
  ip_component :: js_string
  ip_logical :: nat

text \<open>
  The INSERT fails on the primary key, on \<open>ux_injection_cap\<close> or on \<open>ux_injection_checkpoint\<close>; the code
  catches the failure and returns null. (\<open>ux_injection_logical\<close> was tested just before.)
\<close>

definition issue :: "env \<Rightarrow> int \<Rightarrow> issue_params \<Rightarrow> db \<Rightarrow> js_string option \<times> db" where
  "issue E ttlMs p d =
     (if injected d (ip_message p) (ip_epoch p) (ip_logical p) then (None, d)
      else
        let (i, d) = next_id E d;
            capHash = sha256 E (capability_of E (capabilities_drawn d));
            d = d\<lparr>capabilities_drawn := Suc (capabilities_drawn d)\<rparr>
        in if list_ex (\<lambda>r. ci_id r = i \<or> ci_capHash r = capHash \<or>
                         (ci_message r = ip_message p \<and> ci_checkpoint r = ip_checkpoint p)) (context_injections d)
           then (None, d)
           else (Some i, d\<lparr>context_injections := context_injections d @
                   [\<lparr>ci_id = i, ci_message = ip_message p, ci_session = ip_session p, ci_epoch = ip_epoch p,
                     ci_checkpoint = ip_checkpoint p, ci_component = ip_component p, ci_capHash = capHash,
                     ci_injectedAt = now E, ci_expiresAt = now E + ttlMs, ci_consumedAt = None,
                     ci_consumedOp = None, ci_logical = ip_logical p\<rparr>]\<rparr>))"

text \<open>An empty injection id is falsy in JavaScript and counts as absent.\<close>

definition authorize :: "env \<Rightarrow> receipt_op \<Rightarrow> js_string \<Rightarrow> js_string \<Rightarrow> nat \<Rightarrow> js_string option \<Rightarrow> db \<Rightarrow> xerror + js_string" where
  "authorize E op msg sid ep injectionId d =
     (let row = (if truthy injectionId
                 then List.find (\<lambda>r. ci_id r = the injectionId) (context_injections d)
                 else top_by ci_injectedAt
                        (filter (\<lambda>r. ci_message r = msg \<and> ci_session r = sid \<and> ci_epoch r = ep) (context_injections d)))
      in case row of
           None \<Rightarrow> Inl (xerr INJECTION_NOT_FOUND)
         | Some r \<Rightarrow>
             if ci_message r \<noteq> msg then Inl (xerr INJECTION_NOT_FOUND)
             else if ci_session r \<noteq> sid then Inl (xerr NOT_RECIPIENT)
             else if ci_epoch r \<noteq> ep then Inl (xerr EPOCH_MISMATCH)
             else if ci_expiresAt r \<le> now E then Inl (xerr RECEIPT_EXPIRED)
             else if ci_consumedOp r = Some op then Inl (xerr RECEIPT_REPLAYED)
             else Inr (ci_id r))"

definition consume :: "env \<Rightarrow> js_string \<Rightarrow> receipt_op \<Rightarrow> db \<Rightarrow> db" where
  "consume E injectionId op d =
     d\<lparr>context_injections := upd_where (\<lambda>r. ci_id r = injectionId)
         (\<lambda>r. r\<lparr>ci_consumedAt := Some (now E), ci_consumedOp := Some op\<rparr>) (context_injections d)\<rparr>"

section \<open>Issuing\<close>

lemma issue_cases:
  obtains (blocked) d' where "issue E ttl p d = (None, d')"
      "d' = d\<lparr>ids_drawn := ids_drawn d', capabilities_drawn := capabilities_drawn d'\<rparr>"
  | (issued) i d' r where "issue E ttl p d = (Some i, d')" "\<not> injected d (ip_message p) (ip_epoch p) (ip_logical p)"
      "d' = d\<lparr>ids_drawn := ids_drawn d', capabilities_drawn := capabilities_drawn d',
              context_injections := context_injections d @ [r]\<rparr>"
      "ci_id r = i" "ci_message r = ip_message p" "ci_session r = ip_session p" "ci_epoch r = ip_epoch p"
      "ci_logical r = ip_logical p" "ci_expiresAt r = now E + ttl" "ci_consumedOp r = None" "ci_injectedAt r = now E"
      "i \<notin> ci_id ` set (context_injections d)"
proof (cases "injected d (ip_message p) (ip_epoch p) (ip_logical p)")
  case True
  then show ?thesis by (intro blocked [of d]) (simp_all add: issue_def)
next
  case False
  let ?i = "id_of E (ids_drawn d)" and ?c = "sha256 E (capability_of E (capabilities_drawn d))"
  let ?r = "\<lparr>ci_id = ?i, ci_message = ip_message p, ci_session = ip_session p, ci_epoch = ip_epoch p,
                     ci_checkpoint = ip_checkpoint p, ci_component = ip_component p, ci_capHash = ?c,
                     ci_injectedAt = now E, ci_expiresAt = now E + ttl, ci_consumedAt = None,
                     ci_consumedOp = None, ci_logical = ip_logical p\<rparr>"
  let ?d = "d\<lparr>ids_drawn := Suc (ids_drawn d), capabilities_drawn := Suc (capabilities_drawn d)\<rparr>"
  show ?thesis
  proof (cases "list_ex (\<lambda>r. ci_id r = ?i \<or> ci_capHash r = ?c \<or>
       (ci_message r = ip_message p \<and> ci_checkpoint r = ip_checkpoint p)) (context_injections d)")
    case True
    with False show ?thesis by (intro blocked [of ?d]) (simp_all add: issue_def next_id_def Let_def)
  next
    case no: False
    then have "?i \<notin> ci_id ` set (context_injections d)" by (auto simp: list_ex_iff)
    with no False show ?thesis
      by (intro issued [of ?i "?d\<lparr>context_injections := context_injections d @ [?r]\<rparr>" ?r])
        (simp_all add: issue_def next_id_def Let_def)
  qed
qed

text \<open>An injection is recorded for good, and a second issue for its key gives nothing.\<close>

lemma injected_mono:
  "issue E ttl p d = (r, d') \<Longrightarrow> injected d m ep lg \<Longrightarrow> injected d' m ep lg"
  by (cases rule: issue_cases [of E ttl p d]) (auto simp: injected_def dest: arg_cong [of _ _ context_injections])

lemma issue_Some:
  assumes "issue E ttl p d = (Some i, d')"
  shows "\<not> injected d (ip_message p) (ip_epoch p) (ip_logical p)" "injected d' (ip_message p) (ip_epoch p) (ip_logical p)"
proof -
  from assms show "\<not> injected d (ip_message p) (ip_epoch p) (ip_logical p)"
    by (cases rule: issue_cases [of E ttl p d]) auto
  from assms show "injected d' (ip_message p) (ip_epoch p) (ip_logical p)"
    by (cases rule: issue_cases [of E ttl p d]) (auto simp: injected_def dest: arg_cong [of _ _ context_injections])
qed

lemma issue_frame [simp]:
  "sessions (snd (issue E ttl p d)) = sessions d"
  "aliases (snd (issue E ttl p d)) = aliases d"
  "recipient_sequences (snd (issue E ttl p d)) = recipient_sequences d"
  "messages (snd (issue E ttl p d)) = messages d"
  "deliveries (snd (issue E ttl p d)) = deliveries d"
  "receipts (snd (issue E ttl p d)) = receipts d"
  "write_log (snd (issue E ttl p d)) = write_log d"
  "audit_events (snd (issue E ttl p d)) = audit_events d"
  "session_epochs (snd (issue E ttl p d)) = session_epochs d"
  "component_instances (snd (issue E ttl p d)) = component_instances d"
  "session_controls (snd (issue E ttl p d)) = session_controls d"
  "blocked_peers (snd (issue E ttl p d)) = blocked_peers d"
  "delivery_leases (snd (issue E ttl p d)) = delivery_leases d"
  "ledger_events (snd (issue E ttl p d)) = ledger_events d"
  "ledger_anchors (snd (issue E ttl p d)) = ledger_anchors d"
  "threads (snd (issue E ttl p d)) = threads d"
  "thread_participants (snd (issue E ttl p d)) = thread_participants d"
  "thread_sequences (snd (issue E ttl p d)) = thread_sequences d"
  "physical_session_map (snd (issue E ttl p d)) = physical_session_map d"
  "name_ownership (snd (issue E ttl p d)) = name_ownership d"
  "collections (snd (issue E ttl p d)) = collections d"
  "collection_members (snd (issue E ttl p d)) = collection_members d"
  "schedules (snd (issue E ttl p d)) = schedules d"
  "schedule_runs (snd (issue E ttl p d)) = schedule_runs d"
  "fencing_counter (snd (issue E ttl p d)) = fencing_counter d"
  "secrets_drawn (snd (issue E ttl p d)) = secrets_drawn d"
  by (simp_all add: issue_def next_id_def Let_def)

lemma issue_rows [simp]:
  "session_row (snd (issue E ttl p d)) j = session_row d j"
  "message_row (snd (issue E ttl p d)) j = message_row d j"
  "delivery_row (snd (issue E ttl p d)) j = delivery_row d j"
  by (simp_all add: session_row_def message_row_def delivery_row_def)

lemma consume_frame [simp]:
  "sessions (consume E i op d) = sessions d"
  "aliases (consume E i op d) = aliases d"
  "recipient_sequences (consume E i op d) = recipient_sequences d"
  "messages (consume E i op d) = messages d"
  "deliveries (consume E i op d) = deliveries d"
  "receipts (consume E i op d) = receipts d"
  "write_log (consume E i op d) = write_log d"
  "audit_events (consume E i op d) = audit_events d"
  "session_epochs (consume E i op d) = session_epochs d"
  "component_instances (consume E i op d) = component_instances d"
  "session_controls (consume E i op d) = session_controls d"
  "blocked_peers (consume E i op d) = blocked_peers d"
  "delivery_leases (consume E i op d) = delivery_leases d"
  "ledger_events (consume E i op d) = ledger_events d"
  "ledger_anchors (consume E i op d) = ledger_anchors d"
  "threads (consume E i op d) = threads d"
  "thread_participants (consume E i op d) = thread_participants d"
  "thread_sequences (consume E i op d) = thread_sequences d"
  "physical_session_map (consume E i op d) = physical_session_map d"
  "name_ownership (consume E i op d) = name_ownership d"
  "collections (consume E i op d) = collections d"
  "collection_members (consume E i op d) = collection_members d"
  "schedules (consume E i op d) = schedules d"
  "schedule_runs (consume E i op d) = schedule_runs d"
  "fencing_counter (consume E i op d) = fencing_counter d"
  "ids_drawn (consume E i op d) = ids_drawn d"
  "secrets_drawn (consume E i op d) = secrets_drawn d"
  "capabilities_drawn (consume E i op d) = capabilities_drawn d"
  by (simp_all add: consume_def)

lemma consume_rows [simp]:
  "session_row (consume E i op d) j = session_row d j"
  "message_row (consume E i op d) j = message_row d j"
  "delivery_row (consume E i op d) j = delivery_row d j"
  by (simp_all add: session_row_def message_row_def delivery_row_def)

lemma injected_consume [simp]: "injected (consume E i op d) m ep lg = injected d m ep lg"
  by (simp add: injected_def consume_def list_ex_upd_where)

lemma injected_cong: "context_injections d' = context_injections d \<Longrightarrow> injected d' m ep lg = injected d m ep lg"
  by (simp add: injected_def)

lemma injected_audit [simp]:
  "injected (audit E ev fs d) m ep lg = injected d m ep lg"
  "injected (refreshMeaningfulActivity E sid d) m ep lg = injected d m ep lg"
  by (simp_all add: injected_def)

section \<open>Authorising\<close>

text \<open>Whoever is authorised holds an unexpired injection of that message for their session and epoch.\<close>

lemma authorize_Inr:
  assumes "authorize E op msg sid ep ref d = Inr i"
  shows "\<exists>r\<in>set (context_injections d). ci_id r = i \<and> ci_message r = msg \<and> ci_session r = sid \<and>
           ci_epoch r = ep \<and> now E < ci_expiresAt r \<and> ci_consumedOp r \<noteq> Some op"
proof (cases "truthy ref")
  case True
  with assms show ?thesis
    by (auto simp: authorize_def Let_def dest!: find_SomeD split: option.splits if_splits)
next
  case False
  with assms show ?thesis
    by (auto simp: authorize_def Let_def dest!: top_by_Some split: option.splits if_splits)
qed

end
