(* ===== verification/Moves.thy ===== *)
theory Moves
  imports Sequences Receipts
begin

text \<open>
  How an operation may change the deliveries and the injection log: \<open>moves R\<close> relates two databases when
  every delivery kept its message and recipient and moved along \<open>R\<close>, new deliveries started out queued, and
  no recorded injection was lost. Every broker operation is proved to be such a step, with the edges it uses.
\<close>

section \<open>Edges the broker uses\<close>

text \<open>The recovery commands of the dead-letter queue are kept apart.\<close>

fun broker_edge :: "delivery_state \<Rightarrow> delivery_state \<Rightarrow> bool" where
  "broker_edge Queued t \<longleftrightarrow> t \<in> {Transport_Written, Expired, Dead_Letter, Cancelled}"
| "broker_edge Retry_Wait t \<longleftrightarrow> t \<in> {Transport_Written, Queued, Expired, Dead_Letter, Cancelled}"
| "broker_edge Transport_Written t \<longleftrightarrow> t \<in> {Accepted, Rejected, Completed, Queued, Retry_Wait, Dead_Letter}"
| "broker_edge Accepted t \<longleftrightarrow> t \<in> {Completed, Queued, Dead_Letter, Expired}"
| "broker_edge _ _ \<longleftrightarrow> False"

definition recovery_edge :: "delivery_state \<Rightarrow> delivery_state \<Rightarrow> bool" where
  "recovery_edge s t \<longleftrightarrow> broker_edge s t \<or> s = Dead_Letter \<and> t \<in> {Queued, Cancelled}"

text \<open>Without the operator's replay of accepted work and removal of a recipient.\<close>

definition ordinary_edge :: "delivery_state \<Rightarrow> delivery_state \<Rightarrow> bool" where
  "ordinary_edge s t \<longleftrightarrow> broker_edge s t \<and> \<not> (s = Accepted \<and> t \<in> {Queued, Dead_Letter})"

lemma ordinary_recovery: "ordinary_edge s t \<Longrightarrow> recovery_edge s t"
  by (simp add: ordinary_edge_def recovery_edge_def)

lemma broker_edge_terminal: "isTerminal s \<Longrightarrow> \<not> broker_edge s t"
  by (cases s) (simp_all add: isTerminal_iff)

lemma broker_run_terminal: "broker_edge\<^sup>*\<^sup>* s t \<Longrightarrow> isTerminal s \<Longrightarrow> t = s"
  by (erule converse_rtranclpE) (auto dest: broker_edge_terminal)

lemma recovery_run_terminal: "recovery_edge\<^sup>*\<^sup>* s t \<Longrightarrow> isTerminal s \<Longrightarrow> s \<noteq> Dead_Letter \<Longrightarrow> t = s"
  by (erule converse_rtranclpE) (auto simp: recovery_edge_def dest: broker_edge_terminal)

section \<open>Moves\<close>

definition row_moves :: "(delivery_state \<Rightarrow> delivery_state \<Rightarrow> bool) \<Rightarrow> delivery_row \<Rightarrow> delivery_row \<Rightarrow> bool" where
  "row_moves R x y \<longleftrightarrow> d_message y = d_message x \<and> d_recipient y = d_recipient x \<and> R\<^sup>*\<^sup>* (d_state x) (d_state y)"

definition injections_kept :: "db \<Rightarrow> db \<Rightarrow> bool" where
  "injections_kept d d' \<longleftrightarrow> (\<forall>m ep lg. injected d m ep lg \<longrightarrow> injected d' m ep lg)"

definition moves :: "(delivery_state \<Rightarrow> delivery_state \<Rightarrow> bool) \<Rightarrow> db \<Rightarrow> db \<Rightarrow> bool" where
  "moves R d d' \<longleftrightarrow>
     (\<exists>xs ys. deliveries d' = xs @ ys \<and> list_all2 (row_moves R) (deliveries d) xs \<and>
        (\<forall>y\<in>set ys. R\<^sup>*\<^sup>* Queued (d_state y))) \<and> injections_kept d d'"

lemma row_moves_refl [simp]: "row_moves R x x"
  by (simp add: row_moves_def)

lemma row_moves_trans: "row_moves R x y \<Longrightarrow> row_moves R y z \<Longrightarrow> row_moves R x z"
  by (auto simp: row_moves_def)

lemma movesI:
  assumes "list_all2 (row_moves R) (deliveries d) (deliveries d')" "injections_kept d d'"
  shows "moves R d d'"
  using assms unfolding moves_def by (metis append_Nil2 empty_iff list.set(1))

lemma moves_same:
  assumes "deliveries d' = deliveries d" "context_injections d' = context_injections d"
  shows "moves R d d'"
  using assms by (intro movesI) (auto simp: list_all2_refl injections_kept_def injected_def)

lemma moves_refl [simp]: "moves R d d"
  by (rule moves_same) simp_all

lemma moves_trans:
  assumes "moves R d d'" and "moves R d' d''"
  shows "moves R d d''"
proof -
  obtain xs ys where 1: "deliveries d' = xs @ ys" "list_all2 (row_moves R) (deliveries d) xs"
    "\<forall>y\<in>set ys. R\<^sup>*\<^sup>* Queued (d_state y)"
    using assms(1) unfolding moves_def by blast
  obtain us vs where 2: "deliveries d'' = us @ vs" "list_all2 (row_moves R) (xs @ ys) us"
    "\<forall>y\<in>set vs. R\<^sup>*\<^sup>* Queued (d_state y)"
    using assms(2) 1(1) unfolding moves_def by auto
  obtain u1 u2 where u: "us = u1 @ u2" "list_all2 (row_moves R) xs u1" "list_all2 (row_moves R) ys u2"
    using 2(2) unfolding list_all2_append1 by blast
  have "list_all2 (row_moves R) (deliveries d) u1"
    using row_moves_trans 1(2) u(2) by (rule list_all2_trans)
  moreover have "R\<^sup>*\<^sup>* Queued (d_state y)" if mem: "y \<in> set u2" for y
  proof -
    obtain i where i: "i < length u2" "y = u2 ! i" using mem by (auto simp: in_set_conv_nth)
    have "row_moves R (ys ! i) (u2 ! i)" "ys ! i \<in> set ys"
      using u(3) i(1) by (auto simp: list_all2_conv_all_nth)
    with 1(3) i(2) show ?thesis by (auto simp: row_moves_def)
  qed
  moreover have "deliveries d'' = u1 @ (u2 @ vs)" using 2(1) u(1) by simp
  moreover have "injections_kept d d''" using assms by (auto simp: moves_def injections_kept_def)
  ultimately show ?thesis using 2(3) unfolding moves_def
    by (intro conjI exI [of _ u1] exI [of _ "u2 @ vs"]) auto
qed

lemma moves_mono:
  assumes "moves R d d'" and "\<And>s t. R s t \<Longrightarrow> S s t"
  shows "moves S d d'"
proof -
  have star: "R\<^sup>*\<^sup>* s t \<Longrightarrow> S\<^sup>*\<^sup>* s t" for s t
    using assms(2) by (metis mono_rtranclp)
  then have "row_moves R x y \<Longrightarrow> row_moves S x y" for x y by (simp add: row_moves_def)
  then have "list_all2 (row_moves R) xs ys \<Longrightarrow> list_all2 (row_moves S) xs ys" for xs ys
    by (auto elim: list_all2_mono)
  with star assms(1) show ?thesis unfolding moves_def by metis
qed

text \<open>An UPDATE whose rows move along one edge, and an INSERT of a queued delivery.\<close>

lemma list_all2_upd_where:
  assumes "\<And>x. x \<in> set rs \<Longrightarrow> p x \<Longrightarrow> row_moves R x (f x)"
  shows "list_all2 (row_moves R) rs (upd_where p f rs)"
  using assms by (induction rs) auto

lemma moves_upd:
  assumes "deliveries d' = upd_where p f (deliveries d)" and "context_injections d' = context_injections d"
    and "\<And>x. p x \<Longrightarrow> d_message (f x) = d_message x \<and> d_recipient (f x) = d_recipient x \<and>
           (d_state (f x) = d_state x \<or> R (d_state x) (d_state (f x)))"
  shows "moves R d d'"
proof (rule movesI)
  show "list_all2 (row_moves R) (deliveries d) (deliveries d')"
    unfolding assms(1) 
  proof (rule list_all2_upd_where)
    show "row_moves R x (f x)" if "p x" for x
      using assms(3) [OF that] by (auto simp: row_moves_def)
  qed
qed (simp add: injections_kept_def injected_def assms(2))

lemma moves_insert:
  assumes "deliveries d' = deliveries d @ ys" and "context_injections d' = context_injections d"
    and "\<And>y. y \<in> set ys \<Longrightarrow> d_state y = Queued"
  shows "moves R d d'"
  unfolding moves_def
proof (intro conjI exI)
  show "deliveries d' = deliveries d @ ys" by (rule assms(1))
qed (use assms in \<open>auto simp: list_all2_refl injections_kept_def injected_def\<close>)

lemma moves_issue [simp]: "moves R d (snd (issue E ttl p d))"
proof (rule movesI)
  show "list_all2 (row_moves R) (deliveries d) (deliveries (snd (issue E ttl p d)))"
    by (simp add: list_all2_refl)
  show "injections_kept d (snd (issue E ttl p d))"
    unfolding injections_kept_def by (metis injected_mono prod.collapse)
qed

lemma moves_consume [simp]: "moves R d (consume E i op d)"
  by (rule movesI) (simp_all add: list_all2_refl injections_kept_def)

lemma moves_frame:
  "moves R d (audit E ev fs d)" "moves R d (insert_audit E ev se ins ms tr fs d)"
  "moves R d (refreshMeaningfulActivity E sid d)" "moves R d (snd (next_id E d))"
  "moves R d (upd_session i f d)" "moves R d (touchThread E t n d)" "moves R d (markRead t i n d)"
  "moves R d (ensureThread E t r a d)" "moves R d (ensureParticipant E t i k d)"
  "moves R d (fst (insert_message m d))" "moves R d (fst (allocSequence i d))"
  "moves R d (fst (allocThreadSequence i d))"
  by (rule moves_same; simp add: next_id_def)+

lemma moves_insert_delivery: "moves R d (insert_delivery E m i d)"
  by (rule moves_insert [where ys = "[last (deliveries (insert_delivery E m i d))]"])
    (simp_all add: insert_delivery_def next_id_def Let_def)

lemmas moves_basic = moves_refl moves_issue moves_consume moves_frame moves_insert_delivery

text \<open>A throw leaves the tables alone, so a transaction moves as its committed body does.\<close>

lemma moves_transaction:
  assumes "\<And>d' x. f d = (d', Inr x) \<Longrightarrow> moves R d d'"
  shows "moves R d (fst (transaction f d))"
  using assms by (auto simp: transaction_def intro: moves_same split: prod.splits sum.splits)

lemma moves_andThen:
  assumes "moves R d (fst r)" and "\<And>x d'. r = (d', Inr x) \<Longrightarrow> moves R d' (fst (k x d'))"
  shows "moves R d (fst (andThen r k))"
  using assms by (cases r; cases "snd r") (auto simp: andThen_def intro: moves_trans)

lemma moves_assertCurrentEpoch [simp]: "moves R d (fst (assertCurrentEpoch E auth d))"
  by (auto simp: assertCurrentEpoch_def moves_basic split: option.splits)

section \<open>What a move means for one message\<close>

lemma find_list_all2:
  assumes "list_all2 (row_moves R) xs ys" and "List.find (\<lambda>x. d_message x = m) xs = Some x"
  shows "\<exists>y. List.find (\<lambda>x. d_message x = m) ys = Some y \<and> row_moves R x y"
  using assms by (induction rule: list_all2_induct) (auto simp: row_moves_def split: if_splits)

lemma moves_row:
  assumes "moves R d d'" and "delivery_row d m = Some x"
  shows "\<exists>y. delivery_row d' m = Some y \<and> row_moves R x y"
proof -
  obtain xs ys where 1: "deliveries d' = xs @ ys" "list_all2 (row_moves R) (deliveries d) xs"
    using assms(1) unfolding moves_def by blast
  with find_list_all2 [OF 1(2)] assms(2) show ?thesis
    by (fastforce simp: delivery_row_def find_append)
qed

lemma moves_injected: "moves R d d' \<Longrightarrow> injected d m ep lg \<Longrightarrow> injected d' m ep lg"
  by (simp add: moves_def injections_kept_def)

end
