(* ===== verification/Delivery.thy ===== *)
theory Delivery
  imports Controls Moves
begin

text \<open>
  The delivery operations of \<^verbatim>\<open>src/broker/delivery.ts\<close> (\<open>DeliveryOps\<close>): checkpoint pull, inbox view,
  explicit redelivery, marking, acknowledgement and reply. The constructor's settings are a
  configuration record. A throw inside \<open>db.transaction\<close> goes through \<open>transaction\<close>; what runs before
  it (the role check, the epoch fence and its audit row, the readiness gate) does not.
\<close>

section \<open>Data\<close>

record config =
  cf_ackDeadlineMs :: int
  cf_receiptTtlMs :: int
  cf_requireReceipt :: bool

definition daemon_config :: config where
  "daemon_config = \<lparr>cf_ackDeadlineMs = 5 * 60000, cf_receiptTtlMs = 30 * 60000, cf_requireReceipt = True\<rparr>"

record pending_message =
  pn_id :: js_string
  pn_senderAlias :: js_string
  pn_recipientAlias :: js_string
  pn_kind :: message_kind
  pn_correlation :: js_string
  pn_causation :: "js_string option"
  pn_sequence :: nat
  pn_requiresAck :: bool
  pn_requiresReply :: bool
  pn_text :: js_string
  pn_metadata :: "(js_string \<times> js_string) list option"
  pn_createdAt :: int
  pn_expiresAt :: "int option"

datatype inbox_state =
  Queued_Not_Injected | Context_Injected_Unacknowledged | Application_Accepted | Application_Completed

record inbox_entry =
  ie_id :: js_string
  ie_injection :: "js_string option"
  ie_senderAlias :: js_string
  ie_recipientAlias :: js_string
  ie_kind :: message_kind
  ie_correlation :: js_string
  ie_causation :: "js_string option"
  ie_sequence :: nat
  ie_requiresAck :: bool
  ie_requiresReply :: bool
  ie_state :: inbox_state
  ie_presented :: bool
  ie_bodyIncluded :: bool
  ie_text :: "js_string option"
  ie_metadata :: "(js_string \<times> js_string) list option"
  ie_createdAt :: int
  ie_expiresAt :: "int option"
  ie_actions :: "string list"

definition INJECTION_METADATA_KEY :: js_string where
  "INJECTION_METADATA_KEY = js ''xbus_injection_id''"

section \<open>Selection\<close>

definition readinessOf :: "db \<Rightarrow> js_string \<Rightarrow> readiness" where
  "readinessOf d sid = (case session_row d sid of None \<Rightarrow> Disconnected | Some s \<Rightarrow> s_readiness s)"

definition sessionAcceptsInjection :: "db \<Rightarrow> js_string \<Rightarrow> bool" where
  "sessionAcceptsInjection d sid = acceptsInjection (readinessOf d sid)"

definition rowToPending :: "message_row \<Rightarrow> pending_message" where
  "rowToPending m =
     \<lparr>pn_id = m_id m, pn_senderAlias = m_senderAlias m, pn_recipientAlias = m_recipientAlias m, pn_kind = m_kind m,
      pn_correlation = m_correlation m, pn_causation = m_causation m, pn_sequence = m_sequence m,
      pn_requiresAck = m_requiresAck m, pn_requiresReply = m_requiresReply m, pn_text = m_text m,
      pn_metadata = m_metadata m, pn_createdAt = m_createdAt m, pn_expiresAt = m_expiresAt m\<rparr>"

text \<open>\<open>FROM deliveries d JOIN messages m ON m.message_id = d.message_id\<close>.\<close>

definition joined :: "db \<Rightarrow> (delivery_row \<times> message_row) list" where
  "joined d = concat (map (\<lambda>x. map (Pair x) (filter (\<lambda>m. m_id m = d_message x) (messages d))) (deliveries d))"

definition waiting :: "delivery_row \<Rightarrow> bool" where
  "waiting x \<longleftrightarrow> d_state x = Queued \<or> d_state x = Retry_Wait"

definition unexpired :: "env \<Rightarrow> message_row \<Rightarrow> bool" where
  "unexpired E m \<longleftrightarrow> (case m_expiresAt m of None \<Rightarrow> True | Some t \<Rightarrow> now E < t)"

definition eligible :: "env \<Rightarrow> js_string \<Rightarrow> delivery_row \<Rightarrow> message_row \<Rightarrow> bool" where
  "eligible E sid x m \<longleftrightarrow> d_recipient x = sid \<and> waiting x \<and> unexpired E m
     \<and> (case d_nextAttemptAt x of None \<Rightarrow> True | Some t \<Rightarrow> t \<le> now E)"

definition pendingForSessionId :: "env \<Rightarrow> db \<Rightarrow> js_string \<Rightarrow> int \<Rightarrow> pending_message list" where
  "pendingForSessionId E d sid limit =
     map (\<lambda>(x, m). rowToPending m)
       (sql_limit limit (sort_key (\<lambda>(x, m). m_sequence m) (filter (\<lambda>(x, m). eligible E sid x m) (joined d))))"

definition pendingForSession :: "env \<Rightarrow> authority \<Rightarrow> int option \<Rightarrow> db \<Rightarrow> (pending_message list) result" where
  "pendingForSession E auth limit d =
     andThen (assertCurrentEpoch E auth d) (\<lambda>_ d.
       (d, Inr (pendingForSessionId E d (a_session auth) (case limit of None \<Rightarrow> 50 | Some n \<Rightarrow> n))))"

definition injectionIdFor :: "db \<Rightarrow> js_string \<Rightarrow> nat \<Rightarrow> js_string option" where
  "injectionIdFor d msg ep =
     map_option ci_id (top_by ci_logical
       (filter (\<lambda>r. ci_message r = msg \<and> ci_epoch r = ep) (context_injections d)))"

section \<open>Injection\<close>

definition ackDeadlineFor :: "config \<Rightarrow> env \<Rightarrow> bool \<Rightarrow> int option" where
  "ackDeadlineFor C E requiresAck = (if requiresAck then Some (now E + cf_ackDeadlineMs C) else None)"

definition requires_no_ack :: "db \<Rightarrow> js_string \<Rightarrow> bool" where
  "requires_no_ack d msg = (case message_row d msg of None \<Rightarrow> False | Some m \<Rightarrow> \<not> m_requiresAck m)"

definition completeIfNoResponseRequired :: "env \<Rightarrow> js_string \<Rightarrow> bool \<Rightarrow> bool \<Rightarrow> db \<Rightarrow> db" where
  "completeIfNoResponseRequired E msg requiresAck requiresReply d =
     (if requiresAck \<or> requiresReply then d
      else let hit = (\<lambda>x. d_message x = msg \<and> d_state x = Transport_Written \<and> requires_no_ack d msg) in
        if changes hit (deliveries d) > 0
        then audit E ''DELIVERY_COMPLETED_NO_RESPONSE_REQUIRED'' [(''messageId'', JStr msg)]
               (d\<lparr>deliveries := upd_where hit
                    (\<lambda>x. x\<lparr>d_state := Completed, d_completedAt := Some (now E), d_leaseExpiresAt := None,
                           d_nextAttemptAt := None, d_failureCategory := None, d_updatedAt := now E\<rparr>)
                    (deliveries d)\<rparr>)
        else d)"

text \<open>The claim of a waiting delivery and its transport log row.\<close>

definition write_delivery :: "config \<Rightarrow> env \<Rightarrow> js_string \<Rightarrow> js_string \<Rightarrow> nat \<Rightarrow> nat option option \<Rightarrow> bool \<Rightarrow> db \<Rightarrow> db" where
  "write_delivery C E msg inst ep fence requiresAck d =
     (let d = d\<lparr>deliveries := upd_where (\<lambda>x. d_message x = msg \<and> waiting x)
                  (\<lambda>x. x\<lparr>d_state := Transport_Written, d_transportWrittenAt := Some (now E),
                         d_leaseExpiresAt := ackDeadlineFor C E requiresAck, d_targetInstance := Some inst,
                         d_targetGeneration := Some ep,
                         d_fencing := (case fence of None \<Rightarrow> d_fencing x | Some f \<Rightarrow> f),
                         d_updatedAt := now E\<rparr>) (deliveries d)\<rparr>;
          (i, d) = next_id E d
      in d\<lparr>write_log := write_log d @
            map (\<lambda>x. \<lparr>wl_id = i, wl_delivery = d_id x, wl_message = msg, wl_instance = inst,
                      wl_attempt = d_attempt x, wl_at = now E\<rparr>)
              (filter (\<lambda>x. d_message x = msg) (deliveries d))\<rparr>)"

text \<open>
  One round of the loop in \<open>checkpointPull\<close> and \<open>checkpointPullForced\<close>: the message is returned only when an
  injection was recorded for it now. Only the first of the two loops writes a \<open>TRANSPORT_WRITTEN\<close> row.
\<close>

definition inject_one ::
  "config \<Rightarrow> env \<Rightarrow> authority \<Rightarrow> js_string \<Rightarrow> bool \<Rightarrow> pending_message \<Rightarrow> db \<Rightarrow> pending_message list \<times> db" where
  "inject_one C E auth checkpointId audited m d =
     (if changes (\<lambda>x. d_message x = pn_id m \<and> waiting x) (deliveries d) = 0 then ([], d)
      else
        let fs = [(''sessionId'', JStr (a_session auth)), (''instanceId'', JStr (a_component auth)),
                  (''messageId'', JStr (pn_id m))];
            d = write_delivery C E (pn_id m) (a_component auth) (a_epoch auth) None (pn_requiresAck m) d;
            (injection, d) = issue E (cf_receiptTtlMs C)
              \<lparr>ip_message = pn_id m, ip_session = a_session auth, ip_epoch = a_epoch auth,
               ip_checkpoint = checkpointId, ip_component = a_component auth, ip_logical = 1\<rparr> d;
            d = (if audited then audit E ''TRANSPORT_WRITTEN'' fs d else d)
        in case injection of
             None \<Rightarrow> ([], audit E ''REINJECTION_BODY_SUPPRESSED'' fs d)
           | Some i \<Rightarrow>
               ([m\<lparr>pn_metadata := Some (obj_put INJECTION_METADATA_KEY i
                     (case pn_metadata m of None \<Rightarrow> [] | Some es \<Rightarrow> es))\<rparr>],
                completeIfNoResponseRequired E (pn_id m) (pn_requiresAck m) (pn_requiresReply m) d))"

fun inject_all ::
  "config \<Rightarrow> env \<Rightarrow> authority \<Rightarrow> js_string \<Rightarrow> bool \<Rightarrow> pending_message list \<Rightarrow> db \<Rightarrow> pending_message list \<times> db" where
  "inject_all C E auth cp audited [] d = ([], d)"
| "inject_all C E auth cp audited (m # ms) d =
     (let (out1, d) = inject_one C E auth cp audited m d;
          (out2, d) = inject_all C E auth cp audited ms d
      in (out1 @ out2, d))"

definition cap_limit :: "int \<Rightarrow> int" where
  "cap_limit limit = min (max 1 limit) 50"

definition pull_pending ::
  "config \<Rightarrow> env \<Rightarrow> authority \<Rightarrow> js_string \<Rightarrow> bool \<Rightarrow> int \<Rightarrow> db \<Rightarrow> (pending_message list) result" where
  "pull_pending C E auth checkpointId audited limit =
     transaction (\<lambda>d.
       let pending = pendingForSessionId E d (a_session auth) (cap_limit limit);
           (out, d) = inject_all C E auth checkpointId audited pending d;
           d = (if out \<noteq> [] then refreshMeaningfulActivity E (a_session auth) d else d)
       in (d, Inr out))"

definition checkpointPull ::
  "config \<Rightarrow> env \<Rightarrow> authority \<Rightarrow> js_string \<Rightarrow> int \<Rightarrow> db \<Rightarrow> (pending_message list) result" where
  "checkpointPull C E auth checkpointId limit d =
     (case assertAllowed (a_role auth) Op_Pull_Hook_Checkpoint of
        Some e \<Rightarrow> (d, Inl e)
      | None \<Rightarrow>
          andThen (assertCurrentEpoch E auth d) (\<lambda>_ d.
            if \<not> sessionAcceptsInjection d (a_session auth)
            then (audit E ''INJECTION_DEFERRED_NOT_READY''
                    [(''sessionId'', JStr (a_session auth)),
                     (''readiness'', JStr (js (readiness_name (readinessOf d (a_session auth)))))] d, Inr [])
            else if \<not> autoDeliveryEnabled d (a_session auth) then (d, Inr [])
            else pull_pending C E auth checkpointId True limit d))"

definition checkpointPullForced ::
  "config \<Rightarrow> env \<Rightarrow> authority \<Rightarrow> js_string \<Rightarrow> int \<Rightarrow> db \<Rightarrow> (pending_message list) result" where
  "checkpointPullForced C E auth checkpointId limit = pull_pending C E auth checkpointId False limit"

definition processNext :: "config \<Rightarrow> env \<Rightarrow> authority \<Rightarrow> js_string \<Rightarrow> db \<Rightarrow> (pending_message list) result" where
  "processNext C E auth checkpointId d =
     (case assertAllowed (a_role auth) Op_Pull_Hook_Checkpoint of
        Some e \<Rightarrow> (d, Inl e)
      | None \<Rightarrow>
          andThen (assertCurrentEpoch E auth d) (\<lambda>_ d.
            if \<not> sessionAcceptsInjection d (a_session auth)
            then (audit E ''INJECTION_DEFERRED_NOT_READY''
                    [(''sessionId'', JStr (a_session auth)),
                     (''readiness'', JStr (js (readiness_name (readinessOf d (a_session auth))))),
                     (''via'', JStr (js ''process_next''))] d, Inr [])
            else checkpointPullForced C E auth checkpointId 1 d))"

definition inboxPull ::
  "config \<Rightarrow> env \<Rightarrow> authority \<Rightarrow> js_string \<Rightarrow> int \<Rightarrow> db \<Rightarrow> (pending_message list) result" where
  "inboxPull C E auth checkpointId limit = checkpointPull C E (auth\<lparr>a_role := HOOK\<rparr>) checkpointId limit"

section \<open>Inbox and redelivery\<close>

definition fresh_entry :: "pending_message \<Rightarrow> inbox_entry" where
  "fresh_entry m =
     \<lparr>ie_id = pn_id m,
      ie_injection = (case pn_metadata m of None \<Rightarrow> None | Some es \<Rightarrow> map_of es INJECTION_METADATA_KEY),
      ie_senderAlias = pn_senderAlias m, ie_recipientAlias = pn_recipientAlias m, ie_kind = pn_kind m,
      ie_correlation = pn_correlation m, ie_causation = pn_causation m, ie_sequence = pn_sequence m,
      ie_requiresAck = pn_requiresAck m, ie_requiresReply = pn_requiresReply m, ie_state = Queued_Not_Injected,
      ie_presented = False, ie_bodyIncluded = True, ie_text = Some (pn_text m), ie_metadata = pn_metadata m,
      ie_createdAt = pn_createdAt m, ie_expiresAt = pn_expiresAt m,
      ie_actions = (if pn_requiresAck m then [''ack'', ''reject'', ''reply''] else [''reply''])\<rparr>"

definition outstanding :: "env \<Rightarrow> authority \<Rightarrow> delivery_row \<Rightarrow> message_row \<Rightarrow> bool" where
  "outstanding E auth x m \<longleftrightarrow> d_recipient x = a_session auth
     \<and> (d_state x = Transport_Written
        \<or> (d_state x = Accepted \<and> m_requiresReply m
           \<and> (case d_targetGeneration x of None \<Rightarrow> False | Some g \<Rightarrow> g < a_epoch auth)))
     \<and> unexpired E m"

definition presented_entry :: "db \<Rightarrow> authority \<Rightarrow> delivery_row \<Rightarrow> message_row \<Rightarrow> inbox_entry" where
  "presented_entry d auth x m =
     (let isAccepted = (d_state x = Accepted) in
      \<lparr>ie_id = m_id m, ie_injection = injectionIdFor d (m_id m) (a_epoch auth),
       ie_senderAlias = m_senderAlias m, ie_recipientAlias = m_recipientAlias m, ie_kind = m_kind m,
       ie_correlation = m_correlation m, ie_causation = m_causation m, ie_sequence = m_sequence m,
       ie_requiresAck = m_requiresAck m, ie_requiresReply = m_requiresReply m,
       ie_state = (if isAccepted then Application_Accepted
                   else if m_requiresAck m then Context_Injected_Unacknowledged else Application_Accepted),
       ie_presented = True, ie_bodyIncluded = False, ie_text = None, ie_metadata = None,
       ie_createdAt = m_createdAt m, ie_expiresAt = m_expiresAt m,
       ie_actions = (if isAccepted then [''reply'', ''request-explicit-redelivery'']
                     else if m_requiresAck m then [''ack'', ''reject'', ''reply'', ''request-explicit-redelivery'']
                     else (if m_requiresReply m then [''reply''] else []) @ [''request-explicit-redelivery''])\<rparr>)"

definition inboxView ::
  "config \<Rightarrow> env \<Rightarrow> authority \<Rightarrow> js_string \<Rightarrow> int \<Rightarrow> db \<Rightarrow> (inbox_entry list) result" where
  "inboxView C E auth checkpointId limit d =
     (case assertAllowed (a_role auth) Op_List_Inbox of
        Some e \<Rightarrow> (d, Inl e)
      | None \<Rightarrow>
          andThen (assertCurrentEpoch E auth d) (\<lambda>_ d.
          andThen (checkpointPull C E (auth\<lparr>a_role := HOOK\<rparr>) checkpointId limit d) (\<lambda>fresh d.
            let rows = sql_limit limit (sort_key (\<lambda>(x, m). m_sequence m)
                         (filter (\<lambda>(x, m). outstanding E auth x m) (joined d)))
            in (d, Inr (map fresh_entry fresh @
                  map (\<lambda>(x, m). presented_entry d auth x m)
                    (filter (\<lambda>(x, m). m_id m \<notin> pn_id ` set fresh) rows))))))"

definition max_logical :: "db \<Rightarrow> js_string \<Rightarrow> nat \<Rightarrow> nat" where
  "max_logical d msg ep =
     foldl max 0 (map ci_logical (filter (\<lambda>r. ci_message r = msg \<and> ci_epoch r = ep) (context_injections d)))"

definition redeliver :: "config \<Rightarrow> env \<Rightarrow> authority \<Rightarrow> js_string \<Rightarrow> js_string \<Rightarrow> db \<Rightarrow> (inbox_entry option) result" where
  "redeliver C E auth msg reason d =
     (case assertAllowed (a_role auth) Op_List_Inbox of
        Some e \<Rightarrow> (d, Inl e)
      | None \<Rightarrow>
          andThen (assertCurrentEpoch E auth d) (\<lambda>_. transaction (\<lambda>d.
            case message_row d msg of
              None \<Rightarrow> (d, Inr None)
            | Some m \<Rightarrow>
                if m_recipient m \<noteq> a_session auth then (d, Inr None)
                else let maxLogical = max_logical d msg (a_epoch auth) in
                if maxLogical = 0
                then (audit E ''REDELIVERY_REFUSED_NOT_INJECTED''
                        [(''sessionId'', JStr (a_session auth)), (''messageId'', JStr msg)] d, Inr None)
                else let (c, d) = next_id E d;
                         (injection, d) = issue E (cf_receiptTtlMs C)
                           \<lparr>ip_message = msg, ip_session = a_session auth, ip_epoch = a_epoch auth,
                            ip_checkpoint = js ''redeliver-'' @ c, ip_component = a_component auth,
                            ip_logical = maxLogical + 1\<rparr> d
                     in if \<not> truthy injection then (d, Inl (xerr INVALID_RECEIPT))
                        else let d = refreshMeaningfulActivity E (a_session auth) d;
                                 d = audit E ''EXPLICIT_REDELIVERY''
                                   [(''sessionId'', JStr (a_session auth)), (''messageId'', JStr msg),
                                    (''reason'', JStr (take 120 reason)), (''logical'', JNum (int (maxLogical + 1)))] d;
                                 pm = rowToPending m
                             in (d, Inr (Some ((fresh_entry pm)
                                  \<lparr>ie_injection := injection, ie_state := Context_Injected_Unacknowledged,
                                   ie_presented := True\<rparr>))))))"

section \<open>Marking\<close>

definition mark_one ::
  "config \<Rightarrow> env \<Rightarrow> authority \<Rightarrow> js_string option \<Rightarrow> js_string \<Rightarrow> db \<Rightarrow> js_string list \<times> db" where
  "mark_one C E auth checkpointId msg d =
     (case message_row d msg of
        None \<Rightarrow> ([], d)
      | Some m \<Rightarrow>
          if changes (\<lambda>x. d_message x = msg \<and> waiting x) (deliveries d) = 0 then ([], d)
          else
            let fs = [(''sessionId'', JStr (a_session auth)), (''instanceId'', JStr (a_instance auth)),
                      (''messageId'', JStr msg)];
                d = write_delivery C E msg (a_instance auth) (a_epoch auth) (Some (a_fencing auth)) (m_requiresAck m) d;
                d = audit E ''TRANSPORT_WRITTEN'' fs d;
                (cp, d) = (case checkpointId of
                             Some c \<Rightarrow> (c, d)
                           | None \<Rightarrow> (let (i, d) = next_id E d in (js ''mark-'' @ i, d)));
                (injection, d) = issue E (cf_receiptTtlMs C)
                  \<lparr>ip_message = msg, ip_session = a_session auth, ip_epoch = a_epoch auth,
                   ip_checkpoint = cp, ip_component = a_instance auth, ip_logical = 1\<rparr> d
            in case injection of
                 Some i \<Rightarrow> ([msg], completeIfNoResponseRequired E msg (m_requiresAck m) (m_requiresReply m) d)
               | None \<Rightarrow> ([], audit E ''REINJECTION_BODY_SUPPRESSED'' fs d))"

fun mark_all ::
  "config \<Rightarrow> env \<Rightarrow> authority \<Rightarrow> js_string option \<Rightarrow> js_string list \<Rightarrow> db \<Rightarrow> js_string list \<times> db" where
  "mark_all C E auth cp [] d = ([], d)"
| "mark_all C E auth cp (m # ms) d =
     (let (out1, d) = mark_one C E auth cp m d; (out2, d) = mark_all C E auth cp ms d in (out1 @ out2, d))"

definition markInjectedFor ::
  "config \<Rightarrow> env \<Rightarrow> authority \<Rightarrow> js_string list \<Rightarrow> js_string option \<Rightarrow> db \<Rightarrow> (js_string list) result" where
  "markInjectedFor C E auth msgs cp =
     transaction (\<lambda>d. let (marked, d) = mark_all C E auth cp msgs d in (d, Inr marked))"

definition markInjected :: "config \<Rightarrow> env \<Rightarrow> authority \<Rightarrow> js_string list \<Rightarrow> db \<Rightarrow> (js_string list) result" where
  "markInjected C E auth msgs d =
     andThen (assertCurrentEpoch E auth d) (\<lambda>_. markInjectedFor C E auth msgs None)"

definition checkpointPullBySessionId ::
  "config \<Rightarrow> env \<Rightarrow> js_string \<Rightarrow> int \<Rightarrow> db \<Rightarrow> (pending_message list) result" where
  "checkpointPullBySessionId C E sid limit d =
     (case session_row d sid of
        None \<Rightarrow> (d, Inr [])
      | Some s \<Rightarrow>
          (case s_fencing s of
             None \<Rightarrow> (d, Inr [])
           | Some f \<Rightarrow>
               let hook = js ''hook-'' @ take 8 sid;
                   auth = \<lparr>a_session = sid, a_instance = hook, a_component = hook, a_role = HOOK,
                           a_epoch = s_epoch s, a_fencing = Some f, a_conn = js ''checkpoint-hook''\<rparr>;
                   pending = pendingForSessionId E d sid limit
               in andThen (markInjectedFor C E auth (map pn_id pending) None d) (\<lambda>newly d.
                    (d, Inr (map (\<lambda>m. case injectionIdFor d (pn_id m) (a_epoch auth) of
                                        None \<Rightarrow> m
                                      | Some i \<Rightarrow> m\<lparr>pn_metadata := Some (obj_put INJECTION_METADATA_KEY i
                                            (case pn_metadata m of None \<Rightarrow> [] | Some es \<Rightarrow> es))\<rparr>)
                         (filter (\<lambda>m. pn_id m \<in> set newly) pending))))))"

section \<open>Acknowledgement\<close>

datatype ack_status = Ack_Accepted | Ack_Rejected

fun status_name :: "ack_status \<Rightarrow> string" where
  "status_name Ack_Accepted = ''accepted''"
| "status_name Ack_Rejected = ''rejected''"

record ack_input =
  ai_message :: js_string
  ai_status :: ack_status
  ai_note :: "js_string option"
  ai_injection :: "js_string option"

definition receipt_of :: "db \<Rightarrow> js_string \<Rightarrow> js_string \<Rightarrow> receipt_op \<Rightarrow> receipt_row option" where
  "receipt_of d msg sid op =
     List.find (\<lambda>r. rc_message r = msg \<and> rc_session r = sid \<and> rc_type r = op) (receipts d)"

definition authorize_if ::
  "config \<Rightarrow> env \<Rightarrow> receipt_op \<Rightarrow> js_string \<Rightarrow> authority \<Rightarrow> js_string option \<Rightarrow> db \<Rightarrow> xerror + js_string option" where
  "authorize_if C E op msg auth injectionId d =
     (if cf_requireReceipt C
      then (case authorize E op msg (a_session auth) (a_epoch auth) injectionId d of
              Inl e \<Rightarrow> Inl e | Inr i \<Rightarrow> Inr (Some i))
      else Inr None)"

definition consume_if :: "env \<Rightarrow> js_string option \<Rightarrow> receipt_op \<Rightarrow> db \<Rightarrow> db" where
  "consume_if E i op d = (if truthy i then consume E (the i) op d else d)"

definition ack_target :: "ack_status \<Rightarrow> delivery_state" where
  "ack_target st = (if st = Ack_Accepted then Accepted else Rejected)"

definition ack_row :: "env \<Rightarrow> ack_input \<Rightarrow> delivery_row \<Rightarrow> delivery_row" where
  "ack_row E inp x =
     x\<lparr>d_state := ack_target (ai_status inp),
       d_acceptedAt := (if ai_status inp = Ack_Accepted then Some (now E) else None),
       d_rejectedReason := (if ai_status inp = Ack_Rejected
                            then Some (case ai_note inp of None \<Rightarrow> js ''rejected'' | Some n \<Rightarrow> n) else None),
       d_updatedAt := now E\<rparr>"

text \<open>What a first acknowledgement writes.\<close>

definition ack_commit :: "env \<Rightarrow> authority \<Rightarrow> ack_input \<Rightarrow> message_row \<Rightarrow> js_string option \<Rightarrow> db \<Rightarrow> db" where
  "ack_commit E auth inp msg injectionId d =
     (let d = d\<lparr>deliveries := upd_where (\<lambda>x. d_message x = ai_message inp \<and> d_state x = Transport_Written)
                  (ack_row E inp) (deliveries d)\<rparr>;
          (i, d) = next_id E d;
          d = d\<lparr>receipts := receipts d @
            [\<lparr>rc_id = i, rc_message = ai_message inp, rc_session = a_session auth,
              rc_instance = a_instance auth, rc_epoch = a_epoch auth, rc_type = AckOp,
              rc_status = status_name (ai_status inp), rc_note = ai_note inp,
              rc_bodyHash = m_bodyHash msg, rc_createdAt = now E\<rparr>]\<rparr>;
          d = consume_if E injectionId AckOp d;
          d = refreshMeaningfulActivity E (a_session auth) d
      in audit E ''ACK'' [(''sessionId'', JStr (a_session auth)), (''messageId'', JStr (ai_message inp)),
           (''status'', JStr (js (status_name (ai_status inp))))] d)"

definition ack :: "config \<Rightarrow> env \<Rightarrow> authority \<Rightarrow> ack_input \<Rightarrow> db \<Rightarrow> (delivery_state \<times> bool) result" where
  "ack C E auth inp d =
     (case assertAllowed (a_role auth) Op_Ack of
        Some e \<Rightarrow> (d, Inl e)
      | None \<Rightarrow>
          andThen (assertCurrentEpoch E auth d) (\<lambda>_. transaction (\<lambda>d.
            let fs = [(''sessionId'', JStr (a_session auth)), (''messageId'', JStr (ai_message inp))] in
            case message_row d (ai_message inp) of
              None \<Rightarrow> (d, Inl (xerr MESSAGE_NOT_FOUND))
            | Some msg \<Rightarrow>
                if m_recipient msg \<noteq> a_session auth then (d, Inl (xerr NOT_RECIPIENT))
                else case receipt_of d (ai_message inp) (a_session auth) AckOp of
                  Some existing \<Rightarrow>
                    if rc_status existing \<noteq> status_name (ai_status inp)
                    then (audit E ''CONFLICTING_ACK_REJECTED'' fs d, Inl (xerr ILLEGAL_STATE_TRANSITION))
                    else (case delivery_row d (ai_message inp) of
                            None \<Rightarrow> (d, Inl JsTypeError)
                          | Some cur \<Rightarrow> (d, Inr (d_state cur, True)))
                | None \<Rightarrow>
                    (case authorize_if C E AckOp (ai_message inp) auth (ai_injection inp) d of
                       Inl e \<Rightarrow> (d, Inl e)
                     | Inr injectionId \<Rightarrow>
                         if changes (\<lambda>x. d_message x = ai_message inp \<and> d_state x = Transport_Written) (deliveries d) = 0
                         then (audit E ''CAS_CONFLICT'' (fs @ [(''op'', JStr (js ''ack''))]) d,
                               Inl (xerr ILLEGAL_STATE_TRANSITION))
                         else (ack_commit E auth inp msg injectionId d, Inr (ack_target (ai_status inp), False))))))"

section \<open>Reply\<close>

record reply_input =
  ri_message :: js_string
  ri_text :: js_string
  ri_outcome :: string
  ri_idempotency :: "js_string option"
  ri_metadata :: "(js_string \<times> js_string) list option"
  ri_injection :: "js_string option"

record send_result =
  sr_messageId :: js_string
  sr_correlationId :: js_string
  sr_recipient :: js_string
  sr_recipientAlias :: js_string
  sr_sequence :: nat
  sr_sendState :: delivery_state
  sr_deduplicated :: bool

definition find_idempotent :: "db \<Rightarrow> js_string \<Rightarrow> js_string \<Rightarrow> message_row option" where
  "find_idempotent d sender key = List.find (\<lambda>m. m_sender m = sender \<and> m_idempotency m = Some key) (messages d)"

text \<open>The answered delivery and the completion receipt (INSERT OR IGNORE).\<close>

definition complete_original :: "env \<Rightarrow> js_string \<Rightarrow> db \<Rightarrow> db" where
  "complete_original E msg d =
     d\<lparr>deliveries := upd_where (\<lambda>x. d_message x = msg \<and> (d_state x = Accepted \<or> d_state x = Transport_Written))
         (\<lambda>x. x\<lparr>d_state := Completed, d_completedAt := Some (now E), d_updatedAt := now E\<rparr>) (deliveries d)\<rparr>"

definition reply_receipt :: "env \<Rightarrow> authority \<Rightarrow> reply_input \<Rightarrow> message_row \<Rightarrow> db \<Rightarrow> db" where
  "reply_receipt E auth inp orig d =
     (let (i, d) = next_id E d in
      if receipt_of d (ri_message inp) (a_session auth) ReplyOp \<noteq> None then d
      else d\<lparr>receipts := receipts d @
              [\<lparr>rc_id = i, rc_message = ri_message inp, rc_session = a_session auth, rc_instance = a_instance auth,
                rc_epoch = a_epoch auth, rc_type = ReplyOp, rc_status = ri_outcome inp, rc_note = None,
                rc_bodyHash = m_bodyHash orig, rc_createdAt = now E\<rparr>]\<rparr>)"

definition reply_message :: "env \<Rightarrow> authority \<Rightarrow> reply_input \<Rightarrow> message_row \<Rightarrow> js_string \<Rightarrow> nat \<Rightarrow> js_string \<Rightarrow> nat \<Rightarrow> message_row" where
  "reply_message E auth inp orig replyId sequence threadId threadSequence =
     \<lparr>m_id = replyId, m_sender = a_session auth, m_senderAlias = m_recipientAlias orig,
      m_recipient = m_sender orig, m_recipientAlias = m_senderAlias orig, m_kind = Reply,
      m_correlation = m_correlation orig, m_causation = Some (ri_message inp), m_parent = Some (ri_message inp),
      m_sequence = sequence, m_idempotency = ri_idempotency inp, m_text = ri_text inp,
      m_bodyHash = hashBody E (ri_text inp), m_metadata = ri_metadata inp, m_requiresAck = False,
      m_requiresReply = False, m_expiresAt = None, m_createdAt = now E, m_trace = m_trace orig,
      m_thread = Some threadId, m_threadSequence = Some threadSequence, m_author = Claude\<rparr>"

text \<open>What a first reply writes after its message row.\<close>

definition reply_commit :: "env \<Rightarrow> authority \<Rightarrow> reply_input \<Rightarrow> message_row \<Rightarrow> js_string \<Rightarrow> js_string \<Rightarrow> nat \<Rightarrow> js_string option \<Rightarrow> db \<Rightarrow> db" where
  "reply_commit E auth inp orig replyId threadId threadSequence injectionId d =
     (let d = touchThread E threadId threadSequence d;
          d = markRead threadId (a_session auth) threadSequence d;
          d = insert_delivery E replyId (m_sender orig) d;
          d = complete_original E (ri_message inp) d;
          d = reply_receipt E auth inp orig d;
          d = consume_if E injectionId ReplyOp d;
          d = refreshMeaningfulActivity E (a_session auth) d
      in audit E ''REPLY'' [(''sessionId'', JStr (a_session auth)), (''messageId'', JStr (ri_message inp)),
           (''replyMessageId'', JStr replyId)] d)"

text \<open>\<open>INSERT OR IGNORE INTO thread_sequences\<close> before the allocation starts the counter at 1, as a missing row does.\<close>

definition reply ::
  "config \<Rightarrow> env \<Rightarrow> authority \<Rightarrow> reply_input \<Rightarrow> (js_string \<Rightarrow> db \<Rightarrow> nat result) \<Rightarrow> db \<Rightarrow> (send_result \<times> js_string) result" where
  "reply C E auth inp allocSeq d =
     (case assertAllowed (a_role auth) Op_Reply of
        Some e \<Rightarrow> (d, Inl e)
      | None \<Rightarrow>
          andThen (assertCurrentEpoch E auth d) (\<lambda>_. transaction (\<lambda>d.
            case message_row d (ri_message inp) of
              None \<Rightarrow> (d, Inl (xerr MESSAGE_NOT_FOUND))
            | Some orig \<Rightarrow>
                if m_recipient orig \<noteq> a_session auth then (d, Inl (xerr NOT_RECIPIENT))
                else case (if truthy (ri_idempotency inp)
                           then find_idempotent d (a_session auth) (the (ri_idempotency inp)) else None) of
                  Some dup \<Rightarrow>
                    (d, Inr (\<lparr>sr_messageId = m_id dup, sr_correlationId = m_correlation dup,
                              sr_recipient = m_recipient dup, sr_recipientAlias = m_recipientAlias dup,
                              sr_sequence = m_sequence dup, sr_sendState = Completed, sr_deduplicated = True\<rparr>, m_id dup))
                | None \<Rightarrow>
                    (case authorize_if C E ReplyOp (ri_message inp) auth (ri_injection inp) d of
                       Inl e \<Rightarrow> (d, Inl e)
                     | Inr injectionId \<Rightarrow>
                         if (case session_row d (m_sender orig) of None \<Rightarrow> False | Some s \<Rightarrow> s_expiredAt s \<noteq> None)
                         then (audit E ''REPLY_REJECTED_RECIPIENT_EXPIRED''
                                 [(''sessionId'', JStr (a_session auth)), (''messageId'', JStr (ri_message inp))] d,
                               Inl (xerr RECIPIENT_SESSION_EXPIRED))
                         else
                           let (replyId, d) = next_id E d in
                           andThen (allocSeq (m_sender orig) d) (\<lambda>sequence d.
                           let threadId = (case m_thread orig of Some t \<Rightarrow> t | None \<Rightarrow> m_correlation orig) in
                           andThen (allocThreadSequence threadId d) (\<lambda>threadSequence d.
                           andThen (insert_message
                             (reply_message E auth inp orig replyId sequence threadId threadSequence) d) (\<lambda>_ d.
                             (reply_commit E auth inp orig replyId threadId threadSequence injectionId d,
                              Inr (\<lparr>sr_messageId = ri_message inp, sr_correlationId = m_correlation orig,
                                  sr_recipient = m_sender orig, sr_recipientAlias = m_senderAlias orig,
                                  sr_sequence = sequence, sr_sendState = Queued, sr_deduplicated = False\<rparr>, replyId)))))))))"

end
