(* ===== verification/Delivery_Props.thy ===== *)
theory Delivery_Props
  imports Delivery "HOL-Library.Sublist"
begin

text \<open>
  Properties of the delivery operations: the edges each operation uses, at-most-once presentation and its
  order, the gates, the epoch fence, acknowledgement and reply.
\<close>

section \<open>Moves of the injecting operations\<close>

lemma write_delivery_frame [simp]:
  "sessions (write_delivery C E m i ep f ra d) = sessions d"
  "messages (write_delivery C E m i ep f ra d) = messages d"
  "receipts (write_delivery C E m i ep f ra d) = receipts d"
  "context_injections (write_delivery C E m i ep f ra d) = context_injections d"
  "session_controls (write_delivery C E m i ep f ra d) = session_controls d"
  by (simp_all add: write_delivery_def next_id_def Let_def)

lemma moves_write_delivery: "moves broker_edge d (write_delivery C E m i ep f ra d)"
  by (rule moves_upd [where p = "\<lambda>x. d_message x = m \<and> waiting x"])
    (auto simp: write_delivery_def next_id_def Let_def waiting_def)

lemma moves_complete: "moves broker_edge d (completeIfNoResponseRequired E m ra rr d)"
proof (cases "ra \<or> rr \<or> changes (\<lambda>x. d_message x = m \<and> d_state x = Transport_Written \<and> requires_no_ack d m) (deliveries d) = 0")
  case True
  then show ?thesis by (auto simp: completeIfNoResponseRequired_def Let_def)
next
  case False
  show ?thesis
    by (rule moves_upd [where p = "\<lambda>x. d_message x = m \<and> d_state x = Transport_Written \<and> requires_no_ack d m"])
      (use False in \<open>auto simp: completeIfNoResponseRequired_def Let_def\<close>)
qed

lemma complete_frame [simp]:
  "sessions (completeIfNoResponseRequired E m ra rr d) = sessions d"
  "messages (completeIfNoResponseRequired E m ra rr d) = messages d"
  "receipts (completeIfNoResponseRequired E m ra rr d) = receipts d"
  "context_injections (completeIfNoResponseRequired E m ra rr d) = context_injections d"
  "session_controls (completeIfNoResponseRequired E m ra rr d) = session_controls d"
  by (simp_all add: completeIfNoResponseRequired_def Let_def)

text \<open>What one round of the pull loop does.\<close>

definition injection_for :: "config \<Rightarrow> env \<Rightarrow> authority \<Rightarrow> js_string \<Rightarrow> js_string \<Rightarrow> injection_row \<Rightarrow> bool" where
  "injection_for C E auth m i r \<longleftrightarrow>
     ci_id r = i \<and> ci_message r = m \<and> ci_session r = a_session auth \<and> ci_epoch r = a_epoch auth \<and>
     ci_logical r = 1 \<and> ci_expiresAt r = now E + cf_receiptTtlMs C \<and> ci_consumedOp r = None"

lemma issue_range: "issue E ttl p d = (Some i, d') \<Longrightarrow> i \<in> range (id_of E)"
  by (auto simp: issue_def Let_def next_id_def split: if_splits)

lemma inject_one_cases:
  assumes "inject_one C E auth cp au m d = (out, d')"
  obtains (none) "out = []"
  | (one) i r where "out = [m\<lparr>pn_metadata := Some (obj_put INJECTION_METADATA_KEY i
         (case pn_metadata m of None \<Rightarrow> [] | Some es \<Rightarrow> es))\<rparr>]"
      "\<not> injected d (pn_id m) (a_epoch auth) 1" "injected d' (pn_id m) (a_epoch auth) 1"
      "r \<in> set (context_injections d')" "injection_for C E auth (pn_id m) i r"
      "\<exists>x\<in>set (deliveries d). d_message x = pn_id m \<and> waiting x" "i \<in> range (id_of E)"
proof (cases "changes (\<lambda>x. d_message x = pn_id m \<and> waiting x) (deliveries d) = 0")
  case True
  with assms none show ?thesis by (simp add: inject_one_def)
next
  case False
  let ?d1 = "write_delivery C E (pn_id m) (a_component auth) (a_epoch auth) None (pn_requiresAck m) d"
  let ?p = "\<lparr>ip_message = pn_id m, ip_session = a_session auth, ip_epoch = a_epoch auth,
               ip_checkpoint = cp, ip_component = a_component auth, ip_logical = 1\<rparr>"
  have pre: "injected ?d1 m' e l = injected d m' e l" for m' e l by (simp add: injected_def)
  show ?thesis
  proof (cases rule: issue_cases [of E "cf_receiptTtlMs C" ?p ?d1])
    case (blocked d2)
    with False assms none show ?thesis by (simp add: inject_one_def Let_def)
  next
    case (issued i d2 r)
    have ci: "context_injections d2 = context_injections d @ [r]"
      using issued(3) by (metis (no_types, lifting) db.select_convs(11) db.surjective db.update_convs(11)
          write_delivery_frame(4))
    have d': "context_injections d' = context_injections d2"
      and out: "out = [m\<lparr>pn_metadata := Some (obj_put INJECTION_METADATA_KEY i
         (case pn_metadata m of None \<Rightarrow> [] | Some es \<Rightarrow> es))\<rparr>]"
      using False assms issued(1) by (auto simp: inject_one_def Let_def)
    show ?thesis
    proof (rule one [OF out, of r])
      show "\<not> injected d (pn_id m) (a_epoch auth) 1" using issued(2) pre by simp
      show "r \<in> set (context_injections d')" using d' ci by simp
      show "injected d' (pn_id m) (a_epoch auth) 1"
        using d' ci issued(5-8) by (simp add: injected_def)
      show "injection_for C E auth (pn_id m) i r"
        using issued(4-) by (simp add: injection_for_def)
      show "\<exists>x\<in>set (deliveries d). d_message x = pn_id m \<and> waiting x"
        using False by (simp add: changes_0_iff)
      show "i \<in> range (id_of E)" using issued(1) by (rule issue_range)
    qed
  qed
qed

lemma inject_one_moves:
  assumes "inject_one C E auth cp au m d = (out, d')"
  shows "moves broker_edge d d'"
proof (cases "changes (\<lambda>x. d_message x = pn_id m \<and> waiting x) (deliveries d) = 0")
  case True
  with assms show ?thesis by (simp add: inject_one_def)
next
  case False
  let ?d1 = "write_delivery C E (pn_id m) (a_component auth) (a_epoch auth) None (pn_requiresAck m) d"
  let ?p = "\<lparr>ip_message = pn_id m, ip_session = a_session auth, ip_epoch = a_epoch auth,
               ip_checkpoint = cp, ip_component = a_component auth, ip_logical = 1\<rparr>"
  let ?d2 = "snd (issue E (cf_receiptTtlMs C) ?p ?d1)"
  have "moves broker_edge d ?d2"
    using moves_write_delivery moves_issue by (rule moves_trans)
  moreover have "moves broker_edge ?d2 d'"
    using False assms
    by (auto simp: inject_one_def Let_def case_prod_beta split: option.splits if_splits
        intro: moves_trans moves_basic moves_complete)
  ultimately show ?thesis by (rule moves_trans)
qed

lemma inject_one_frame:
  assumes "inject_one C E auth cp au m d = (out, d')"
  shows "sessions d' = sessions d" "messages d' = messages d" "receipts d' = receipts d"
    "session_controls d' = session_controls d"
  using assms
  by (auto simp: inject_one_def Let_def case_prod_beta split: option.splits if_splits)

lemma inject_all_moves: "inject_all C E auth cp au ms d = (out, d') \<Longrightarrow> moves broker_edge d d'"
proof (induction ms arbitrary: d out)
  case (Cons m ms)
  then obtain o1 d1 o2 where "inject_one C E auth cp au m d = (o1, d1)" "inject_all C E auth cp au ms d1 = (o2, d')"
    by (auto simp: Let_def split: prod.splits)
  with Cons.IH inject_one_moves moves_trans show ?case by blast
qed simp

lemma inject_all_frame:
  "inject_all C E auth cp au ms d = (out, d') \<Longrightarrow>
     sessions d' = sessions d \<and> messages d' = messages d \<and> receipts d' = receipts d \<and>
     session_controls d' = session_controls d"
proof (induction ms arbitrary: d out)
  case (Cons m ms)
  then obtain o1 d1 o2 where "inject_one C E auth cp au m d = (o1, d1)" "inject_all C E auth cp au ms d1 = (o2, d')"
    by (auto simp: Let_def split: prod.splits)
  with Cons.IH inject_one_frame show ?case by metis
qed simp

text \<open>
  What the loop returns: a sublist of the selected messages, each with a fresh injection reference in its
  metadata, none of them injected before, all of them after, and none twice.
\<close>

definition without_reference :: "pending_message \<Rightarrow> pending_message" where
  "without_reference m = m\<lparr>pn_metadata := None\<rparr>"

definition presents :: "nat \<Rightarrow> db \<Rightarrow> db \<Rightarrow> js_string list \<Rightarrow> bool" where
  "presents ep d d' ids \<longleftrightarrow> distinct ids \<and> (\<forall>m\<in>set ids. \<not> injected d m ep 1 \<and> injected d' m ep 1)"

lemma inject_all_out:
  "inject_all C E auth cp au ms d = (out, d') \<Longrightarrow>
     presents (a_epoch auth) d d' (map pn_id out) \<and>
     subseq (map without_reference out) (map without_reference ms)"
proof (induction ms arbitrary: d out)
  case (Cons m ms)
  then obtain o1 d1 o2 where 1: "inject_one C E auth cp au m d = (o1, d1)"
    and 2: "inject_all C E auth cp au ms d1 = (o2, d')" and out: "out = o1 @ o2"
    by (auto simp: Let_def split: prod.splits)
  note IH = Cons.IH [OF 2]
  have bwd: "\<not> injected d k e l" if "\<not> injected d1 k e l" for k e l
    using moves_injected [OF inject_one_moves [OF 1]] that by blast
  have fwd: "injected d' k e l" if "injected d1 k e l" for k e l
    using moves_injected [OF inject_all_moves [OF 2] that] .
  from 1 show ?case
  proof (cases rule: inject_one_cases)
    case none
    with IH out bwd show ?thesis by (auto simp: presents_def)
  next
    case (one i r)
    with IH out bwd fwd show ?thesis
      by (auto simp: presents_def without_reference_def)
  qed
qed (simp add: presents_def)

section \<open>Pulls\<close>

lemma pull_pending_Inr:
  assumes "pull_pending C E auth cp au bound d = (d', r)"
  obtains out d1 where "r = Inr out"
    "inject_all C E auth cp au (pendingForSessionId E d (a_session auth) (cap_limit bound)) d = (out, d1)"
    "d' = (if out \<noteq> [] then refreshMeaningfulActivity E (a_session auth) d1 else d1)"
  using assms by (auto simp: pull_pending_def transaction_def Let_def split: prod.splits)

lemma pull_pending_moves: "moves broker_edge d (fst (pull_pending C E auth cp au bound d))"
proof -
  obtain d' r where p: "pull_pending C E auth cp au bound d = (d', r)" by fastforce
  then obtain out d1 where "inject_all C E auth cp au (pendingForSessionId E d (a_session auth) (cap_limit bound)) d = (out, d1)"
    "d' = (if out \<noteq> [] then refreshMeaningfulActivity E (a_session auth) d1 else d1)"
    by (rule pull_pending_Inr)
  then show ?thesis
    using p inject_all_moves moves_trans [OF _ moves_frame(3)] by auto
qed

lemma pull_pending_presents:
  "pull_pending C E auth cp au bound d = (d', Inr out) \<Longrightarrow> presents (a_epoch auth) d d' (map pn_id out)"
  by (erule pull_pending_Inr) (auto dest!: inject_all_out simp: presents_def split: if_splits)

lemma presents_Nil [simp]: "presents ep d d' []"
  by (simp add: presents_def)

lemma checkpointPull_moves: "moves broker_edge d (fst (checkpointPull C E auth cp bound d))"
  by (auto simp: checkpointPull_def moves_basic pull_pending_moves intro!: moves_andThen split: option.splits)

lemma processNext_moves: "moves broker_edge d (fst (processNext C E auth cp d))"
  by (auto simp: processNext_def checkpointPullForced_def moves_basic pull_pending_moves
      intro!: moves_andThen split: option.splits)

lemma checkpointPull_Inr:
  assumes "checkpointPull C E auth cp bound d = (d', Inr out)"
  shows "a_role auth = HOOK" "current_epoch d auth"
    "out = [] \<or> sessionAcceptsInjection d (a_session auth) \<and> autoDeliveryEnabled d (a_session auth) \<and>
       pull_pending C E auth cp True bound d = (d', Inr out)"
  using assms
  by (auto simp: checkpointPull_def res_simps ack_reply_pull_roles split: option.splits if_splits)

lemma processNext_Inr:
  assumes "processNext C E auth cp d = (d', Inr out)"
  shows "a_role auth = HOOK" "current_epoch d auth"
    "out = [] \<or> sessionAcceptsInjection d (a_session auth) \<and> pull_pending C E auth cp False 1 d = (d', Inr out)"
  using assms
  by (auto simp: processNext_def checkpointPullForced_def res_simps ack_reply_pull_roles split: option.splits if_splits)

lemma checkpointPull_presents:
  "checkpointPull C E auth cp bound d = (d', Inr out) \<Longrightarrow> presents (a_epoch auth) d d' (map pn_id out)"
  using checkpointPull_Inr(3) pull_pending_presents by fastforce

lemma processNext_presents:
  "processNext C E auth cp d = (d', Inr out) \<Longrightarrow> presents (a_epoch auth) d d' (map pn_id out)"
  using processNext_Inr(3) pull_pending_presents by fastforce

section \<open>Order and content of a pull\<close>

lemma set_joined: "(x, m) \<in> set (joined d) \<longleftrightarrow> x \<in> set (deliveries d) \<and> m \<in> set (messages d) \<and> m_id m = d_message x"
  by (auto simp: joined_def)

lemma pending_member:
  assumes "pm \<in> set (pendingForSessionId E d sid bound)"
  obtains x m where "x \<in> set (deliveries d)" "m \<in> set (messages d)" "m_id m = d_message x" "eligible E sid x m"
    "pm = rowToPending m"
proof -
  let ?rows = "sort_key (\<lambda>(x, m). m_sequence m) (filter (\<lambda>(x, m). eligible E sid x m) (joined d))"
  obtain x m where pm: "pm = rowToPending m" and "(x, m) \<in> set (sql_limit bound ?rows)"
    using assms by (auto simp: pendingForSessionId_def)
  then have "(x, m) \<in> set ?rows" using sql_limit_subset [of bound ?rows] by blast
  then have "(x, m) \<in> set (joined d)" "eligible E sid x m" by simp_all
  then show ?thesis using pm that [of x m] by (simp add: set_joined)
qed

lemma pending_sorted: "sorted (map pn_sequence (pendingForSessionId E d sid bound))"
proof -
  let ?rows = "sort_key (\<lambda>(x, m). m_sequence m) (filter (\<lambda>(x, m). eligible E sid x m) (joined d))"
  have "map pn_sequence (pendingForSessionId E d sid bound) = map (\<lambda>(x, m). m_sequence m) (sql_limit bound ?rows)"
    by (auto simp: pendingForSessionId_def rowToPending_def)
  moreover have "sorted (map (\<lambda>(x, m). m_sequence m) (sql_limit bound ?rows))"
    by (intro sorted_sql_limit) simp
  ultimately show ?thesis by simp
qed

lemma pending_length: "0 \<le> bound \<Longrightarrow> length (pendingForSessionId E d sid bound) \<le> nat bound"
  by (simp add: pendingForSessionId_def sql_limit_def)

lemma cap_limit_bounds: "1 \<le> cap_limit n" "cap_limit n \<le> 50"
  by (auto simp: cap_limit_def)

lemma subseq_sorted: "subseq xs ys \<Longrightarrow> sorted ys \<Longrightarrow> sorted xs"
  by (induction rule: list_emb.induct) (auto dest: list_emb_set)

lemma pull_content:
  assumes "pull_pending C E auth cp au bound d = (d', Inr out)"
  shows "sorted (map pn_sequence out)" "length out \<le> 50"
    "\<forall>p\<in>set out. \<exists>x\<in>set (deliveries d). \<exists>m\<in>set (messages d). m_id m = d_message x \<and>
       eligible E (a_session auth) x m \<and> without_reference p = without_reference (rowToPending m)"
proof -
  let ?ps = "pendingForSessionId E d (a_session auth) (cap_limit bound)"
  obtain d1 where "inject_all C E auth cp au ?ps d = (out, d1)"
    using assms by (rule pull_pending_Inr) auto
  then have sub: "subseq (map without_reference out) (map without_reference ?ps)"
    using inject_all_out by blast
  then have "subseq (map pn_sequence (map without_reference out)) (map pn_sequence (map without_reference ?ps))"
    by (rule subseq_map)
  moreover have "map pn_sequence (map without_reference xs) = map pn_sequence xs" for xs
    by (simp add: without_reference_def)
  ultimately show "sorted (map pn_sequence out)"
    using subseq_sorted pending_sorted by metis
  have "length out \<le> length ?ps" using list_emb_length [OF sub] by simp
  also have "\<dots> \<le> nat (cap_limit bound)" using cap_limit_bounds(1) [of bound] by (intro pending_length) linarith
  finally show "length out \<le> 50" using cap_limit_bounds(2) [of bound] by linarith
  show "\<forall>p\<in>set out. \<exists>x\<in>set (deliveries d). \<exists>m\<in>set (messages d). m_id m = d_message x \<and>
       eligible E (a_session auth) x m \<and> without_reference p = without_reference (rowToPending m)"
  proof
    fix p assume "p \<in> set out"
    then have "without_reference p \<in> without_reference ` set ?ps"
      using list_emb_set [OF sub, of "without_reference p"] by auto
    then obtain pm where "pm \<in> set ?ps" "without_reference p = without_reference pm" by blast
    then show "\<exists>x\<in>set (deliveries d). \<exists>m\<in>set (messages d). m_id m = d_message x \<and>
       eligible E (a_session auth) x m \<and> without_reference p = without_reference (rowToPending m)"
      by (metis pending_member)
  qed
qed

section \<open>Marking, redelivery, acknowledgement and reply as moves\<close>

lemma mark_one_moves: "moves broker_edge d (snd (mark_one C E auth cp m d))"
proof -
  have step: "moves broker_edge d1 d2 \<Longrightarrow> moves broker_edge d d1 \<Longrightarrow> moves broker_edge d d2" for d1 d2
    by (rule moves_trans)
  show ?thesis
    unfolding mark_one_def Let_def case_prod_beta
    by (auto split: option.splits
        intro!: step [OF moves_complete] step [OF moves_issue] step [OF moves_frame(1)] step [OF moves_frame(4)]
          moves_write_delivery)
qed

lemma mark_all_moves: "moves broker_edge d (snd (mark_all C E auth cp ms d))"
proof (induction ms arbitrary: d)
  case (Cons m ms)
  have "moves broker_edge (snd (mark_one C E auth cp m d)) (snd (mark_all C E auth cp (m # ms) d))"
    using Cons.IH [of "snd (mark_one C E auth cp m d)"] by (simp add: Let_def case_prod_beta)
  with mark_one_moves moves_trans show ?case by blast
qed simp

lemma markInjectedFor_moves: "moves broker_edge d (fst (markInjectedFor C E auth ms cp d))"
  unfolding markInjectedFor_def
  by (rule moves_transaction) (metis (no_types, lifting) case_prod_beta fst_conv mark_all_moves)

lemma markInjected_moves: "moves broker_edge d (fst (markInjected C E auth ms d))"
  by (auto simp: markInjected_def markInjectedFor_moves intro!: moves_andThen)

lemma redeliver_moves: "moves broker_edge d (fst (redeliver C E auth m reason d))"
proof -
  have step: "moves broker_edge d1 d2 \<Longrightarrow> moves broker_edge d d1 \<Longrightarrow> moves broker_edge d d2" for d d1 d2
    by (rule moves_trans)
  show ?thesis
    unfolding redeliver_def
    by (auto simp: Let_def case_prod_beta split: option.splits if_splits
        intro!: moves_andThen moves_transaction
          step [OF moves_issue] step [OF moves_frame(1)] step [OF moves_frame(3)] step [OF moves_frame(4)])
qed

lemma moves_same_tables: "same_tables d d' \<Longrightarrow> moves R d d'"
  by (rule moves_same) (simp_all add: same_tables_fields)

lemma moves_consume_if: "moves R d (consume_if E i op d)"
  by (simp add: consume_if_def)

lemma consume_if_frame [simp]:
  "sessions (consume_if E i op d) = sessions d" "messages (consume_if E i op d) = messages d"
  "deliveries (consume_if E i op d) = deliveries d" "receipts (consume_if E i op d) = receipts d"
  by (simp_all add: consume_if_def)

lemma ack_commit_deliveries:
  "deliveries (ack_commit E auth inp msg i d) =
     upd_where (\<lambda>x. d_message x = ai_message inp \<and> d_state x = Transport_Written) (ack_row E inp) (deliveries d)"
  by (simp add: ack_commit_def Let_def next_id_def)

lemma ack_commit_moves: "moves broker_edge d (ack_commit E auth inp msg i d)"
proof -
  let ?d1 = "d\<lparr>deliveries := deliveries (ack_commit E auth inp msg i d)\<rparr>"
  have "moves broker_edge d ?d1"
    by (rule moves_upd [where p = "\<lambda>x. d_message x = ai_message inp \<and> d_state x = Transport_Written"])
      (auto simp: ack_commit_deliveries ack_row_def ack_target_def split: if_splits)
  moreover have "moves broker_edge ?d1 (consume_if E i AckOp ?d1)" by (rule moves_consume_if)
  moreover have "moves broker_edge (consume_if E i AckOp ?d1) (ack_commit E auth inp msg i d)"
    by (rule moves_same) (simp_all add: ack_commit_def Let_def next_id_def consume_if_def consume_def)
  ultimately show ?thesis by (blast intro: moves_trans)
qed

section \<open>Acknowledgement\<close>

lemma ack_Inr:
  assumes "ack C E auth inp d = (d', Inr (st, dup))"
  obtains (duplicate) msg r x where "dup" "d' = d" "message_row d (ai_message inp) = Some msg"
      "m_recipient msg = a_session auth" "receipt_of d (ai_message inp) (a_session auth) AckOp = Some r"
      "rc_status r = status_name (ai_status inp)" "delivery_row d (ai_message inp) = Some x" "st = d_state x"
  | (first) msg i where "\<not> dup" "message_row d (ai_message inp) = Some msg" "m_recipient msg = a_session auth"
      "receipt_of d (ai_message inp) (a_session auth) AckOp = None"
      "authorize_if C E AckOp (ai_message inp) auth (ai_injection inp) d = Inr i"
      "\<exists>x\<in>set (deliveries d). d_message x = ai_message inp \<and> d_state x = Transport_Written"
      "d' = ack_commit E auth inp msg i d" "st = ack_target (ai_status inp)"
  using assms
  by (auto simp: ack_def res_simps Let_def changes_0_iff split: option.splits if_splits sum.splits)

lemma ack_Inl_tables:
  assumes "ack C E auth inp d = (d', Inl e)" and "current_epoch d auth"
  shows "same_tables d d'"
  using assms
  by (auto simp: ack_def res_simps assertCurrentEpoch_current dest: transaction_Inl split: option.splits)

lemma stale_epoch:
  assumes "\<not> current_epoch d auth"
  obtains d' e where "assertCurrentEpoch E auth d = (d', Inl e)" "moves R d d'"
    "e \<in> {xerr SESSION_NOT_REGISTERED, xerr EPOCH_MISMATCH}"
  using assertCurrentEpoch_stale [OF assms, of E] moves_assertCurrentEpoch [of R d E auth] fst_conv by metis

lemma ack_moves: "moves broker_edge d (fst (ack C E auth inp d))"
proof -
  obtain d' r where ack: "ack C E auth inp d = (d', r)" by fastforce
  show ?thesis
  proof (cases r)
    case (Inr v)
    obtain st dup where "v = (st, dup)" by fastforce
    with ack Inr have "ack C E auth inp d = (d', Inr (st, dup))" by simp
    then have "moves broker_edge d d'"
      by (cases rule: ack_Inr) (auto simp: ack_commit_moves)
    with ack show ?thesis by simp
  next
    case (Inl e)
    show ?thesis
    proof (cases "current_epoch d auth")
      case True
      with ack Inl show ?thesis using ack_Inl_tables moves_same_tables by fastforce
    next
      case False
      then obtain d1 e1 where "assertCurrentEpoch E auth d = (d1, Inl e1)" "moves broker_edge d d1"
        by (rule stale_epoch)
      then show ?thesis by (auto simp: ack_def split: option.splits)
    qed
  qed
qed

text \<open>The effect of a first acknowledgement on the delivery it answers, and on every other one.\<close>

lemma delivery_row_upd:
  assumes "deliveries d' = upd_where p f (deliveries d)" and "\<And>x. d_message (f x) = d_message x"
  shows "delivery_row d' m = map_option (\<lambda>x. if p x then f x else x) (delivery_row d m)"
  unfolding delivery_row_def assms(1) using assms(2) by (rule find_upd_key)

lemma ack_commit_row:
  "delivery_row (ack_commit E auth inp msg i d) m =
     map_option (\<lambda>x. if d_message x = ai_message inp \<and> d_state x = Transport_Written then ack_row E inp x else x)
       (delivery_row d m)"
  by (rule delivery_row_upd [OF ack_commit_deliveries]) (simp add: ack_row_def)

lemma ack_commit_receipt:
  assumes "receipt_of d (ai_message inp) (a_session auth) AckOp = None"
  shows "\<exists>r. receipt_of (ack_commit E auth inp msg i d) (ai_message inp) (a_session auth) AckOp = Some r \<and>
           rc_status r = status_name (ai_status inp)"
  using assms by (simp add: receipt_of_def ack_commit_def Let_def next_id_def find_append)

lemma ack_commit_frame [simp]:
  "messages (ack_commit E auth inp msg i d) = messages d"
  by (simp add: ack_commit_def Let_def next_id_def)

lemma session_row_refresh:
  "session_row (refreshMeaningfulActivity E sid d) j = map_option (\<lambda>s. if s_id s = sid \<and> s_expiredAt s = None
       then s\<lparr>s_lastActivityAt := Some (now E),
              s_expiresAt := Some (now E + MEANINGFUL_ACTIVITY_RETENTION_MS), s_updatedAt := now E\<rparr> else s)
     (session_row d j)"
  unfolding session_row_def refreshMeaningfulActivity_def by (simp add: find_upd_key)

lemma current_epoch_cong: "sessions d' = sessions d \<Longrightarrow> current_epoch d' auth = current_epoch d auth"
  by (simp add: current_epoch_def session_row_def)

lemma current_epoch_refresh [simp]: "current_epoch (refreshMeaningfulActivity E sid d) auth = current_epoch d auth"
  by (auto simp: current_epoch_def session_row_refresh split: option.splits)

lemma current_epoch_audit [simp]: "current_epoch (audit E ev fs d) auth = current_epoch d auth"
  by (rule current_epoch_cong) simp

lemma ack_commit_sessions: "sessions (ack_commit E auth inp msg i d) = sessions (refreshMeaningfulActivity E (a_session auth) d)"
  by (simp add: ack_commit_def Let_def next_id_def refreshMeaningfulActivity_def)

lemma ack_commit_epoch [simp]: "current_epoch (ack_commit E auth inp msg i d) a = current_epoch d a"
  using current_epoch_cong [OF ack_commit_sessions, of E auth inp msg i d a] by simp

section \<open>Reply\<close>

lemma reply_commit_deliveries:
  "deliveries (reply_commit E auth inp orig rid t n i d) =
     upd_where (\<lambda>x. d_message x = ri_message inp \<and> (d_state x = Accepted \<or> d_state x = Transport_Written))
       (\<lambda>x. x\<lparr>d_state := Completed, d_completedAt := Some (now E), d_updatedAt := now E\<rparr>)
       (deliveries (insert_delivery E rid (m_sender orig) d))"
  by (simp add: reply_commit_def reply_receipt_def complete_original_def Let_def next_id_def insert_delivery_def)

lemma reply_commit_moves: "moves broker_edge d (reply_commit E auth inp orig rid t n i d)"
proof -
  let ?d1 = "insert_delivery E rid (m_sender orig) d"
  let ?d2 = "?d1\<lparr>deliveries := deliveries (reply_commit E auth inp orig rid t n i d)\<rparr>"
  have "moves broker_edge ?d1 ?d2"
    by (rule moves_upd [where p = "\<lambda>x. d_message x = ri_message inp \<and> (d_state x = Accepted \<or> d_state x = Transport_Written)"])
      (auto simp: reply_commit_deliveries)
  moreover have "moves broker_edge ?d2 (consume_if E i ReplyOp ?d2)" by (rule moves_consume_if)
  moreover have "moves broker_edge (consume_if E i ReplyOp ?d2) (reply_commit E auth inp orig rid t n i d)"
    by (rule moves_same)
      (simp_all add: reply_commit_def reply_receipt_def complete_original_def Let_def next_id_def consume_if_def consume_def)
  ultimately show ?thesis by (blast intro: moves_trans moves_insert_delivery)
qed

definition reply_thread :: "message_row \<Rightarrow> js_string" where
  "reply_thread orig = (case m_thread orig of Some t \<Rightarrow> t | None \<Rightarrow> m_correlation orig)"

lemma reply_Inr:
  assumes "reply C E auth inp alloc d = (d', Inr (res, rid))"
  obtains (duplicate) orig m where "d' = d" "message_row d (ri_message inp) = Some orig" "m_recipient orig = a_session auth"
      "find_idempotent d (a_session auth) (the (ri_idempotency inp)) = Some m" "rid = m_id m" "sr_deduplicated res"
  | (first) orig i d2 n d3 k d4 where "message_row d (ri_message inp) = Some orig" "m_recipient orig = a_session auth"
      "authorize_if C E ReplyOp (ri_message inp) auth (ri_injection inp) d = Inr i"
      "\<forall>s. session_row d (m_sender orig) = Some s \<longrightarrow> s_expiredAt s = None"
      "alloc (m_sender orig) (d\<lparr>ids_drawn := Suc (ids_drawn d)\<rparr>) = (d2, Inr n)"
      "allocThreadSequence (reply_thread orig) d2 = (d3, Inr k)"
      "insert_message (reply_message E auth inp orig rid n (reply_thread orig) k) d3 = (d4, Inr ())"
      "d' = reply_commit E auth inp orig rid (reply_thread orig) k i d4" "rid = id_of E (ids_drawn d)"
      "res = \<lparr>sr_messageId = ri_message inp, sr_correlationId = m_correlation orig, sr_recipient = m_sender orig,
              sr_recipientAlias = m_senderAlias orig, sr_sequence = n, sr_sendState = Queued, sr_deduplicated = False\<rparr>"
proof -
  from assms show ?thesis
    unfolding reply_def reply_thread_def [symmetric]
    by (auto simp: res_simps Let_def next_id_def intro: first duplicate split: option.splits if_splits sum.splits)
qed

lemma reply_Inl_tables:
  assumes "reply C E auth inp alloc d = (d', Inl e)" and "current_epoch d auth"
  shows "same_tables d d'"
  using assms
  by (auto simp: reply_def res_simps assertCurrentEpoch_current dest: transaction_Inl split: option.splits)

lemma insert_message_Inr:
  "insert_message m d = (d', Inr u) \<longleftrightarrow>
     d' = d\<lparr>messages := messages d @ [m]\<rparr> \<and> (\<forall>r\<in>set (messages d). \<not> message_conflict m r)"
  by (auto simp: insert_message_def list_ex_iff)

lemma reply_moves: "moves broker_edge d (fst (reply C E auth inp allocSequence d))"
proof -
  obtain d' r where reply: "reply C E auth inp allocSequence d = (d', r)" by fastforce
  show ?thesis
  proof (cases r)
    case (Inr v)
    obtain res rid where "v = (res, rid)" by fastforce
    with reply Inr have "reply C E auth inp allocSequence d = (d', Inr (res, rid))" by simp
    then have "moves broker_edge d d'"
    proof (cases rule: reply_Inr)
      case (first orig i d2 n d3 k d4)
      have "moves broker_edge d (d\<lparr>ids_drawn := Suc (ids_drawn d)\<rparr>)" by (rule moves_same) simp_all
      moreover have "moves broker_edge (d\<lparr>ids_drawn := Suc (ids_drawn d)\<rparr>) d2"
        using moves_frame(11) first(5) by (metis fst_conv)
      moreover have "moves broker_edge d2 d3" using moves_frame(12) first(6) by (metis fst_conv)
      moreover have "moves broker_edge d3 d4" using moves_frame(10) first(7) by (metis fst_conv)
      moreover have "moves broker_edge d4 d'" using first(8) by (simp add: reply_commit_moves)
      ultimately show ?thesis by (blast intro: moves_trans)
    qed simp
    with reply show ?thesis by simp
  next
    case (Inl e)
    show ?thesis
    proof (cases "current_epoch d auth")
      case True
      with reply Inl show ?thesis using reply_Inl_tables moves_same_tables by fastforce
    next
      case False
      then obtain d1 e1 where "assertCurrentEpoch E auth d = (d1, Inl e1)" "moves broker_edge d d1"
        by (rule stale_epoch)
      then show ?thesis by (auto simp: reply_def split: option.splits)
    qed
  qed
qed

lemma inboxView_moves: "moves broker_edge d (fst (inboxView C E auth cp bound d))"
  by (auto simp: inboxView_def Let_def checkpointPull_moves intro!: moves_andThen split: option.splits)

lemma checkpointPullBySessionId_moves: "moves broker_edge d (fst (checkpointPullBySessionId C E sid bound d))"
  by (auto simp: checkpointPullBySessionId_def Let_def markInjectedFor_moves intro!: moves_andThen split: option.splits)

text \<open>A second round of the loop over the same message finds no waiting delivery.\<close>

lemma issue_fresh:
  "issue E ttl p d = (Some i, d') \<Longrightarrow>
     \<not> injected d (ip_message p) (ip_epoch p) (ip_logical p) \<and> injected d' (ip_message p) (ip_epoch p) (ip_logical p)"
  using issue_Some by blast

lemma mark_one_presents:
  assumes "mark_one C E auth cp m d = (out, d')"
  shows "presents (a_epoch auth) d d' out" and "set out \<subseteq> {m}"
proof -
  have pre: "injected (write_delivery C E k i e f ra d) k' e' l = injected d k' e' l"
    "injected (d2\<lparr>ids_drawn := j\<rparr>) k' e' l = injected d2 k' e' l"
    "injected (completeIfNoResponseRequired E m ra rr d2) k' e' l = injected d2 k' e' l"
    for k i e f ra rr d2 k' e' l j by (simp_all add: injected_def)
  from assms show "presents (a_epoch auth) d d' out"
    by (cases cp)
      (auto simp: mark_one_def Let_def next_id_def presents_def pre
        split: option.splits if_splits prod.splits dest!: issue_fresh)
  from assms show "set out \<subseteq> {m}"
    by (auto simp: mark_one_def Let_def split: option.splits if_splits prod.splits)
qed

lemma mark_all_presents:
  "mark_all C E auth cp ms d = (out, d') \<Longrightarrow> presents (a_epoch auth) d d' out \<and> set out \<subseteq> set ms"
proof (induction ms arbitrary: d out)
  case (Cons m ms)
  then obtain o1 d1 o2 where 1: "mark_one C E auth cp m d = (o1, d1)"
    and 2: "mark_all C E auth cp ms d1 = (o2, d')" and out: "out = o1 @ o2"
    by (auto simp: Let_def split: prod.splits)
  have "moves broker_edge d d1" "moves broker_edge d1 d'"
    using mark_one_moves mark_all_moves 1 2 by (metis snd_conv)+
  then show ?case
    using mark_one_presents [OF 1] Cons.IH [OF 2] out
    by (auto simp: presents_def dest: moves_injected)
qed simp

lemma markInjectedFor_presents:
  "markInjectedFor C E auth ms cp d = (d', Inr out) \<Longrightarrow> presents (a_epoch auth) d d' out"
  by (auto simp: markInjectedFor_def res_simps Let_def split: prod.splits dest: mark_all_presents)

end
