(* ===== verification/Delivery_Flow.thy ===== *)
theory Delivery_Flow
  imports Delivery_Props
begin

text \<open>
  The path of one message through the delivery operations: what a pull presents can be acknowledged, and a
  pull presents everything it selected. The well-formedness of the delivery tables is kept by every
  operation.
\<close>

section \<open>Well-formed delivery tables\<close>

definition store_ok :: "db \<Rightarrow> bool" where
  "store_ok d \<longleftrightarrow> distinct (map m_id (messages d)) \<and> distinct (map d_message (deliveries d))
     \<and> distinct (map ci_id (context_injections d))
     \<and> (\<forall>x\<in>set (deliveries d). \<exists>m\<in>set (messages d). m_id m = d_message x \<and> m_recipient m = d_recipient x)"

definition keys :: "db \<Rightarrow> (js_string \<times> js_string) list" where
  "keys d = map (\<lambda>x. (d_message x, d_recipient x)) (deliveries d)"

lemma store_ok_keys:
  "store_ok d \<longleftrightarrow> distinct (map m_id (messages d)) \<and> distinct (map fst (keys d))
     \<and> distinct (map ci_id (context_injections d))
     \<and> set (keys d) \<subseteq> (\<lambda>m. (m_id m, m_recipient m)) ` set (messages d)"
proof -
  have "(\<forall>x\<in>set (deliveries d). \<exists>m\<in>set (messages d). m_id m = d_message x \<and> m_recipient m = d_recipient x)
      \<longleftrightarrow> set (keys d) \<subseteq> (\<lambda>m. (m_id m, m_recipient m)) ` set (messages d)"
    by (simp add: keys_def image_subset_iff image_iff eq_commute)
  then show ?thesis by (simp add: store_ok_def keys_def comp_def)
qed

lemma store_ok_cong:
  assumes "store_ok d" "messages d' = messages d" "keys d' = keys d"
    "map ci_id (context_injections d') = map ci_id (context_injections d)"
  shows "store_ok d'"
  using assms by (simp add: store_ok_keys)

lemma keys_upd:
  "deliveries d' = upd_where p f (deliveries d) \<Longrightarrow>
   (\<And>x. d_message (f x) = d_message x \<and> d_recipient (f x) = d_recipient x) \<Longrightarrow> keys d' = keys d"
  by (simp add: keys_def map_upd_where)

lemma keys_same: "deliveries d' = deliveries d \<Longrightarrow> keys d' = keys d"
  by (simp add: keys_def)

lemma keys_write [simp]: "keys (write_delivery C E m i ep f ra d) = keys d"
  by (simp add: write_delivery_def next_id_def Let_def keys_def map_upd_where)

lemma keys_complete [simp]: "keys (completeIfNoResponseRequired E m ra rr d) = keys d"
  by (auto simp: completeIfNoResponseRequired_def Let_def keys_def map_upd_where)

lemma keys_frame [simp]:
  "keys (snd (issue E ttl p d)) = keys d" "keys (audit E ev fs d) = keys d"
  "keys (refreshMeaningfulActivity E sid d) = keys d" "keys (consume E i op d) = keys d"
  by (simp_all add: keys_def)

text \<open>An issued injection has an id no other injection has.\<close>

lemma issue_ids: "distinct (map ci_id (context_injections d)) \<Longrightarrow>
    distinct (map ci_id (context_injections (snd (issue E ttl p d))))"
  by (auto simp: issue_def Let_def next_id_def list_ex_iff)

lemma issue_ok: "store_ok d \<Longrightarrow> store_ok (snd (issue E ttl p d))"
  by (simp add: store_ok_keys issue_ids)

lemma store_ok_frame:
  "store_ok d \<Longrightarrow> store_ok (audit E ev fs d)" "store_ok d \<Longrightarrow> store_ok (refreshMeaningfulActivity E sid d)"
  "store_ok d \<Longrightarrow> store_ok (write_delivery C E m i ep f ra d)"
  "store_ok d \<Longrightarrow> store_ok (completeIfNoResponseRequired E m ra rr d)"
  by (erule store_ok_cong; simp)+

lemma store_ok_consume: "store_ok d \<Longrightarrow> store_ok (consume E i op d)"
  by (erule store_ok_cong) (simp_all add: consume_def keys_def map_upd_where)

lemma store_ok_ids: "store_ok d \<Longrightarrow> store_ok (d\<lparr>ids_drawn := n\<rparr>)"
  by (erule store_ok_cong) (simp_all add: keys_def)

lemmas store_ok_basic = issue_ok store_ok_frame store_ok_consume store_ok_ids

lemma inject_one_ok: "store_ok d \<Longrightarrow> store_ok (snd (inject_one C E auth cp au m d))"
  by (auto simp: inject_one_def Let_def case_prod_beta store_ok_basic split: option.splits)

lemma inject_all_ok: "store_ok d \<Longrightarrow> store_ok (snd (inject_all C E auth cp au ms d))"
proof (induction ms arbitrary: d)
  case (Cons m ms)
  then show ?case
    using Cons.IH [OF inject_one_ok [OF Cons.prems]] by (simp add: Let_def case_prod_beta)
qed simp

lemma mark_one_ok: "store_ok d \<Longrightarrow> store_ok (snd (mark_one C E auth cp m d))"
  by (auto simp: mark_one_def Let_def case_prod_beta next_id_def store_ok_basic split: option.splits)

lemma mark_all_ok: "store_ok d \<Longrightarrow> store_ok (snd (mark_all C E auth cp ms d))"
proof (induction ms arbitrary: d)
  case (Cons m ms)
  then show ?case
    using Cons.IH [OF mark_one_ok [OF Cons.prems]] by (simp add: Let_def case_prod_beta)
qed simp

lemma store_ok_same_tables:
  assumes "store_ok d" and "same_tables d d'"
  shows "store_ok d'"
  using same_tables_fields [OF assms(2)] by (intro store_ok_cong [OF assms(1)]) (simp_all add: keys_def)

lemma store_ok_transaction:
  assumes "store_ok d" and "\<And>d' x. f d = (d', Inr x) \<Longrightarrow> store_ok d'"
  shows "store_ok (fst (transaction f d))"
proof (cases "f d")
  case (Pair d' r)
  have "store_ok (d\<lparr>ids_drawn := i, secrets_drawn := j, capabilities_drawn := k\<rparr>)" for i j k
    using assms(1) by (rule store_ok_cong) (simp_all add: keys_def)
  with Pair assms(2) show ?thesis by (cases r) (auto simp: transaction_def)
qed

lemma store_ok_andThen:
  assumes "store_ok (fst r)" and "\<And>x d'. r = (d', Inr x) \<Longrightarrow> store_ok d' \<Longrightarrow> store_ok (fst (k x d'))"
  shows "store_ok (fst (andThen r k))"
  using assms by (cases r; cases "snd r") (auto simp: andThen_def)

lemma store_ok_fence: "store_ok d \<Longrightarrow> store_ok (fst (assertCurrentEpoch E auth d))"
  by (auto simp: assertCurrentEpoch_def store_ok_basic split: option.splits)

lemma pull_pending_ok:
  assumes "store_ok d"
  shows "store_ok (fst (pull_pending C E auth cp au n d))"
  unfolding pull_pending_def
  by (rule store_ok_transaction [OF assms]) (auto simp: Let_def case_prod_beta inject_all_ok store_ok_basic assms)

lemma checkpointPull_ok: "store_ok d \<Longrightarrow> store_ok (fst (checkpointPull C E auth cp n d))"
  by (auto simp: checkpointPull_def store_ok_basic pull_pending_ok store_ok_fence
      intro!: store_ok_andThen split: option.splits)

lemma processNext_ok: "store_ok d \<Longrightarrow> store_ok (fst (processNext C E auth cp d))"
  by (auto simp: processNext_def checkpointPullForced_def store_ok_basic pull_pending_ok store_ok_fence
      intro!: store_ok_andThen split: option.splits)

lemma inboxView_ok: "store_ok d \<Longrightarrow> store_ok (fst (inboxView C E auth cp n d))"
  by (auto simp: inboxView_def Let_def checkpointPull_ok store_ok_fence intro!: store_ok_andThen split: option.splits)

lemma markInjectedFor_ok:
  assumes "store_ok d"
  shows "store_ok (fst (markInjectedFor C E auth ms cp d))"
  unfolding markInjectedFor_def
  by (rule store_ok_transaction [OF assms]) (auto simp: Let_def case_prod_beta mark_all_ok assms)

lemma markInjected_ok: "store_ok d \<Longrightarrow> store_ok (fst (markInjected C E auth ms d))"
  by (auto simp: markInjected_def markInjectedFor_ok store_ok_fence intro!: store_ok_andThen)

lemma redeliver_ok: "store_ok d \<Longrightarrow> store_ok (fst (redeliver C E auth m reason d))"
  unfolding redeliver_def
  by (auto simp: Let_def case_prod_beta next_id_def store_ok_basic store_ok_fence
      intro!: store_ok_andThen store_ok_transaction split: option.splits if_splits)

lemma ack_commit_ok: "store_ok d \<Longrightarrow> store_ok (ack_commit E auth inp msg i d)"
proof (erule store_ok_cong)
  show "keys (ack_commit E auth inp msg i d) = keys d"
    by (simp add: keys_def ack_commit_deliveries map_upd_where ack_row_def)
  show "map ci_id (context_injections (ack_commit E auth inp msg i d)) = map ci_id (context_injections d)"
    by (simp add: ack_commit_def Let_def next_id_def consume_if_def consume_def map_upd_where)
qed simp

lemma ack_ok: "store_ok d \<Longrightarrow> store_ok (fst (ack C E auth inp d))"
  unfolding ack_def
  by (auto simp: Let_def store_ok_basic store_ok_fence ack_commit_ok
      intro!: store_ok_andThen store_ok_transaction split: option.splits if_splits sum.splits)

text \<open>A reply inserts a message with a new id and its delivery.\<close>

lemma store_ok_insert:
  assumes "store_ok d" and "insert_message m d = (d', Inr u)"
    and "keys d'' = keys d @ [(m_id m, m_recipient m)]" "messages d'' = messages d'"
    and "map ci_id (context_injections d'') = map ci_id (context_injections d)"
  shows "store_ok d''"
proof -
  have new: "m_id m \<notin> m_id ` set (messages d)" and msgs: "messages d'' = messages d @ [m]"
    using assms(2,4) by (auto simp: insert_message_Inr message_conflict_def)
  moreover have "fst ` set (keys d) \<subseteq> m_id ` set (messages d)"
    using assms(1) by (force simp: store_ok_keys)
  ultimately show ?thesis
    using assms(1,3,5) by (auto simp: store_ok_keys)
qed

lemma reply_commit_keys: "keys (reply_commit E auth inp orig rid t n i d) = keys d @ [(rid, m_sender orig)]"
  by (simp add: keys_def reply_commit_deliveries map_upd_where insert_delivery_def next_id_def Let_def)

lemma reply_commit_frame:
  "messages (reply_commit E auth inp orig rid t n i d) = messages d"
  "map ci_id (context_injections (reply_commit E auth inp orig rid t n i d)) = map ci_id (context_injections d)"
  by (simp_all add: reply_commit_def reply_receipt_def complete_original_def Let_def next_id_def consume_if_def
      consume_def map_upd_where)

lemma reply_ok:
  assumes "store_ok d"
  shows "store_ok (fst (reply C E auth inp allocSequence d))"
proof -
  obtain d' r where reply: "reply C E auth inp allocSequence d = (d', r)" by fastforce
  show ?thesis
  proof (cases r)
    case (Inr v)
    obtain res rid where "v = (res, rid)" by fastforce
    with reply Inr have "reply C E auth inp allocSequence d = (d', Inr (res, rid))" by simp
    then show ?thesis
    proof (cases rule: reply_Inr)
      case (first orig i d2 n d3 k d4)
      have d3: "messages d3 = messages d" "deliveries d3 = deliveries d" "context_injections d3 = context_injections d"
        using first(5,6) allocSequence_frame [of "m_sender orig" "d\<lparr>ids_drawn := Suc (ids_drawn d)\<rparr>"]
          allocThread_frame [of "reply_thread orig" d2] by simp_all
      then have ok3: "store_ok d3" by (intro store_ok_cong [OF assms]) (simp_all add: keys_def)
      have d4: "keys d4 = keys d3" "context_injections d4 = context_injections d3"
        using first(7) by (simp_all add: insert_message_Inr keys_def)
      have "store_ok d'"
      proof (rule store_ok_insert [OF ok3 first(7)])
        show "keys d' = keys d3 @ [(m_id (reply_message E auth inp orig rid n (reply_thread orig) k),
             m_recipient (reply_message E auth inp orig rid n (reply_thread orig) k))]"
          using d4(1) first(8) by (simp add: reply_commit_keys reply_message_def)
      qed (use d4(2) first(8) in \<open>simp_all add: reply_commit_frame\<close>)
      with reply show ?thesis by simp
    qed (use assms reply in simp)
  next
    case (Inl e)
    show ?thesis
    proof (cases "current_epoch d auth")
      case True
      with reply Inl assms show ?thesis using reply_Inl_tables store_ok_same_tables by fastforce
    next
      case False
      then obtain d1 e1 where "assertCurrentEpoch E auth d = (d1, Inl e1)" by (rule stale_epoch)
      with store_ok_fence [OF assms, of E auth] show ?thesis
        using assms by (auto simp: reply_def split: option.splits)
    qed
  qed
qed

section \<open>What a pull presents can be acknowledged\<close>

lemma delivery_row_unique: "store_ok d \<Longrightarrow> x \<in> set (deliveries d) \<Longrightarrow> delivery_row d (d_message x) = Some x"
  by (simp add: store_ok_def delivery_row_def find_key_unique)

lemma delivery_row_SomeD: "delivery_row d i = Some x \<Longrightarrow> x \<in> set (deliveries d) \<and> d_message x = i"
  by (auto simp: delivery_row_def dest: find_SomeD)

lemma write_delivery_row:
  "delivery_row (write_delivery C E m i ep f ra d) k =
     map_option (\<lambda>x. if d_message x = m \<and> waiting x then x\<lparr>d_state := Transport_Written, d_transportWrittenAt := Some (now E),
          d_leaseExpiresAt := ackDeadlineFor C E ra, d_targetInstance := Some i, d_targetGeneration := Some ep,
          d_fencing := (case f of None \<Rightarrow> d_fencing x | Some f \<Rightarrow> f), d_updatedAt := now E\<rparr> else x)
       (delivery_row d k)"
  by (rule delivery_row_upd) (simp_all add: write_delivery_def next_id_def Let_def)

lemma complete_row_other:
  "k \<noteq> m \<Longrightarrow> delivery_row (completeIfNoResponseRequired E m ra rr d) k = delivery_row d k"
proof -
  assume k: "k \<noteq> m"
  have "delivery_row (d\<lparr>deliveries := upd_where p f (deliveries d)\<rparr>) k = map_option (\<lambda>x. if p x then f x else x) (delivery_row d k)"
    if "\<And>x. d_message (f x) = d_message x" for p f
    by (rule delivery_row_upd) (simp_all add: that)
  with k show ?thesis
    by (cases "delivery_row d k")
      (auto simp: completeIfNoResponseRequired_def Let_def dest: delivery_row_SomeD)
qed

lemma inject_one_keeps:
  assumes "store_ok d" "inject_one C E auth cp au m d = (out, d')" "delivery_row d i = Some x" "\<not> waiting x"
  shows "delivery_row d' i = Some x"
proof (cases "i = pn_id m")
  case True
  have "y = x" if "y \<in> set (deliveries d)" "d_message y = i" for y
    using delivery_row_unique [OF assms(1) that(1)] that(2) assms(3) by simp
  then have "changes (\<lambda>x. d_message x = pn_id m \<and> waiting x) (deliveries d) = 0"
    using True assms(4) by (auto simp: changes_0_iff)
  with assms show ?thesis by (simp add: inject_one_def)
next
  case False
  then have "delivery_row (write_delivery C E (pn_id m) j ep f ra d) i = delivery_row d i" for j ep f ra
    using delivery_row_SomeD [OF assms(3)] assms(3) by (simp add: write_delivery_row)
  with False assms show ?thesis
    by (auto simp: inject_one_def Let_def case_prod_beta complete_row_other split: option.splits if_splits)
qed

lemma inject_one_written:
  assumes "store_ok d" "inject_one C E auth cp au m d = (out, d')" "out \<noteq> []" "pn_requiresAck m"
  shows "\<exists>y. delivery_row d' (pn_id m) = Some y \<and> d_state y = Transport_Written \<and>
           d_leaseExpiresAt y = Some (now E + cf_ackDeadlineMs C)"
proof -
  from assms(2,3) obtain x where x: "x \<in> set (deliveries d)" "d_message x = pn_id m" "waiting x"
    by (cases rule: inject_one_cases) auto
  then have "delivery_row d (pn_id m) = Some x" "changes (\<lambda>x. d_message x = pn_id m \<and> waiting x) (deliveries d) \<noteq> 0"
    using delivery_row_unique [OF assms(1) x(1)] by (auto simp: changes_0_iff)
  with assms(2-) x show ?thesis
    by (auto simp: inject_one_def Let_def case_prod_beta write_delivery_row completeIfNoResponseRequired_def
        ackDeadlineFor_def split: option.splits if_splits)
qed

lemma inject_one_log: "inject_one C E auth cp au m d = (out, d') \<Longrightarrow> set (context_injections d) \<subseteq> set (context_injections d')"
  by (auto simp: inject_one_def Let_def case_prod_beta issue_def next_id_def split: option.splits if_splits)

lemma inject_all_keeps:
  "store_ok d \<Longrightarrow> inject_all C E auth cp au ms d = (out, d') \<Longrightarrow> delivery_row d i = Some x \<Longrightarrow> \<not> waiting x \<Longrightarrow>
     delivery_row d' i = Some x"
proof (induction ms arbitrary: d out)
  case (Cons m ms)
  then obtain o1 d1 o2 where 1: "inject_one C E auth cp au m d = (o1, d1)" "inject_all C E auth cp au ms d1 = (o2, d')"
    by (auto simp: Let_def split: prod.splits)
  moreover have "store_ok d1" using inject_one_ok [OF Cons.prems(1)] 1(1) by (metis snd_conv)
  ultimately show ?case using Cons inject_one_keeps by blast
qed simp

lemma inject_all_log: "inject_all C E auth cp au ms d = (out, d') \<Longrightarrow> set (context_injections d) \<subseteq> set (context_injections d')"
proof (induction ms arbitrary: d out)
  case (Cons m ms)
  then obtain o1 d1 o2 where "inject_one C E auth cp au m d = (o1, d1)" "inject_all C E auth cp au ms d1 = (o2, d')"
    by (auto simp: Let_def split: prod.splits)
  with Cons.IH inject_one_log show ?case by blast
qed simp

text \<open>The reference a presented message carries.\<close>

definition reference :: "pending_message \<Rightarrow> js_string option" where
  "reference m = (case pn_metadata m of None \<Rightarrow> None | Some es \<Rightarrow> map_of es INJECTION_METADATA_KEY)"

lemma inject_all_presented:
  "store_ok d \<Longrightarrow> inject_all C E auth cp au ms d = (out, d') \<Longrightarrow> p \<in> set out \<Longrightarrow>
     \<exists>i r. reference p = Some i \<and> i \<in> range (id_of E) \<and> r \<in> set (context_injections d') \<and> injection_for C E auth (pn_id p) i r \<and>
       (pn_requiresAck p \<longrightarrow> (\<exists>y. delivery_row d' (pn_id p) = Some y \<and> d_state y = Transport_Written \<and>
           d_leaseExpiresAt y = Some (now E + cf_ackDeadlineMs C)))"
proof (induction ms arbitrary: d out)
  case (Cons m ms)
  then obtain o1 d1 o2 where 1: "inject_one C E auth cp au m d = (o1, d1)" "inject_all C E auth cp au ms d1 = (o2, d')"
    and out: "out = o1 @ o2"
    by (auto simp: Let_def split: prod.splits)
  have ok1: "store_ok d1" using inject_one_ok [OF Cons.prems(1)] 1(1) by (metis snd_conv)
  show ?case
  proof (cases "p \<in> set o2")
    case True
    with Cons.IH [OF ok1 1(2)] show ?thesis by blast
  next
    case False
    then have p: "p \<in> set o1" using Cons.prems(3) out by simp
    from 1(1) show ?thesis
    proof (cases rule: inject_one_cases)
      case none
      with p show ?thesis by simp
    next
      case (one i r)
      with p have pm: "pn_id p = pn_id m" "pn_requiresAck p = pn_requiresAck m" and ref: "reference p = Some i"
        by (auto simp: reference_def)
      have "\<exists>y. delivery_row d' (pn_id p) = Some y \<and> d_state y = Transport_Written \<and>
           d_leaseExpiresAt y = Some (now E + cf_ackDeadlineMs C)" if req: "pn_requiresAck p"
      proof -
        obtain y where y: "delivery_row d1 (pn_id m) = Some y" "d_state y = Transport_Written"
          "d_leaseExpiresAt y = Some (now E + cf_ackDeadlineMs C)"
          using inject_one_written [OF Cons.prems(1) 1(1)] one(1) req pm by auto
        then have "delivery_row d' (pn_id m) = Some y"
          using inject_all_keeps [OF ok1 1(2)] by (simp add: waiting_def)
        with y pm show ?thesis by simp
      qed
      moreover have "r \<in> set (context_injections d')" using one(4) inject_all_log [OF 1(2)] by blast
      ultimately show ?thesis using ref one(5,7) pm by auto
    qed
  qed
qed simp

lemma find_injection:
  assumes "store_ok d" "r \<in> set (context_injections d)"
  shows "List.find (\<lambda>x. ci_id x = ci_id r) (context_injections d) = Some r"
  using assms by (simp add: store_ok_def find_key_unique)

lemma authorize_presented:
  assumes "store_ok d" "r \<in> set (context_injections d)" "injection_for C E auth m i r" "i \<noteq> []"
    and "now E' < now E + cf_receiptTtlMs C"
  shows "authorize E' op m (a_session auth) (a_epoch auth) (Some i) d = Inr i"
  using assms find_injection [OF assms(1,2)]
  by (simp add: authorize_def injection_for_def truthy_def)

lemma message_row_unique: "store_ok d \<Longrightarrow> m \<in> set (messages d) \<Longrightarrow> message_row d (m_id m) = Some m"
  by (simp add: store_ok_def message_row_def find_key_unique)

lemma store_ok_recipient:
  assumes "store_ok d" "x \<in> set (deliveries d)" "m \<in> set (messages d)" "m_id m = d_message x"
  shows "m_recipient m = d_recipient x"
proof -
  obtain m' where "m' \<in> set (messages d)" "m_id m' = d_message x" "m_recipient m' = d_recipient x"
    using assms(1,2) by (auto simp: store_ok_def)
  moreover from this have "m' = m"
    using distinct_map_inj [of m_id "messages d" m' m] assms by (simp add: store_ok_def)
  ultimately show ?thesis by simp
qed

lemma ack_firstI:
  assumes "a_role auth = MCP" "current_epoch d auth" "message_row d (ai_message inp) = Some msg"
    "m_recipient msg = a_session auth" "receipt_of d (ai_message inp) (a_session auth) AckOp = None"
    "authorize_if C E AckOp (ai_message inp) auth (ai_injection inp) d = Inr i"
    "changes (\<lambda>x. d_message x = ai_message inp \<and> d_state x = Transport_Written) (deliveries d) \<noteq> 0"
  shows "ack C E auth inp d = (ack_commit E auth inp msg i d, Inr (ack_target (ai_status inp), False))"
  using assms
  by (simp add: ack_def assertAllowed_def ack_reply_pull_roles assertCurrentEpoch_current transaction_def Let_def)

lemma pull_then_ack:
  assumes ok: "store_ok d" and pull: "pull_pending C E auth cp au n d = (d', Inr out)" and p: "p \<in> set out"
    and ack: "pn_requiresAck p" and "receipt_of d (pn_id p) (a_session auth) AckOp = None"
    and cur: "current_epoch d auth" and ids: "\<And>k. id_of E k \<noteq> []"
    and me: "a_role me = MCP" "a_session me = a_session auth" "a_epoch me = a_epoch auth"
    and ttl: "now E' < now E + cf_receiptTtlMs C"
  shows "\<exists>d''. ack C E' me \<lparr>ai_message = pn_id p, ai_status = st, ai_note = note, ai_injection = reference p\<rparr> d'
            = (d'', Inr (ack_target st, False))"
proof -
  obtain d1 where inj: "inject_all C E auth cp au (pendingForSessionId E d (a_session auth) (cap_limit n)) d = (out, d1)"
    and d': "d' = (if out \<noteq> [] then refreshMeaningfulActivity E (a_session auth) d1 else d1)"
    using pull by (rule pull_pending_Inr) auto
  note frame = inject_all_frame [OF inj]
  have ok': "store_ok d'" using pull_pending_ok [OF ok] pull by (metis fst_conv)
  obtain i r y where i: "reference p = Some i" "i \<in> range (id_of E)" and r: "r \<in> set (context_injections d1)" "injection_for C E auth (pn_id p) i r"
    and y: "delivery_row d1 (pn_id p) = Some y" "d_state y = Transport_Written"
    using inject_all_presented [OF ok inj p] ack by blast
  obtain x m where m: "x \<in> set (deliveries d)" "m \<in> set (messages d)" "m_id m = d_message x"
    "eligible E (a_session auth) x m" "without_reference p = without_reference (rowToPending m)"
    using pull_content(3) [OF pull] p by blast
  have pid: "pn_id p = m_id m"
    using arg_cong [OF m(5), of pn_id] by (simp add: without_reference_def rowToPending_def)
  have msgs: "messages d' = messages d" using frame d' by simp
  then have row: "message_row d' (pn_id p) = Some m" "m_recipient m = a_session auth"
    using message_row_unique [OF ok', of m] m pid store_ok_recipient [OF ok m(1-3)] by (simp_all add: eligible_def)
  have rec: "receipt_of d' (pn_id p) (a_session auth) AckOp = None"
    using assms(5) frame d' by (simp add: receipt_of_def)
  have "authorize E' AckOp (pn_id p) (a_session auth) (a_epoch auth) (Some i) d' = Inr i"
    using ok' r i(2) ids ttl d' by (intro authorize_presented) (auto split: if_splits)
  then have "authorize_if C E' AckOp (pn_id p) me (reference p) d' = Inr (if cf_requireReceipt C then Some i else None)"
    using me i(1) by (simp add: authorize_if_def)
  then obtain j where au: "authorize_if C E' AckOp (pn_id p) me (reference p) d' = Inr j" by blast
  have "y \<in> set (deliveries d')" "d_message y = pn_id p"
    using delivery_row_SomeD [OF y(1)] d' by auto
  then have hit: "changes (\<lambda>x. d_message x = pn_id p \<and> d_state x = Transport_Written) (deliveries d') \<noteq> 0"
    using y(2) by (auto simp: changes_0_iff)
  have "current_epoch d me" using cur me by (simp add: current_epoch_def split: option.splits)
  then have "current_epoch d' me" using frame d' current_epoch_cong [of d1 d me] by simp
  then show ?thesis
    using me row rec au hit
      ack_firstI [of me d' "\<lparr>ai_message = pn_id p, ai_status = st, ai_note = note, ai_injection = reference p\<rparr>" m C E' j]
    by simp
qed

section \<open>A pull presents what it selected\<close>

lemma filter_key_unique: "distinct (map k rs) \<Longrightarrow> r \<in> set rs \<Longrightarrow> filter (\<lambda>x. k x = k r) rs = [r]"
  by (induction rs) (auto simp: filter_empty_conv rev_image_eqI)

lemma concat_singletons: "(\<And>x. x \<in> set xs \<Longrightarrow> f x = [g x]) \<Longrightarrow> concat (map f xs) = map g xs"
  by (induction xs) auto

text \<open>
  The generators draw values nobody holds yet: the \<open>n\<close>-th id and the \<open>n\<close>-th capability digest are new for
  every \<open>n\<close> still to come.
\<close>

definition fresh_supply :: "env \<Rightarrow> db \<Rightarrow> bool" where
  "fresh_supply E d \<longleftrightarrow>
     inj_on (id_of E) {ids_drawn d..} \<and> inj_on (\<lambda>n. sha256 E (capability_of E n)) {capabilities_drawn d..}
     \<and> (\<forall>r\<in>set (context_injections d).
          ci_id r \<notin> id_of E ` {ids_drawn d..} \<and>
          ci_capHash r \<notin> (\<lambda>n. sha256 E (capability_of E n)) ` {capabilities_drawn d..})"

lemma fresh_supply_later:
  assumes "fresh_supply E d" "ids_drawn d \<le> ids_drawn d'" "capabilities_drawn d \<le> capabilities_drawn d'"
    "context_injections d' = context_injections d"
  shows "fresh_supply E d'"
proof -
  have "{ids_drawn d'..} \<subseteq> {ids_drawn d..}" "{capabilities_drawn d'..} \<subseteq> {capabilities_drawn d..}"
    using assms(2,3) by auto
  with assms(1,4) show ?thesis unfolding fresh_supply_def by (metis image_mono inj_on_subset subsetD)
qed

lemma issue_fresh_supply:
  assumes "fresh_supply E d" "\<not> injected d (ip_message p) (ip_epoch p) (ip_logical p)"
    and "\<forall>r\<in>set (context_injections d). ci_message r = ip_message p \<longrightarrow> ci_checkpoint r \<noteq> ip_checkpoint p"
  shows "fst (issue E ttl p d) = Some (id_of E (ids_drawn d))" "fresh_supply E (snd (issue E ttl p d))"
    "context_injections (snd (issue E ttl p d)) = context_injections d @ [last (context_injections (snd (issue E ttl p d)))]"
    "ci_message (last (context_injections (snd (issue E ttl p d)))) = ip_message p"
    "ci_checkpoint (last (context_injections (snd (issue E ttl p d)))) = ip_checkpoint p"
proof -
  let ?i = "id_of E (ids_drawn d)" and ?c = "sha256 E (capability_of E (capabilities_drawn d))"
  have new: "ci_id r \<noteq> ?i" "ci_capHash r \<noteq> ?c" if "r \<in> set (context_injections d)" for r
    using assms(1) that unfolding fresh_supply_def by (metis atLeast_iff image_eqI order_refl)+
  then have no: "\<not> list_ex (\<lambda>r. ci_id r = ?i \<or> ci_capHash r = ?c \<or>
      (ci_message r = ip_message p \<and> ci_checkpoint r = ip_checkpoint p)) (context_injections d)"
    using assms(3) by (auto simp: list_ex_iff)
  let ?d = "d\<lparr>ids_drawn := Suc (ids_drawn d), capabilities_drawn := Suc (capabilities_drawn d)\<rparr>"
  show "fst (issue E ttl p d) = Some ?i"
    and "context_injections (snd (issue E ttl p d)) = context_injections d @ [last (context_injections (snd (issue E ttl p d)))]"
    and "ci_message (last (context_injections (snd (issue E ttl p d)))) = ip_message p"
    and "ci_checkpoint (last (context_injections (snd (issue E ttl p d)))) = ip_checkpoint p"
    using assms(2) no by (simp_all add: issue_def next_id_def Let_def)
  have later: "fresh_supply E ?d" using assms(1) by (rule fresh_supply_later) simp_all
  have "?i \<notin> id_of E ` {Suc (ids_drawn d)..}" "?c \<notin> (\<lambda>n. sha256 E (capability_of E n)) ` {Suc (capabilities_drawn d)..}"
    using assms(1) unfolding fresh_supply_def by (fastforce simp: inj_on_def)+
  with later show "fresh_supply E (snd (issue E ttl p d))"
    using assms(2) no by (simp add: issue_def next_id_def Let_def fresh_supply_def)
qed

lemma write_delivery_draws [simp]:
  "ids_drawn (write_delivery C E m i ep f ra d) = Suc (ids_drawn d)"
  "capabilities_drawn (write_delivery C E m i ep f ra d) = capabilities_drawn d"
  by (simp_all add: write_delivery_def next_id_def Let_def)

lemma complete_draws:
  "i \<le> ids_drawn d \<Longrightarrow> i \<le> ids_drawn (completeIfNoResponseRequired E m ra rr d)"
  "capabilities_drawn (completeIfNoResponseRequired E m ra rr d) = capabilities_drawn d"
  by (simp_all add: completeIfNoResponseRequired_def Let_def)

text \<open>The checkpoint has not been used for the message.\<close>

definition checkpoint_new :: "db \<Rightarrow> js_string \<Rightarrow> js_string \<Rightarrow> bool" where
  "checkpoint_new d cp m \<longleftrightarrow> (\<forall>r\<in>set (context_injections d). ci_message r = m \<longrightarrow> ci_checkpoint r \<noteq> cp)"

lemma inject_one_complete:
  assumes inj: "inject_one C E auth cp au m d = (out, d')" and fresh: "fresh_supply E d"
    and wait: "\<exists>x\<in>set (deliveries d). d_message x = pn_id m \<and> waiting x" and cp: "checkpoint_new d cp (pn_id m)"
  shows "map pn_id out = (if injected d (pn_id m) (a_epoch auth) 1 then [] else [pn_id m])"
    and "fresh_supply E d'"
    and "k \<noteq> pn_id m \<Longrightarrow> injected d' k ep l = injected d k ep l \<and> checkpoint_new d' cp k = checkpoint_new d cp k"
proof -
  let ?d1 = "write_delivery C E (pn_id m) (a_component auth) (a_epoch auth) None (pn_requiresAck m) d"
  let ?p = "\<lparr>ip_message = pn_id m, ip_session = a_session auth, ip_epoch = a_epoch auth,
               ip_checkpoint = cp, ip_component = a_component auth, ip_logical = 1\<rparr>"
  let ?d2 = "snd (issue E (cf_receiptTtlMs C) ?p ?d1)"
  have hit: "changes (\<lambda>x. d_message x = pn_id m \<and> waiting x) (deliveries d) \<noteq> 0"
    using wait by (auto simp: changes_0_iff)
  have f1: "fresh_supply E ?d1" using fresh by (rule fresh_supply_later) simp_all
  have pre: "injected ?d1 j e n = injected d j e n" for j e n by (simp add: injected_def)
  have late: "context_injections d' = context_injections ?d2" "ids_drawn ?d2 \<le> ids_drawn d'"
    "capabilities_drawn ?d2 \<le> capabilities_drawn d'"
    using inj hit complete_draws
    by (auto simp: inject_one_def Let_def case_prod_beta split: option.splits if_splits intro: complete_draws(1) le_SucI)
  have one: "map pn_id out = (if fst (issue E (cf_receiptTtlMs C) ?p ?d1) = None then [] else [pn_id m])"
    using inj hit by (auto simp: inject_one_def Let_def case_prod_beta split: option.splits)
  have "map pn_id out = (if injected d (pn_id m) (a_epoch auth) 1 then [] else [pn_id m]) \<and> fresh_supply E ?d2 \<and>
      (\<exists>rs. context_injections ?d2 = context_injections d @ rs \<and> (\<forall>r\<in>set rs. ci_message r = pn_id m))"
  proof (cases "injected d (pn_id m) (a_epoch auth) 1")
    case True
    then have "issue E (cf_receiptTtlMs C) ?p ?d1 = (None, ?d1)" using pre by (simp add: issue_def)
    with True one f1 show ?thesis by simp
  next
    case False
    have no: "\<not> injected ?d1 (ip_message ?p) (ip_epoch ?p) (ip_logical ?p)" using False pre by simp
    have new: "\<forall>r\<in>set (context_injections ?d1). ci_message r = ip_message ?p \<longrightarrow> ci_checkpoint r \<noteq> ip_checkpoint ?p"
      using cp by (simp add: checkpoint_new_def)
    note i = issue_fresh_supply [OF f1 no new, of "cf_receiptTtlMs C"]
    have "context_injections ?d2 = context_injections d @ [last (context_injections ?d2)]"
      "ci_message (last (context_injections ?d2)) = pn_id m"
      using i(3,4) by simp_all
    then have "\<exists>rs. context_injections ?d2 = context_injections d @ rs \<and> (\<forall>r\<in>set rs. ci_message r = pn_id m)"
      by (metis empty_iff list.set(1) set_ConsD)
    with False one i(1,2) show ?thesis by simp
  qed
  then obtain rs where out: "map pn_id out = (if injected d (pn_id m) (a_epoch auth) 1 then [] else [pn_id m])"
    and f2: "fresh_supply E ?d2" and rs: "context_injections d' = context_injections d @ rs" "\<forall>r\<in>set rs. ci_message r = pn_id m"
    unfolding late(1) by blast
  show "map pn_id out = (if injected d (pn_id m) (a_epoch auth) 1 then [] else [pn_id m])" by (rule out)
  show "fresh_supply E d'" using f2 late(2,3,1) by (rule fresh_supply_later)
  show "injected d' k ep l = injected d k ep l \<and> checkpoint_new d' cp k = checkpoint_new d cp k" if "k \<noteq> pn_id m"
    using rs that by (auto simp: injected_def checkpoint_new_def list_ex_iff)
qed

lemma inject_all_complete:
  "inject_all C E auth cp au ms d = (out, d') \<Longrightarrow> store_ok d \<Longrightarrow> fresh_supply E d \<Longrightarrow> distinct (map pn_id ms) \<Longrightarrow>
     (\<forall>m\<in>set ms. (\<exists>x. delivery_row d (pn_id m) = Some x \<and> waiting x) \<and> checkpoint_new d cp (pn_id m)) \<Longrightarrow>
     map pn_id out = filter (\<lambda>i. \<not> injected d i (a_epoch auth) 1) (map pn_id ms)"
proof (induction ms arbitrary: d out)
  case (Cons m ms)
  then obtain o1 d1 o2 where 1: "inject_one C E auth cp au m d = (o1, d1)" and 2: "inject_all C E auth cp au ms d1 = (o2, d')"
    and out: "out = o1 @ o2"
    by (auto simp: Let_def split: prod.splits)
  have wait: "\<exists>x\<in>set (deliveries d). d_message x = pn_id m \<and> waiting x"
    using Cons.prems(5) by (auto dest: delivery_row_SomeD)
  have cp: "checkpoint_new d cp (pn_id m)" using Cons.prems(5) by simp
  note one = inject_one_complete [OF 1 Cons.prems(3) wait cp]
  have ok1: "store_ok d1" using inject_one_ok [OF Cons.prems(2)] 1 by (metis snd_conv)
  have ids: "pn_id k \<noteq> pn_id m" if "k \<in> set ms" for k using Cons.prems(4) that by (auto simp: rev_image_eqI)
  have row: "delivery_row d1 i = delivery_row d i" if "i \<noteq> pn_id m" for i
  proof -
    have "delivery_row (write_delivery C E (pn_id m) j ep f ra d) i = delivery_row d i" for j ep f ra
      using that by (cases "delivery_row d i") (auto simp: write_delivery_row dest: delivery_row_SomeD)
    with 1 that show ?thesis
      by (auto simp: inject_one_def Let_def case_prod_beta complete_row_other split: option.splits if_splits)
  qed
  have "map pn_id o2 = filter (\<lambda>i. \<not> injected d1 i (a_epoch auth) 1) (map pn_id ms)"
    using Cons.prems ids row one(3) by (intro Cons.IH [OF 2 ok1 one(2)]) auto
  also have "\<dots> = filter (\<lambda>i. \<not> injected d i (a_epoch auth) 1) (map pn_id ms)"
    using one(3) ids by (intro filter_cong) auto
  finally show ?case using one(1) out by simp
qed simp

lemma pending_waiting:
  assumes "store_ok d" "m \<in> set (pendingForSessionId E d sid n)"
  shows "\<exists>x. delivery_row d (pn_id m) = Some x \<and> waiting x"
proof -
  obtain x k where "x \<in> set (deliveries d)" "k \<in> set (messages d)" "m_id k = d_message x" "eligible E sid x k" "m = rowToPending k"
    using assms(2) by (rule pending_member)
  then show ?thesis using delivery_row_unique [OF assms(1)] by (auto simp: rowToPending_def eligible_def)
qed

lemma distinct_joined:
  assumes "store_ok d"
  shows "distinct (map (\<lambda>(x, m). m_id m) (joined d))"
proof -
  have "map (\<lambda>(x, m). m_id m) (joined d) = map d_message (deliveries d)"
  proof -
    have "map (\<lambda>(x, m). m_id m) (map (Pair x) (filter (\<lambda>m. m_id m = d_message x) (messages d))) = [d_message x]"
      if x: "x \<in> set (deliveries d)" for x
    proof -
      obtain m where m: "m \<in> set (messages d)" "m_id m = d_message x" using assms x by (auto simp: store_ok_def)
      have "filter (\<lambda>k. m_id k = m_id m) (messages d) = [m]"
        using assms m(1) by (auto simp: store_ok_def intro: filter_key_unique)
      with m(2) show ?thesis by simp
    qed
    then show ?thesis unfolding joined_def by (simp add: map_concat comp_def concat_singletons)
  qed
  with assms show ?thesis by (simp add: store_ok_def)
qed

lemma pending_distinct:
  assumes "store_ok d"
  shows "distinct (map pn_id (pendingForSessionId E d sid n))"
proof -
  let ?rows = "filter (\<lambda>(x, m). eligible E sid x m) (joined d)"
  have "distinct (map (\<lambda>(x, m). m_id m) ?rows)"
    using distinct_joined [OF assms] by (rule distinct_map_filter)
  then have "distinct (map (\<lambda>(x, m). m_id m) (sort_key (\<lambda>(x, m). m_sequence m) ?rows))"
    by (simp add: distinct_map)
  then have "distinct (map (\<lambda>(x, m). m_id m) (sql_limit n (sort_key (\<lambda>(x, m). m_sequence m) ?rows)))"
    by (rule distinct_sql_limit)
  moreover have "map pn_id (pendingForSessionId E d sid n)
      = map (\<lambda>(x, m). m_id m) (sql_limit n (sort_key (\<lambda>(x, m). m_sequence m) ?rows))"
    by (auto simp: pendingForSessionId_def rowToPending_def)
  ultimately show ?thesis by simp
qed

lemma pull_pending_complete:
  assumes "store_ok d" "fresh_supply E d"
    and "\<forall>m\<in>set (pendingForSessionId E d (a_session auth) (cap_limit n)). checkpoint_new d cp (pn_id m)"
  shows "\<exists>d' out. pull_pending C E auth cp au n d = (d', Inr out) \<and>
     map pn_id out = filter (\<lambda>i. \<not> injected d i (a_epoch auth) 1)
       (map pn_id (pendingForSessionId E d (a_session auth) (cap_limit n)))"
proof -
  let ?ms = "pendingForSessionId E d (a_session auth) (cap_limit n)"
  obtain out d1 where inj: "inject_all C E auth cp au ?ms d = (out, d1)" by fastforce
  then have "\<exists>d'. pull_pending C E auth cp au n d = (d', Inr out)"
    by (auto simp: pull_pending_def transaction_def Let_def)
  moreover have "map pn_id out = filter (\<lambda>i. \<not> injected d i (a_epoch auth) 1) (map pn_id ?ms)"
    using assms pending_waiting by (intro inject_all_complete [OF inj] pending_distinct) blast+
  ultimately show ?thesis by blast
qed

end
