(* ===== verification/Ledger.thy ===== *)
theory Ledger
  imports Database "HOL-Library.List_Lexorder" "HOL-Library.Multiset"
begin

text \<open>
  The append-only, hash-chained audit ledger of \<^verbatim>\<open>src/broker/ledger.ts\<close>: canonical serialisation,
  \<open>computeEntryHash\<close>, \<open>ledgerAppend\<close> and \<open>verifyLedger\<close>. The hash function is the environment's
  \<open>sha256\<close>. A column that holds JSON text holds the parsed value, or \<open>None\<close> when the text does not
  parse.
\<close>

section \<open>Canonical serialisation\<close>

text \<open>
  A JavaScript value as the canonicaliser meets it: JSON values, and the values it must reject
  (\<open>undefined\<close>, a non-finite number, a function/symbol/bigint, an array hole, an object that is
  not a plain one).
\<close>

datatype jsv =
    VNull | VBool bool | VNum int | VStr js_string
  | VArr "jsv list" | VObj "(js_string \<times> jsv) list"
  | VUndefined | VNonFinite | VOther | VHole | VNonPlain

definition hex_digit :: "nat \<Rightarrow> nat" where
  "hex_digit d = (if d < 10 then 48 + d else 87 + d)"

definition unicode_escape :: "nat \<Rightarrow> js_string" where
  "unicode_escape c =
     [92, 117, hex_digit (c div 4096 mod 16), hex_digit (c div 256 mod 16),
      hex_digit (c div 16 mod 16), hex_digit (c mod 16)]"

text \<open>\<open>JSON.stringify\<close> of a string: a lone surrogate is escaped, a pair is kept.\<close>

fun json_chars :: "js_string \<Rightarrow> js_string" where
  "json_chars [] = []"
| "json_chars (c # s) =
     (if c = 34 then [92, 34] @ json_chars s
      else if c = 92 then [92, 92] @ json_chars s
      else if c = 8 then [92, 98] @ json_chars s
      else if c = 9 then [92, 116] @ json_chars s
      else if c = 10 then [92, 110] @ json_chars s
      else if c = 12 then [92, 102] @ json_chars s
      else if c = 13 then [92, 114] @ json_chars s
      else if c < 32 then unicode_escape c @ json_chars s
      else if high_surrogate c then
        (case s of
           [] \<Rightarrow> unicode_escape c
         | e # t \<Rightarrow> if low_surrogate e then c # e # json_chars t else unicode_escape c @ json_chars s)
      else if low_surrogate c then unicode_escape c @ json_chars s
      else c # json_chars s)"

definition json_string :: "js_string \<Rightarrow> js_string" where
  "json_string s = [34] @ json_chars s @ [34]"

definition json_number :: "int \<Rightarrow> js_string" where
  "json_number n = (if n < 0 then [45] @ dec_str (nat (- n)) else dec_str (nat n))"

fun join_commas :: "js_string list \<Rightarrow> js_string" where
  "join_commas [] = []"
| "join_commas [x] = x"
| "join_commas (x # y # ys) = x @ [44] @ join_commas (y # ys)"

definition json_object :: "(js_string \<times> js_string) list \<Rightarrow> js_string" where
  "json_object kvs =
     [123] @ join_commas (map (\<lambda>(k, v). json_string k @ [58] @ v) (sort_key fst kvs)) @ [125]"

fun canonicalize :: "jsv \<Rightarrow> js_string option"
  and canonicalize_items :: "jsv list \<Rightarrow> js_string list option"
  and canonicalize_fields :: "(js_string \<times> jsv) list \<Rightarrow> (js_string \<times> js_string) list option" where
  "canonicalize VNull = Some (js ''null'')"
| "canonicalize (VStr s) = Some (json_string s)"
| "canonicalize (VBool b) = Some (if b then js ''true'' else js ''false'')"
| "canonicalize (VNum n) = Some (json_number n)"
| "canonicalize VNonFinite = None"
| "canonicalize (VArr vs) =
     map_option (\<lambda>parts. [91] @ join_commas parts @ [93]) (canonicalize_items vs)"
| "canonicalize VNonPlain = None"
| "canonicalize (VObj kvs) = map_option json_object (canonicalize_fields kvs)"
| "canonicalize VUndefined = None"
| "canonicalize VOther = None"
| "canonicalize VHole = None"
| "canonicalize_items [] = Some []"
| "canonicalize_items (v # vs) =
     (case (canonicalize v, canonicalize_items vs) of
        (Some p, Some ps) \<Rightarrow> Some (p # ps) | _ \<Rightarrow> None)"
| "canonicalize_fields [] = Some []"
| "canonicalize_fields ((k, v) # kvs) =
     (case (canonicalize v, canonicalize_fields kvs) of
        (Some p, Some ps) \<Rightarrow> Some ((k, p) # ps) | _ \<Rightarrow> None)"

text \<open>The JSON value as a JavaScript value: what \<open>JSON.parse\<close> yields.\<close>

fun of_json :: "jval \<Rightarrow> jsv" where
  "of_json JNull = VNull"
| "of_json (JBool b) = VBool b"
| "of_json (JNum n) = VNum n"
| "of_json (JStr s) = VStr s"
| "of_json (JArr vs) = VArr (map of_json vs)"
| "of_json (JObj kvs) = VObj (map (\<lambda>(k, v). (k, of_json v)) kvs)"

text \<open>
  \<open>JSON.parse(JSON.stringify(v))\<close> where it gives the value back; \<open>None\<close> where stringify drops,
  coerces or rejects something.
\<close>

fun json_roundtrip :: "jsv \<Rightarrow> jval option"
  and json_roundtrip_items :: "jsv list \<Rightarrow> jval list option"
  and json_roundtrip_fields :: "(js_string \<times> jsv) list \<Rightarrow> (js_string \<times> jval) list option" where
  "json_roundtrip VNull = Some JNull"
| "json_roundtrip (VBool b) = Some (JBool b)"
| "json_roundtrip (VNum n) = Some (JNum n)"
| "json_roundtrip (VStr s) = Some (JStr s)"
| "json_roundtrip (VArr vs) = map_option JArr (json_roundtrip_items vs)"
| "json_roundtrip (VObj kvs) = map_option JObj (json_roundtrip_fields kvs)"
| "json_roundtrip VUndefined = None"
| "json_roundtrip VNonFinite = None"
| "json_roundtrip VOther = None"
| "json_roundtrip VHole = None"
| "json_roundtrip VNonPlain = None"
| "json_roundtrip_items [] = Some []"
| "json_roundtrip_items (v # vs) =
     (case (json_roundtrip v, json_roundtrip_items vs) of
        (Some x, Some xs) \<Rightarrow> Some (x # xs) | _ \<Rightarrow> None)"
| "json_roundtrip_fields [] = Some []"
| "json_roundtrip_fields ((k, v) # kvs) =
     (case (json_roundtrip v, json_roundtrip_fields kvs) of
        (Some x, Some xs) \<Rightarrow> Some ((k, x) # xs) | _ \<Rightarrow> None)"

definition canonicalLedgerPayload ::
  "nat \<Rightarrow> string \<Rightarrow> js_string \<Rightarrow> jsv \<Rightarrow> jsv \<Rightarrow> js_string \<Rightarrow> js_string option" where
  "canonicalLedgerPayload seq eventType actor subject payload createdAt =
     canonicalize (VObj
       [(js ''seq'', VNum (int seq)), (js ''eventType'', VStr (js eventType)), (js ''actor'', VStr actor),
        (js ''subject'', subject), (js ''payload'', payload), (js ''createdAt'', VStr createdAt)])"

section \<open>Append and verify\<close>

definition LEDGER_GENESIS_HASH :: js_string where
  "LEDGER_GENESIS_HASH = replicate 64 48"

definition computeEntryHash :: "env \<Rightarrow> js_string \<Rightarrow> js_string \<Rightarrow> js_string" where
  "computeEntryHash E prevHash canonical = sha256 E (prevHash @ canonical)"

text \<open>The pointer the next entry chains to: the newest row, else the newest anchor, else genesis.\<close>

definition newest_anchor :: "anchor_row list \<Rightarrow> anchor_row option" where
  "newest_anchor as = (case rev (sort_key an_seq as) of [] \<Rightarrow> None | a # _ \<Rightarrow> Some a)"

definition ledger_tip :: "db \<Rightarrow> nat \<times> js_string" where
  "ledger_tip d =
     (case rev (sort_key le_seq (ledger_events d)) of
        tip # _ \<Rightarrow> (le_seq tip, le_entry tip)
      | [] \<Rightarrow> (case newest_anchor (ledger_anchors d) of
                 Some a \<Rightarrow> (an_seq a, an_hash a)
               | None \<Rightarrow> (0, LEDGER_GENESIS_HASH)))"

definition ledgerAppend :: "env \<Rightarrow> string \<Rightarrow> js_string \<Rightarrow> jsv \<Rightarrow> jsv \<Rightarrow> db \<Rightarrow> unit result" where
  "ledgerAppend E eventType actor subject payload d =
     (let (prevSeq, prevHash) = ledger_tip d;
          seq = prevSeq + 1
      in case canonicalLedgerPayload seq eventType actor subject payload (now_iso E) of
           None \<Rightarrow> (d, Inl (xerr AUDIT_PERSISTENCE_FAILED))
         | Some canonical \<Rightarrow>
             (let entryHash = computeEntryHash E prevHash canonical;
                  (i, d) = next_id E d
              in (d\<lparr>ledger_events := ledger_events d @
                     [\<lparr>le_id = i, le_seq = seq, le_event = eventType, le_actor = actor,
                       le_subject = json_roundtrip subject, le_payload = json_roundtrip payload,
                       le_createdAt = now_iso E, le_prev = prevHash, le_entry = entryHash\<rparr>]\<rparr>,
                  Inr ())))"

text \<open>
  The store's private \<open>ledger\<close> method. Its subjects and payloads are JSON objects, on which the
  append cannot throw (\<open>ledgerAppend_json\<close> below).
\<close>

definition ledger :: "env \<Rightarrow> string \<Rightarrow> js_string \<Rightarrow> (js_string \<times> jval) list \<Rightarrow> (js_string \<times> jval) list \<Rightarrow> db \<Rightarrow> db" where
  "ledger E eventType actor subject payload d =
     fst (ledgerAppend E eventType actor (of_json (JObj subject)) (of_json (JObj payload)) d)"

definition row_canonical :: "ledger_row \<Rightarrow> js_string option" where
  "row_canonical r =
     (case (le_subject r, le_payload r) of
        (Some s, Some p) \<Rightarrow>
          canonicalLedgerPayload (le_seq r) (le_event r) (le_actor r) (of_json s) (of_json p) (le_createdAt r)
      | _ \<Rightarrow> None)"

record ledger_break =
  lb_seq :: nat
  lb_expectedPrev :: js_string
  lb_actualPrev :: js_string
  lb_recomputed :: "js_string option"
  lb_stored :: js_string

text \<open>The loop of \<open>verifyLedger\<close>: \<open>None\<close> when every row checks, else the first break.\<close>

fun verify_rows :: "env \<Rightarrow> js_string \<Rightarrow> nat \<Rightarrow> ledger_row list \<Rightarrow> ledger_break option" where
  "verify_rows E expectedPrev expectedSeq [] = None"
| "verify_rows E expectedPrev expectedSeq (r # rs) =
     (case row_canonical r of
        None \<Rightarrow> Some \<lparr>lb_seq = le_seq r, lb_expectedPrev = expectedPrev, lb_actualPrev = le_prev r,
                     lb_recomputed = None, lb_stored = le_entry r\<rparr>
      | Some canonical \<Rightarrow>
          (let recomputed = computeEntryHash E (le_prev r) canonical in
           if le_seq r \<noteq> expectedSeq \<or> le_prev r \<noteq> expectedPrev \<or> recomputed \<noteq> le_entry r
           then Some \<lparr>lb_seq = le_seq r, lb_expectedPrev = expectedPrev, lb_actualPrev = le_prev r,
                      lb_recomputed = Some recomputed, lb_stored = le_entry r\<rparr>
           else verify_rows E (le_entry r) (le_seq r + 1) rs))"

definition verify_start :: "db \<Rightarrow> nat \<Rightarrow> js_string \<times> nat" where
  "verify_start d minSeq =
     (case newest_anchor (filter (\<lambda>a. an_seq a < minSeq) (ledger_anchors d)) of
        Some a \<Rightarrow> (an_hash a, an_seq a + 1)
      | None \<Rightarrow> (LEDGER_GENESIS_HASH, 1))"

record ledger_verify_result =
  lv_ok :: bool
  lv_checked :: nat
  lv_firstBreak :: "ledger_break option"

definition verifyLedger :: "env \<Rightarrow> db \<Rightarrow> ledger_verify_result" where
  "verifyLedger E d =
     (case sort_key le_seq (ledger_events d) of
        [] \<Rightarrow> \<lparr>lv_ok = True, lv_checked = 0, lv_firstBreak = None\<rparr>
      | r # rs \<Rightarrow>
          (let (prev, seq) = verify_start d (le_seq r) in
           case verify_rows E prev seq (r # rs) of
             None \<Rightarrow> \<lparr>lv_ok = True, lv_checked = length (r # rs), lv_firstBreak = None\<rparr>
           | Some b \<Rightarrow> \<lparr>lv_ok = False, lv_checked = lb_seq b - le_seq r, lv_firstBreak = Some b\<rparr>))"

section \<open>Canonical text of JSON values\<close>

lemma canonicalize_items_embed:
  "(\<And>v. v \<in> set vs \<Longrightarrow> canonicalize (of_json v) \<noteq> None) \<Longrightarrow> canonicalize_items (map of_json vs) \<noteq> None"
  by (induction vs) (fastforce split: option.splits)+

lemma canonicalize_fields_embed:
  "(\<And>k v. (k, v) \<in> set kvs \<Longrightarrow> canonicalize (of_json v) \<noteq> None) \<Longrightarrow>
     canonicalize_fields (map (\<lambda>(k, v). (k, of_json v)) kvs) \<noteq> None"
  by (induction kvs) (fastforce split: option.splits)+

lemma canonicalize_embed: "canonicalize (of_json v) \<noteq> None"
proof (induction v)
  case (JArr vs)
  then show ?case using canonicalize_items_embed [of vs] by simp
next
  case (JObj kvs)
  have "canonicalize (of_json v) \<noteq> None" if "(k, v) \<in> set kvs" for k v
    using JObj [of "(k, v)" v] that by simp
  then show ?case using canonicalize_fields_embed [of kvs] by simp
qed simp_all

text \<open>What is written and what \<open>verifyLedger\<close> reads back have the same canonical text.\<close>

lemma roundtrip_canonical:
  "canonicalize v = Some c \<Longrightarrow> \<exists>j. json_roundtrip v = Some j \<and> canonicalize (of_json j) = Some c"
  "canonicalize_items vs = Some cs \<Longrightarrow>
     \<exists>js. json_roundtrip_items vs = Some js \<and> canonicalize_items (map of_json js) = Some cs"
  "canonicalize_fields kvs = Some fs \<Longrightarrow>
     \<exists>js. json_roundtrip_fields kvs = Some js \<and>
          canonicalize_fields (map (\<lambda>(k, v). (k, of_json v)) js) = Some fs"
  by (induction v and vs and kvs arbitrary: c and cs and fs
      rule: canonicalize_canonicalize_items_canonicalize_fields.induct)
    (auto split: option.splits)

lemma json_roundtrip_items_embed:
  "(\<And>v. v \<in> set vs \<Longrightarrow> json_roundtrip (of_json v) = Some v) \<Longrightarrow> json_roundtrip_items (map of_json vs) = Some vs"
  by (induction vs) auto

lemma json_roundtrip_fields_embed:
  "(\<And>k v. (k, v) \<in> set kvs \<Longrightarrow> json_roundtrip (of_json v) = Some v) \<Longrightarrow>
     json_roundtrip_fields (map (\<lambda>(k, v). (k, of_json v)) kvs) = Some kvs"
  by (induction kvs) (auto split: option.splits, fastforce+)

lemma json_roundtrip_embed [simp]: "json_roundtrip (of_json v) = Some v"
proof (induction v)
  case (JArr vs)
  then show ?case using json_roundtrip_items_embed [of vs] by simp
next
  case (JObj kvs)
  have "json_roundtrip (of_json v) = Some v" if "(k, v) \<in> set kvs" for k v
    using JObj [of "(k, v)" v] that by simp
  then show ?case using json_roundtrip_fields_embed [of kvs] by simp
qed simp_all

lemma canonicalLedgerPayload_cong:
  assumes "canonicalize s = canonicalize s'" "canonicalize p = canonicalize p'"
  shows "canonicalLedgerPayload seq ev a s p c = canonicalLedgerPayload seq ev a s' p' c"
  using assms by (simp add: canonicalLedgerPayload_def)

lemma canonicalLedgerPayload_Some:
  "canonicalLedgerPayload seq ev a s p c = Some t \<Longrightarrow> canonicalize s \<noteq> None \<and> canonicalize p \<noteq> None"
  by (auto simp: canonicalLedgerPayload_def split: option.splits)

lemma canonicalLedgerPayload_embed: "canonicalLedgerPayload seq ev a (of_json s) (of_json p) c \<noteq> None"
  using canonicalize_embed [of s] canonicalize_embed [of p]
  by (auto simp: canonicalLedgerPayload_def split: option.splits)

section \<open>The append\<close>

lemma ledgerAppend_json: "snd (ledgerAppend E ev a (of_json (JObj s)) (of_json (JObj p)) d) = Inr ()"
  using canonicalLedgerPayload_embed [of "fst (ledger_tip d) + 1" ev a "JObj s" "JObj p" "now_iso E"]
  by (auto simp: ledgerAppend_def Let_def next_id_def case_prod_beta split: option.splits)

lemma ledgerAppend_cases:
  obtains
    (fails) "ledgerAppend E ev a s p d = (d, Inl (xerr AUDIT_PERSISTENCE_FAILED))"
      "canonicalLedgerPayload (fst (ledger_tip d) + 1) ev a s p (now_iso E) = None"
  | (appends) r where "ledgerAppend E ev a s p d
        = (d\<lparr>ledger_events := ledger_events d @ [r], ids_drawn := Suc (ids_drawn d)\<rparr>, Inr ())"
      "le_seq r = fst (ledger_tip d) + 1" "le_prev r = snd (ledger_tip d)"
      "le_event r = ev" "le_actor r = a"
      "\<exists>c. row_canonical r = Some c \<and> le_entry r = computeEntryHash E (le_prev r) c"
proof (cases "canonicalLedgerPayload (fst (ledger_tip d) + 1) ev a s p (now_iso E)")
  case None
  then show ?thesis
    by (intro fails) (simp_all add: ledgerAppend_def Let_def case_prod_beta)
next
  case (Some c)
  then obtain cs cp where "canonicalize s = Some cs" "canonicalize p = Some cp"
    by (blast dest: canonicalLedgerPayload_Some)
  then obtain s' p' where "json_roundtrip s = Some s'" "canonicalize (of_json s') = canonicalize s"
    and "json_roundtrip p = Some p'" "canonicalize (of_json p') = canonicalize p"
    by (metis roundtrip_canonical(1))
  with Some show ?thesis
    by (intro appends [of "\<lparr>le_id = id_of E (ids_drawn d), le_seq = fst (ledger_tip d) + 1, le_event = ev,
           le_actor = a, le_subject = Some s', le_payload = Some p', le_createdAt = now_iso E,
           le_prev = snd (ledger_tip d), le_entry = computeEntryHash E (snd (ledger_tip d)) c\<rparr>"])
      (auto simp: ledgerAppend_def Let_def next_id_def row_canonical_def case_prod_beta
        canonicalLedgerPayload_cong [of "of_json s'" s "of_json p'" p])
qed

section \<open>Verification\<close>

lemma sort_key_snoc_greatest:
  assumes "\<And>x. x \<in> set xs \<Longrightarrow> f x \<le> f y"
  shows "sort_key f (xs @ [y]) = sort_key f xs @ [y]"
proof (rule properties_for_sort_key)
  show "filter (\<lambda>x. f k = f x) (sort_key f xs @ [y]) = filter (\<lambda>x. f k = f x) (xs @ [y])" for k
    using sort_key_stable [of f "f k" xs] by (simp add: eq_commute [of "f k"])
qed (use assms in \<open>auto simp: sorted_append\<close>)

lemma last_greatest:
  assumes "sort_key f xs = ys @ [z]" and "x \<in> set xs"
  shows "f x \<le> (f z :: nat)"
proof -
  have "sorted (map f (ys @ [z]))" and "x \<in> set (ys @ [z])"
    using assms sorted_sort_key [of f xs] set_sort [of f xs] by simp_all
  then show ?thesis by (auto simp: sorted_append)
qed

text \<open>One row checks against the hash and the number it must chain to.\<close>

definition row_ok :: "env \<Rightarrow> js_string \<Rightarrow> nat \<Rightarrow> ledger_row \<Rightarrow> bool" where
  "row_ok E prev seq r \<longleftrightarrow> le_seq r = seq \<and> le_prev r = prev \<and>
     (\<exists>c. row_canonical r = Some c \<and> le_entry r = computeEntryHash E prev c)"

lemma verify_rows_Cons:
  "verify_rows E p n (r # rs) = None \<longleftrightarrow> row_ok E p n r \<and> verify_rows E (le_entry r) (n + 1) rs = None"
  by (auto simp: row_ok_def Let_def split: option.splits)

declare verify_rows.simps(2) [simp del]

lemma verify_rows_append:
  "verify_rows E p n (rs @ rs') = None \<longleftrightarrow>
     verify_rows E p n rs = None \<and>
     verify_rows E (if rs = [] then p else le_entry (last rs)) (n + length rs) rs' = None"
  by (induction rs arbitrary: p n) (auto simp: verify_rows_Cons)

lemma verify_rows_seqs:
  "verify_rows E p n rs = None \<Longrightarrow> i < length rs \<Longrightarrow> le_seq (rs ! i) = n + i"
  by (induction rs arbitrary: p n i) (auto simp: verify_rows_Cons row_ok_def nth_Cons split: nat.splits)

lemma verifyLedger_ok_iff:
  "lv_ok (verifyLedger E d) \<longleftrightarrow>
     (let rs = sort_key le_seq (ledger_events d)
      in rs = [] \<or> (let (p, n) = verify_start d (le_seq (hd rs)) in verify_rows E p n rs = None))"
  by (auto simp: verifyLedger_def Let_def split: list.splits option.splits prod.splits)

lemma verifyLedger_cong:
  assumes "ledger_events d' = ledger_events d" "ledger_anchors d' = ledger_anchors d"
  shows "verifyLedger E d' = verifyLedger E d" and "ledger_tip d' = ledger_tip d"
  using assms by (simp_all add: verifyLedger_def verify_start_def ledger_tip_def cong: list.case_cong)

lemma newest_anchor_greatest:
  assumes "newest_anchor as = Some a" "b \<in> set as"
  shows "an_seq b \<le> an_seq a"
proof (cases "sort_key an_seq as" rule: rev_cases)
  case (snoc xs z)
  with assms last_greatest [OF snoc, of b] show ?thesis by (simp add: newest_anchor_def)
qed (use assms in \<open>simp add: newest_anchor_def\<close>)

lemma newest_anchor_None: "newest_anchor as = None \<longleftrightarrow> as = []"
  by (auto simp: newest_anchor_def split: list.splits) (metis set_empty set_sort)

lemma newest_anchor_Nil [simp]: "newest_anchor [] = None"
  by (simp add: newest_anchor_None)

lemma verify_start_tip:
  assumes "ledger_events d = []"
  shows "verify_start d (fst (ledger_tip d) + 1) = (snd (ledger_tip d), fst (ledger_tip d) + 1)"
proof (cases "newest_anchor (ledger_anchors d)")
  case None
  then have "ledger_anchors d = []" by (simp add: newest_anchor_None)
  with assms show ?thesis by (simp add: verify_start_def ledger_tip_def)
next
  case (Some a)
  then have "filter (\<lambda>b. an_seq b < an_seq a + 1) (ledger_anchors d) = ledger_anchors d"
    by (auto simp: filter_id_conv less_Suc_eq_le dest: newest_anchor_greatest)
  then show ?thesis using assms Some by (simp add: verify_start_def ledger_tip_def)
qed

lemma verifyLedger_append_row:
  assumes ok: "lv_ok (verifyLedger E d)"
    and r: "row_ok E (snd (ledger_tip d)) (fst (ledger_tip d) + 1) r"
  shows "lv_ok (verifyLedger E (d\<lparr>ledger_events := ledger_events d @ [r]\<rparr>))"
proof (cases "sort_key le_seq (ledger_events d)" rule: rev_cases)
  case Nil
  then have empty: "ledger_events d = []" by (metis set_empty set_sort)
  show ?thesis
    using r verify_start_tip [OF empty] empty
    by (simp add: verifyLedger_ok_iff verify_rows_Cons verify_start_def row_ok_def)
next
  case (snoc rs t)
  have "le_seq x \<le> le_seq r" if "x \<in> set (ledger_events d)" for x
    using last_greatest [OF snoc that] r snoc by (simp add: row_ok_def ledger_tip_def)
  then have sorted: "sort_key le_seq (ledger_events d @ [r]) = (rs @ [t]) @ [r]"
    using sort_key_snoc_greatest [of "ledger_events d" le_seq r] snoc by simp
  have hd: "hd ((rs @ [t]) @ [r]) = hd (rs @ [t])" by (cases rs) auto
  obtain p n where start: "verify_start d (le_seq (hd (rs @ [t]))) = (p, n)" by force
  have chain: "verify_rows E p n (rs @ [t]) = None"
    using ok snoc start by (simp add: verifyLedger_ok_iff)
  have "le_seq t = n + length rs"
    using verify_rows_seqs [OF chain, of "length rs"] by simp
  then have "verify_rows E p n ((rs @ [t]) @ [r]) = None"
    using chain r snoc unfolding verify_rows_append [of _ _ _ "rs @ [t]"]
    by (simp add: verify_rows_Cons ledger_tip_def)
  moreover have "verify_start (d\<lparr>ledger_events := ledger_events d @ [r]\<rparr>) m = verify_start d m" for m
    by (simp add: verify_start_def)
  ultimately show ?thesis
    unfolding verifyLedger_ok_iff Let_def using sorted start hd by simp
qed

lemma ledgerAppend_keeps_ok:
  assumes "lv_ok (verifyLedger E d)"
  shows "lv_ok (verifyLedger E (fst (ledgerAppend E ev a s p d)))"
proof (cases rule: ledgerAppend_cases [of E ev a s p d])
  case fails
  then show ?thesis using assms by simp
next
  case (appends r)
  have "verifyLedger E (fst (ledgerAppend E ev a s p d))
      = verifyLedger E (d\<lparr>ledger_events := ledger_events d @ [r]\<rparr>)"
    using appends by (intro verifyLedger_cong) simp_all
  with verifyLedger_append_row [OF assms, of r] appends show ?thesis
    by (simp add: row_ok_def)
qed

section \<open>Tamper evidence\<close>

definition hashed_texts :: "ledger_row list \<Rightarrow> js_string set" where
  "hashed_texts rs = {le_prev r @ c | r c. r \<in> set rs \<and> row_canonical r = Some c}"

lemma hashed_textI: "r \<in> set rs \<Longrightarrow> row_canonical r = Some c \<Longrightarrow> le_prev r @ c \<in> hashed_texts rs"
  by (auto simp: hashed_texts_def)

lemma chain_determined:
  assumes "verify_rows E p n rs = None" "verify_rows E p n rs' = None"
    and "length rs = length rs'" "rs \<noteq> [] \<longrightarrow> le_entry (last rs) = le_entry (last rs')"
    and size: "length p = 64" "\<And>x. length (sha256 E x) = 64"
    and free: "inj_on (sha256 E) (hashed_texts rs \<union> hashed_texts rs')"
  shows "map row_canonical rs = map row_canonical rs' \<and> map le_entry rs = map le_entry rs'"
  using assms(3,1,2,4) free
proof (induction rs rs' rule: rev_induct2)
  case (4 r rs r' rs')
  let ?q = "\<lambda>rs. if rs = [] then p else le_entry (last rs)"
  have len: "length rs = length rs'" using 4 by simp
  have ok: "verify_rows E p n rs = None" "verify_rows E p n rs' = None"
    and ro: "row_ok E (?q rs) (n + length rs) r" "row_ok E (?q rs') (n + length rs) r'"
    using 4(3,4) len by (simp_all add: verify_rows_append verify_rows_Cons)
  have q64: "length (?q xs) = 64" if "verify_rows E p n xs = None" for xs
    using that size
    by (cases xs rule: rev_cases)
      (auto simp: verify_rows_append verify_rows_Cons row_ok_def computeEntryHash_def)
  obtain c c' where c: "row_canonical r = Some c" "row_canonical r' = Some c'"
    and h: "sha256 E (?q rs @ c) = sha256 E (?q rs' @ c')"
    and pr: "le_prev r = ?q rs" "le_prev r' = ?q rs'"
    using ro 4(5) by (auto simp: row_ok_def computeEntryHash_def)
  have "?q rs @ c \<in> hashed_texts (rs @ [r])" "?q rs' @ c' \<in> hashed_texts (rs' @ [r'])"
    using c pr hashed_textI [of r "rs @ [r]" c] hashed_textI [of r' "rs' @ [r']" c'] by auto
  with h 4(6) have "?q rs @ c = ?q rs' @ c'"
    by (auto dest: inj_onD [where x = "?q rs @ c" and y = "?q rs' @ c'"] simp del: append_eq_append_conv)
  moreover have "length (?q rs) = length (?q rs')" using q64 ok by metis
  ultimately have eq: "?q rs = ?q rs'" "c = c'"
    using append_eq_append_conv [of "?q rs" "?q rs'" c c'] by blast+
  have "map row_canonical rs = map row_canonical rs' \<and> map le_entry rs = map le_entry rs'"
  proof (rule 4(1) [OF len ok])
    show "rs \<noteq> [] \<longrightarrow> le_entry (last rs) = le_entry (last rs')"
      using eq(1) len by auto
    show "inj_on (sha256 E) (hashed_texts rs \<union> hashed_texts rs')"
      using 4(6) by (rule inj_on_subset) (auto simp: hashed_texts_def)
  qed
  with c eq 4(5) show ?case by simp
qed auto

section \<open>Correctness of the ledger\<close>

text \<open>Verification and hashing depend on the environment through the hash function only.\<close>

lemma computeEntryHash_cong: "sha256 E' = sha256 E \<Longrightarrow> computeEntryHash E' = computeEntryHash E"
  by (intro ext) (simp add: computeEntryHash_def)

lemma verify_rows_env: "sha256 E' = sha256 E \<Longrightarrow> verify_rows E' p n rs = verify_rows E p n rs"
  by (induction rs arbitrary: p n) (simp_all add: verify_rows.simps(2) computeEntryHash_cong [of E' E] split: option.splits)

lemma verifyLedger_env: "sha256 E' = sha256 E \<Longrightarrow> verifyLedger E' d = verifyLedger E d"
  by (simp add: verifyLedger_def verify_rows_env [of E' E] Let_def cong: list.case_cong)

lemma verified_rows:
  assumes "lv_ok (verifyLedger E d)" "ledger_anchors d = []"
  shows "verify_rows E LEDGER_GENESIS_HASH 1 (sort_key le_seq (ledger_events d)) = None"
  using assms by (auto simp: verifyLedger_ok_iff verify_start_def Let_def)

lemma verified_tip:
  assumes "lv_ok (verifyLedger E d)" "ledger_anchors d = []"
  shows "fst (ledger_tip d) = length (ledger_events d)"
    and "ledger_events d \<noteq> [] \<Longrightarrow> snd (ledger_tip d) = le_entry (last (sort_key le_seq (ledger_events d)))"
proof -
  show "fst (ledger_tip d) = length (ledger_events d)"
  proof (cases "sort_key le_seq (ledger_events d)" rule: rev_cases)
    case Nil
    then have "ledger_events d = []" by (metis set_empty set_sort)
    with assms(2) show ?thesis by (simp add: ledger_tip_def)
  next
    case (snoc rs t)
    have len: "length (ledger_events d) = Suc (length rs)" using arg_cong [OF snoc, of length] by simp
    have "le_seq ((rs @ [t]) ! length rs) = 1 + length rs"
      using verify_rows_seqs [OF verified_rows [OF assms], of "length rs"] snoc len by simp
    with snoc len show ?thesis by (simp add: ledger_tip_def)
  qed
  show "snd (ledger_tip d) = le_entry (last (sort_key le_seq (ledger_events d)))" if "ledger_events d \<noteq> []"
    using that by (cases "sort_key le_seq (ledger_events d)" rule: rev_cases)
      (auto simp: ledger_tip_def dest: arg_cong [of _ _ set])
qed

text \<open>Starting from a ledger that verifies, any sequence of appends (also of values the canonicaliser refuses) leaves
  a ledger that verifies: what is written and what the verifier recomputes from the stored JSON agree.\<close>

theorem ledger_appends_verify:
  assumes "lv_ok (verifyLedger E d)" and "\<forall>(E', ev, a, s, p)\<in>set evs. sha256 E' = sha256 E"
  shows "lv_ok (verifyLedger E (fold (\<lambda>(E', ev, a, s, p) d. fst (ledgerAppend E' ev a s p d)) evs d))"
  using assms
proof (induction evs arbitrary: d)
  case (Cons e evs)
  obtain E' ev a s p where e: "e = (E', ev, a, s, p)" by (cases e)
  then have h: "sha256 E' = sha256 E" using Cons.prems(2) by simp
  then have "lv_ok (verifyLedger E (fst (ledgerAppend E' ev a s p d)))"
    using ledgerAppend_keeps_ok [of E' d ev a s p] Cons.prems(1) by (simp add: verifyLedger_env [OF h])
  with Cons e show ?case by simp
qed simp

definition flat_env :: env where
  "flat_env = \<lparr>now = 0, now_iso = js ''t0'', id_of = (\<lambda>n. [n]), sha256 = (\<lambda>x. replicate 64 97), secret_of = (\<lambda>n. [n]),
     capability_of = (\<lambda>n. [n]), liveness = (\<lambda>p. Inconclusive), uni = ascii_unicode\<rparr>"

theorem ledger_appends_verify_witness:
  "lv_ok (verifyLedger flat_env (fold (\<lambda>(E', ev, a, s, p) d. fst (ledgerAppend E' ev a s p d))
     [(flat_env, ''A'', js ''x'', VNull, VArr [VBool True]), (flat_env, ''B'', js ''x'', VUndefined, VNull)] empty_db))"
  by (rule ledger_appends_verify) (simp_all add: verifyLedger_def)

text \<open>C29: tamper evidence. Two ledgers that verify and end in the same sequence number and hash have, row by row, the
  same canonical content (number, event, actor, subject, payload, time), provided the hash is 64 digits long and has
  no collision among the texts the two ledgers hash.\<close>

theorem ledger_tamper_evident:
  assumes "lv_ok (verifyLedger E d)" "lv_ok (verifyLedger E d')" "ledger_anchors d = []" "ledger_anchors d' = []"
    and tip: "ledger_tip d = ledger_tip d'" and size: "\<And>x. length (sha256 E x) = 64"
    and free: "inj_on (sha256 E) (hashed_texts (ledger_events d) \<union> hashed_texts (ledger_events d'))"
  shows "map row_canonical (sort_key le_seq (ledger_events d)) = map row_canonical (sort_key le_seq (ledger_events d'))"
proof -
  let ?rs = "sort_key le_seq (ledger_events d)" and ?rs' = "sort_key le_seq (ledger_events d')"
  have len: "length (ledger_events d) = length (ledger_events d')"
    using verified_tip(1) [OF assms(1,3)] verified_tip(1) [OF assms(2,4)] tip by simp
  have last: "?rs \<noteq> [] \<longrightarrow> le_entry (last ?rs) = le_entry (last ?rs')"
  proof
    assume "?rs \<noteq> []"
    then have "ledger_events d \<noteq> []" by auto
    moreover have "ledger_events d' \<noteq> []" using len calculation by auto
    ultimately show "le_entry (last ?rs) = le_entry (last ?rs')"
      using verified_tip(2) [OF assms(1,3)] verified_tip(2) [OF assms(2,4)] tip by simp
  qed
  have "hashed_texts ?rs \<union> hashed_texts ?rs' = hashed_texts (ledger_events d) \<union> hashed_texts (ledger_events d')"
    by (simp add: hashed_texts_def)
  moreover have "length LEDGER_GENESIS_HASH = 64" by (simp add: LEDGER_GENESIS_HASH_def)
  ultimately show ?thesis
    using chain_determined [OF verified_rows [OF assms(1,3)] verified_rows [OF assms(2,4)] _ last _ size] len free by simp
qed

theorem ledger_tamper_evident_witness:
  "\<exists>d d'. ledger_events d \<noteq> ledger_events d' \<and> lv_ok (verifyLedger flat_env d) \<and> lv_ok (verifyLedger flat_env d') \<and>
     ledger_tip d = ledger_tip d' \<and>
     map row_canonical (sort_key le_seq (ledger_events d)) = map row_canonical (sort_key le_seq (ledger_events d'))"
proof -
  let ?a = "\<lambda>d. fst (ledgerAppend flat_env ''A'' (js ''x'') (of_json (JObj [])) (of_json (JObj [])) d)"
  let ?d = "?a empty_db" and ?d' = "?a (empty_db\<lparr>ids_drawn := 5\<rparr>)"
  have ok: "lv_ok (verifyLedger flat_env ?d)" "lv_ok (verifyLedger flat_env ?d')"
    by (rule ledgerAppend_keeps_ok; simp add: verifyLedger_def)+
  have ev: "ledger_anchors ?d = []" "ledger_anchors ?d' = []" "ledger_events ?d \<noteq> ledger_events ?d'" "ledger_tip ?d = ledger_tip ?d'"
    and one: "hashed_texts (ledger_events ?d) \<union> hashed_texts (ledger_events ?d') \<subseteq> hashed_texts (ledger_events ?d)"
    by (auto simp: ledgerAppend_def ledger_tip_def canonicalLedgerPayload_def next_id_def flat_env_def Let_def hashed_texts_def
        row_canonical_def newest_anchor_def)
  have "inj_on (sha256 flat_env) (hashed_texts (ledger_events ?d))"
    by (auto simp: inj_on_def ledgerAppend_def ledger_tip_def canonicalLedgerPayload_def next_id_def flat_env_def Let_def
        hashed_texts_def newest_anchor_def)
  then have "inj_on (sha256 flat_env) (hashed_texts (ledger_events ?d) \<union> hashed_texts (ledger_events ?d'))"
    using one by (rule inj_on_subset)
  with ledger_tamper_evident [OF ok ev(1,2,4)] ok ev show ?thesis by (auto simp: flat_env_def)
qed

end
