(* ===== verification/Naming.thy ===== *)
theory Naming
  imports Ledger Receipts
begin

text \<open>
  Session names and their durable owners, from \<^verbatim>\<open>src/broker/store.ts\<close>: the name columns of \<open>sessions\<close>, the
  \<open>name_ownership\<close> table that mirrors them, ownership secrets, and the reclaim decision. The partial unique
  indexes \<open>ux_session_name_active\<close> and \<open>ux_name_ownership_active\<close> are the predicates \<open>names_unique\<close> and
  \<open>owners_unique\<close>.
\<close>

section \<open>Rows\<close>

definition OPERATOR_SESSION_ID :: js_string where
  "OPERATOR_SESSION_ID = js ''local-operator''"

definition OPERATOR_LEDGER_ACTOR :: js_string where
  "OPERATOR_LEDGER_ACTOR = js ''local-operator''"

text \<open>A session holds a normalised name: the row is in \<open>ux_session_name_active\<close>.\<close>

definition holds_name :: "session_row \<Rightarrow> bool" where
  "holds_name s \<longleftrightarrow> s_normName s \<noteq> None \<and> (s_nameState s = Active \<or> s_nameState s = Pending)"

definition owns_name :: "ownership_row \<Rightarrow> bool" where
  "owns_name r \<longleftrightarrow> o_normName r \<noteq> None \<and> (o_state r = Own_Active \<or> o_state r = Own_Pending)"

definition name_taken :: "db \<Rightarrow> js_string \<Rightarrow> js_string \<Rightarrow> bool" where
  "name_taken d n sid = list_ex (\<lambda>s. s_normName s = Some n \<and>
      (s_nameState s = Active \<or> s_nameState s = Pending) \<and> s_id s \<noteq> sid) (sessions d)"

definition name_owner :: "db \<Rightarrow> js_string \<Rightarrow> ownership_row option" where
  "name_owner d n = List.find (\<lambda>r. o_normName r = Some n \<and> (o_state r = Own_Active \<or> o_state r = Own_Pending)) (name_ownership d)"

section \<open>Identity and liveness\<close>

definition hashSecret :: "env \<Rightarrow> js_string \<Rightarrow> js_string" where
  "hashSecret E secret = sha256 E (js ''owner:'' @ secret)"

definition mintOwnerSecret :: "env \<Rightarrow> db \<Rightarrow> js_string \<times> db" where
  "mintOwnerSecret E d = (secret_of E (secrets_drawn d), d\<lparr>secrets_drawn := Suc (secrets_drawn d)\<rparr>)"

definition logicalIdOf :: "db \<Rightarrow> js_string \<Rightarrow> js_string" where
  "logicalIdOf d sid =
     (case session_row d sid of None \<Rightarrow> sid | Some s \<Rightarrow> (case s_logical s of None \<Rightarrow> sid | Some l \<Rightarrow> l))"

definition components_of :: "db \<Rightarrow> js_string \<Rightarrow> nat \<Rightarrow> component_role \<Rightarrow> component_row list" where
  "components_of d sid ep role =
     filter (\<lambda>c. c_session c = sid \<and> c_epoch c = ep \<and> c_role c = role) (component_instances d)"

definition live_mcp :: "db \<Rightarrow> js_string \<Rightarrow> nat \<Rightarrow> component_row list" where
  "live_mcp d sid ep = filter (\<lambda>c. c_state c = Comp_Live) (components_of d sid ep MCP)"

definition hasLiveMcp :: "db \<Rightarrow> js_string \<Rightarrow> bool" where
  "hasLiveMcp d sid = (case session_row d sid of None \<Rightarrow> False | Some s \<Rightarrow> live_mcp d sid (s_epoch s) \<noteq> [])"

definition hasProvenLiveMcp :: "env \<Rightarrow> db \<Rightarrow> js_string \<Rightarrow> bool" where
  "hasProvenLiveMcp E d sid =
     (case session_row d sid of
        None \<Rightarrow> False
      | Some s \<Rightarrow>
          (case top_by c_connectedAt (live_mcp d sid (s_epoch s)) of
             None \<Rightarrow> False
           | Some c \<Rightarrow>
               if s_state s \<noteq> Conn_Disconnected then True
               else liveness E (c_pid c) \<noteq> Proven_Dead_Or_Recycled))"

definition mcpComponentPresence :: "db \<Rightarrow> js_string \<Rightarrow> bool \<times> bool" where
  "mcpComponentPresence d sid =
     (case session_row d sid of
        None \<Rightarrow> (False, False)
      | Some s \<Rightarrow> (components_of d sid (s_epoch s) MCP \<noteq> [], live_mcp d sid (s_epoch s) \<noteq> []))"

definition hookComponentPresent :: "db \<Rightarrow> js_string \<Rightarrow> bool" where
  "hookComponentPresent d sid =
     (case session_row d sid of None \<Rightarrow> False | Some s \<Rightarrow> components_of d sid (s_epoch s) HOOK \<noteq> [])"

datatype activation_state = CONNECTED | MCP_DISCONNECTED | DEGRADED_HOOK_ONLY | PLUGIN_NOT_LOADED

fun activation_name :: "activation_state \<Rightarrow> string" where
  "activation_name CONNECTED = ''CONNECTED''"
| "activation_name MCP_DISCONNECTED = ''MCP_DISCONNECTED''"
| "activation_name DEGRADED_HOOK_ONLY = ''DEGRADED_HOOK_ONLY''"
| "activation_name PLUGIN_NOT_LOADED = ''PLUGIN_NOT_LOADED''"

record activation_diagnosis =
  ad_state :: activation_state
  ad_epoch :: "nat option"
  ad_mcpEver :: bool
  ad_mcpLive :: bool
  ad_hookPresent :: bool
  ad_firstEmission :: bool

definition diagnosed_before :: "db \<Rightarrow> js_string \<Rightarrow> nat \<Rightarrow> bool" where
  "diagnosed_before d sid ep =
     list_ex (\<lambda>a. au_event a = ''PLUGIN_NOT_LOADED'' \<and> au_session a = Some sid \<and>
        map_of (au_metadata a) ''epoch'' = Some (JNum (int ep))) (audit_events d)"

definition diagnoseActivationOnce :: "env \<Rightarrow> js_string \<Rightarrow> db \<Rightarrow> activation_diagnosis result" where
  "diagnoseActivationOnce E rawSessionId =
     transaction (\<lambda>d.
       let mapped = map_option pm_canonical (List.find (\<lambda>r. pm_physical r = rawSessionId) (physical_session_map d));
           sid = (case mapped of Some c \<Rightarrow> if c \<noteq> [] \<and> session_row d c \<noteq> None then c else rawSessionId | None \<Rightarrow> rawSessionId)
       in case session_row d sid of
            None \<Rightarrow> (d, Inr \<lparr>ad_state = PLUGIN_NOT_LOADED, ad_epoch = None, ad_mcpEver = False, ad_mcpLive = False,
                            ad_hookPresent = False, ad_firstEmission = False\<rparr>)
          | Some s \<Rightarrow>
              let (mcpEver, mcpLive) = mcpComponentPresence d sid;
                  hookPresent = hookComponentPresent d sid;
                  state = (if mcpLive then CONNECTED else if mcpEver then MCP_DISCONNECTED
                           else if hookPresent then DEGRADED_HOOK_ONLY else PLUGIN_NOT_LOADED);
                  absent = (state = PLUGIN_NOT_LOADED \<or> state = DEGRADED_HOOK_ONLY);
                  emit = (absent \<and> \<not> diagnosed_before d sid (s_epoch s));
                  d = (if emit then audit E ''PLUGIN_NOT_LOADED''
                         [(''sessionId'', JStr sid), (''epoch'', JNum (int (s_epoch s))),
                          (''state'', JStr (js (activation_name state)))] d else d)
              in (d, Inr \<lparr>ad_state = state, ad_epoch = Some (s_epoch s), ad_mcpEver = mcpEver, ad_mcpLive = mcpLive,
                         ad_hookPresent = hookPresent, ad_firstEmission = emit\<rparr>))"

section \<open>Ownership of a name\<close>

datatype release_where = By_Logical js_string | By_Name js_string js_string

definition releaseNameOwnership :: "env \<Rightarrow> release_where \<Rightarrow> bool \<Rightarrow> db \<Rightarrow> db" where
  "releaseNameOwnership E w markSuperseded d =
     (let hit = (\<lambda>r. case w of
                       By_Logical l \<Rightarrow> o_logical r = l
                     | By_Name n l \<Rightarrow> o_normName r = Some n \<and> o_logical r \<noteq> l \<and> (o_state r = Own_Active \<or> o_state r = Own_Pending))
      in d\<lparr>name_ownership := upd_where hit
            (\<lambda>r. r\<lparr>o_state := Own_Released, o_normName := None,
                   o_supersededAt := (if markSuperseded then Some (now E) else o_supersededAt r), o_updatedAt := now E\<rparr>)
            (name_ownership d)\<rparr>)"

definition setNameOwnershipReleased :: "env \<Rightarrow> js_string \<Rightarrow> db \<Rightarrow> db" where
  "setNameOwnershipReleased E l = releaseNameOwnership E (By_Logical l) False"

definition ownership_row_of :: "db \<Rightarrow> js_string \<Rightarrow> ownership_row option" where
  "ownership_row_of d l = List.find (\<lambda>r. o_logical r = l) (name_ownership d)"

text \<open>INSERT ... ON CONFLICT(logical_identity_id) DO UPDATE.\<close>

definition put_ownership :: "env \<Rightarrow> js_string \<Rightarrow> js_string \<Rightarrow> normalized_session_name \<Rightarrow> js_string \<Rightarrow> db \<Rightarrow> db" where
  "put_ownership E l sid nm hash d =
     d\<lparr>name_ownership :=
        (if ownership_row_of d l = None
         then name_ownership d @
           [\<lparr>o_logical = l, o_normName = Some (nsn_normalized nm), o_display = Some (nsn_display nm),
             o_secretHash = Some hash, o_state = Own_Active, o_session = Some sid, o_supersededAt = None,
             o_createdAt = now E, o_updatedAt = now E\<rparr>]
         else upd_where (\<lambda>r. o_logical r = l)
           (\<lambda>r. r\<lparr>o_normName := Some (nsn_normalized nm), o_display := Some (nsn_display nm), o_secretHash := Some hash,
                  o_state := Own_Active, o_session := Some sid, o_supersededAt := None, o_updatedAt := now E\<rparr>)
           (name_ownership d))\<rparr>"

definition setNameOwnershipActive ::
  "env \<Rightarrow> js_string \<Rightarrow> js_string \<Rightarrow> normalized_session_name \<Rightarrow> db \<Rightarrow> js_string option \<times> db" where
  "setNameOwnershipActive E l sid nm d =
     (let prior = (case ownership_row_of d l of None \<Rightarrow> None | Some r \<Rightarrow> o_secretHash r);
          (plaintext, hash, d) =
            (case prior of
               Some h \<Rightarrow> (None, h, d)
             | None \<Rightarrow> (let (p, d) = mintOwnerSecret E d in (Some p, hashSecret E p, d)));
          d = releaseNameOwnership E (By_Name (nsn_normalized nm) l) True d;
          d = put_ownership E l sid nm hash d;
          d = (if prior = None
               then ledger E ''name.awarded'' sid [(js ''sessionId'', JStr sid)] [(js ''name'', JStr (nsn_display nm))] d
               else d)
      in (plaintext, d))"

section \<open>Claiming a name\<close>

record name_status =
  nst_state :: name_state
  nst_name :: "js_string option"
  nst_secret :: "js_string option"

definition PENDING_NAME_TTL_MS :: int where
  "PENDING_NAME_TTL_MS = 5 * 60000"

definition markPending :: "env \<Rightarrow> js_string \<Rightarrow> db \<Rightarrow> db" where
  "markPending E sid d =
     (let d = upd_session sid (\<lambda>s. s\<lparr>s_name := None, s_normName := None, s_nameState := Pending,
                s_pendingNameExpiresAt := Some (now E + PENDING_NAME_TTL_MS), s_updatedAt := now E\<rparr>) d
      in setNameOwnershipReleased E (logicalIdOf d sid) d)"

definition set_name :: "env \<Rightarrow> normalized_session_name \<Rightarrow> session_row \<Rightarrow> session_row" where
  "set_name E nm s = s\<lparr>s_name := Some (nsn_display nm), s_normName := Some (nsn_normalized nm),
     s_nameState := Active, s_pendingNameExpiresAt := None, s_updatedAt := now E\<rparr>"

text \<open>
  The UPDATE violates \<open>ux_session_name_active\<close> exactly when \<open>name_taken\<close> holds, which was tested just before:
  the catch branch is not reachable.
\<close>

definition claimNameForRegister :: "env \<Rightarrow> js_string \<Rightarrow> js_string option \<Rightarrow> db \<Rightarrow> name_status \<times> db" where
  "claimNameForRegister E sid requested d =
     (case requested of
        None \<Rightarrow> (\<lparr>nst_state = Unnamed, nst_name = None, nst_secret = None\<rparr>, d)
      | Some raw \<Rightarrow>
          (case validateSessionName (uni E) raw of
             Inl _ \<Rightarrow> (\<lparr>nst_state = Pending, nst_name = None, nst_secret = None\<rparr>, markPending E sid d)
           | Inr nm \<Rightarrow>
               if name_taken d (nsn_normalized nm) sid
               then (\<lparr>nst_state = Pending, nst_name = None, nst_secret = None\<rparr>, markPending E sid d)
               else let d = upd_session sid (set_name E nm) d;
                        (secret, d) = setNameOwnershipActive E (logicalIdOf d sid) sid nm d
                    in (\<lparr>nst_state = Active, nst_name = Some (nsn_display nm), nst_secret = secret\<rparr>, d)))"

section \<open>Reclaim\<close>

datatype reclaim_reason =
  Not_Attempted | Credential_Missing | Credential_Invalid | Anchor_Mismatch | Predecessor_Live | Unrelated_Owns

datatype reclaim_outcome = Reclaim_Ok js_string js_string | Reclaim_No reclaim_reason

fun reason_name :: "reclaim_reason \<Rightarrow> string" where
  "reason_name Not_Attempted = ''not-attempted''"
| "reason_name Credential_Missing = ''credential-missing''"
| "reason_name Credential_Invalid = ''credential-invalid''"
| "reason_name Anchor_Mismatch = ''anchor-mismatch''"
| "reason_name Predecessor_Live = ''predecessor-live''"
| "reason_name Unrelated_Owns = ''unrelated-owns''"

definition resolveReclaim :: "env \<Rightarrow> js_string option \<Rightarrow> js_string option \<Rightarrow> js_string \<Rightarrow> db \<Rightarrow> reclaim_outcome" where
  "resolveReclaim E requested ownerSecret newSessionId d =
     (case (requested, ownerSecret) of
        (None, None) \<Rightarrow> Reclaim_No Not_Attempted
      | (Some _, None) \<Rightarrow> Reclaim_No Credential_Missing
      | (None, Some _) \<Rightarrow> Reclaim_No Anchor_Mismatch
      | (Some raw, Some secret) \<Rightarrow>
          (case validateSessionName (uni E) raw of
             Inl _ \<Rightarrow> Reclaim_No Anchor_Mismatch
           | Inr nm \<Rightarrow>
               (case name_owner d (nsn_normalized nm) of
                  None \<Rightarrow> Reclaim_No Anchor_Mismatch
                | Some own \<Rightarrow>
                    (case o_secretHash own of
                       None \<Rightarrow> Reclaim_No Anchor_Mismatch
                     | Some h \<Rightarrow>
                         if h \<noteq> hashSecret E secret then Reclaim_No Credential_Invalid
                         else if \<not> truthy (o_session own) then Reclaim_No Anchor_Mismatch
                         else let csid = the (o_session own) in
                              if csid = newSessionId then Reclaim_No Not_Attempted
                              else if hasProvenLiveMcp E d csid then Reclaim_No Predecessor_Live
                              else Reclaim_Ok csid (o_logical own)))))"

end
