(* ===== verification/Registration.thy ===== *)
theory Registration
  imports Naming Sequences Moves
begin

text \<open>
  Registration of components and the session lifecycle, from \<^verbatim>\<open>src/broker/store.ts\<close>: \<open>register\<close> with its
  reclaim redirect, first registration, fresh lifecycle and join branches, aliases, announcements, import of
  dormant sessions, renaming, readiness signals; \<open>ensureOperatorSession\<close> of \<^verbatim>\<open>src/broker/operator.ts\<close> and
  \<open>onConnClose\<close> of \<^verbatim>\<open>src/broker/daemon.ts\<close>.
\<close>

section \<open>Aliases\<close>

definition active_alias :: "db \<Rightarrow> js_string \<Rightarrow> alias_row option" where
  "active_alias d ci = List.find (\<lambda>a. al_ci a = ci \<and> al_global a \<and> al_active a) (aliases d)"

definition upsertAliasRow :: "env \<Rightarrow> normalized_alias \<Rightarrow> js_string \<Rightarrow> db \<Rightarrow> db" where
  "upsertAliasRow E alias sid d =
     (let (i, d) = next_id E d in
      d\<lparr>aliases := aliases d @
         [\<lparr>al_id = i, al_alias = na_display alias, al_ci = na_ci alias, al_global = True, al_session = sid,
           al_active = True, al_createdAt = now E, al_retiredAt = None\<rparr>]\<rparr>)"

definition upsertAutomaticAliasSafe :: "env \<Rightarrow> normalized_alias \<Rightarrow> js_string \<Rightarrow> db \<Rightarrow> db" where
  "upsertAutomaticAliasSafe E alias sid d =
     (case active_alias d (na_ci alias) of
        Some clash \<Rightarrow>
          if al_session clash \<noteq> sid
          then audit E ''AUTOMATIC_ALIAS_COLLISION''
                 [(''sessionId'', JStr sid), (''alias'', JStr (na_display alias)), (''heldBy'', JStr (al_session clash))] d
          else d
      | None \<Rightarrow>
          let hit = (\<lambda>a. al_session a = sid \<and> al_ci a = na_ci alias \<and> al_global a) in
          if changes hit (aliases d) = 0 then upsertAliasRow E alias sid d
          else d\<lparr>aliases := upd_where hit (\<lambda>a. a\<lparr>al_active := True, al_retiredAt := None\<rparr>) (aliases d)\<rparr>)"

definition registerAlias :: "env \<Rightarrow> authority \<Rightarrow> js_string \<Rightarrow> db \<Rightarrow> js_string result" where
  "registerAlias E auth rawAlias d =
     (case validateUserAlias rawAlias of
        Inl e \<Rightarrow> (d, Inl e)
      | Inr alias \<Rightarrow>
          transaction (\<lambda>d. andThen (assertCurrentEpoch E auth d) (\<lambda>_ d.
            let clash = active_alias d (na_ci alias) in
            if clash \<noteq> None \<and> al_session (the clash) \<noteq> a_session auth then (d, Inl (xerr INVALID_ALIAS))
            else let d = (if clash = None then upsertAliasRow E alias (a_session auth) d else d);
                     d = audit E ''ALIAS_REGISTERED''
                       [(''sessionId'', JStr (a_session auth)), (''alias'', JStr (na_display alias))] d
                 in (d, Inr (na_display alias)))) d)"

section \<open>Session rows\<close>

text \<open>A row with the column defaults of the schema.\<close>

definition blank_session :: "js_string \<Rightarrow> js_string \<Rightarrow> js_string \<Rightarrow> js_string \<Rightarrow> js_string \<Rightarrow> int \<Rightarrow> session_row" where
  "blank_session sid autoAlias projectId cwd mode t =
     \<lparr>s_id = sid, s_logical = None, s_instance = None, s_generation = 0, s_highWater = 0, s_epoch = 0,
      s_fencing = None, s_boundConn = None, s_autoAlias = autoAlias, s_projectId = projectId, s_projectAlias = None,
      s_cwd = cwd, s_repoRoot = None, s_ccVersion = None, s_capabilities = [], s_receiveMode = mode,
      s_state = Conn_Disconnected, s_readiness = Initializing, s_readinessAt = None, s_agentType = None,
      s_connectedAt = None, s_disconnectedAt = None, s_lastSeenAt = t, s_lastCheckpointAt = None, s_createdAt = t, s_updatedAt = t,
      s_name = None, s_normName = None, s_nameState = Unnamed, s_pendingNameExpiresAt = None,
      s_lastActivityAt = None, s_expiresAt = None, s_expiredAt = None, s_expReason = None, s_mgmt = Mgmt_Active,
      s_sourceLast = None, s_confidence = ''signal'', s_transcript = None, s_firstSeenAt = None,
      s_lastSeenSourceAt = None, s_title = None, s_titleSource = None, s_titleAt = None, s_pinned = False,
      s_archived = False, s_archivedAt = None, s_managed = False, s_managedPid = None, s_managedStartedAt = None,
      s_managedKey = None\<rparr>"

definition ensure_sequence :: "js_string \<Rightarrow> db \<Rightarrow> db" where
  "ensure_sequence sid d =
     (if List.find (\<lambda>r. q_key r = sid) (recipient_sequences d) \<noteq> None then d
      else d\<lparr>recipient_sequences := recipient_sequences d @ [\<lparr>q_key = sid, q_next = 1\<rparr>]\<rparr>)"

definition nextEpochToken :: "env \<Rightarrow> db \<Rightarrow> js_string \<times> db" where
  "nextEpochToken E d =
     (let v = Suc (fencing_counter d) in (sha256 E (js ''epoch:'' @ dec_str v), d\<lparr>fencing_counter := v\<rparr>))"

definition insert_epoch :: "env \<Rightarrow> js_string \<Rightarrow> nat \<Rightarrow> db \<Rightarrow> db" where
  "insert_epoch E sid ep d =
     (let (tok, d) = nextEpochToken E d in
      d\<lparr>session_epochs := session_epochs d @
         [\<lparr>ep_session = sid, ep_epoch = ep, ep_tokenHash = tok, ep_startedAt = now E, ep_supersededAt = None, ep_reason = None\<rparr>]\<rparr>)"

section \<open>Registration\<close>

record register_input =
  rg_session :: js_string
  rg_conn :: js_string
  rg_pid :: int
  rg_projectId :: js_string
  rg_cwd :: js_string
  rg_receiveMode :: js_string
  rg_capabilities :: "js_string list"
  rg_role :: "component_role option"
  rg_buildId :: "js_string option"
  rg_repoRoot :: "js_string option"
  rg_ccVersion :: "js_string option"
  rg_name :: "js_string option"
  rg_agentType :: "js_string option"
  rg_secret :: "js_string option"
  rg_supersede :: bool

record registered =
  rd_auth :: authority
  rd_nameState :: name_state
  rd_name :: "js_string option"
  rd_logical :: js_string
  rd_secret :: "js_string option"
  rd_reclaimFailed :: bool
  rd_reclaimOutcome :: "string option"

text \<open>The edge of \<open>physical_session_map\<close>, purged when its target is gone or expired.\<close>

definition followed_map :: "js_string \<Rightarrow> db \<Rightarrow> js_string option \<times> db" where
  "followed_map phys d =
     (case List.find (\<lambda>r. pm_physical r = phys) (physical_session_map d) of
        None \<Rightarrow> (None, d)
      | Some r \<Rightarrow>
          if (case session_row d (pm_canonical r) of None \<Rightarrow> False | Some t \<Rightarrow> s_expiredAt t = None)
          then (Some (pm_canonical r), d)
          else (None, d\<lparr>physical_session_map := del_where (\<lambda>r. pm_physical r = phys) (physical_session_map d)\<rparr>))"

definition put_map :: "env \<Rightarrow> js_string \<Rightarrow> js_string \<Rightarrow> js_string \<Rightarrow> db \<Rightarrow> db" where
  "put_map E phys canonical l d =
     d\<lparr>physical_session_map := del_where (\<lambda>r. pm_physical r = phys) (physical_session_map d) @
         [\<lparr>pm_physical = phys, pm_canonical = canonical, pm_logical = l, pm_createdAt = now E\<rparr>]\<rparr>"

text \<open>
  \<open>rehomeAcceptedReplyAuthority\<close>: an authority-only injection of the new epoch for every accepted request that
  still owes a reply. The INSERT is not guarded, so a violated index throws.
\<close>

definition rehome_one :: "env \<Rightarrow> js_string \<Rightarrow> nat \<Rightarrow> js_string \<Rightarrow> js_string \<Rightarrow> db \<Rightarrow> unit result" where
  "rehome_one E sid ep cid mid d =
     (if injected d mid ep 1 then (d, Inr ())
      else
        let capHash = sha256 E (capability_of E (capabilities_drawn d));
            d = d\<lparr>capabilities_drawn := Suc (capabilities_drawn d)\<rparr>;
            (i, d) = next_id E d;
            (c, d) = next_id E d;
            cp = js ''reply-authority-rehome-'' @ c
        in if list_ex (\<lambda>r. ci_id r = i \<or> ci_capHash r = capHash \<or> (ci_message r = mid \<and> ci_checkpoint r = cp)) (context_injections d)
           then (d, Inl SqliteConstraint)
           else (audit E ''REPLY_AUTHORITY_REHOMED''
                   [(''sessionId'', JStr sid), (''messageId'', JStr mid), (''epoch'', JNum (int ep))]
                   (d\<lparr>context_injections := context_injections d @
                      [\<lparr>ci_id = i, ci_message = mid, ci_session = sid, ci_epoch = ep, ci_checkpoint = cp, ci_component = cid,
                        ci_capHash = capHash, ci_injectedAt = now E, ci_expiresAt = now E + MEANINGFUL_ACTIVITY_RETENTION_MS,
                        ci_consumedAt = None, ci_consumedOp = None, ci_logical = 1\<rparr>]\<rparr>), Inr ()))"

fun rehome_all :: "env \<Rightarrow> js_string \<Rightarrow> nat \<Rightarrow> js_string \<Rightarrow> js_string list \<Rightarrow> db \<Rightarrow> unit result" where
  "rehome_all E sid ep cid [] d = (d, Inr ())"
| "rehome_all E sid ep cid (m # ms) d = andThen (rehome_one E sid ep cid m d) (\<lambda>_. rehome_all E sid ep cid ms)"

definition reply_pending :: "db \<Rightarrow> js_string \<Rightarrow> js_string list" where
  "reply_pending d sid =
     concat (map (\<lambda>x. if d_recipient x = sid \<and> d_state x = Accepted
        then map m_id (filter (\<lambda>m. m_id m = d_message x \<and> m_requiresReply m) (messages d)) else []) (deliveries d))"

definition rehomeAcceptedReplyAuthority :: "env \<Rightarrow> js_string \<Rightarrow> nat \<Rightarrow> js_string \<Rightarrow> db \<Rightarrow> unit result" where
  "rehomeAcceptedReplyAuthority E sid ep cid d = rehome_all E sid ep cid (reply_pending d sid) d"

definition create_session :: "env \<Rightarrow> js_string \<Rightarrow> register_input \<Rightarrow> js_string \<Rightarrow> db \<Rightarrow> db" where
  "create_session E cid inp sid d =
     (let auto = automaticAlias sid;
          row = (blank_session sid (na_display auto) (rg_projectId inp) (rg_cwd inp) (rg_receiveMode inp) (now E))
            \<lparr>s_logical := Some sid, s_instance := Some cid, s_generation := 1, s_highWater := 1, s_epoch := 1,
             s_fencing := Some 1, s_boundConn := Some (rg_conn inp), s_repoRoot := rg_repoRoot inp,
             s_ccVersion := rg_ccVersion inp, s_capabilities := rg_capabilities inp, s_state := Conn_Connected,
             s_agentType := rg_agentType inp, s_connectedAt := Some (now E)\<rparr>;
          d = d\<lparr>sessions := sessions d @ [row]\<rparr>;
          d = ensure_sequence sid d;
          d = upsertAutomaticAliasSafe E auto sid d
      in insert_epoch E sid 1 d)"

definition requeue_written :: "env \<Rightarrow> (delivery_row \<Rightarrow> bool) \<Rightarrow> db \<Rightarrow> db" where
  "requeue_written E p d =
     d\<lparr>deliveries := upd_where (\<lambda>x. d_state x = Transport_Written \<and> p x)
         (\<lambda>x. x\<lparr>d_state := Queued, d_transportWrittenAt := None, d_targetInstance := None, d_updatedAt := now E\<rparr>) (deliveries d)\<rparr>"

definition fresh_lifecycle :: "env \<Rightarrow> js_string \<Rightarrow> js_string \<Rightarrow> session_row \<Rightarrow> db \<Rightarrow> nat result" where
  "fresh_lifecycle E cid sid s d =
     (let isExpiredResume = (s_expiredAt s \<noteq> None);
          ep = s_epoch s + 1;
          d = d\<lparr>session_epochs := upd_where (\<lambda>r. ep_session r = sid \<and> ep_epoch r = s_epoch s \<and> ep_supersededAt r = None)
                  (\<lambda>r. r\<lparr>ep_supersededAt := Some (now E),
                         ep_reason := Some (if isExpiredResume then ''expired_resume'' else ''supersede'')\<rparr>) (session_epochs d)\<rparr>;
          d = insert_epoch E sid ep d;
          d = upd_session sid (\<lambda>r. r\<lparr>s_epoch := ep, s_generation := ep, s_highWater := ep, s_fencing := Some ep,
                 s_state := Conn_Connected, s_readiness := Initializing, s_readinessAt := Some (now E), s_expiredAt := None,
                 s_expReason := None, s_nameState := Unnamed, s_name := None, s_normName := None,
                 s_pendingNameExpiresAt := None, s_lastSeenAt := now E, s_updatedAt := now E\<rparr>) d;
          d = setNameOwnershipReleased E (logicalIdOf d sid) d;
          d = d\<lparr>component_instances := upd_where (\<lambda>c. c_session c = sid \<and> c_state c = Comp_Live)
                  (\<lambda>c. c\<lparr>c_state := Comp_Superseded, c_disconnectedAt := Some (now E)\<rparr>) (component_instances d)\<rparr>;
          d = requeue_written E (\<lambda>x. d_recipient x = sid) d
      in andThen (rehomeAcceptedReplyAuthority E sid ep cid d) (\<lambda>_ d.
           let d = (if isExpiredResume
                    then ledger E ''session.expired_resumed'' sid [(js ''sessionId'', JStr sid)] [(js ''epoch'', JNum (int ep))]
                           (upsertAutomaticAliasSafe E (automaticAlias sid) sid d)
                    else d)
           in (d, Inr ep)))"

definition join_session :: "env \<Rightarrow> component_role \<Rightarrow> js_string \<Rightarrow> js_string \<Rightarrow> session_row \<Rightarrow> db \<Rightarrow> nat result" where
  "join_session E role conn sid s d =
     (if role = MCP \<and> list_ex (\<lambda>c. c_conn c \<noteq> Some conn) (live_mcp d sid (s_epoch s))
      then (audit E ''SESSION_ALREADY_ACTIVE'' [(''sessionId'', JStr sid), (''epoch'', JNum (int (s_epoch s)))] d,
            Inl (XBusError SESSION_ALREADY_ACTIVE [(js ''sessionId'', JStr sid)]))
      else
        let d = upd_session sid (\<lambda>r. r\<lparr>s_state := Conn_Connected,
                  s_boundConn := (case s_boundConn r of None \<Rightarrow> Some conn | Some c \<Rightarrow> Some c),
                  s_lastSeenAt := now E, s_updatedAt := now E\<rparr>) d;
            d = requeue_written E (\<lambda>x. d_recipient x = sid \<and>
                  (case d_leaseExpiresAt x of None \<Rightarrow> True | Some t \<Rightarrow> t \<le> now E)) d
        in (d, Inr (s_epoch s)))"

definition insert_component :: "env \<Rightarrow> js_string \<Rightarrow> component_role \<Rightarrow> register_input \<Rightarrow> js_string \<Rightarrow> nat \<Rightarrow> db \<Rightarrow> db" where
  "insert_component E cid role inp sid ep d =
     d\<lparr>component_instances := component_instances d @
        [\<lparr>c_id = cid, c_session = sid, c_epoch = ep, c_role = role, c_pid = rg_pid inp, c_conn = Some (rg_conn inp),
          c_buildId = rg_buildId inp, c_capabilities = rg_capabilities inp, c_connectedAt = now E,
          c_disconnectedAt = None, c_state = Comp_Live\<rparr>]\<rparr>"

text \<open>The name a registration ends up with.\<close>

definition register_name :: "env \<Rightarrow> bool \<Rightarrow> register_input \<Rightarrow> js_string \<Rightarrow> db \<Rightarrow> name_status \<times> db" where
  "register_name E isNewLifecycle inp sid d =
     (if isNewLifecycle
      then let (st, d) = claimNameForRegister E sid (rg_name inp) d in (st, refreshMeaningfulActivity E sid d)
      else case session_row d sid of
             None \<Rightarrow> (\<lparr>nst_state = Unnamed, nst_name = None, nst_secret = None\<rparr>, d)
           | Some cur \<Rightarrow>
               if s_nameState cur = Unnamed \<and> rg_name inp \<noteq> None
               then let (st, d) = claimNameForRegister E sid (rg_name inp) d;
                        d = (case rg_agentType inp of
                               None \<Rightarrow> d
                             | Some a \<Rightarrow> upd_session sid (\<lambda>r. r\<lparr>s_agentType :=
                                 (case s_agentType r of None \<Rightarrow> Some a | Some b \<Rightarrow> Some b)\<rparr>) d)
                    in (st, d)
               else (\<lparr>nst_state = s_nameState cur, nst_name = s_name cur, nst_secret = None\<rparr>, d))"

fun role_name :: "component_role \<Rightarrow> string" where
  "role_name MCP = ''mcp''" | "role_name HOOK = ''hook''" | "role_name TRANSPORT = ''transport''"
| "role_name CLI = ''cli''" | "role_name ADMIN = ''admin''"

fun name_state_name :: "name_state \<Rightarrow> string" where
  "name_state_name Unnamed = ''unnamed''" | "name_state_name Pending = ''pending''"
| "name_state_name Active = ''active''" | "name_state_name Retired = ''retired''"

definition reclaim_code :: "bool \<Rightarrow> reclaim_outcome \<Rightarrow> string option" where
  "reclaim_code attempted r =
     (case r of
        Reclaim_Ok _ _ \<Rightarrow> Some ''reclaim-succeeded''
      | Reclaim_No reason \<Rightarrow> if attempted \<and> reason \<noteq> Not_Attempted then Some (reason_name reason) else None)"

definition reclaim_target :: "reclaim_outcome \<Rightarrow> js_string option \<Rightarrow> js_string \<Rightarrow> js_string" where
  "reclaim_target r mapped phys =
     (case r of Reclaim_Ok c _ \<Rightarrow> c | Reclaim_No _ \<Rightarrow> (if truthy mapped then the mapped else phys))"

definition record_reclaim :: "env \<Rightarrow> reclaim_outcome \<Rightarrow> js_string \<Rightarrow> db \<Rightarrow> db" where
  "record_reclaim E r phys d =
     (case r of
        Reclaim_Ok c l \<Rightarrow>
          if phys \<noteq> c
          then ledger E ''identity.reclaimed'' c [(js ''sessionId'', JStr c)] [(js ''physicalSessionId'', JStr phys)]
                 (put_map E phys c l d)
          else d
      | Reclaim_No _ \<Rightarrow> d)"

definition register :: "env \<Rightarrow> register_input \<Rightarrow> db \<Rightarrow> registered result" where
  "register E inp d =
     (if rg_session inp = OPERATOR_SESSION_ID
      then (d, Inl (XBusError PROTOCOL_VIOLATION [(js ''sessionId'', JStr (rg_session inp))]))
      else transaction (\<lambda>d.
        let role = (case rg_role inp of None \<Rightarrow> MCP | Some r \<Rightarrow> r);
            (cid, d) = next_id E d;
            phys = rg_session inp;
            (mapped, d) = followed_map phys d;
            reclaim = (if role = MCP then resolveReclaim E (rg_name inp) (rg_secret inp) phys d else Reclaim_No Not_Attempted);
            attempted = (rg_secret inp \<noteq> None \<and> rg_name inp \<noteq> None);
            sid = reclaim_target reclaim mapped phys;
            supersede = (rg_supersede inp \<or> (case reclaim of Reclaim_Ok _ _ \<Rightarrow> True | Reclaim_No _ \<Rightarrow> False));
            d = record_reclaim E reclaim phys d;
            existing = session_row d sid;
            fresh = (case existing of None \<Rightarrow> False | Some s \<Rightarrow> supersede \<or> s_expiredAt s \<noteq> None)
        in andThen
             (case existing of
                None \<Rightarrow> (create_session E cid inp sid d, Inr 1)
              | Some s \<Rightarrow> if fresh then fresh_lifecycle E cid sid s d else join_session E role (rg_conn inp) sid s d)
             (\<lambda>ep d.
                let fence = (case session_row d sid of None \<Rightarrow> None | Some s \<Rightarrow> s_fencing s);
                    d = insert_component E cid role inp sid ep d;
                    (st, d) = register_name E (existing = None \<or> fresh) inp sid d;
                    d = audit E ''COMPONENT_REGISTERED''
                          [(''sessionId'', JStr sid), (''instanceId'', JStr cid), (''role'', JStr (js (role_name role))),
                           (''epoch'', JNum (int ep)), (''sessionNameState'', JStr (js (name_state_name (nst_state st))))] d
                in (d, Inr \<lparr>rd_auth = \<lparr>a_session = sid, a_instance = cid, a_component = cid, a_role = role, a_epoch = ep,
                                       a_fencing = fence, a_conn = rg_conn inp\<rparr>,
                            rd_nameState = nst_state st, rd_name = nst_name st, rd_logical = logicalIdOf d sid,
                            rd_secret = nst_secret st, rd_reclaimFailed = (attempted \<and> nst_state st \<noteq> Active),
                            rd_reclaimOutcome = reclaim_code attempted reclaim\<rparr>))) d)"

section \<open>Components\<close>

definition cleanupComponents :: "env \<Rightarrow> js_string list \<Rightarrow> int option \<Rightarrow> db \<Rightarrow> (nat \<times> nat) result" where
  "cleanupComponents E liveConnectionIds retentionMs =
     (let cutoff = now E - (case retentionMs of None \<Rightarrow> 24 * 60 * 60000 | Some r \<Rightarrow> r);
          gone = (\<lambda>c. c_state c = Comp_Live \<and> (\<not> truthy (c_conn c) \<or> the (c_conn c) \<notin> set liveConnectionIds));
          stale = (\<lambda>c. c_state c \<noteq> Comp_Live \<and> c_connectedAt c < cutoff)
      in transaction (\<lambda>d.
        let closed = changes gone (component_instances d);
            cs = upd_where gone (\<lambda>c. c\<lparr>c_state := Comp_Closed, c_disconnectedAt := Some (now E)\<rparr>) (component_instances d)
        in (d\<lparr>component_instances := del_where stale cs\<rparr>, Inr (closed, changes stale cs))))"

definition liveComponentCount :: "db \<Rightarrow> nat" where
  "liveComponentCount d = changes (\<lambda>c. c_state c = Comp_Live) (component_instances d)"

text \<open>Nothing ever inserts into \<open>session_instances\<close>; its UPDATE is a no-op.\<close>

definition onConnClose :: "env \<Rightarrow> js_string \<Rightarrow> authority option \<Rightarrow> db \<Rightarrow> db" where
  "onConnClose E conn authOpt d =
     (case authOpt of
        None \<Rightarrow> d
      | Some auth \<Rightarrow>
          d\<lparr>sessions := upd_where (\<lambda>s. s_id s = a_session auth \<and> s_boundConn s = Some conn)
              (\<lambda>s. s\<lparr>s_state := Conn_Disconnected, s_boundConn := None, s_disconnectedAt := Some (now E), s_updatedAt := now E\<rparr>)
              (sessions d),
            component_instances := upd_where (\<lambda>c. c_conn c = Some conn \<and> c_state c = Comp_Live)
              (\<lambda>c. c\<lparr>c_state := Comp_Closed, c_disconnectedAt := Some (now E)\<rparr>) (component_instances d)\<rparr>)"

section \<open>Statements of the daemon\<close>

text \<open>The audit rows the daemon writes carry no actor columns; a checkpoint stamps the session.\<close>

definition daemon_audit :: "env \<Rightarrow> string \<Rightarrow> (string \<times> jval) list \<Rightarrow> db \<Rightarrow> db" where
  "daemon_audit E ev fs d = insert_audit E ev None None None None fs d"

definition touchCheckpoint :: "env \<Rightarrow> js_string \<Rightarrow> db \<Rightarrow> db" where
  "touchCheckpoint E sid d =
     d\<lparr>sessions := upd_where (\<lambda>s. s_id s = sid)
         (\<lambda>s. s\<lparr>s_lastCheckpointAt := Some (now E), s_lastSeenAt := now E, s_updatedAt := now E\<rparr>) (sessions d)\<rparr>"

end
