(* ===== verification/Lifecycle.thy ===== *)
theory Lifecycle
  imports Registration
begin

text \<open>
  Operations on registered sessions, from \<^verbatim>\<open>src/broker/store.ts\<close>: announcements, import of dormant sessions,
  renaming with the credential-gated reclaim, readiness signals, and the reserved operator session of
  \<^verbatim>\<open>src/broker/operator.ts\<close>.
\<close>

section \<open>Announcements\<close>

datatype lifecycle_source = Startup | Resume | Clear | Compact

definition normalizeLifecycleSource :: "js_string \<Rightarrow> lifecycle_source" where
  "normalizeLifecycleSource raw =
     (if raw = js ''startup'' then Startup else if raw = js ''clear'' then Clear
      else if raw = js ''compact'' then Compact else Resume)"

fun source_name :: "lifecycle_source \<Rightarrow> string" where
  "source_name Startup = ''startup''" | "source_name Resume = ''resume''"
| "source_name Clear = ''clear''" | "source_name Compact = ''compact''"

fun LIFECYCLE_EVENT_BY_SOURCE :: "lifecycle_source \<Rightarrow> string" where
  "LIFECYCLE_EVENT_BY_SOURCE Startup = ''SESSION_STARTED''"
| "LIFECYCLE_EVENT_BY_SOURCE Resume = ''SESSION_RESUMED''"
| "LIFECYCLE_EVENT_BY_SOURCE Clear = ''SESSION_CLEARED''"
| "LIFECYCLE_EVENT_BY_SOURCE Compact = ''SESSION_COMPACTED''"

fun mgmt_name :: "management_state \<Rightarrow> string" where
  "mgmt_name Mgmt_Active = ''active''" | "mgmt_name Mgmt_Dormant = ''dormant''" | "mgmt_name Mgmt_Unmanaged = ''unmanaged''"

record announce_input =
  an_source :: js_string
  an_cwd :: "js_string option"
  an_transcript :: "js_string option"
  an_agentType :: "js_string option"
  an_title :: "js_string option"

record announce_result =
  ar_mgmt :: management_state
  ar_prior :: management_state
  ar_source :: lifecycle_source
  ar_epoch :: nat
  ar_appended :: bool

definition coalesce :: "'a option \<Rightarrow> 'a option \<Rightarrow> 'a option" where
  "coalesce a b = (case a of Some x \<Rightarrow> Some x | None \<Rightarrow> b)"

definition announce_row :: "env \<Rightarrow> lifecycle_source \<Rightarrow> announce_input \<Rightarrow> session_row \<Rightarrow> session_row" where
  "announce_row E src inp s =
     s\<lparr>s_mgmt := Mgmt_Active, s_sourceLast := Some (source_name src), s_confidence := ''signal'',
       s_transcript := coalesce (an_transcript inp) (s_transcript s),
       s_agentType := coalesce (s_agentType s) (an_agentType inp),
       s_cwd := (case an_cwd inp of Some c \<Rightarrow> c | None \<Rightarrow> s_cwd s),
       s_firstSeenAt := coalesce (s_firstSeenAt s) (Some (now E)), s_lastSeenSourceAt := Some (now E), s_updatedAt := now E\<rparr>"

text \<open>
  \<open>subject_json = '{"sessionId": ...}'\<close>: the stored subject is exactly the object with that one field.
\<close>

definition started_before :: "db \<Rightarrow> js_string \<Rightarrow> bool" where
  "started_before d sid =
     list_ex (\<lambda>r. le_event r = ''SESSION_STARTED'' \<and> le_subject r = Some (JObj [(js ''sessionId'', JStr sid)])) (ledger_events d)"

definition announceSession :: "env \<Rightarrow> authority \<Rightarrow> announce_input \<Rightarrow> db \<Rightarrow> announce_result result" where
  "announceSession E auth inp =
     transaction (\<lambda>d.
       case session_row d (a_session auth) of
         None \<Rightarrow> (d, Inl (xerr SESSION_NOT_REGISTERED))
       | Some row \<Rightarrow>
           let sid = a_session auth;
               src = normalizeLifecycleSource (an_source inp);
               prior = s_mgmt row
           in if s_expiredAt row \<noteq> None
              then (audit E ''SESSION_ANNOUNCE_SKIPPED_EXPIRED''
                      [(''sessionId'', JStr sid), (''source'', JStr (js (source_name src))), (''epoch'', JNum (int (s_epoch row)))] d,
                    Inr \<lparr>ar_mgmt = prior, ar_prior = prior, ar_source = src, ar_epoch = s_epoch row, ar_appended = False\<rparr>)
              else
                let d = upd_session sid (announce_row E src inp) d;
                    d = (if truthy (an_title inp)
                         then upd_session sid (\<lambda>s. s\<lparr>s_title := Some (take 512 (the (an_title inp))),
                                s_titleSource := Some (source_name src), s_titleAt := Some (now E)\<rparr>) d
                         else d);
                    d = audit E ''SESSION_ANNOUNCED''
                          [(''sessionId'', JStr sid), (''source'', JStr (js (source_name src))),
                           (''epoch'', JNum (int (s_epoch row))), (''priorManagementState'', JStr (js (mgmt_name prior)))] d;
                    appended = \<not> (src = Startup \<and> started_before d sid);
                    d = (if appended
                         then ledger E (LIFECYCLE_EVENT_BY_SOURCE src) sid [(js ''sessionId'', JStr sid)]
                                [(js ''source'', JStr (js (source_name src))), (js ''epoch'', JNum (int (s_epoch row))),
                                 (js ''managementState'', JStr (js ''active'')),
                                 (js ''priorManagementState'', JStr (js (mgmt_name prior))),
                                 (js ''confidence'', JStr (js ''signal''))] d
                         else d)
                in (d, Inr \<lparr>ar_mgmt = Mgmt_Active, ar_prior = prior, ar_source = src, ar_epoch = s_epoch row, ar_appended = appended\<rparr>))"

section \<open>Import\<close>

record imported_meta =
  im_session :: js_string
  im_slug :: js_string
  im_lastSeenMs :: int
  im_transcript :: js_string

definition import_one :: "env \<Rightarrow> imported_meta \<Rightarrow> (nat \<times> nat) \<times> db \<Rightarrow> (nat \<times> nat) \<times> db" where
  "import_one E m st =
     (case st of ((imported, skipped), d) \<Rightarrow>
       if session_row d (im_session m) \<noteq> None then ((imported, skipped + 1), d)
       else
         let row = (blank_session (im_session m) (na_display (automaticAlias (im_session m))) (js ''slug-'' @ im_slug m)
                      (im_slug m) (js ''disconnected'') (im_lastSeenMs m))
               \<lparr>s_updatedAt := now E, s_mgmt := Mgmt_Dormant, s_sourceLast := Some ''import'', s_confidence := ''listing_only'',
                s_transcript := Some (im_transcript m), s_firstSeenAt := Some (now E), s_lastSeenSourceAt := Some (im_lastSeenMs m)\<rparr>;
             d = d\<lparr>sessions := sessions d @ [row]\<rparr>;
             d = audit E ''SESSION_IMPORTED'' [(''sessionId'', JStr (im_session m)), (''source'', JStr (js ''import'')),
                   (''confidence'', JStr (js ''listing_only''))] d;
             d = ledger E ''SESSION_IMPORTED'' (js ''installer'') [(js ''sessionId'', JStr (im_session m))]
                   [(js ''source'', JStr (js ''import'')), (js ''managementState'', JStr (js ''dormant'')),
                    (js ''confidence'', JStr (js ''listing_only''))] d
         in ((imported + 1, skipped), d))"

definition importDormantSessions :: "env \<Rightarrow> imported_meta list \<Rightarrow> db \<Rightarrow> (nat \<times> nat) result" where
  "importDormantSessions E metas =
     transaction (\<lambda>d. let (n, d) = fold (import_one E) metas ((0, 0), d) in (d, Inr n))"

section \<open>Renaming\<close>

text \<open>
  The taken branch: without a matching secret, or against a provably live owner, it throws; otherwise it
  releases the incumbent's name in both representations.
\<close>

definition reclaim_name :: "env \<Rightarrow> js_string \<Rightarrow> normalized_session_name \<Rightarrow> js_string option \<Rightarrow> db \<Rightarrow> unit result" where
  "reclaim_name E sid nm ownerSecret d =
     (let own = name_owner d (nsn_normalized nm);
          hash = (case own of None \<Rightarrow> None | Some r \<Rightarrow> o_secretHash r);
          refuse = (\<lambda>c why. (d, Inl (XBusError c [(js ''name'', JStr (nsn_display nm)), (js ''reclaimOutcome'', JStr (js why))])))
      in case (ownerSecret, hash) of
           (Some secret, Some h) \<Rightarrow>
             if h \<noteq> hashSecret E secret then refuse RECLAIM_CREDENTIAL_INVALID (reason_name Credential_Invalid)
             else let csid = o_session (the own) in
             if truthy csid \<and> hasProvenLiveMcp E d (the csid) then refuse SESSION_NAME_TAKEN (reason_name Predecessor_Live)
             else let d = releaseNameOwnership E (By_Name (nsn_normalized nm) (logicalIdOf d sid)) True d;
                      d = (if truthy csid
                           then d\<lparr>sessions := upd_where (\<lambda>s. s_id s = the csid \<and> s_normName s = Some (nsn_normalized nm))
                                   (\<lambda>s. s\<lparr>s_name := None, s_normName := None, s_nameState := Unnamed, s_updatedAt := now E\<rparr>) (sessions d)\<rparr>
                           else d)
                  in (d, Inr ())
         | (_, None) \<Rightarrow> refuse SESSION_NAME_TAKEN (reason_name Unrelated_Owns)
         | (None, Some _) \<Rightarrow> refuse SESSION_NAME_TAKEN (reason_name Credential_Missing))"

definition rename_row :: "env \<Rightarrow> normalized_session_name \<Rightarrow> bool \<Rightarrow> session_row \<Rightarrow> session_row" where
  "rename_row E nm wasExpired s =
     (let s = (set_name E nm s)\<lparr>s_expiredAt := None, s_expReason := None\<rparr>
      in if wasExpired then s\<lparr>s_readiness := Initializing, s_readinessAt := Some (now E)\<rparr> else s)"

record rename_result =
  rn_name :: js_string
  rn_secret :: "js_string option"
  rn_reclaimed :: bool

definition renameSession :: "env \<Rightarrow> authority \<Rightarrow> js_string \<Rightarrow> js_string option \<Rightarrow> db \<Rightarrow> rename_result result" where
  "renameSession E auth rawName ownerSecret d =
     (if a_role auth \<noteq> MCP then (d, Inl (xerr FORBIDDEN_ROLE))
      else case validateSessionName (uni E) rawName of
        Inl e \<Rightarrow> (d, Inl e)
      | Inr nm \<Rightarrow>
          transaction (\<lambda>d.
            let sid = a_session auth in
            case session_row d sid of
              None \<Rightarrow> (d, Inl (xerr SESSION_NOT_REGISTERED))
            | Some s \<Rightarrow>
                if s_epoch s \<noteq> a_epoch auth then (d, Inl (xerr EPOCH_MISMATCH))
                else let taken = name_taken d (nsn_normalized nm) sid in
                andThen (if taken then reclaim_name E sid nm ownerSecret d else (d, Inr ())) (\<lambda>_ d.
                  if name_taken d (nsn_normalized nm) sid
                  then (d, Inl (XBusError SESSION_NAME_TAKEN [(js ''name'', JStr (nsn_display nm))]))
                  else
                    let wasExpired = (s_expiredAt s \<noteq> None);
                        d = upd_session sid (rename_row E nm wasExpired) d;
                        d = (if wasExpired then upsertAutomaticAliasSafe E (automaticAlias sid) sid d else d);
                        d = refreshMeaningfulActivity E sid d;
                        (minted, d) = setNameOwnershipActive E (logicalIdOf d sid) sid nm d;
                        d = ledger E (if wasExpired then ''session.expired_resumed_via_rename'' else ''session.rename'') sid
                              [(js ''sessionId'', JStr sid)] [(js ''name'', JStr (nsn_display nm))] d
                    in (d, Inr \<lparr>rn_name = nsn_display nm, rn_secret = minted, rn_reclaimed = taken\<rparr>))) d)"

definition listActiveNamedSessions :: "db \<Rightarrow> session_row list" where
  "listActiveNamedSessions d =
     sort_key (\<lambda>s. case s_normName s of None \<Rightarrow> [] | Some n \<Rightarrow> n)
       (filter (\<lambda>s. s_nameState s = Active \<and> s_expiredAt s = None) (sessions d))"

section \<open>Readiness\<close>

definition set_readiness_row :: "env \<Rightarrow> readiness \<Rightarrow> session_row \<Rightarrow> session_row" where
  "set_readiness_row E r s = s\<lparr>s_readiness := r, s_readinessAt := Some (now E), s_updatedAt := now E\<rparr>"

definition signalReadiness :: "env \<Rightarrow> authority \<Rightarrow> readiness_hints \<Rightarrow> db \<Rightarrow> readiness result" where
  "signalReadiness E auth hints =
     transaction (\<lambda>d.
       case session_row d (a_session auth) of
         None \<Rightarrow> (d, Inl (xerr SESSION_NOT_REGISTERED))
       | Some s \<Rightarrow>
           if s_epoch s \<noteq> a_epoch auth then (d, Inl (xerr EPOCH_MISMATCH))
           else let r = resolveReadiness (s_receiveMode s) (s_capabilities s) hints;
                    d = upd_session (a_session auth) (set_readiness_row E r) d;
                    d = audit E ''READINESS_SIGNALED''
                          [(''sessionId'', JStr (a_session auth)), (''instanceId'', JStr (a_component auth)),
                           (''readiness'', JStr (js (readiness_name r)))] d
                in (d, Inr r))"

definition setReadiness :: "env \<Rightarrow> js_string \<Rightarrow> readiness \<Rightarrow> db \<Rightarrow> db" where
  "setReadiness E sid r d = upd_session sid (set_readiness_row E r) d"

section \<open>The operator session\<close>

definition OPERATOR_ALIAS :: js_string where
  "OPERATOR_ALIAS = js ''local-operator''"

definition isOperatorSession :: "js_string \<Rightarrow> bool" where
  "isOperatorSession sid \<longleftrightarrow> sid = OPERATOR_SESSION_ID"

definition ensureOperatorSession :: "env \<Rightarrow> db \<Rightarrow> unit result" where
  "ensureOperatorSession E =
     transaction (\<lambda>d.
       let sid = OPERATOR_SESSION_ID in
       case session_row d sid of
         None \<Rightarrow>
           let nameHeld = name_taken d OPERATOR_ALIAS sid;
               aliasHeld = (active_alias d OPERATOR_ALIAS \<noteq> None);
               row = (blank_session sid OPERATOR_ALIAS (js ''__xbus_operator__'') (js ''__xbus_operator__'') (js ''disconnected'') (now E))
                 \<lparr>s_readiness := Disconnected, s_mgmt := Mgmt_Unmanaged, s_sourceLast := Some ''operator'',
                  s_confidence := ''unidentified'',
                  s_name := (if nameHeld then None else Some OPERATOR_ALIAS),
                  s_normName := (if nameHeld then None else Some OPERATOR_ALIAS),
                  s_nameState := (if nameHeld then Unnamed else Active)\<rparr>;
               d = ensure_sequence sid (d\<lparr>sessions := sessions d @ [row]\<rparr>);
               d = (if aliasHeld then d
                    else d\<lparr>aliases := aliases d @
                      [\<lparr>al_id = js ''alias-'' @ sid, al_alias = OPERATOR_ALIAS, al_ci = OPERATOR_ALIAS, al_global = True,
                        al_session = sid, al_active = True, al_createdAt = now E, al_retiredAt = None\<rparr>]\<rparr>)
           in (d, Inr ())
       | Some _ \<Rightarrow>
           let d = upd_session sid (\<lambda>s. s\<lparr>s_expiresAt := None, s_expiredAt := None, s_expReason := None,
                     s_mgmt := Mgmt_Unmanaged, s_updatedAt := now E\<rparr>) d
           in (ensure_sequence sid d, Inr ()))"

end
