(* ===== verification/Evolution.thy ===== *)
theory Evolution
  imports Delivery_Flow Lifecycle
begin

text \<open>
  What every operation of the broker does to the durable state. \<open>evolves R H d d'\<close> says that deliveries and
  injections moved as \<open>moves R\<close> allows, that messages were only appended, and that the invariant \<open>broker_ok\<close> was kept: delivery
  tables well formed, message indexes unique, audit ledger verifying, session ids unique and no session name held twice. The rules of the collection
  \<open>evolve\<close> push the relation through the statements the operations are made of.
\<close>

section \<open>The invariant\<close>

definition ledger_ok :: "(js_string \<Rightarrow> js_string) \<Rightarrow> db \<Rightarrow> bool" where
  "ledger_ok H d \<longleftrightarrow> lv_ok (verifyLedger (flat_env\<lparr>sha256 := H\<rparr>) d)"

text \<open>
  Sessions: unique ids and names, and the split-brain guard. A live_component component belongs to the current epoch of an
  existing session, and all live MCP components of a session are on one connection.
\<close>

definition live_component :: "component_row \<Rightarrow> bool" where
  "live_component c \<longleftrightarrow> c_state c = Comp_Live"

definition names_ok :: "db \<Rightarrow> bool" where
  "names_ok d \<longleftrightarrow> distinct (map s_id (sessions d)) \<and> unique_on holds_name s_normName (sessions d)"

definition components_ok :: "db \<Rightarrow> bool" where
  "components_ok d \<longleftrightarrow>
     (\<forall>c\<in>set (component_instances d). live_component c \<longrightarrow> (c_session c, c_epoch c) \<in> (\<lambda>s. (s_id s, s_epoch s)) ` set (sessions d)) \<and>
     (\<forall>c\<in>set (component_instances d). \<forall>c'\<in>set (component_instances d).
        live_component c \<and> live_component c' \<and> c_role c = MCP \<and> c_role c' = MCP \<and> c_session c = c_session c' \<longrightarrow> c_conn c = c_conn c')"

definition sessions_ok :: "db \<Rightarrow> bool" where
  "sessions_ok d \<longleftrightarrow> names_ok d \<and> components_ok d"

text \<open>The unique indexes of \<open>messages\<close>: ids, idempotency keys per sender, sequence numbers per recipient.\<close>

definition log_ok :: "db \<Rightarrow> bool" where
  "log_ok d \<longleftrightarrow> sorted_wrt (\<lambda>r m. \<not> message_conflict m r) (messages d)"

lemma log_ok_cong: "messages d' = messages d \<Longrightarrow> log_ok d' \<longleftrightarrow> log_ok d"
  by (simp add: log_ok_def)

definition broker_ok :: "(js_string \<Rightarrow> js_string) \<Rightarrow> db \<Rightarrow> bool" where
  "broker_ok H d \<longleftrightarrow> store_ok d \<and> log_ok d \<and> ledger_ok H d \<and> sessions_ok d"

definition evolves ::
  "(delivery_state \<Rightarrow> delivery_state \<Rightarrow> bool) \<Rightarrow> (js_string \<Rightarrow> js_string) \<Rightarrow> db \<Rightarrow> db \<Rightarrow> bool" where
  "evolves R H d d' \<longleftrightarrow> (broker_ok H d \<longrightarrow> moves R d d' \<and> prefix (messages d) (messages d') \<and> broker_ok H d')"

lemma evolves_mono: "evolves R H d d' \<Longrightarrow> (\<And>s t. R s t \<Longrightarrow> S s t) \<Longrightarrow> evolves S H d d'"
  unfolding evolves_def using moves_mono by blast

named_theorems evolve \<open>the statements of the broker evolve the database\<close>

lemma ledger_ok_env: "ledger_ok (sha256 E) d \<longleftrightarrow> lv_ok (verifyLedger E d)"
  using verifyLedger_env [of "flat_env\<lparr>sha256 := sha256 E\<rparr>" E d] by (simp add: ledger_ok_def)

lemma ledger_ok_cong:
  assumes "ledger_events d' = ledger_events d" "ledger_anchors d' = ledger_anchors d"
  shows "ledger_ok H d' \<longleftrightarrow> ledger_ok H d"
  unfolding ledger_ok_def verifyLedger_cong(1) [OF assms] ..

lemma broker_ok_empty: "broker_ok H empty_db"
  by (simp add: broker_ok_def store_ok_def log_ok_def ledger_ok_def verifyLedger_def sessions_ok_def names_ok_def components_ok_def)

section \<open>Composition\<close>

lemma evolves_refl [simp, evolve]: "evolves R H d d"
  by (simp add: evolves_def)

lemma evolves_trans: "evolves R H d d' \<Longrightarrow> evolves R H d' d'' \<Longrightarrow> evolves R H d d''"
  unfolding evolves_def by (blast intro: moves_trans prefix_order.trans)

lemma evolvesI: "(broker_ok H d \<Longrightarrow> evolves R H d d') \<Longrightarrow> evolves R H d d'"
  by (auto simp: evolves_def)

text \<open>The tables the invariant is about.\<close>

definition core_same :: "db \<Rightarrow> db \<Rightarrow> bool" where
  "core_same d d' \<longleftrightarrow> messages d' = messages d \<and> deliveries d' = deliveries d \<and>
     context_injections d' = context_injections d \<and> ledger_events d' = ledger_events d \<and> ledger_anchors d' = ledger_anchors d"

text \<open>What \<open>sessions_ok\<close> reads of a session row.\<close>

definition names_view :: "session_row \<Rightarrow> js_string \<times> js_string option \<times> name_state \<times> nat" where
  "names_view s = (s_id s, s_normName s, s_nameState s, s_epoch s)"

lemma names_ok_view:
  assumes "map names_view (sessions d') = map names_view (sessions d)"
  shows "names_ok d' \<longleftrightarrow> names_ok d"
proof -
  have key: "names_ok e \<longleftrightarrow> distinct (map fst (map names_view (sessions e))) \<and>
     unique_on (\<lambda>v. fst (snd v) \<noteq> None \<and> (fst (snd (snd v)) = Active \<or> fst (snd (snd v)) = Pending)) (\<lambda>v. fst (snd v))
       (map names_view (sessions e))" for e
    by (simp add: names_ok_def unique_on_def holds_name_def [abs_def] names_view_def comp_def filter_map)
  show ?thesis unfolding key assms ..
qed

lemma epochs_view:
  assumes "map names_view (sessions d') = map names_view (sessions d)"
  shows "(\<lambda>s. (s_id s, s_epoch s)) ` set (sessions d') = (\<lambda>s. (s_id s, s_epoch s)) ` set (sessions d)"
proof -
  have key: "(\<lambda>s. (s_id s, s_epoch s)) ` set (sessions e) = set (map (\<lambda>v. (fst v, snd (snd (snd v)))) (map names_view (sessions e)))" for e
    by (simp add: names_view_def)
  show ?thesis unfolding key assms ..
qed

lemma sessions_ok_view:
  assumes "map names_view (sessions d') = map names_view (sessions d)" "component_instances d' = component_instances d"
  shows "sessions_ok d' \<longleftrightarrow> sessions_ok d"
  unfolding sessions_ok_def components_ok_def names_ok_view [OF assms(1)] epochs_view [OF assms(1)] assms(2) ..

lemma sessions_ok_cong:
  assumes "sessions d' = sessions d" "component_instances d' = component_instances d"
  shows "sessions_ok d' \<longleftrightarrow> sessions_ok d"
  by (rule sessions_ok_view) (simp_all add: assms)

lemma components_ok_session:
  assumes "components_ok d" "c \<in> set (component_instances d)" "live_component c"
  obtains s where "s \<in> set (sessions d)" "s_id s = c_session c" "s_epoch s = c_epoch c"
proof -
  have "(c_session c, c_epoch c) \<in> (\<lambda>s. (s_id s, s_epoch s)) ` set (sessions d)"
    using assms unfolding components_ok_def by blast
  with that show ?thesis by fastforce
qed

lemma components_ok_conn:
  assumes "components_ok d" "c \<in> set (component_instances d)" "c' \<in> set (component_instances d)" "live_component c" "live_component c'"
    "c_role c = MCP" "c_role c' = MCP" "c_session c = c_session c'"
  shows "c_conn c = c_conn c'"
  using assms unfolding components_ok_def by blast

lemma components_okI:
  assumes "\<And>c. c \<in> set (component_instances d) \<Longrightarrow> live_component c \<Longrightarrow> (c_session c, c_epoch c) \<in> (\<lambda>s. (s_id s, s_epoch s)) ` set (sessions d)"
    and "\<And>c c'. c \<in> set (component_instances d) \<Longrightarrow> c' \<in> set (component_instances d) \<Longrightarrow> live_component c \<Longrightarrow> live_component c' \<Longrightarrow>
           c_role c = MCP \<Longrightarrow> c_role c' = MCP \<Longrightarrow> c_session c = c_session c' \<Longrightarrow> c_conn c = c_conn c'"
  shows "components_ok d"
  using assms unfolding components_ok_def by blast

text \<open>Closing and deleting components, as long as the epochs of the sessions still live are kept.\<close>

lemma components_ok_shrink:
  assumes "components_ok d"
    and "\<And>c. c \<in> set (component_instances d') \<Longrightarrow> live_component c \<Longrightarrow> c \<in> set (component_instances d)"
    and "\<And>s. s \<in> set (sessions d) \<Longrightarrow> \<exists>c\<in>set (component_instances d'). live_component c \<and> c_session c = s_id s \<Longrightarrow>
           (s_id s, s_epoch s) \<in> (\<lambda>s. (s_id s, s_epoch s)) ` set (sessions d')"
  shows "components_ok d'"
proof (rule components_okI)
  fix c assume c: "c \<in> set (component_instances d')" "live_component c"
  with assms(1,2) obtain s where "s \<in> set (sessions d)" "s_id s = c_session c" "s_epoch s = c_epoch c"
    by (blast elim: components_ok_session)
  with assms(3) [of s] c show "(c_session c, c_epoch c) \<in> (\<lambda>s. (s_id s, s_epoch s)) ` set (sessions d')" by auto
qed (use assms(1,2) components_ok_conn in blast)

lemma components_ok_subset:
  assumes "components_ok d"
    and "(\<lambda>s. (s_id s, s_epoch s)) ` set (sessions d') = (\<lambda>s. (s_id s, s_epoch s)) ` set (sessions d)"
    and "\<And>c. c \<in> set (component_instances d') \<Longrightarrow> live_component c \<Longrightarrow> c \<in> set (component_instances d)"
  shows "components_ok d'"
  using assms(1,3) by (rule components_ok_shrink) (simp_all add: assms(2))

lemma broker_ok_core:
  assumes "core_same d d'" and "sessions_ok d \<Longrightarrow> sessions_ok d'" and "broker_ok H d"
  shows "broker_ok H d'"
proof -
  have "store_ok d'"
    by (rule store_ok_cong [of d]) (use assms(1,3) in \<open>simp_all add: core_same_def broker_ok_def keys_def\<close>)
  moreover have "ledger_ok H d'"
    using assms(1,3) ledger_ok_cong [of d' d] by (simp add: core_same_def broker_ok_def)
  moreover have "log_ok d'" using assms(1,3) log_ok_cong [of d' d] by (simp add: core_same_def broker_ok_def)
  ultimately show ?thesis using assms by (simp add: broker_ok_def)
qed

lemma evolves_core:
  assumes "core_same d d'" and "sessions_ok d \<Longrightarrow> sessions_ok d'"
  shows "evolves R H d d'"
  using broker_ok_core [OF assms] assms(1) by (auto simp: evolves_def core_same_def intro: moves_same)

text \<open>A statement that leaves both the core tables and the sessions alone.\<close>

lemma evolves_quiet:
  assumes "evolves R H d e" "core_same e d'" "sessions d' = sessions e" "component_instances d' = component_instances e"
  shows "evolves R H d d'"
  using assms(1) by (rule evolves_trans) (rule evolves_core [OF assms(2)], simp add: sessions_ok_cong [OF assms(3,4)])

lemma evolves_view:
  assumes "evolves R H d e" "core_same e d'" "map names_view (sessions d') = map names_view (sessions e)"
    "component_instances d' = component_instances e"
  shows "evolves R H d d'"
  using assms(1) by (rule evolves_trans) (rule evolves_core [OF assms(2)], simp add: sessions_ok_view [OF assms(3,4)])

lemma same_tables_anchors:
  assumes "same_tables d d'"
  shows "ledger_anchors d' = ledger_anchors d"
proof -
  have "ledger_anchors d' = ledger_anchors (d\<lparr>ids_drawn := ids_drawn d', secrets_drawn := secrets_drawn d',
            capabilities_drawn := capabilities_drawn d'\<rparr>)"
    using assms unfolding same_tables_def by (rule arg_cong)
  then show ?thesis by simp
qed

lemma evolves_same_tables: "same_tables d d' \<Longrightarrow> evolves R H d d'"
  by (rule evolves_core)
    (simp_all add: core_same_def sessions_ok_cong [of d' d] same_tables_fields same_tables_anchors)

lemma evolves_transaction [evolve]:
  assumes "evolves R H d e" "evolves R H e (fst (f e))"
  shows "evolves R H d (fst (transaction f e))"
proof (rule evolves_trans [OF assms(1)], cases "transaction f e")
  case (Pair e' r)
  show "evolves R H e (fst (transaction f e))"
  proof (cases r)
    case (Inl x)
    with Pair show ?thesis by (auto dest: transaction_Inl intro: evolves_same_tables)
  next
    case (Inr x)
    with Pair have "f e = (e', Inr x)" by (simp add: transaction_Inr)
    with assms(2) Pair show ?thesis by simp
  qed
qed

lemma evolves_andThen [evolve]:
  assumes "evolves R H d (fst r)" and "\<And>x d'. r = (d', Inr x) \<Longrightarrow> evolves R H d' (fst (k x d'))"
  shows "evolves R H d (fst (andThen r k))"
  using assms by (cases r; cases "snd r") (auto intro: evolves_trans)

lemma evolves_pair [evolve]: "evolves R H d e \<Longrightarrow> evolves R H d (fst (e, r))" "evolves R H d e \<Longrightarrow> evolves R H d (snd (r, e))"
  by simp_all

lemma evolves_if [evolve]: "(b \<Longrightarrow> evolves R H d x) \<Longrightarrow> (\<not> b \<Longrightarrow> evolves R H d y) \<Longrightarrow> evolves R H d (if b then x else y)"
  by simp

lemma evolves_fst_if [evolve]:
  "(b \<Longrightarrow> evolves R H d (fst x)) \<Longrightarrow> (\<not> b \<Longrightarrow> evolves R H d (fst y)) \<Longrightarrow> evolves R H d (fst (if b then x else y))"
  by simp

lemma evolves_snd_if [evolve]:
  "(b \<Longrightarrow> evolves R H d (snd x)) \<Longrightarrow> (\<not> b \<Longrightarrow> evolves R H d (snd y)) \<Longrightarrow> evolves R H d (snd (if b then x else y))"
  by simp

lemma evolves_fst_option [evolve]:
  "(v = None \<Longrightarrow> evolves R H d (fst x)) \<Longrightarrow> (\<And>a. v = Some a \<Longrightarrow> evolves R H d (fst (f a))) \<Longrightarrow>
     evolves R H d (fst (case v of None \<Rightarrow> x | Some a \<Rightarrow> f a))"
  by (cases v) simp_all

lemma evolves_option [evolve]:
  "(v = None \<Longrightarrow> evolves R H d x) \<Longrightarrow> (\<And>a. v = Some a \<Longrightarrow> evolves R H d (f a)) \<Longrightarrow>
     evolves R H d (case v of None \<Rightarrow> x | Some a \<Rightarrow> f a)"
  by (cases v) simp_all

lemma evolves_fst_sum [evolve]:
  "(\<And>e. v = Inl e \<Longrightarrow> evolves R H d (fst (f e))) \<Longrightarrow> (\<And>a. v = Inr a \<Longrightarrow> evolves R H d (fst (g a))) \<Longrightarrow>
     evolves R H d (fst (case v of Inl e \<Rightarrow> f e | Inr a \<Rightarrow> g a))"
  by (cases v) simp_all

section \<open>Statements\<close>

lemma ledger_tables:
  "sessions (ledger E ev a s p d) = sessions d" "messages (ledger E ev a s p d) = messages d"
  "deliveries (ledger E ev a s p d) = deliveries d" "context_injections (ledger E ev a s p d) = context_injections d"
  "component_instances (ledger E ev a s p d) = component_instances d"
  by (auto simp: ledger_def ledgerAppend_def next_id_def Let_def split: option.splits prod.splits)

lemma evolves_ledger [evolve]:
  assumes "evolves R (sha256 E) d e"
  shows "evolves R (sha256 E) d (ledger E ev a s p e)"
proof (rule evolves_trans [OF assms])
  have "broker_ok (sha256 E) (ledger E ev a s p e)" if "broker_ok (sha256 E) e"
  proof -
    have "ledger_ok (sha256 E) (ledger E ev a s p e)"
      using that ledgerAppend_keeps_ok by (simp add: broker_ok_def ledger_ok_env ledger_def)
    moreover have "store_ok (ledger E ev a s p e)"
      by (rule store_ok_cong [of e]) (use that in \<open>simp_all add: broker_ok_def ledger_tables keys_def\<close>)
    ultimately show ?thesis
      using that sessions_ok_cong [of "ledger E ev a s p e" e] log_ok_cong [of "ledger E ev a s p e" e] by (simp add: broker_ok_def ledger_tables)
  qed
  then show "evolves R (sha256 E) e (ledger E ev a s p e)"
    by (simp add: evolves_def moves_same ledger_tables)
qed

lemmas core_defs = core_same_def Let_def next_id_def

lemma evolves_audit [evolve]: "evolves R H d e \<Longrightarrow> evolves R H d (audit E ev fs e)"
  by (erule evolves_quiet) (simp_all add: core_same_def)

lemma evolves_insert_audit [evolve]: "evolves R H d e \<Longrightarrow> evolves R H d (insert_audit E ev se ins ms tr fs e)"
  by (erule evolves_quiet) (simp_all add: core_same_def)

lemma evolves_upd_session [evolve]:
  assumes "evolves R H d e" "\<And>s. names_view (f s) = names_view s"
  shows "evolves R H d (upd_session i f e)"
  using assms(1) by (rule evolves_view) (simp_all add: core_same_def upd_session_def map_upd_where assms(2))

lemma evolves_upd_sessions:
  assumes "evolves R H d e" "\<And>s. names_view (f s) = names_view s"
  shows "evolves R H d (e\<lparr>sessions := upd_where p f (sessions e)\<rparr>)"
  using assms(1) by (rule evolves_view) (simp_all add: core_same_def map_upd_where assms(2))

lemma evolves_refresh [evolve]: "evolves R H d e \<Longrightarrow> evolves R H d (refreshMeaningfulActivity E i e)"
  unfolding refreshMeaningfulActivity_def by (rule evolves_upd_sessions) (simp_all add: names_view_def)

lemma evolves_field [evolve]:
  assumes "evolves R H d e"
  shows "evolves R H d (e\<lparr>aliases := al\<rparr>)" "evolves R H d (e\<lparr>recipient_sequences := rs\<rparr>)"
    "evolves R H d (e\<lparr>receipts := rc\<rparr>)" "evolves R H d (e\<lparr>session_epochs := ep\<rparr>)"
    "evolves R H d (e\<lparr>session_controls := sc\<rparr>)"
    "evolves R H d (e\<lparr>blocked_peers := bp\<rparr>)" "evolves R H d (e\<lparr>delivery_leases := dl\<rparr>)"
    "evolves R H d (e\<lparr>threads := th\<rparr>)" "evolves R H d (e\<lparr>thread_participants := tp\<rparr>)"
    "evolves R H d (e\<lparr>physical_session_map := pm\<rparr>)" "evolves R H d (e\<lparr>name_ownership := no\<rparr>)"
    "evolves R H d (e\<lparr>collections := co\<rparr>)" "evolves R H d (e\<lparr>collection_members := cm\<rparr>)"
    "evolves R H d (e\<lparr>schedules := sh\<rparr>)" "evolves R H d (e\<lparr>schedule_runs := sr\<rparr>)"
    "evolves R H d (e\<lparr>fencing_counter := fc\<rparr>)" "evolves R H d (e\<lparr>ids_drawn := ids\<rparr>)"
    "evolves R H d (e\<lparr>secrets_drawn := sd\<rparr>)" "evolves R H d (e\<lparr>capabilities_drawn := cd\<rparr>)"
    "evolves R H d (e\<lparr>write_log := wl\<rparr>)"
  by (rule evolves_quiet [OF assms]; simp add: core_same_def)+

text \<open>Closing or deleting components.\<close>

lemma evolves_components:
  assumes "evolves R H d e" "\<And>c. c \<in> set cs \<Longrightarrow> live_component c \<Longrightarrow> c \<in> set (component_instances e)"
  shows "evolves R H d (e\<lparr>component_instances := cs\<rparr>)"
proof (rule evolves_trans [OF assms(1)], rule evolves_core)
  let ?e = "e\<lparr>component_instances := cs\<rparr>"
  have "components_ok ?e" if "components_ok e" by (rule components_ok_subset [OF that]) (use assms(2) in simp_all)
  then show "sessions_ok ?e" if "sessions_ok e" using that by (simp add: sessions_ok_def names_ok_def)
qed (simp add: core_same_def)

lemma evolves_close [evolve]:
  assumes "evolves R H d e" "\<And>c. c_state (f c) \<noteq> Comp_Live"
  shows "evolves R H d (e\<lparr>component_instances := upd_where p f (component_instances e)\<rparr>)"
  using assms(1) by (rule evolves_components) (auto simp: set_upd_where live_component_def assms(2) split: if_splits)

lemma evolves_del_components [evolve]:
  assumes "evolves R H d e"
  shows "evolves R H d (e\<lparr>component_instances := del_where p (component_instances e)\<rparr>)"
  using assms by (rule evolves_components) simp

lemma evolves_next_id [evolve]: "evolves R H d e \<Longrightarrow> evolves R H d (snd (next_id E e))"
  by (simp add: next_id_def evolve)

lemma evolves_threads [evolve]:
  assumes "evolves R H d e"
  shows "evolves R H d (touchThread E t n e)" "evolves R H d (ensureThread E t r a e)"
    "evolves R H d (ensureParticipant E t i k e)" "evolves R H d (fst (allocSequence i e))"
    "evolves R H d (fst (allocThreadSequence i e))" "evolves R H d (markRead t i n e)"
  by (rule evolves_quiet [OF assms]; simp add: core_same_def)+

text \<open>An UPDATE of deliveries along the edges of the table.\<close>

lemma evolves_upd_deliveries [evolve]:
  assumes "evolves R H d e"
    and "\<And>x. p x \<Longrightarrow> d_message (f x) = d_message x \<and> d_recipient (f x) = d_recipient x \<and>
           (d_state (f x) = d_state x \<or> R (d_state x) (d_state (f x)))"
  shows "evolves R H d (e\<lparr>deliveries := upd_where p f (deliveries e)\<rparr>)"
proof (rule evolves_trans [OF assms(1)])
  let ?e = "e\<lparr>deliveries := upd_where p f (deliveries e)\<rparr>"
  have "keys ?e = keys e" using assms(2) by (auto simp: keys_def intro!: map_upd_where)
  then have "broker_ok H ?e" if "broker_ok H e"
    using that store_ok_cong [of e ?e] ledger_ok_cong [of ?e e] sessions_ok_cong [of ?e e] log_ok_cong [of ?e e] by (simp add: broker_ok_def)
  moreover have "moves R e ?e" by (rule moves_upd [OF _ _ assms(2)]) simp_all
  ultimately show "evolves R H e ?e" by (simp add: evolves_def)
qed

text \<open>The insertion of a message and of its queued delivery.\<close>

lemma evolves_insert_pair:
  assumes "insert_message m e = (e', Inr u)"
    and "messages e'' = messages e'" "deliveries e'' = deliveries e @ [x]" "context_injections e'' = context_injections e"
    and "d_message x = m_id m" "d_recipient x = m_recipient m" "d_state x = Queued"
    and "ledger_events e'' = ledger_events e" "ledger_anchors e'' = ledger_anchors e"
    and "sessions e'' = sessions e" "component_instances e'' = component_instances e"
  shows "evolves R H e e''"
proof -
  have "moves R e e''"
    using assms by (intro moves_insert [where ys = "[x]"]) simp_all
  moreover have "prefix (messages e) (messages e'')" using assms(1,2) by (simp add: insert_message_Inr)
  moreover have "broker_ok H e''" if ok: "broker_ok H e"
  proof -
    have "store_ok e''"
      by (rule store_ok_insert [OF _ assms(1)]) (use ok assms in \<open>simp_all add: broker_ok_def keys_def\<close>)
    moreover have "log_ok e''"
      using ok assms(1,2) by (auto simp: broker_ok_def log_ok_def sorted_wrt_append insert_message_Inr)
    ultimately show ?thesis
      using ok ledger_ok_cong [OF assms(8,9)] sessions_ok_cong [OF assms(10,11)] by (simp add: broker_ok_def)
  qed
  ultimately show ?thesis by (simp add: evolves_def)
qed

text \<open>After the message row, the thread statements and the delivery row.\<close>

lemma evolves_deliver:
  assumes "insert_message m e = (e', Inr u)" "m_id m = i" "m_recipient m = r"
  shows "evolves R H e (insert_delivery E i r (touchThread F t n e'))"
    "evolves R H e (insert_delivery E i r (markRead t2 j k (touchThread F t n e')))"
  using assms by (auto intro!: evolves_insert_pair [OF assms(1)] simp: insert_delivery_def next_id_def Let_def insert_message_Inr)

lemma evolves_insert:
  assumes "evolves R H d e" and "\<And>e'. insert_message m e = (e', Inr ()) \<Longrightarrow> evolves R H e (fst (k () e'))"
  shows "evolves R H d (fst (andThen (insert_message m e) k))"
proof (cases "list_ex (message_conflict m) (messages e)")
  case True
  then show ?thesis using assms(1) by (simp add: insert_message_def)
next
  case False
  then have "insert_message m e = (e\<lparr>messages := messages e @ [m]\<rparr>, Inr ())" by (simp add: insert_message_def)
  with assms evolves_trans show ?thesis by fastforce
qed

section \<open>Delivery operations\<close>

lemma evolves_fence [evolve]: "evolves R H d e \<Longrightarrow> evolves R H d (fst (assertCurrentEpoch E auth e))"
  by (auto simp: assertCurrentEpoch_def intro!: evolve split: option.splits)

lemma evolves_issue [evolve]:
  assumes "evolves R H d e"
  shows "evolves R H d (snd (issue E ttl p e))"
proof (rule evolves_trans [OF assms])
  have "broker_ok H (snd (issue E ttl p e))" if "broker_ok H e"
    using that issue_ok [of e E ttl p] ledger_ok_cong [of "snd (issue E ttl p e)" e]
      sessions_ok_cong [of "snd (issue E ttl p e)" e] log_ok_cong [of "snd (issue E ttl p e)" e] by (simp add: broker_ok_def)
  then show "evolves R H e (snd (issue E ttl p e))" by (simp add: evolves_def)
qed

lemma evolves_consume [evolve]:
  assumes "evolves R H d e"
  shows "evolves R H d (consume E i op e)" "evolves R H d (consume_if E j op e)"
proof -
  have "evolves R H e (consume E i op e)" for i
    using store_ok_consume [of e E i op] ledger_ok_cong [of "consume E i op e" e] sessions_ok_cong [of "consume E i op e" e]
      log_ok_cong [of "consume E i op e" e] by (auto simp: evolves_def broker_ok_def)
  with assms evolves_trans show "evolves R H d (consume E i op e)" "evolves R H d (consume_if E j op e)"
    by (auto simp: consume_if_def)
qed

lemma evolves_write [evolve]:
  assumes "evolves ordinary_edge H d e"
  shows "evolves ordinary_edge H d (write_delivery C E m i ep f ra e)"
  unfolding write_delivery_def Let_def next_id_def prod.case
  by (intro evolve) (use assms in \<open>auto simp: ordinary_edge_def waiting_def\<close>)

lemma evolves_complete [evolve]:
  assumes "evolves ordinary_edge H d e"
  shows "evolves ordinary_edge H d (completeIfNoResponseRequired E m ra rr e)" "evolves ordinary_edge H d (complete_original E m e)"
  unfolding completeIfNoResponseRequired_def complete_original_def Let_def
  by (intro evolve; use assms in \<open>auto simp: ordinary_edge_def\<close>)+

lemma inject_all_evolves: "evolves ordinary_edge H d e \<Longrightarrow> evolves ordinary_edge H d (snd (inject_all C E auth cp au ms e))"
proof (induction ms arbitrary: e)
  case (Cons m ms)
  have "evolves ordinary_edge H d (snd (inject_one C E auth cp au m e))"
    unfolding inject_one_def Let_def case_prod_beta using Cons.prems by (auto intro!: evolve split: option.splits)
  with Cons.IH show ?case by (simp add: Let_def case_prod_beta)
qed simp

lemma mark_all_evolves: "evolves ordinary_edge H d e \<Longrightarrow> evolves ordinary_edge H d (snd (mark_all C E auth cp ms e))"
proof (induction ms arbitrary: e)
  case (Cons m ms)
  have "evolves ordinary_edge H d (snd (mark_one C E auth cp m e))"
    unfolding mark_one_def Let_def case_prod_beta using Cons.prems by (auto intro!: evolve split: option.splits)
  with Cons.IH show ?case by (simp add: Let_def case_prod_beta)
qed simp

lemma pull_pending_evolves [evolve]: "evolves ordinary_edge H d e \<Longrightarrow> evolves ordinary_edge H d (fst (pull_pending C E auth cp au n e))"
proof (erule evolves_trans)
  show "evolves ordinary_edge H e (fst (pull_pending C E auth cp au n e))"
    unfolding pull_pending_def Let_def case_prod_beta by (intro evolve inject_all_evolves)
qed

lemma checkpointPull_evolves [evolve]:
  assumes "evolves ordinary_edge H d e"
  shows "evolves ordinary_edge H d (fst (checkpointPull C E auth cp n e))"
  unfolding checkpointPull_def by (intro evolve assms)

lemma processNext_evolves: "evolves ordinary_edge H d (fst (processNext C E auth cp d))"
  unfolding processNext_def checkpointPullForced_def by (intro evolve)

lemma inboxView_evolves: "evolves ordinary_edge H d (fst (inboxView C E auth cp n d))"
  unfolding inboxView_def Let_def by (intro evolve)

lemma redeliver_evolves: "evolves ordinary_edge H d (fst (redeliver C E auth m why d))"
  unfolding redeliver_def Let_def case_prod_beta by (intro evolve)

lemma markInjectedFor_evolves [evolve]: "evolves ordinary_edge H d (fst (markInjectedFor C E auth ms cp d))"
  unfolding markInjectedFor_def Let_def case_prod_beta by (intro evolve mark_all_evolves)

lemma markInjected_evolves: "evolves ordinary_edge H d (fst (markInjected C E auth ms d))"
  unfolding markInjected_def by (intro evolve)

lemma checkpointPullBySessionId_evolves: "evolves ordinary_edge H d (fst (checkpointPullBySessionId C E sid n d))"
  unfolding checkpointPullBySessionId_def Let_def by (intro evolve)

lemma ack_evolves: "evolves ordinary_edge H d (fst (ack C E auth inp d))"
  unfolding ack_def ack_commit_def Let_def next_id_def prod.case
  by (intro evolve) (auto simp: ordinary_edge_def ack_row_def ack_target_def)

lemma reply_evolves: "evolves ordinary_edge H d (fst (reply C E auth inp allocSequence d))"
  unfolding reply_def reply_commit_def reply_receipt_def Let_def case_prod_beta
  by (intro evolves_insert evolve; (erule evolves_deliver)?) (simp_all add: reply_message_def)

end
