(* ===== verification/Session_Steps.thy ===== *)
theory Session_Steps
  imports Evolution
begin

text \<open>
  The session side of the store evolves the database: name claims and releases, registration with its reclaim,
  fresh and joining lifecycles, announcements, import, renaming, readiness and the operator session.
\<close>

section \<open>Names and session rows\<close>

lemma evolves_sessions:
  assumes "evolves R H d e" "core_same e d'" "sessions_ok e \<Longrightarrow> sessions_ok d'"
  shows "evolves R H d d'"
  using assms(1) by (rule evolves_trans) (rule evolves_core [OF assms(2,3)])

text \<open>An UPDATE of session rows that leaves ids and epochs alone.\<close>

lemma components_ok_upd:
  assumes "components_ok e" "\<And>s. s_id (f s) = s_id s" "\<And>s. s_epoch (f s) = s_epoch s"
  shows "components_ok (e\<lparr>sessions := upd_where p f (sessions e)\<rparr>)"
  using assms(1)
proof (rule components_ok_subset)
  have "set (map (\<lambda>s. (s_id s, s_epoch s)) (upd_where p f (sessions e))) = set (map (\<lambda>s. (s_id s, s_epoch s)) (sessions e))"
    by (rule arg_cong [where f = set], rule map_upd_where) (simp add: assms)
  then show "(\<lambda>s. (s_id s, s_epoch s)) ` set (sessions (e\<lparr>sessions := upd_where p f (sessions e)\<rparr>)) =
      (\<lambda>s. (s_id s, s_epoch s)) ` set (sessions e)" by simp
qed simp

lemma evolves_name_claim:
  assumes "evolves R H d e" "\<not> name_taken e n sid" "\<And>s. s_id (f s) = s_id s" "\<And>s. s_normName (f s) = Some n"
    "\<And>s. s_epoch (f s) = s_epoch s"
  shows "evolves R H d (upd_session sid f e)"
  using assms(1)
proof (rule evolves_sessions)
  assume ok: "sessions_ok e"
  have "unique_on holds_name s_normName (upd_where (\<lambda>s. s_id s = sid) f (sessions e))"
    using ok assms(2,4) by (intro unique_on_claim) (auto simp: sessions_ok_def names_ok_def name_taken_def holds_name_def list_ex_iff)
  with ok show "sessions_ok (upd_session sid f e)"
    by (simp add: sessions_ok_def names_ok_def upd_session_def map_upd_where assms(3,5) components_ok_upd)
qed (simp add: core_same_def)

lemma names_ok_unname:
  assumes "names_ok e" "\<And>s. s_id (f s) = s_id s" "\<And>s. s_normName (f s) = None"
  shows "names_ok (e\<lparr>sessions := upd_where p f (sessions e)\<rparr>)"
  using assms(1) by (auto simp: names_ok_def map_upd_where assms(2,3) holds_name_def intro!: unique_on_upd)

lemma evolves_unname:
  assumes "evolves R H d e" "\<And>s. s_id (f s) = s_id s" "\<And>s. s_normName (f s) = None" "\<And>s. s_epoch (f s) = s_epoch s"
  shows "evolves R H d (e\<lparr>sessions := upd_where p f (sessions e)\<rparr>)"
  using assms(1) by (rule evolves_sessions) (simp_all add: core_same_def sessions_ok_def names_ok_unname components_ok_upd assms(2-))

lemma evolves_new_session:
  assumes "evolves R H d e" "session_row e (s_id r) = None"
    "s_normName r \<noteq> None \<Longrightarrow> \<not> name_taken e (the (s_normName r)) (s_id r)"
  shows "evolves R H d (e\<lparr>sessions := sessions e @ [r]\<rparr>)"
  using assms(1)
proof (rule evolves_sessions)
  have new: "\<forall>s\<in>set (sessions e). s_id s \<noteq> s_id r" using assms(2) by (simp add: session_row_def find_None_conv)
  assume ok: "sessions_ok e"
  with new assms(3) have "names_ok (e\<lparr>sessions := sessions e @ [r]\<rparr>)"
    by (auto simp: sessions_ok_def names_ok_def unique_on_append1 holds_name_def name_taken_def list_ex_iff)
  moreover have "components_ok (e\<lparr>sessions := sessions e @ [r]\<rparr>)"
    by (rule components_ok_shrink [of e]) (use ok in \<open>auto simp: sessions_ok_def\<close>)
  ultimately show "sessions_ok (e\<lparr>sessions := sessions e @ [r]\<rparr>)" by (simp add: sessions_ok_def)
qed (simp add: core_same_def)

lemma evolves_unnamed_session [evolve]:
  assumes "evolves R H d e" "session_row e (s_id r) = None" "s_normName r = None"
  shows "evolves R H d (e\<lparr>sessions := sessions e @ [r]\<rparr>)"
  by (rule evolves_new_session) (simp_all add: assms)

text \<open>A session row may only be deleted once its components are.\<close>

lemma evolves_del_session:
  assumes "evolves R H d e" "\<And>c. c \<in> set (component_instances e) \<Longrightarrow> c_session c \<noteq> sid"
  shows "evolves R H d (e\<lparr>sessions := del_where (\<lambda>s. s_id s = sid) (sessions e)\<rparr>)"
  using assms(1)
proof (rule evolves_sessions)
  let ?e = "e\<lparr>sessions := del_where (\<lambda>s. s_id s = sid) (sessions e)\<rparr>"
  assume ok: "sessions_ok e"
  then have "names_ok ?e"
    by (auto simp: sessions_ok_def names_ok_def del_where_def distinct_map_filter intro: unique_on_del [unfolded del_where_def])
  moreover have "components_ok ?e"
    by (rule components_ok_shrink [of e]) (use ok assms(2) in \<open>auto simp: sessions_ok_def del_where_def image_iff\<close>)
  ultimately show "sessions_ok ?e" by (simp add: sessions_ok_def)
qed (simp add: core_same_def)

lemma evolves_new_injection:
  assumes "evolves R H d e" "ci_id r \<notin> ci_id ` set (context_injections e)"
  shows "evolves R H d (e\<lparr>context_injections := context_injections e @ [r]\<rparr>)"
proof (rule evolves_trans [OF assms(1)])
  let ?e = "e\<lparr>context_injections := context_injections e @ [r]\<rparr>"
  have "moves R e ?e"
    by (rule movesI) (auto simp: list_all2_refl injections_kept_def injected_def)
  moreover have "broker_ok H ?e" if "broker_ok H e"
    using that assms(2) ledger_ok_cong [of ?e e] sessions_ok_cong [of ?e e] log_ok_cong [of ?e e]
    by (auto simp: broker_ok_def store_ok_def)
  ultimately show "evolves R H e ?e" by (simp add: evolves_def)
qed

section \<open>Ownership\<close>

lemma evolves_ownership [evolve]:
  assumes "evolves R H d e"
  shows "evolves R H d (releaseNameOwnership E w b e)" "evolves R H d (setNameOwnershipReleased E l e)"
    "evolves R H d (put_ownership E l sid nm hash e)" "evolves R H d (snd (mintOwnerSecret E e))"
  using assms by (simp_all add: releaseNameOwnership_def setNameOwnershipReleased_def put_ownership_def mintOwnerSecret_def Let_def evolve)

lemma evolves_own [evolve]:
  assumes "evolves R (sha256 E) d e"
  shows "evolves R (sha256 E) d (snd (setNameOwnershipActive E l sid nm e))"
  using assms by (auto simp: setNameOwnershipActive_def Let_def case_prod_beta intro!: evolve split: option.splits)

lemma evolves_markPending [evolve]: "evolves R H d e \<Longrightarrow> evolves R H d (markPending E sid e)"
  unfolding markPending_def Let_def upd_session_def by (rule evolves_ownership(2), rule evolves_unname) simp_all

lemma evolves_claimName [evolve]:
  assumes "evolves R (sha256 E) d e"
  shows "evolves R (sha256 E) d (snd (claimNameForRegister E sid requested e))"
proof -
  have "evolves R (sha256 E) d (upd_session sid (set_name E nm) e)" if "\<not> name_taken e (nsn_normalized nm) sid" for nm
    using assms that by (rule evolves_name_claim) (simp_all add: set_name_def)
  with assms show ?thesis
    by (auto simp: claimNameForRegister_def Let_def case_prod_beta intro!: evolves_own evolves_markPending split: option.splits sum.splits)
qed

section \<open>Registration\<close>

lemma evolves_registration [evolve]:
  assumes "evolves R H d e"
  shows "evolves R H d (upsertAliasRow E alias sid e)" "evolves R H d (ensure_sequence sid e)"
    "evolves R H d (insert_epoch E sid ep e)" "evolves R H d (snd (followed_map phys e))" "evolves R H d (put_map E phys c l e)"
  using assms by (auto simp: upsertAliasRow_def ensure_sequence_def insert_epoch_def nextEpochToken_def followed_map_def put_map_def
      next_id_def Let_def intro!: evolve split: option.splits)

lemma evolves_automaticAlias [evolve]: "evolves R H d e \<Longrightarrow> evolves R H d (upsertAutomaticAliasSafe E alias sid e)"
  by (auto simp: upsertAutomaticAliasSafe_def Let_def intro!: evolve split: option.splits)

lemma registerAlias_evolves: "evolves R H d (fst (registerAlias E auth raw d))"
  unfolding registerAlias_def Let_def by (intro evolve)

lemma rehome_one_evolves: "evolves R H d (fst (rehome_one E sid ep cid mid d))"
proof (cases "injected d mid ep 1")
  case False
  show ?thesis
    unfolding rehome_one_def Let_def next_id_def prod.case using False
    by (intro evolve evolves_new_injection) (auto simp: list_ex_iff)
qed (simp add: rehome_one_def)

lemma rehome_all_evolves: "evolves R H d (fst (rehome_all E sid ep cid ms d))"
proof (induction ms arbitrary: d)
  case (Cons m ms)
  show ?case by (simp, rule evolves_andThen) (rule rehome_one_evolves, rule Cons.IH)
qed simp

lemma evolves_requeue [evolve]: "evolves ordinary_edge H d e \<Longrightarrow> evolves ordinary_edge H d (requeue_written E p e)"
  unfolding requeue_written_def by (rule evolves_upd_deliveries) (auto simp: ordinary_edge_def)

lemma create_session_evolves:
  assumes "evolves R H d e" "session_row e sid = None"
  shows "evolves R H d (create_session E cid inp sid e)"
  unfolding create_session_def Let_def using assms by (intro evolve) (simp_all add: blank_session_def)

text \<open>A new epoch for a session, together with the superseding of its live_component components.\<close>

lemma evolves_new_epoch:
  assumes "evolves R H d e" "\<And>s. s_id (f s) = s_id s" "\<And>s. s_normName (f s) = None" "\<And>c. c_state (g c) \<noteq> Comp_Live"
  shows "evolves R H d (let e = setNameOwnershipReleased E l (upd_session sid f e)
           in e\<lparr>component_instances := upd_where (\<lambda>c. c_session c = sid \<and> c_state c = Comp_Live) g (component_instances e)\<rparr>)"
    (is "evolves R H d ?e")
  using assms(1)
proof (rule evolves_sessions)
  have rows: "sessions ?e = upd_where (\<lambda>s. s_id s = sid) f (sessions e)"
    and comps: "component_instances ?e = upd_where (\<lambda>c. c_session c = sid \<and> c_state c = Comp_Live) g (component_instances e)"
    by (simp_all add: Let_def setNameOwnershipReleased_def releaseNameOwnership_def upd_session_def)
  show "core_same e ?e" by (simp add: core_same_def Let_def setNameOwnershipReleased_def releaseNameOwnership_def upd_session_def)
  assume ok: "sessions_ok e"
  have "names_ok (e\<lparr>sessions := upd_where (\<lambda>s. s_id s = sid) f (sessions e)\<rparr>)"
    by (rule names_ok_unname) (use ok assms(2,3) in \<open>simp_all add: sessions_ok_def\<close>)
  then have "names_ok ?e" by (simp add: names_ok_def rows)
  moreover have "components_ok ?e"
  proof (rule components_ok_shrink [of e])
    have keep: "c \<in> set (component_instances e) \<and> c_session c \<noteq> sid" if "c \<in> set (component_instances ?e)" "live_component c" for c
      using that assms(4) by (auto simp: comps set_upd_where live_component_def)
    then show "c \<in> set (component_instances e)" if "c \<in> set (component_instances ?e)" "live_component c" for c using that by blast
    show "(s_id s, s_epoch s) \<in> (\<lambda>s. (s_id s, s_epoch s)) ` set (sessions ?e)"
      if "s \<in> set (sessions e)" "\<exists>c\<in>set (component_instances ?e). live_component c \<and> c_session c = s_id s" for s
    proof -
      from that keep have "s_id s \<noteq> sid" by metis
      with that(1) have "s \<in> set (sessions ?e)" by (simp add: rows set_upd_where)
      then show ?thesis by (rule imageI)
    qed
  qed (use ok in \<open>simp add: sessions_ok_def\<close>)
  ultimately show "sessions_ok ?e" by (simp add: sessions_ok_def)
qed

lemma fresh_lifecycle_evolves:
  assumes "evolves ordinary_edge (sha256 E) d e"
  shows "evolves ordinary_edge (sha256 E) d (fst (fresh_lifecycle E cid sid s e))"
  using assms
  unfolding fresh_lifecycle_def Let_def rehomeAcceptedReplyAuthority_def
  by (intro evolve evolves_new_epoch [unfolded Let_def] evolves_trans [OF _ rehome_all_evolves]) simp_all

lemma join_session_evolves: "evolves ordinary_edge H d e \<Longrightarrow> evolves ordinary_edge H d (fst (join_session E role conn sid s e))"
  unfolding join_session_def Let_def by (intro evolve) (simp_all add: names_view_def)

lemma register_name_evolves [evolve]:
  assumes "evolves R (sha256 E) d e"
  shows "evolves R (sha256 E) d (snd (register_name E new inp sid e))"
  using assms by (auto simp: register_name_def Let_def case_prod_beta names_view_def intro!: evolve split: option.splits)

lemma record_reclaim_evolves [evolve]:
  assumes "evolves R (sha256 E) d e"
  shows "evolves R (sha256 E) d (record_reclaim E r phys e)"
  using assms by (auto simp: record_reclaim_def intro!: evolve split: reclaim_outcome.splits)

text \<open>When the component row of a registration may be inserted: the session is in that epoch and, for an MCP component,
  every live one of the session is on the same connection.\<close>

definition joinable :: "js_string \<Rightarrow> nat \<Rightarrow> component_role \<Rightarrow> js_string \<Rightarrow> db \<Rightarrow> bool" where
  "joinable sid ep role conn d \<longleftrightarrow> (sid, ep) \<in> (\<lambda>s. (s_id s, s_epoch s)) ` set (sessions d) \<and>
     (role = MCP \<longrightarrow> (\<forall>c\<in>set (component_instances d). live_component c \<and> c_role c = MCP \<and> c_session c = sid \<longrightarrow> c_conn c = Some conn))"

lemma evolves_insert_component:
  assumes "evolves R H d e" "joinable sid ep role (rg_conn inp) e"
  shows "evolves R H d (insert_component E cid role inp sid ep e)"
  using assms(1)
proof (rule evolves_sessions)
  let ?e = "insert_component E cid role inp sid ep e"
  assume ok: "sessions_ok e"
  have "components_ok ?e"
  proof (rule components_okI)
    fix c assume c: "c \<in> set (component_instances ?e)" "live_component c"
    have same: "sessions ?e = sessions e" by (simp add: insert_component_def)
    from c(1) consider "c \<in> set (component_instances e)" | "c_session c = sid \<and> c_epoch c = ep"
      by (auto simp: insert_component_def)
    then have "(c_session c, c_epoch c) \<in> (\<lambda>s. (s_id s, s_epoch s)) ` set (sessions e)"
    proof cases
      case 1
      with ok c(2) show ?thesis unfolding sessions_ok_def components_ok_def by blast
    next
      case 2
      with assms(2) show ?thesis unfolding joinable_def by (elim conjE) (simp only:)
    qed
    then show "(c_session c, c_epoch c) \<in> (\<lambda>s. (s_id s, s_epoch s)) ` set (sessions ?e)" by (simp only: same)
  next
    fix c c' assume c: "c \<in> set (component_instances ?e)" "c' \<in> set (component_instances ?e)" "live_component c" "live_component c'"
      "c_role c = MCP" "c_role c' = MCP" "c_session c = c_session c'"
    have "c_conn x = Some (rg_conn inp)" if "x \<in> set (component_instances ?e)" "live_component x" "c_role x = MCP" "c_session x = sid" "role = MCP" for x
      using that assms(2) by (auto simp: joinable_def insert_component_def)
    moreover have "x \<in> set (component_instances e) \<or> c_session x = sid \<and> c_role x = role" if "x \<in> set (component_instances ?e)" for x
      using that by (auto simp: insert_component_def)
    ultimately show "c_conn c = c_conn c'"
      using c ok components_ok_conn [of e c c'] unfolding sessions_ok_def by metis
  qed
  with ok show "sessions_ok ?e" by (simp add: sessions_ok_def names_ok_def insert_component_def)
qed (simp add: core_same_def insert_component_def)

lemma automaticAlias_tables:
  "sessions (upsertAutomaticAliasSafe E alias sid d) = sessions d"
  "component_instances (upsertAutomaticAliasSafe E alias sid d) = component_instances d"
  by (simp_all add: upsertAutomaticAliasSafe_def upsertAliasRow_def Let_def next_id_def split: option.splits)

lemma andThen_keeps:
  assumes "\<And>x e. g (fst (k x e)) = g e"
  shows "g (fst (andThen r k)) = g (fst r)"
  using assms by (cases r; cases "snd r") auto

lemma rehome_all_tables:
  "sessions (fst (rehome_all E sid ep cid ms d)) = sessions d"
  "component_instances (fst (rehome_all E sid ep cid ms d)) = component_instances d"
  by (induction ms arbitrary: d) (simp_all add: andThen_keeps rehome_one_def next_id_def Let_def)

lemma fresh_lifecycle_tables:
  "component_instances (fst (fresh_lifecycle E cid sid s d)) = upd_where (\<lambda>c. c_session c = sid \<and> c_state c = Comp_Live)
     (\<lambda>c. c\<lparr>c_state := Comp_Superseded, c_disconnectedAt := Some (now E)\<rparr>) (component_instances d)"
  "\<exists>f. sessions (fst (fresh_lifecycle E cid sid s d)) = upd_where (\<lambda>r. s_id r = sid) f (sessions d) \<and>
     (\<forall>r. s_id (f r) = s_id r \<and> s_epoch (f r) = s_epoch s + 1)"
  unfolding fresh_lifecycle_def Let_def rehomeAcceptedReplyAuthority_def
  by (auto simp: andThen_keeps rehome_all_tables ledger_tables automaticAlias_tables requeue_written_def setNameOwnershipReleased_def
      releaseNameOwnership_def upd_session_def insert_epoch_def nextEpochToken_def next_id_def Let_def)

lemma create_joinable:
  assumes "sessions_ok d" "session_row d sid = None"
  shows "joinable sid (Suc 0) role conn (create_session E cid inp sid d)"
proof -
  have "c_session c \<noteq> sid" if "c \<in> set (component_instances d)" "live_component c" for c
    using assms that by (auto simp: sessions_ok_def session_row_def find_None_conv elim!: components_ok_session)
  then show ?thesis
    by (auto simp: joinable_def create_session_def Let_def insert_epoch_def ensure_sequence_def blank_session_def
        nextEpochToken_def automaticAlias_tables)
qed

lemma fresh_joinable:
  assumes "fresh_lifecycle E cid sid s d = (d', Inr ep)" "session_row d sid = Some s"
  shows "joinable sid ep role conn d'"
proof -
  have row: "s \<in> set (sessions d)" "s_id s = sid" using assms(2) by (auto simp: session_row_def find_Some_iff)
  have ep: "ep = s_epoch s + 1"
    using assms(1) by (auto simp: fresh_lifecycle_def Let_def andThen_eq_Inr)
  have comps: "component_instances d' = upd_where (\<lambda>c. c_session c = sid \<and> c_state c = Comp_Live)
      (\<lambda>c. c\<lparr>c_state := Comp_Superseded, c_disconnectedAt := Some (now E)\<rparr>) (component_instances d)"
    using fresh_lifecycle_tables(1) [of E cid sid s d] unfolding assms(1) fst_conv .
  have "\<not> live_component c \<or> c_session c \<noteq> sid" if "c \<in> set (component_instances d')" for c
  proof -
    from that obtain c0 where "c = (if c_session c0 = sid \<and> c_state c0 = Comp_Live
        then c0\<lparr>c_state := Comp_Superseded, c_disconnectedAt := Some (now E)\<rparr> else c0)"
      unfolding comps set_upd_where by (rule imageE)
    then show ?thesis by (auto simp: live_component_def split: if_splits)
  qed
  moreover obtain f where f: "sessions d' = upd_where (\<lambda>r. s_id r = sid) f (sessions d)" "\<And>r. s_id (f r) = s_id r \<and> s_epoch (f r) = ep"
    using fresh_lifecycle_tables(2) [of E cid sid s d] unfolding assms(1) ep fst_conv by blast
  moreover have "f s \<in> set (sessions d')" using row by (auto simp: f(1) set_upd_where)
  moreover have "(sid, ep) = (s_id (f s), s_epoch (f s))" using row f(2) [of s] by simp
  ultimately show ?thesis unfolding joinable_def by (metis (no_types, lifting) image_eqI)
qed

lemma join_joinable:
  assumes "sessions_ok d" "join_session E role conn sid s d = (d', Inr ep)" "session_row d sid = Some s"
  shows "joinable sid ep role conn d'"
proof -
  have row: "s \<in> set (sessions d)" "s_id s = sid" using assms(3) by (auto simp: session_row_def find_Some_iff)
  have ep: "ep = s_epoch s" and comps: "component_instances d' = component_instances d"
    and none: "role = MCP \<longrightarrow> \<not> list_ex (\<lambda>c. c_conn c \<noteq> Some conn) (live_mcp d sid ep)"
    using assms(2) by (auto simp: join_session_def Let_def requeue_written_def upd_session_def split: if_splits)
  obtain f where "sessions d' = upd_where (\<lambda>r. s_id r = sid) f (sessions d)" "s_id (f s) = s_id s" "s_epoch (f s) = s_epoch s"
    using assms(2) by (auto simp: join_session_def Let_def requeue_written_def upd_session_def split: if_splits)
  then have "(sid, ep) \<in> (\<lambda>s. (s_id s, s_epoch s)) ` set (sessions d')"
    using row ep by (auto simp: set_upd_where image_iff intro!: bexI [of _ "f s"])
  moreover have "c_epoch c = ep" if c: "c \<in> set (component_instances d)" "live_component c" and "c_session c = sid" for c
  proof -
    obtain t where t: "t \<in> set (sessions d)" "s_id t = c_session c" "s_epoch t = c_epoch c"
      using assms(1) c components_ok_session unfolding sessions_ok_def by blast
    moreover have "t = s"
      using assms(1) t that row by (intro distinct_map_inj [of s_id "sessions d"]) (auto simp: sessions_ok_def names_ok_def)
    ultimately show ?thesis using ep by simp
  qed
  ultimately show ?thesis
    using none unfolding joinable_def comps by (auto simp: list_ex_iff live_mcp_def components_of_def live_component_def)
qed

lemma lifecycle_evolves:
  assumes "evolves ordinary_edge (sha256 E) d e"
    and "\<And>ep e'. joinable sid ep role conn e' \<Longrightarrow> evolves ordinary_edge (sha256 E) e' (fst (k ep e'))"
  shows "evolves ordinary_edge (sha256 E) d (fst (andThen
     (case session_row e sid of
        None \<Rightarrow> (create_session E cid inp sid e, Inr 1)
      | Some s \<Rightarrow> if b s then fresh_lifecycle E cid sid s e else join_session E role conn sid s e) k))"
proof (rule evolves_trans [OF assms(1)], rule evolvesI, rule evolves_andThen)
  let ?r = "case session_row e sid of None \<Rightarrow> (create_session E cid inp sid e, Inr 1)
      | Some s \<Rightarrow> if b s then fresh_lifecycle E cid sid s e else join_session E role conn sid s e"
  show "evolves ordinary_edge (sha256 E) e (fst ?r)"
    by (intro evolve create_session_evolves fresh_lifecycle_evolves join_session_evolves)
  fix ep e' assume "broker_ok (sha256 E) e" "?r = (e', Inr ep)"
  then have "joinable sid ep role conn e'"
    by (auto simp: broker_ok_def split: option.splits if_splits intro: create_joinable fresh_joinable join_joinable)
  then show "evolves ordinary_edge (sha256 E) e' (fst (k ep e'))" by (rule assms(2))
qed

lemma register_evolves: "evolves ordinary_edge (sha256 E) d (fst (register E inp d))"
  unfolding register_def Let_def case_prod_beta
  by (intro evolve lifecycle_evolves evolves_insert_component)

section \<open>Lifecycle\<close>

lemma announceSession_evolves: "evolves R (sha256 E) d (fst (announceSession E auth inp d))"
  unfolding announceSession_def Let_def
  by (intro evolve) (simp_all add: names_view_def announce_row_def)

lemma import_one_evolves:
  assumes "evolves R (sha256 E) d (snd st)"
  shows "evolves R (sha256 E) d (snd (import_one E m st))"
proof -
  obtain i k e where st: "st = ((i, k), e)" by (metis prod.collapse)
  with assms show ?thesis
    unfolding import_one_def Let_def st prod.case
    by (cases "session_row e (im_session m)") (auto simp: blank_session_def intro!: evolve)
qed

lemma importDormantSessions_evolves: "evolves R (sha256 E) d (fst (importDormantSessions E metas d))"
proof -
  have "evolves R (sha256 E) d (snd (fold (import_one E) metas st))" if "evolves R (sha256 E) d (snd st)" for st
    using that by (induction metas arbitrary: st) (simp_all add: import_one_evolves)
  then show ?thesis
    unfolding importDormantSessions_def Let_def case_prod_beta by (intro evolve) simp
qed

lemma reclaim_name_evolves: "evolves R H d (fst (reclaim_name E sid nm secret d))"
  unfolding reclaim_name_def Let_def
  by (auto split: option.splits intro!: evolve evolves_unname)

lemma evolves_rename_row:
  assumes "evolves R H d e" "\<not> name_taken e (nsn_normalized nm) sid"
  shows "evolves R H d (upd_session sid (rename_row E nm b) e)"
  using assms by (rule evolves_name_claim) (simp_all add: rename_row_def set_name_def Let_def)

lemma renameSession_evolves: "evolves R (sha256 E) d (fst (renameSession E auth raw secret d))"
  unfolding renameSession_def Let_def case_prod_beta
  by (intro evolve reclaim_name_evolves evolves_rename_row)

lemma signalReadiness_evolves: "evolves R H d (fst (signalReadiness E auth hints d))"
  unfolding signalReadiness_def Let_def by (intro evolve) (simp add: names_view_def set_readiness_row_def)

lemma ensureOperatorSession_evolves: "evolves R H d (fst (ensureOperatorSession E d))"
  unfolding ensureOperatorSession_def Let_def
  by (intro evolve evolves_new_session) (simp_all add: names_view_def blank_session_def split: if_splits)

lemma onConnClose_evolves: "evolves R H d (onConnClose E conn auth d)"
proof (cases auth)
  case (Some a)
  have "evolves R H d (d\<lparr>sessions := upd_where p (\<lambda>s. s\<lparr>s_state := Conn_Disconnected, s_boundConn := None,
      s_disconnectedAt := Some (now E), s_updatedAt := now E\<rparr>) (sessions d)\<rparr>)" for p
    by (rule evolves_upd_sessions) (simp_all add: names_view_def)
  from evolves_close [OF this] Some show ?thesis by (simp add: onConnClose_def)
qed (simp add: onConnClose_def)

lemma diagnoseActivationOnce_evolves: "evolves R H d (fst (diagnoseActivationOnce E raw d))"
  unfolding diagnoseActivationOnce_def Let_def case_prod_beta by (intro evolve)

lemma cleanupComponents_evolves: "evolves R H d (fst (cleanupComponents E ids r d))"
  unfolding cleanupComponents_def Let_def
  by (intro evolve evolves_components) (auto simp: del_where_def set_upd_where live_component_def split: if_splits)

end
