(* ===== verification/Sending.thy ===== *)
theory Sending
  imports Lifecycle Controls Delivery
begin

text \<open>
  Sending, from \<^verbatim>\<open>src/broker/store.ts\<close>: recipient resolution, \<open>send\<close>, the operator console's \<open>operatorSend\<close>
  and \<open>markThreadRead\<close>.
\<close>

section \<open>Recipients\<close>

record recipient =
  rp_session :: js_string
  rp_alias :: js_string

text \<open>Name and alias matches in one map keyed by session; a later match replaces the value of an earlier one.\<close>

definition alias_matches :: "db \<Rightarrow> js_string \<Rightarrow> (js_string \<times> js_string) list" where
  "alias_matches d want =
     (let byName = map (\<lambda>s. (s_id s, case s_name s of None \<Rightarrow> [] | Some n \<Rightarrow> n))
            (filter (\<lambda>s. s_normName s = Some want \<and> s_nameState s = Active \<and> s_expiredAt s = None) (sessions d));
          byAlias = map (\<lambda>a. (al_session a, al_alias a)) (filter (\<lambda>a. al_ci a = want \<and> al_active a) (aliases d))
      in fold (\<lambda>(k, v). obj_put k v) (byName @ byAlias) [])"

definition qualified_matches :: "db \<Rightarrow> js_string \<Rightarrow> js_string \<Rightarrow> (js_string \<times> js_string) list" where
  "qualified_matches d projectAlias want =
     map (\<lambda>a. (al_session a, al_alias a))
       (filter (\<lambda>a. al_ci a = want \<and> al_active a \<and>
          (case session_row d (al_session a) of None \<Rightarrow> False | Some s \<Rightarrow> s_projectAlias s = Some projectAlias)) (aliases d))"

definition only_match :: "(js_string \<times> js_string) list \<Rightarrow> xerror + recipient" where
  "only_match rows =
     (case rows of
        [] \<Rightarrow> Inl (xerr UNKNOWN_RECIPIENT)
      | [(i, a)] \<Rightarrow> Inr \<lparr>rp_session = i, rp_alias = a\<rparr>
      | _ \<Rightarrow> Inl (xerr AMBIGUOUS_RECIPIENT))"

definition resolveRecipient :: "db \<Rightarrow> js_string \<Rightarrow> xerror + recipient" where
  "resolveRecipient d raw =
     (case parseRecipient raw of
        Inl e \<Rightarrow> Inl e
      | Inr (SessionRef i) \<Rightarrow>
          (case session_row d i of
             None \<Rightarrow> Inl (xerr UNKNOWN_RECIPIENT)
           | Some s \<Rightarrow> Inr \<lparr>rp_session = s_id s, rp_alias = s_autoAlias s\<rparr>)
      | Inr (AliasRef a) \<Rightarrow> only_match (alias_matches d (ascii_lower a))
      | Inr (QualifiedRef p a) \<Rightarrow> only_match (qualified_matches d p (ascii_lower a)))"

definition aliasForSession :: "db \<Rightarrow> js_string \<Rightarrow> js_string" where
  "aliasForSession d sid =
     (case sort_key (\<lambda>a. al_ci a = SESSION_PREFIX @ take 8 sid)
        (filter (\<lambda>a. al_session a = sid \<and> al_global a \<and> al_active a) (aliases d)) of
        a # _ \<Rightarrow> al_alias a
      | [] \<Rightarrow> (case session_row d sid of None \<Rightarrow> js ''unknown'' | Some s \<Rightarrow> s_autoAlias s))"

section \<open>Send\<close>

definition ttl_expiry :: "env \<Rightarrow> int option \<Rightarrow> int option" where
  "ttl_expiry E ttlSeconds =
     (case ttlSeconds of None \<Rightarrow> None | Some t \<Rightarrow> if t = 0 then None else Some (now E + t * 1000))"

definition session_expired :: "db \<Rightarrow> js_string \<Rightarrow> bool" where
  "session_expired d sid = (case session_row d sid of None \<Rightarrow> False | Some s \<Rightarrow> s_expiredAt s \<noteq> None)"

definition recorded_state :: "db \<Rightarrow> js_string \<Rightarrow> delivery_state" where
  "recorded_state d msg = (case delivery_row d msg of None \<Rightarrow> Queued | Some x \<Rightarrow> d_state x)"

definition recorded_result :: "db \<Rightarrow> message_row \<Rightarrow> send_result" where
  "recorded_result d m =
     \<lparr>sr_messageId = m_id m, sr_correlationId = m_correlation m, sr_recipient = m_recipient m,
      sr_recipientAlias = m_recipientAlias m, sr_sequence = m_sequence m, sr_sendState = recorded_state d (m_id m),
      sr_deduplicated = True\<rparr>"

text \<open>The states \<open>send\<close> replays for a recipient that has expired; \<open>cancelled\<close> is not among them.\<close>

definition replayed_terminal :: "delivery_state \<Rightarrow> bool" where
  "replayed_terminal s \<longleftrightarrow> s = Completed \<or> s = Dead_Letter \<or> s = Rejected \<or> s = Expired"

definition expired_error :: "js_string \<Rightarrow> xerror" where
  "expired_error alias = XBusError RECIPIENT_SESSION_EXPIRED [(js ''recipient'', JStr alias)]"

definition send_message :: "env \<Rightarrow> authority \<Rightarrow> send_input \<Rightarrow> recipient \<Rightarrow> js_string \<Rightarrow> js_string \<Rightarrow> nat \<Rightarrow> nat \<Rightarrow> js_string \<Rightarrow> message_row" where
  "send_message E auth inp r messageId traceId sequence threadSequence senderAlias =
     \<lparr>m_id = messageId, m_sender = a_session auth, m_senderAlias = senderAlias, m_recipient = rp_session r,
      m_recipientAlias = rp_alias r, m_kind = si_kind inp, m_correlation = messageId, m_causation = None,
      m_parent = None, m_sequence = sequence, m_idempotency = si_idempotencyKey inp, m_text = si_text inp,
      m_bodyHash = hashBody E (si_text inp), m_metadata = si_metadata inp, m_requiresAck = si_requiresAck inp,
      m_requiresReply = si_requiresReply inp, m_expiresAt = ttl_expiry E (si_ttlSeconds inp), m_createdAt = now E,
      m_trace = traceId, m_thread = Some messageId, m_threadSequence = Some threadSequence, m_author = Claude\<rparr>"

definition send_new :: "env \<Rightarrow> authority \<Rightarrow> send_input \<Rightarrow> recipient \<Rightarrow> db \<Rightarrow> send_result result" where
  "send_new E auth inp r d =
     (let (messageId, d) = next_id E d;
          (traceId, d) = next_id E d
      in andThen (allocSequence (rp_session r) d) (\<lambda>sequence d.
         let d = ensureThread E messageId messageId (a_session auth) d in
         andThen (allocThreadSequence messageId d) (\<lambda>threadSequence d.
         let d = ensureParticipant E messageId (a_session auth) Claude d;
             d = ensureParticipant E messageId (rp_session r) Claude d in
         andThen (insert_message (send_message E auth inp r messageId traceId sequence threadSequence
                    (aliasForSession d (a_session auth))) d) (\<lambda>_ d.
         let d = touchThread E messageId threadSequence d;
             d = insert_delivery E messageId (rp_session r) d;
             d = refreshMeaningfulActivity E (a_session auth) d;
             d = audit E ''MESSAGE_SENT''
                   [(''sessionId'', JStr (a_session auth)), (''messageId'', JStr messageId), (''traceId'', JStr traceId),
                    (''recipient'', JStr (rp_alias r)), (''sequence'', JNum (int sequence))] d
         in (d, Inr \<lparr>sr_messageId = messageId, sr_correlationId = messageId, sr_recipient = rp_session r,
                     sr_recipientAlias = rp_alias r, sr_sequence = sequence, sr_sendState = Queued,
                     sr_deduplicated = False\<rparr>)))))"

definition send :: "env \<Rightarrow> authority \<Rightarrow> send_input \<Rightarrow> db \<Rightarrow> send_result result" where
  "send E auth inp =
     transaction (\<lambda>d.
       case (if truthy (si_idempotencyKey inp) then find_idempotent d (a_session auth) (the (si_idempotencyKey inp)) else None) of
         Some dup \<Rightarrow>
           if \<not> replayed_terminal (recorded_state d (m_id dup)) \<and> session_expired d (m_recipient dup)
           then (audit E ''SEND_REJECTED_RECIPIENT_EXPIRED''
                   [(''sessionId'', JStr (a_session auth)), (''recipient'', JStr (m_recipientAlias dup)), (''idempotent'', JBool True)] d,
                 Inl (expired_error (m_recipientAlias dup)))
           else (d, Inr (recorded_result d dup))
       | None \<Rightarrow>
           (case resolveRecipient d (si_to inp) of
              Inl e \<Rightarrow> (d, Inl e)
            | Inr r \<Rightarrow>
                if session_expired d (rp_session r)
                then (audit E ''SEND_REJECTED_RECIPIENT_EXPIRED''
                        [(''sessionId'', JStr (a_session auth)), (''recipient'', JStr (rp_alias r))] d,
                      Inl (expired_error (rp_alias r)))
                else if isBlocked E d (rp_session r) (to_lower (uni E) (aliasForSession d (a_session auth)))
                then (audit E ''BLOCKED_SEND_REJECTED''
                        [(''sessionId'', JStr (a_session auth)), (''recipient'', JStr (rp_alias r))] d, Inl (xerr BLOCKED))
                else send_new E auth inp r d))"

section \<open>Operator console\<close>

record operator_input =
  oi_to :: js_string
  oi_text :: js_string
  oi_kind :: message_kind
  oi_requiresAck :: bool
  oi_requiresReply :: bool
  oi_thread :: "js_string option"
  oi_parent :: "js_string option"
  oi_idempotency :: "js_string option"
  oi_ttlSeconds :: "int option"
  oi_subject :: "js_string option"
  oi_metadata :: "(js_string \<times> js_string) list option"

record operator_result =
  or_send :: send_result
  or_thread :: "js_string option"
  or_threadSequence :: "nat option"

definition participates :: "db \<Rightarrow> js_string \<Rightarrow> js_string \<Rightarrow> bool" where
  "participates d t sid = list_ex (\<lambda>p. p_thread p = t \<and> p_session p = sid) (thread_participants d)"

text \<open>\<open>ORDER BY joined_at ASC LIMIT 1\<close> over the participants that are not the operator.\<close>

definition thread_peer :: "db \<Rightarrow> js_string \<Rightarrow> js_string option" where
  "thread_peer d t =
     (case sort_key p_joinedAt (filter (\<lambda>p. p_thread p = t \<and> p_session p \<noteq> OPERATOR_SESSION_ID) (thread_participants d)) of
        [] \<Rightarrow> None | p # _ \<Rightarrow> Some (p_session p))"

definition latest_turn :: "db \<Rightarrow> js_string \<Rightarrow> js_string option" where
  "latest_turn d t = map_option m_id (top_by (\<lambda>m. case m_threadSequence m of None \<Rightarrow> 0 | Some n \<Rightarrow> n) (filter (\<lambda>m. m_thread m = Some t) (messages d)))"

text \<open>Thread and parent of an operator message: thread, root message, correlation, parent and causation.\<close>

definition operator_thread ::
  "operator_input \<Rightarrow> recipient \<Rightarrow> js_string \<Rightarrow> db \<Rightarrow> xerror + (js_string \<times> js_string \<times> js_string option)" where
  "operator_thread inp r messageId d =
     (case oi_thread inp of
        None \<Rightarrow> Inr (messageId, messageId, None)
      | Some t \<Rightarrow>
          (case thread_of d t of
             None \<Rightarrow> Inl (xerr MESSAGE_NOT_FOUND)
           | Some row \<Rightarrow>
               if \<not> t_open row then Inl (xerr ILLEGAL_STATE_TRANSITION)
               else if \<not> participates d t OPERATOR_SESSION_ID then Inl (xerr NOT_RECIPIENT)
               else case (case oi_parent inp of
                            Some p \<Rightarrow> (case List.find (\<lambda>m. m_id m = p \<and> m_thread m = Some t) (messages d) of
                                        None \<Rightarrow> None | Some m \<Rightarrow> Some (m_id m))
                          | None \<Rightarrow> Some (case latest_turn d t of Some m \<Rightarrow> m | None \<Rightarrow> t_root row)) of
                      None \<Rightarrow> Inl (xerr MESSAGE_NOT_FOUND)
                    | Some parent \<Rightarrow>
                        if (case thread_peer d t of None \<Rightarrow> False | Some peer \<Rightarrow> peer \<noteq> rp_session r)
                        then Inl (xerr UNKNOWN_RECIPIENT)
                        else Inr (t, t_root row, Some parent)))"

definition operatorSend :: "env \<Rightarrow> operator_input \<Rightarrow> db \<Rightarrow> operator_result result" where
  "operatorSend E inp =
     transaction (\<lambda>d.
       case (if truthy (oi_idempotency inp) then find_idempotent d OPERATOR_SESSION_ID (the (oi_idempotency inp)) else None) of
         Some dup \<Rightarrow> (d, Inr \<lparr>or_send = recorded_result d dup, or_thread = m_thread dup, or_threadSequence = m_threadSequence dup\<rparr>)
       | None \<Rightarrow>
           (case resolveRecipient d (oi_to inp) of
              Inl e \<Rightarrow> (d, Inl e)
            | Inr r \<Rightarrow>
                if rp_session r = OPERATOR_SESSION_ID then (d, Inl (xerr UNKNOWN_RECIPIENT))
                else if session_expired d (rp_session r) then (d, Inl (expired_error (rp_alias r)))
                else
                  let (messageId, d) = next_id E d;
                      (traceId, d) = next_id E d
                  in case operator_thread inp r messageId d of
                       Inl e \<Rightarrow> (d, Inl e)
                     | Inr (threadId, rootMsg, parent) \<Rightarrow>
                         let d = ensureThread E threadId rootMsg OPERATOR_SESSION_ID d;
                             d = (if oi_subject inp \<noteq> None \<and> oi_thread inp = None
                                  then d\<lparr>threads := upd_where (\<lambda>t. t_id t = threadId \<and> t_subject t = None)
                                          (\<lambda>t. t\<lparr>t_subject := oi_subject inp\<rparr>) (threads d)\<rparr>
                                  else d)
                         in andThen (allocThreadSequence threadId d) (\<lambda>threadSequence d.
                            let d = ensureParticipant E threadId OPERATOR_SESSION_ID Operator d;
                                d = ensureParticipant E threadId (rp_session r) Claude d in
                            andThen (allocSequence (rp_session r) d) (\<lambda>sequence d.
                            andThen (insert_message
                              \<lparr>m_id = messageId, m_sender = OPERATOR_SESSION_ID, m_senderAlias = OPERATOR_ALIAS,
                               m_recipient = rp_session r, m_recipientAlias = rp_alias r, m_kind = oi_kind inp,
                               m_correlation = threadId, m_causation = parent, m_parent = parent, m_sequence = sequence,
                               m_idempotency = oi_idempotency inp, m_text = oi_text inp, m_bodyHash = hashBody E (oi_text inp),
                               m_metadata = oi_metadata inp, m_requiresAck = oi_requiresAck inp,
                               m_requiresReply = oi_requiresReply inp, m_expiresAt = ttl_expiry E (oi_ttlSeconds inp),
                               m_createdAt = now E, m_trace = traceId, m_thread = Some threadId,
                               m_threadSequence = Some threadSequence, m_author = Operator\<rparr> d) (\<lambda>_ d.
                            let d = touchThread E threadId threadSequence d;
                                d = insert_delivery E messageId (rp_session r) d;
                                d = audit E ''OPERATOR_MESSAGE_SENT''
                                      [(''sessionId'', JStr OPERATOR_SESSION_ID), (''messageId'', JStr messageId), (''traceId'', JStr traceId),
                                       (''recipient'', JStr (rp_alias r)), (''threadId'', JStr threadId),
                                       (''threadSequence'', JNum (int threadSequence))] d;
                                d = ledger E (if oi_thread inp = None then ''THREAD_OPENED'' else ''OPERATOR_MESSAGE_SENT'')
                                      OPERATOR_LEDGER_ACTOR [(js ''threadId'', JStr threadId), (js ''messageId'', JStr messageId)]
                                      [(js ''recipient'', JStr (rp_alias r)), (js ''threadSequence'', JNum (int threadSequence)),
                                       (js ''requiresAck'', JNum (if oi_requiresAck inp then 1 else 0)),
                                       (js ''requiresReply'', JNum (if oi_requiresReply inp then 1 else 0)),
                                       (js ''bodyHash'', JStr (hashBody E (oi_text inp)))] d
                            in (d, Inr \<lparr>or_send = \<lparr>sr_messageId = messageId, sr_correlationId = threadId,
                                          sr_recipient = rp_session r, sr_recipientAlias = rp_alias r, sr_sequence = sequence,
                                          sr_sendState = Queued, sr_deduplicated = False\<rparr>,
                                        or_thread = Some threadId, or_threadSequence = Some threadSequence\<rparr>))))))"

definition markThreadRead :: "env \<Rightarrow> js_string \<Rightarrow> nat \<Rightarrow> db \<Rightarrow> nat result" where
  "markThreadRead E t upToSequence =
     transaction (\<lambda>d.
       if thread_of d t = None then (d, Inl (xerr MESSAGE_NOT_FOUND))
       else
         let d = ensureParticipant E t OPERATOR_SESSION_ID Operator d in
         case List.find (\<lambda>p. p_thread p = t \<and> p_session p = OPERATOR_SESSION_ID) (thread_participants d) of
           None \<Rightarrow> (d, Inl JsTypeError)
         | Some cur \<Rightarrow>
             let target = max (p_lastRead cur) upToSequence in
             if target = p_lastRead cur then (d, Inr target)
             else (ledger E ''THREAD_READ'' OPERATOR_LEDGER_ACTOR [(js ''threadId'', JStr t)]
                     [(js ''lastReadThreadSeq'', JNum (int target))]
                     (d\<lparr>thread_participants := upd_where (\<lambda>p. p_thread p = t \<and> p_session p = OPERATOR_SESSION_ID)
                          (\<lambda>p. p\<lparr>p_lastRead := target\<rparr>) (thread_participants d)\<rparr>), Inr target))"

end
