(* ===== verification/Recovery.thy ===== *)
theory Recovery
  imports Delivery_Flow
begin

text \<open>
  Cancellation by the sender (\<^verbatim>\<open>src/broker/cancellation.ts\<close>) and the dead-letter queue
  (\<^verbatim>\<open>src/broker/deadletter.ts\<close>): listing, inspection, redrive and discard. No statement of the broker
  writes \<open>last_error_code\<close>, so the column is not part of a delivery row and the \<open>lastError\<close> field of a record is
  always null.
\<close>

section \<open>Cancellation\<close>

fun state_name :: "delivery_state \<Rightarrow> string" where
  "state_name Queued = ''queued''"
| "state_name Dispatching = ''dispatching''"
| "state_name Transport_Written = ''transport_written''"
| "state_name Accepted = ''accepted''"
| "state_name Completed = ''completed''"
| "state_name Retry_Wait = ''retry_wait''"
| "state_name Rejected = ''rejected''"
| "state_name Expired = ''expired''"
| "state_name Dead_Letter = ''dead_letter''"
| "state_name Cancelled = ''cancelled''"

datatype cancel_outcome =
  Cancelled_Before_Delivery | Cancellation_Requested_After_Injection | Already_Completed | Cannot_Confirm_Delivery_State

record cancel_result =
  cr_outcome :: cancel_outcome
  cr_state :: string
  cr_detail :: string

definition cancel_audit :: "env \<Rightarrow> string \<Rightarrow> js_string \<Rightarrow> js_string option \<Rightarrow> db \<Rightarrow> db" where
  "cancel_audit E ev mid reason =
     insert_audit E ev None None (Some mid) None (if truthy reason then [(''reason'', JStr (the reason))] else [])"

text \<open>
  The UPDATE touches the row the SELECT has just read, so that the recursive call for a lost race is not
  reachable inside the transaction.
\<close>

definition cancel_waiting :: "env \<Rightarrow> js_string \<Rightarrow> db \<Rightarrow> db" where
  "cancel_waiting E mid d =
     d\<lparr>deliveries := upd_where (\<lambda>x. d_message x = mid \<and> d_state x \<in> {Queued, Retry_Wait})
         (\<lambda>x. x\<lparr>d_state := Cancelled, d_updatedAt := now E\<rparr>) (deliveries d)\<rparr>"

definition cancel :: "env \<Rightarrow> js_string \<Rightarrow> js_string option \<Rightarrow> db \<Rightarrow> cancel_result result" where
  "cancel E mid reason =
     transaction (\<lambda>d.
       case delivery_row d mid of
         None \<Rightarrow> (d, Inr \<lparr>cr_outcome = Cannot_Confirm_Delivery_State, cr_state = ''unknown'', cr_detail = ''no such delivery''\<rparr>)
       | Some x \<Rightarrow>
           if d_state x = Queued \<or> d_state x = Retry_Wait
           then (cancel_audit E ''CANCELLED_BEFORE_DELIVERY'' mid reason (cancel_waiting E mid d),
                 Inr \<lparr>cr_outcome = Cancelled_Before_Delivery, cr_state = state_name Cancelled,
                      cr_detail = ''delivery prevented before any context injection''\<rparr>)
           else if d_state x = Transport_Written \<or> d_state x = Accepted
           then (cancel_audit E ''CANCELLATION_REQUESTED_AFTER_INJECTION'' mid reason d,
                 Inr \<lparr>cr_outcome = Cancellation_Requested_After_Injection, cr_state = state_name (d_state x),
                      cr_detail = ''message already injected into recipient context; cancellation is a request, not a guarantee''\<rparr>)
           else if d_state x = Completed
           then (d, Inr \<lparr>cr_outcome = Already_Completed, cr_state = state_name (d_state x),
                        cr_detail = ''the request already completed''\<rparr>)
           else (d, Inr \<lparr>cr_outcome = Cannot_Confirm_Delivery_State, cr_state = state_name (d_state x),
                        cr_detail = ''delivery is in terminal state '' @ state_name (d_state x)\<rparr>))"

section \<open>Dead letters\<close>

record attempt_counts =
  at_transport :: nat
  at_injection :: nat
  at_ackTimeout :: nat
  at_reply :: nat

record dead_letter_record =
  dl_message :: js_string
  dl_sender :: js_string
  dl_recipient :: js_string
  dl_receiveMode :: js_string
  dl_lastState :: delivery_state
  dl_category :: string
  dl_attempts :: attempt_counts
  dl_createdAt :: int
  dl_lastAttemptAt :: int
  dl_expiredAt :: "int option"
  dl_recovery :: string

definition recommend :: "string \<Rightarrow> string" where
  "recommend category =
     (if category = ''max_attempts'' then ''Transient failures exhausted retries. Use the `dead-letter retry <id>` command (revalidated).''
      else if category = ''recipient_gone'' then ''Recipient session no longer exists. Confirm the recipient is running, then retry.''
      else if category = ''expired'' then ''Message passed its acceptance TTL. Resend a fresh message if still relevant.''
      else ''Inspect the failure, then retry or discard explicitly.'')"

definition toRecord :: "db \<Rightarrow> delivery_row \<times> message_row \<Rightarrow> dead_letter_record" where
  "toRecord d xm =
     (case xm of (x, m) \<Rightarrow>
       let cat = (case d_failureCategory x of None \<Rightarrow> ''unknown'' | Some c \<Rightarrow> c) in
       \<lparr>dl_message = d_message x, dl_sender = m_senderAlias m, dl_recipient = m_recipientAlias m,
        dl_receiveMode = (case session_row d (d_recipient x) of None \<Rightarrow> js ''unknown'' | Some s \<Rightarrow> s_receiveMode s),
        dl_lastState = d_state x, dl_category = cat,
        dl_attempts = \<lparr>at_transport = d_attemptTransport x, at_injection = d_attemptInjection x,
                       at_ackTimeout = d_attemptAckTimeout x, at_reply = d_attemptReply x\<rparr>,
        dl_createdAt = d_createdAt x, dl_lastAttemptAt = d_updatedAt x, dl_expiredAt = m_expiresAt m,
        dl_recovery = recommend cat\<rparr>)"

definition list_dead :: "db \<Rightarrow> dead_letter_record list" where
  "list_dead d = map (toRecord d) (sort_key (\<lambda>(x, m). - d_updatedAt x) (filter (\<lambda>(x, m). d_state x = Dead_Letter) (joined d)))"

definition inspect :: "js_string \<Rightarrow> db \<Rightarrow> dead_letter_record option" where
  "inspect mid d = map_option (toRecord d) (List.find (\<lambda>(x, m). d_state x = Dead_Letter \<and> d_message x = mid) (joined d))"

record redrive_result =
  rv_ok :: bool
  rv_newDelivery :: "js_string option"
  rv_warning :: "string option"
  rv_reason :: "string option"

definition redrive_refused :: "string \<Rightarrow> redrive_result" where
  "redrive_refused why = \<lparr>rv_ok = False, rv_newDelivery = None, rv_warning = None, rv_reason = Some why\<rparr>"

definition redrive_row :: "env \<Rightarrow> js_string \<Rightarrow> delivery_row \<Rightarrow> delivery_row" where
  "redrive_row E i x =
     x\<lparr>d_id := i, d_state := Queued, d_failureCategory := None, d_nextAttemptAt := None, d_transportWrittenAt := None,
       d_acceptedAt := None, d_completedAt := None, d_leaseExpiresAt := None, d_leaseAcquiredAt := None,
       d_targetInstance := None, d_targetGeneration := None, d_attempt := 0, d_attemptTransport := 0,
       d_attemptInjection := 0, d_attemptAckTimeout := 0, d_attemptReply := 0, d_updatedAt := now E\<rparr>"

definition redrive_fields :: "js_string \<Rightarrow> delivery_row \<Rightarrow> string option \<Rightarrow> (string \<times> jval) list" where
  "redrive_fields i x warning =
     [(''newDeliveryId'', JStr i), (''priorDeliveryId'', JStr (d_id x)),
      (''priorAttempts'', JObj [(js ''attempt'', JNum (int (d_attempt x))), (js ''transport'', JNum (int (d_attemptTransport x))),
         (js ''injection'', JNum (int (d_attemptInjection x))), (js ''ackTimeout'', JNum (int (d_attemptAckTimeout x))),
         (js ''reply'', JNum (int (d_attemptReply x)))]),
      (''priorFailureCategory'', case d_failureCategory x of None \<Rightarrow> JNull | Some c \<Rightarrow> JStr (js c))]
     @ (case warning of None \<Rightarrow> [] | Some w \<Rightarrow> [(''warning'', JStr (js w))])"

text \<open>\<open>validate\<close> is the caller's revalidation of the recipient and of the sender's alias; \<open>None\<close> is its approval.\<close>

definition redrive :: "env \<Rightarrow> (js_string \<Rightarrow> js_string \<Rightarrow> string option option) \<Rightarrow> js_string \<Rightarrow> db \<Rightarrow> redrive_result result" where
  "redrive E validate mid =
     transaction (\<lambda>d.
       case message_row d mid of
         None \<Rightarrow> (d, Inr (redrive_refused ''message not found''))
       | Some msg \<Rightarrow>
           (case delivery_row d mid of
              None \<Rightarrow> (d, Inr (redrive_refused ''not in dead_letter state''))
            | Some x \<Rightarrow>
                if d_state x \<noteq> Dead_Letter then (d, Inr (redrive_refused ''not in dead_letter state''))
                else case validate (m_recipient msg) (to_lower (uni E) (m_senderAlias msg)) of
                  Some reason \<Rightarrow> (d, Inr (redrive_refused (case reason of None \<Rightarrow> ''revalidation failed'' | Some r \<Rightarrow> r)))
                | None \<Rightarrow>
                    let warning = (if list_ex (\<lambda>r. ci_message r = mid) (context_injections d)
                          then Some ''this message was previously context-injected; redrive may duplicate it in the recipient context''
                          else None);
                        (i, d) = next_id E d;
                        d = d\<lparr>deliveries := upd_where (\<lambda>x. d_message x = mid) (redrive_row E i) (deliveries d)\<rparr>;
                        d = insert_audit E ''DEAD_LETTER_REDRIVE'' None None (Some mid) None (redrive_fields i x warning) d
                    in (d, Inr \<lparr>rv_ok = True, rv_newDelivery = Some i, rv_warning = warning, rv_reason = None\<rparr>)))"

definition discard :: "env \<Rightarrow> js_string \<Rightarrow> db \<Rightarrow> bool \<times> db" where
  "discard E mid d =
     (let hit = (\<lambda>x. d_message x = mid \<and> d_state x = Dead_Letter) in
      if changes hit (deliveries d) = 0 then (False, d)
      else (True, insert_audit E ''DEAD_LETTER_DISCARD'' None None (Some mid) None []
              (d\<lparr>deliveries := upd_where hit (\<lambda>x. x\<lparr>d_state := Cancelled, d_failureCategory := Some ''discarded'',
                   d_updatedAt := now E\<rparr>) (deliveries d)\<rparr>)))"

end
