(* ===== verification/Reaper.thy ===== *)
theory Reaper
  imports Recovery Registration
begin

text \<open>
  The maintenance sweep of \<^verbatim>\<open>src/broker/reaper.ts\<close>: acknowledgement timeouts, acceptance deadlines, lapsed
  leases, session expiry, old schedule runs and stale name reservations. The timestamps the sweep writes
  into audit metadata are instants, as everywhere in the model.
\<close>

section \<open>Model\<close>

text \<open>
  \<open>ro_rng m\<close> is the number the random source returns when this pass backs off message \<open>m\<close>; the pass draws at
  most one number per selected row.
\<close>

record reaper_options =
  ro_backoff :: backoff_config
  ro_perSessionCap :: int
  ro_scheduleRunRetentionMs :: int
  ro_rng :: "js_string \<Rightarrow> rat"

definition default_reaper :: reaper_options where
  "default_reaper = \<lparr>ro_backoff = DEFAULT_BACKOFF, ro_perSessionCap = 256,
     ro_scheduleRunRetentionMs = 7 * 24 * 60 * 60 * 1000, ro_rng = (\<lambda>_. 1)\<rparr>"

record sweep_result =
  sw_ackTimedOut :: nat
  sw_deadLettered :: nat
  sw_expired :: nat
  sw_leasesReclaimed :: nat
  sw_sessionsExpired :: nat
  sw_scheduleRunsPruned :: nat

definition reaper_audit :: "env \<Rightarrow> string \<Rightarrow> js_string option \<Rightarrow> (string \<times> jval) list \<Rightarrow> db \<Rightarrow> db" where
  "reaper_audit E ev mid fs = insert_audit E ev None None mid None fs"

definition count_field :: "nat \<Rightarrow> (string \<times> jval) list" where
  "count_field n = [(''count'', JNum (int n))]"

text \<open>\<open>reapStalePendingNames\<close>\<close>

definition stale_pending :: "env \<Rightarrow> session_row \<Rightarrow> bool" where
  "stale_pending E s \<longleftrightarrow> s_nameState s = Pending \<and>
     (case s_pendingNameExpiresAt s of None \<Rightarrow> False | Some t \<Rightarrow> t \<le> now E)"

definition reapStalePendingNames :: "env \<Rightarrow> db \<Rightarrow> db" where
  "reapStalePendingNames E d =
     (let n = changes (stale_pending E) (sessions d);
          d = d\<lparr>sessions := upd_where (stale_pending E)
                  (\<lambda>s. s\<lparr>s_nameState := Unnamed, s_name := None, s_normName := None, s_pendingNameExpiresAt := None,
                         s_updatedAt := now E\<rparr>) (sessions d)\<rparr>
      in if n > 0 then reaper_audit E ''PENDING_NAME_RESERVATION_LAPSED'' None (count_field n) d else d)"

text \<open>\<open>reapExpiredSessions\<close>\<close>

definition due_session :: "env \<Rightarrow> session_row \<Rightarrow> bool" where
  "due_session E s \<longleftrightarrow> s_expiredAt s = None \<and> (case s_expiresAt s of None \<Rightarrow> False | Some t \<Rightarrow> t \<le> now E) \<and>
     s_id s \<noteq> OPERATOR_SESSION_ID"

definition due_sessions :: "env \<Rightarrow> db \<Rightarrow> js_string list" where
  "due_sessions E d = map s_id (sort_key (\<lambda>s. the (s_expiresAt s)) (filter (due_session E) (sessions d)))"

definition expire_row :: "env \<Rightarrow> session_row \<Rightarrow> session_row" where
  "expire_row E s = s\<lparr>s_expiredAt := Some (now E), s_expReason := Some ''recipient_inactive_15_days'',
     s_readiness := Disconnected, s_pendingNameExpiresAt := None, s_updatedAt := now E\<rparr>"

definition close_components :: "env \<Rightarrow> js_string \<Rightarrow> db \<Rightarrow> db" where
  "close_components E sid d = d\<lparr>component_instances := upd_where (\<lambda>c. c_session c = sid \<and> c_state c = Comp_Live)
     (\<lambda>c. c\<lparr>c_state := Comp_Closed, c_disconnectedAt := Some (now E)\<rparr>) (component_instances d)\<rparr>"

definition retire_aliases :: "env \<Rightarrow> js_string \<Rightarrow> db \<Rightarrow> db" where
  "retire_aliases E sid d = d\<lparr>aliases := upd_where (\<lambda>a. al_session a = sid \<and> al_active a)
     (\<lambda>a. a\<lparr>al_active := False, al_retiredAt := Some (now E)\<rparr>) (aliases d)\<rparr>"

text \<open>A comparison with a NULL \<open>logical_identity_id\<close> is not true.\<close>

definition purge_map :: "js_string \<Rightarrow> db \<Rightarrow> db" where
  "purge_map sid d =
     (let logical = (case session_row d sid of None \<Rightarrow> None | Some s \<Rightarrow> s_logical s) in
      d\<lparr>physical_session_map := del_where (\<lambda>r. pm_canonical r = sid \<or> pm_physical r = sid \<or> logical = Some (pm_logical r))
          (physical_session_map d)\<rparr>)"

definition dead_letter_recipient :: "env \<Rightarrow> js_string \<Rightarrow> db \<Rightarrow> db" where
  "dead_letter_recipient E sid d =
     d\<lparr>deliveries := upd_where (\<lambda>x. d_recipient x = sid \<and> d_state x \<in> {Queued, Retry_Wait, Transport_Written})
         (\<lambda>x. x\<lparr>d_state := Dead_Letter, d_failureCategory := Some ''recipient_inactive_15_days'', d_nextAttemptAt := None,
                d_leaseExpiresAt := None, d_updatedAt := now E\<rparr>) (deliveries d)\<rparr>"

definition message_requires :: "(message_row \<Rightarrow> bool) \<Rightarrow> db \<Rightarrow> js_string \<Rightarrow> bool" where
  "message_requires q d mid = (case message_row d mid of None \<Rightarrow> False | Some m \<Rightarrow> q m)"

definition expire_owed_replies :: "env \<Rightarrow> js_string \<Rightarrow> db \<Rightarrow> db" where
  "expire_owed_replies E sid d =
     d\<lparr>deliveries := upd_where (\<lambda>x. d_recipient x = sid \<and> d_state x = Accepted \<and> message_requires m_requiresReply d (d_message x))
         (\<lambda>x. x\<lparr>d_state := Expired, d_failureCategory := Some ''reply_pending_unanswered_15_days'', d_nextAttemptAt := None,
                d_leaseExpiresAt := None, d_updatedAt := now E\<rparr>) (deliveries d)\<rparr>"

definition release_leases :: "env \<Rightarrow> (lease_row \<Rightarrow> bool) \<Rightarrow> db \<Rightarrow> db" where
  "release_leases E p d = d\<lparr>delivery_leases := upd_where (\<lambda>l. ls_state l = Held \<and> p l)
     (\<lambda>l. l\<lparr>ls_state := Lease_Expired, ls_releasedAt := Some (now E)\<rparr>) (delivery_leases d)\<rparr>"

definition expire_session :: "env \<Rightarrow> js_string \<Rightarrow> db \<Rightarrow> db" where
  "expire_session E sid d =
     (let d = d\<lparr>sessions := upd_where (\<lambda>s. s_id s = sid \<and> s_expiredAt s = None) (expire_row E) (sessions d)\<rparr>;
          d = close_components E sid d;
          d = retire_aliases E sid d;
          d = purge_map sid d;
          d = dead_letter_recipient E sid d;
          d = expire_owed_replies E sid d;
          d = release_leases E (\<lambda>l. list_ex (\<lambda>x. d_message x = ls_message l \<and> d_recipient x = sid \<and> d_state x = Dead_Letter \<and>
                d_failureCategory x = Some ''recipient_inactive_15_days'') (deliveries d)) d
      in reaper_audit E ''SESSION_EXPIRED'' None
           [(''sessionId'', JStr sid), (''reason'', JStr (js ''recipient_inactive_15_days''))] d)"

fun expire_all :: "env \<Rightarrow> js_string list \<Rightarrow> db \<Rightarrow> nat \<times> db" where
  "expire_all E [] d = (0, d)"
| "expire_all E (sid # rest) d =
     (if changes (\<lambda>s. s_id s = sid \<and> s_expiredAt s = None) (sessions d) = 0 then expire_all E rest d
      else let (n, d) = expire_all E rest (expire_session E sid d) in (Suc n, d))"

definition reapExpiredSessions :: "env \<Rightarrow> db \<Rightarrow> nat \<times> db" where
  "reapExpiredSessions E d = expire_all E (due_sessions E d) d"

text \<open>\<open>reapAckTimeouts\<close>: the rows are selected once, then worked off with a budget per recipient.\<close>

definition ack_due :: "env \<Rightarrow> delivery_row \<Rightarrow> message_row \<Rightarrow> bool" where
  "ack_due E x m \<longleftrightarrow> d_state x = Transport_Written \<and> m_requiresAck m \<and>
     (case d_leaseExpiresAt x of None \<Rightarrow> False | Some t \<Rightarrow> t \<le> now E)"

definition ack_timeout_rows :: "env \<Rightarrow> db \<Rightarrow> delivery_row list" where
  "ack_timeout_rows E d = map fst (sort_key (\<lambda>(x, m). d_updatedAt x) (filter (\<lambda>(x, m). ack_due E x m) (joined d)))"

definition still_unacked :: "db \<Rightarrow> js_string \<Rightarrow> delivery_row \<Rightarrow> bool" where
  "still_unacked d mid x \<longleftrightarrow> d_message x = mid \<and> d_state x = Transport_Written \<and> message_requires m_requiresAck d (d_message x)"

definition timeout_dead :: "env \<Rightarrow> nat \<Rightarrow> delivery_row \<Rightarrow> delivery_row" where
  "timeout_dead E nextAttempt x = x\<lparr>d_state := Dead_Letter, d_attemptAckTimeout := nextAttempt,
     d_failureCategory := Some ''ack_timeout_exhausted'', d_leaseExpiresAt := None, d_updatedAt := now E\<rparr>"

definition timeout_retry :: "env \<Rightarrow> nat \<Rightarrow> int \<Rightarrow> delivery_row \<Rightarrow> delivery_row" where
  "timeout_retry E nextAttempt nextAttemptAt x = x\<lparr>d_state := Retry_Wait, d_attemptAckTimeout := nextAttempt,
     d_failureCategory := Some ''ack_timeout'', d_transportWrittenAt := None, d_leaseExpiresAt := None,
     d_targetInstance := None, d_nextAttemptAt := Some nextAttemptAt, d_updatedAt := now E\<rparr>"

text \<open>One selected row: (timed out, dead-lettered) counts and the new state.\<close>

definition timeout_one :: "reaper_options \<Rightarrow> env \<Rightarrow> delivery_row \<Rightarrow> db \<Rightarrow> (nat \<times> nat) \<times> db" where
  "timeout_one opts E r d =
     (let mid = d_message r;
          nextAttempt = d_attemptAckTimeout r + 1
      in if bc_maxAttempts (ro_backoff opts) \<le> nextAttempt
         then if changes (still_unacked d mid) (deliveries d) = 0 then ((0, 0), d)
              else ((0, 1), reaper_audit E ''ACK_TIMEOUT_DEAD_LETTER'' (Some mid) [(''attempt'', JNum (int nextAttempt))]
                     (d\<lparr>deliveries := upd_where (still_unacked d mid) (timeout_dead E nextAttempt) (deliveries d)\<rparr>))
         else let delayMs = nextBackoffMs (nextAttempt - 1) (ro_backoff opts) (ro_rng opts mid);
                  nextAttemptAt = now E + delayMs
              in if changes (still_unacked d mid) (deliveries d) = 0 then ((0, 0), d)
                 else ((1, 0), reaper_audit E ''ACK_TIMEOUT_REQUEUE'' (Some mid)
                         [(''attempt'', JNum (int nextAttempt)), (''nextAttemptAt'', JNum nextAttemptAt), (''delayMs'', JNum delayMs)]
                         (release_leases E (\<lambda>l. ls_message l = mid)
                            (d\<lparr>deliveries := upd_where (still_unacked d mid) (timeout_retry E nextAttempt nextAttemptAt) (deliveries d)\<rparr>))))"

text \<open>\<open>used\<close> is the per-recipient count of rows already taken in this pass.\<close>

fun timeout_all :: "reaper_options \<Rightarrow> env \<Rightarrow> (js_string \<Rightarrow> nat) \<Rightarrow> delivery_row list \<Rightarrow> db \<Rightarrow> (nat \<times> nat) \<times> db" where
  "timeout_all opts E used [] d = ((0, 0), d)"
| "timeout_all opts E used (r # rs) d =
     (if 0 < ro_perSessionCap opts \<and> ro_perSessionCap opts \<le> int (used (d_recipient r)) then timeout_all opts E used rs d
      else let ((a, b), d) = timeout_one opts E r d;
               ((a', b'), d) = timeout_all opts E (used(d_recipient r := Suc (used (d_recipient r)))) rs d
           in ((a + a', b + b'), d))"

definition reapAckTimeouts :: "reaper_options \<Rightarrow> env \<Rightarrow> db \<Rightarrow> (nat \<times> nat) \<times> db" where
  "reapAckTimeouts opts E d = timeout_all opts E (\<lambda>_. 0) (ack_timeout_rows E d) d"

text \<open>\<open>reapAcceptanceTtl\<close>\<close>

definition ttl_due :: "env \<Rightarrow> delivery_row \<Rightarrow> message_row \<Rightarrow> bool" where
  "ttl_due E x m \<longleftrightarrow> d_state x \<in> {Queued, Retry_Wait} \<and> (case m_expiresAt m of None \<Rightarrow> False | Some t \<Rightarrow> t \<le> now E)"

definition ttl_rows :: "env \<Rightarrow> db \<Rightarrow> js_string list" where
  "ttl_rows E d = map (\<lambda>(x, m). d_message x) (sort_key (\<lambda>(x, m). d_updatedAt x) (filter (\<lambda>(x, m). ttl_due E x m) (joined d)))"

definition expire_waiting :: "env \<Rightarrow> js_string \<Rightarrow> db \<Rightarrow> db" where
  "expire_waiting E mid d =
     d\<lparr>deliveries := upd_where (\<lambda>x. d_message x = mid \<and> d_state x \<in> {Queued, Retry_Wait})
         (\<lambda>x. x\<lparr>d_state := Expired, d_failureCategory := Some ''expired_before_injection'', d_updatedAt := now E\<rparr>) (deliveries d)\<rparr>"

fun expire_messages :: "env \<Rightarrow> js_string list \<Rightarrow> db \<Rightarrow> nat \<times> db" where
  "expire_messages E [] d = (0, d)"
| "expire_messages E (mid # rest) d =
     (if changes (\<lambda>x. d_message x = mid \<and> d_state x \<in> {Queued, Retry_Wait}) (deliveries d) = 0 then expire_messages E rest d
      else let (n, d) = expire_messages E rest (reaper_audit E ''EXPIRED_BEFORE_INJECTION'' (Some mid) [] (expire_waiting E mid d))
           in (Suc n, d))"

definition reapAcceptanceTtl :: "env \<Rightarrow> db \<Rightarrow> nat \<times> db" where
  "reapAcceptanceTtl E d = expire_messages E (ttl_rows E d) d"

definition reclaimLeases :: "env \<Rightarrow> db \<Rightarrow> nat \<times> db" where
  "reclaimLeases E d =
     (let n = changes (\<lambda>l. ls_state l = Held \<and> ls_expiresAt l \<le> now E) (delivery_leases d);
          d = release_leases E (\<lambda>l. ls_expiresAt l \<le> now E) d
      in (n, if n > 0 then reaper_audit E ''LEASES_RECLAIMED'' None (count_field n) d else d))"

definition old_run :: "int \<Rightarrow> run_row \<Rightarrow> bool" where
  "old_run cutoff r \<longleftrightarrow> sr_state r \<in> {Run_Sent, Run_Skipped, Run_Failed} \<and> sr_scheduledFor r < cutoff"

definition reapOldScheduleRuns :: "reaper_options \<Rightarrow> env \<Rightarrow> db \<Rightarrow> nat \<times> db" where
  "reapOldScheduleRuns opts E d =
     (if ro_scheduleRunRetentionMs opts \<le> 0 then (0, d)
      else let cutoff = now E - ro_scheduleRunRetentionMs opts;
               n = changes (old_run cutoff) (schedule_runs d);
               d = d\<lparr>schedule_runs := del_where (old_run cutoff) (schedule_runs d)\<rparr>
           in (n, if n > 0 then reaper_audit E ''SCHEDULE_RUNS_PRUNED'' None (count_field n @ [(''cutoff'', JNum cutoff)]) d else d))"

definition sweep :: "reaper_options \<Rightarrow> env \<Rightarrow> db \<Rightarrow> sweep_result result" where
  "sweep opts E =
     transaction (\<lambda>d.
       let ((a, b), d) = reapAckTimeouts opts E d;
           (e, d) = reapAcceptanceTtl E d;
           (l, d) = reclaimLeases E d;
           (s, d) = reapExpiredSessions E d;
           (p, d) = reapOldScheduleRuns opts E d;
           d = reapStalePendingNames E d
       in (d, Inr \<lparr>sw_ackTimedOut = a, sw_deadLettered = b, sw_expired = e, sw_leasesReclaimed = l,
                   sw_sessionsExpired = s, sw_scheduleRunsPruned = p\<rparr>))"

end
