(* ===== verification/Operator_Console.thy ===== *)
theory Operator_Console
  imports Sending Reaper
begin

text \<open>
  The operator console's operations of \<^verbatim>\<open>src/broker/store.ts\<close> (lines 1672 to the end): renaming and pausing a
  session, redelivery with the confirmed replay of accepted work, collections, pins and archive, removal of a
  record, managed sessions, wake bookkeeping and schedules.
\<close>

section \<open>Sessions\<close>

definition requireSession :: "db \<Rightarrow> js_string \<Rightarrow> xerror + session_row" where
  "requireSession d sid = (case session_row d sid of None \<Rightarrow> Inl (xerr MESSAGE_NOT_FOUND) | Some s \<Rightarrow> Inr s)"

definition with_session :: "js_string \<Rightarrow> (session_row \<Rightarrow> db \<Rightarrow> 'a result) \<Rightarrow> db \<Rightarrow> 'a result" where
  "with_session sid k d = (case requireSession d sid of Inl e \<Rightarrow> (d, Inl e) | Inr s \<Rightarrow> k s d)"

text \<open>
  As in registration the UPDATE cannot violate \<open>ux_session_name_active\<close> once \<open>name_taken\<close> is false, so that the
  catch branch is not reachable.
\<close>

definition operatorRenameAlias :: "env \<Rightarrow> js_string \<Rightarrow> js_string \<Rightarrow> db \<Rightarrow> (name_state \<times> js_string) result" where
  "operatorRenameAlias E sid rawName =
     transaction (with_session sid (\<lambda>_ d.
       case validateSessionName (uni E) rawName of
         Inl e \<Rightarrow> (d, Inl e)
       | Inr nm \<Rightarrow>
           if name_taken d (nsn_normalized nm) sid
           then (d, Inl (XBusError SESSION_NAME_TAKEN [(js ''name'', JStr (nsn_display nm))]))
           else
             let d = upd_session sid (set_name E nm) d;
                 (_, d) = setNameOwnershipActive E (logicalIdOf d sid) sid nm d;
                 d = ledger E ''OPERATOR_ALIAS_RENAMED'' OPERATOR_LEDGER_ACTOR [(js ''sessionId'', JStr sid)]
                       [(js ''alias'', JStr (nsn_display nm))] d
             in (d, Inr (Active, nsn_display nm))))"

fun control_name :: "receive_control \<Rightarrow> string" where
  "control_name RC_Active = ''active''"
| "control_name RC_Paused = ''paused''"
| "control_name RC_Do_Not_Disturb = ''do_not_disturb''"
| "control_name RC_Manual_Checkpoint = ''manual_checkpoint''"

definition operatorSetControl :: "env \<Rightarrow> js_string \<Rightarrow> receive_control \<Rightarrow> db \<Rightarrow> (js_string \<times> receive_control) result" where
  "operatorSetControl E sid mode =
     transaction (with_session sid (\<lambda>_ d.
       (ledger E ''OPERATOR_CONTROL_SET'' OPERATOR_LEDGER_ACTOR [(js ''sessionId'', JStr sid)]
          [(js ''mode'', JStr (js (control_name mode)))] (setControl E sid mode d), Inr (sid, mode))))"

section \<open>Redelivery\<close>

datatype redeliver_outcome = Redelivered | Replayed | Redeliver_Not_Found

record operator_redelivery =
  ord_message :: js_string
  ord_outcome :: redeliver_outcome
  ord_replay :: bool
  ord_attempt :: "js_string option"
  ord_state :: "delivery_state option"

definition rearm_row :: "env \<Rightarrow> delivery_row \<Rightarrow> delivery_row" where
  "rearm_row E x = x\<lparr>d_state := Queued, d_transportWrittenAt := None, d_targetInstance := None, d_nextAttemptAt := None,
     d_leaseExpiresAt := None, d_updatedAt := now E\<rparr>"

definition operatorRedeliver :: "env \<Rightarrow> js_string \<Rightarrow> js_string option \<Rightarrow> bool \<Rightarrow> db \<Rightarrow> operator_redelivery result" where
  "operatorRedeliver E mid why confirmed =
     transaction (\<lambda>d.
       case delivery_row d mid of
         None \<Rightarrow> (d, Inr \<lparr>ord_message = mid, ord_outcome = Redeliver_Not_Found, ord_replay = False, ord_attempt = None, ord_state = None\<rparr>)
       | Some x \<Rightarrow>
           let reason = take 120 (case why of None \<Rightarrow> [] | Some r \<Rightarrow> r);
               rsid = d_recipient x
           in if d_state x = Accepted
              then if \<not> confirmed
                   then (audit E ''OPERATOR_ACCEPTED_REPLAY_REFUSED_UNCONFIRMED'' [(''sessionId'', JStr rsid), (''messageId'', JStr mid)] d,
                         Inl (xerr ILLEGAL_STATE_TRANSITION))
                   else
                     let (attemptId, d) = next_id E d;
                         d = d\<lparr>deliveries := upd_where (\<lambda>x. d_message x = mid \<and> d_state x = Accepted)
                               (\<lambda>x. (rearm_row E x)\<lparr>d_acceptedAt := None\<rparr>) (deliveries d)\<rparr>;
                         d = audit E ''OPERATOR_ACCEPTED_REPLAY'' [(''sessionId'', JStr rsid), (''messageId'', JStr mid),
                               (''attemptId'', JStr attemptId), (''reason'', JStr reason), (''priorState'', JStr (js ''accepted''))] d
                     in (d, Inr \<lparr>ord_message = mid, ord_outcome = Replayed, ord_replay = True, ord_attempt = Some attemptId,
                                 ord_state = Some Queued\<rparr>)
              else if d_state x \<in> {Queued, Retry_Wait, Transport_Written}
              then (audit E ''OPERATOR_REDELIVERY'' [(''sessionId'', JStr rsid), (''messageId'', JStr mid), (''reason'', JStr reason)]
                      (d\<lparr>deliveries := upd_where (\<lambda>x. d_message x = mid \<and> d_state x \<in> {Queued, Retry_Wait, Transport_Written})
                          (rearm_row E) (deliveries d)\<rparr>),
                    Inr \<lparr>ord_message = mid, ord_outcome = Redelivered, ord_replay = False, ord_attempt = None, ord_state = Some Queued\<rparr>)
              else (d, Inl (xerr ILLEGAL_STATE_TRANSITION)))"

section \<open>Collections\<close>

record collection_input =
  ci2_id :: js_string
  ci2_name :: js_string
  ci2_sortOrder :: "int option"
  ci2_state :: "js_string option"

record collections_view =
  cv_version :: nat
  cv_collections :: "collection_row list"
  cv_members :: "(js_string \<times> js_string list) list"

definition push_member :: "member_row \<Rightarrow> (js_string \<times> js_string list) list \<Rightarrow> (js_string \<times> js_string list) list" where
  "push_member r ms =
     obj_put (cm_agent r) ((case map_of ms (cm_agent r) of None \<Rightarrow> [] | Some cs \<Rightarrow> cs) @ [cm_collection r]) ms"

definition readCollections :: "db \<Rightarrow> collections_view" where
  "readCollections d =
     (let cols = sort_key co_sortOrder (sort_key co_normName (collections d));
          rows = sort_key cm_sortOrder (collection_members d)
      in \<lparr>cv_version = length cols + length rows + 1, cv_collections = cols, cv_members = fold push_member rows []\<rparr>)"

definition readCollectionsVersion :: "db \<Rightarrow> nat" where
  "readCollectionsVersion d = length (collections d) + length (collection_members d) + 1"

definition collection_state :: "collection_input \<Rightarrow> js_string" where
  "collection_state c = (case ci2_state c of None \<Rightarrow> js ''active'' | Some s \<Rightarrow> s)"

definition collection_norm :: "env \<Rightarrow> collection_input \<Rightarrow> js_string" where
  "collection_norm E c = to_lower (uni E) (js_trim (ci2_name c))"

text \<open>The guard against two active collections with the same normalised name.\<close>

definition active_norms :: "env \<Rightarrow> collection_input list \<Rightarrow> js_string list" where
  "active_norms E cs = map (collection_norm E) (filter (\<lambda>c. collection_state c = js ''active'') cs)"

definition new_collection :: "env \<Rightarrow> collection_input \<Rightarrow> collection_row" where
  "new_collection E c =
     \<lparr>co_id = ci2_id c, co_name = ci2_name c, co_normName = collection_norm E c,
      co_sortOrder = (case ci2_sortOrder c of None \<Rightarrow> 0 | Some n \<Rightarrow> n), co_state = collection_state c,
      co_createdAt = now E, co_updatedAt = now E\<rparr>"

text \<open>The memberships of one agent: references to collections of the payload, without repetition, numbered.\<close>

definition agent_members :: "env \<Rightarrow> js_string list \<Rightarrow> js_string \<times> js_string list \<Rightarrow> member_row list" where
  "agent_members E validIds entry =
     (case entry of (agent, cids) \<Rightarrow>
       map (\<lambda>(n, c). \<lparr>cm_collection = c, cm_agent = agent, cm_sortOrder = n, cm_createdAt = now E\<rparr>)
         (List.enumerate 0 (rev (remdups (rev (filter (\<lambda>c. c \<in> set validIds) cids))))))"

definition replaceCollections ::
  "env \<Rightarrow> collection_input list \<Rightarrow> (js_string \<times> js_string list) list \<Rightarrow> db \<Rightarrow> nat result" where
  "replaceCollections E cols members =
     transaction (\<lambda>d.
       if \<not> distinct (active_norms E cols) then (d, Inl (xerr ILLEGAL_STATE_TRANSITION))
       else
         let d = d\<lparr>collection_members := [], collections := []\<rparr> in
         if \<not> distinct (map ci2_id cols) then (d, Inl SqliteConstraint)
         else
           let d = d\<lparr>collections := map (new_collection E) cols,
                     collection_members := concat (map (agent_members E (map ci2_id cols)) members)\<rparr>;
               d = ledger E ''OPERATOR_COLLECTIONS_REPLACED'' OPERATOR_LEDGER_ACTOR [] [(js ''collections'', JNum (int (length cols)))] d
           in (d, Inr (readCollectionsVersion d)))"

section \<open>Records\<close>

definition operatorSetPinned :: "env \<Rightarrow> js_string \<Rightarrow> bool \<Rightarrow> db \<Rightarrow> (js_string \<times> bool) result" where
  "operatorSetPinned E sid pinned =
     transaction (with_session sid (\<lambda>_ d.
       (ledger E (if pinned then ''OPERATOR_SESSION_PINNED'' else ''OPERATOR_SESSION_UNPINNED'') OPERATOR_LEDGER_ACTOR
          [(js ''sessionId'', JStr sid)] []
          (upd_session sid (\<lambda>s. s\<lparr>s_pinned := pinned, s_updatedAt := now E\<rparr>) d), Inr (sid, pinned))))"

definition operatorSetArchived :: "env \<Rightarrow> js_string \<Rightarrow> bool \<Rightarrow> db \<Rightarrow> (js_string \<times> bool) result" where
  "operatorSetArchived E sid archived =
     transaction (with_session sid (\<lambda>_ d.
       (ledger E (if archived then ''OPERATOR_SESSION_ARCHIVED'' else ''OPERATOR_SESSION_UNARCHIVED'') OPERATOR_LEDGER_ACTOR
          [(js ''sessionId'', JStr sid)] []
          (upd_session sid (\<lambda>s. s\<lparr>s_archived := archived, s_archivedAt := (if archived then Some (now E) else None),
             s_updatedAt := now E\<rparr>) d), Inr (sid, archived))))"

definition remove_deliveries :: "env \<Rightarrow> js_string \<Rightarrow> db \<Rightarrow> db" where
  "remove_deliveries E sid d =
     d\<lparr>deliveries := upd_where (\<lambda>x. d_recipient x = sid \<and> d_state x \<in> {Queued, Retry_Wait, Transport_Written, Accepted})
         (\<lambda>x. x\<lparr>d_state := Dead_Letter, d_failureCategory := Some ''recipient_removed'', d_nextAttemptAt := None,
                d_leaseExpiresAt := None, d_updatedAt := now E\<rparr>) (deliveries d)\<rparr>"

text \<open>The DELETE statements of a removal, in the order of the code. Nothing ever inserts into \<open>session_instances\<close>.\<close>

definition remove_rows :: "js_string \<Rightarrow> db \<Rightarrow> db" where
  "remove_rows sid d =
     (let logical = (case session_row d sid of None \<Rightarrow> None | Some s \<Rightarrow> s_logical s);
          d = d\<lparr>aliases := del_where (\<lambda>a. al_session a = sid) (aliases d)\<rparr>;
          d = d\<lparr>recipient_sequences := del_where (\<lambda>q. q_key q = sid) (recipient_sequences d)\<rparr>;
          d = d\<lparr>component_instances := del_where (\<lambda>c. c_session c = sid) (component_instances d)\<rparr>;
          d = d\<lparr>session_epochs := del_where (\<lambda>e. ep_session e = sid) (session_epochs d)\<rparr>;
          d = d\<lparr>thread_participants := del_where (\<lambda>p. p_session p = sid) (thread_participants d)\<rparr>;
          d = purge_map sid d;
          d = d\<lparr>name_ownership := del_where (\<lambda>r. o_session r = Some sid \<or> logical = Some (o_logical r)) (name_ownership d)\<rparr>;
          d = d\<lparr>collection_members := del_where (\<lambda>m. logical = Some (cm_agent m)) (collection_members d)\<rparr>
      in d\<lparr>sessions := del_where (\<lambda>s. s_id s = sid) (sessions d)\<rparr>)"

definition operatorRemoveRecord :: "env \<Rightarrow> js_string \<Rightarrow> db \<Rightarrow> (js_string \<times> bool) result" where
  "operatorRemoveRecord E sid d =
     (if sid = OPERATOR_SESSION_ID then (d, Inl (xerr PROTOCOL_VIOLATION))
      else transaction (\<lambda>d.
        case session_row d sid of
          None \<Rightarrow> (d, Inr (sid, False))
        | Some s \<Rightarrow>
            if s_state s = Conn_Connected then (d, Inl (xerr ILLEGAL_STATE_TRANSITION))
            else (ledger E ''OPERATOR_SESSION_RECORD_REMOVED'' OPERATOR_LEDGER_ACTOR [(js ''sessionId'', JStr sid)]
                    [(js ''transcriptPreserved'', JBool True)] (remove_rows sid (remove_deliveries E sid d)), Inr (sid, True))) d)"

section \<open>Managed sessions\<close>

definition set_managed :: "env \<Rightarrow> int \<Rightarrow> js_string \<Rightarrow> session_row \<Rightarrow> session_row" where
  "set_managed E pid launchKey s =
     s\<lparr>s_managed := True, s_managedPid := Some pid, s_managedStartedAt := Some (now E), s_managedKey := Some launchKey,
       s_updatedAt := now E\<rparr>"

definition clear_managed :: "env \<Rightarrow> session_row \<Rightarrow> session_row" where
  "clear_managed E s =
     s\<lparr>s_managed := False, s_managedPid := None, s_managedStartedAt := None, s_managedKey := None, s_updatedAt := now E\<rparr>"

definition recordManagedSession :: "env \<Rightarrow> js_string \<Rightarrow> int \<Rightarrow> js_string \<Rightarrow> db \<Rightarrow> unit result" where
  "recordManagedSession E sid pid launchKey =
     transaction (\<lambda>d.
       let d = (if session_row d sid \<noteq> None then upd_session sid (set_managed E pid launchKey) d
                else
                  let row = (blank_session sid (na_display (automaticAlias sid)) (js ''proj-managed'') (js ''/'')
                               (js ''hook_checkpoint'') (now E))
                        \<lparr>s_sourceLast := Some ''managed_launch'', s_managed := True, s_managedPid := Some pid,
                         s_managedStartedAt := Some (now E), s_managedKey := Some launchKey\<rparr>
                  in ensure_sequence sid (d\<lparr>sessions := sessions d @ [row]\<rparr>))
       in (ledger E ''MANAGED_SESSION_LAUNCHED'' OPERATOR_LEDGER_ACTOR [(js ''sessionId'', JStr sid)]
             [(js ''launchKey'', JStr launchKey)] d, Inr ()))"

definition pid_field :: "session_row \<Rightarrow> (js_string \<times> jval) list" where
  "pid_field s = [(js ''pid'', JNum (case s_managedPid s of None \<Rightarrow> 0 | Some p \<Rightarrow> p))]"

record managed_markers =
  mm_session :: js_string
  mm_pid :: "int option"
  mm_startedAt :: "int option"
  mm_launchKey :: "js_string option"

definition clearManagedSession :: "env \<Rightarrow> js_string \<Rightarrow> db \<Rightarrow> managed_markers result" where
  "clearManagedSession E sid =
     transaction (\<lambda>d.
       case session_row d sid of
         None \<Rightarrow> (d, Inl (xerr MESSAGE_NOT_FOUND))
       | Some s \<Rightarrow>
           if \<not> s_managed s then (d, Inl (xerr FORBIDDEN_ROLE))
           else (ledger E ''MANAGED_SESSION_STOPPED'' OPERATOR_LEDGER_ACTOR [(js ''sessionId'', JStr sid)] (pid_field s)
                   (upd_session sid (clear_managed E) d),
                 Inr \<lparr>mm_session = sid, mm_pid = s_managedPid s, mm_startedAt = s_managedStartedAt s, mm_launchKey = s_managedKey s\<rparr>))"

definition markManagedSessionExited :: "env \<Rightarrow> js_string \<Rightarrow> db \<Rightarrow> unit result" where
  "markManagedSessionExited E sid =
     transaction (\<lambda>d.
       case session_row d sid of
         None \<Rightarrow> (d, Inr ())
       | Some s \<Rightarrow>
           if \<not> s_managed s then (d, Inr ())
           else (ledger E ''MANAGED_SESSION_EXITED'' OPERATOR_LEDGER_ACTOR [(js ''sessionId'', JStr sid)] (pid_field s)
                   (upd_session sid (clear_managed E) d), Inr ()))"

section \<open>Waking\<close>

definition hasEligibleDelivery :: "env \<Rightarrow> db \<Rightarrow> js_string \<Rightarrow> bool" where
  "hasEligibleDelivery E d sid \<longleftrightarrow>
     acceptsInjection (readinessOf d sid) \<and> autoDeliveryEnabled d sid \<and>
     list_ex (\<lambda>(x, m). eligible E sid x m) (joined d)"

datatype wake_outcome = Wake_Requested | Wake_Accepted | Wake_Failed | Wake_None

fun wake_name :: "wake_outcome \<Rightarrow> string" where
  "wake_name Wake_Requested = ''requested''" | "wake_name Wake_Accepted = ''accepted''"
| "wake_name Wake_Failed = ''failed''" | "wake_name Wake_None = ''none''"

definition recordWakeAttempt :: "env \<Rightarrow> js_string \<Rightarrow> js_string \<Rightarrow> wake_outcome \<Rightarrow> js_string option \<Rightarrow> db \<Rightarrow> db" where
  "recordWakeAttempt E mid sid outcome detail =
     audit E ''WAKE_ATTEMPT''
       ([(''messageId'', JStr mid), (''sessionId'', JStr sid), (''wakeOutcome'', JStr (js (wake_name outcome)))]
        @ (case detail of None \<Rightarrow> [] | Some t \<Rightarrow> [(''detail'', JStr t)]))"

definition latestWakeOutcome :: "db \<Rightarrow> js_string \<Rightarrow> wake_outcome" where
  "latestWakeOutcome d mid =
     (case top_by au_id (filter (\<lambda>a. au_event a = ''WAKE_ATTEMPT'' \<and> au_message a = Some mid) (audit_events d)) of
        None \<Rightarrow> Wake_None
      | Some a \<Rightarrow>
          (case str_field ''wakeOutcome'' (au_metadata a) of
             None \<Rightarrow> Wake_None
           | Some v \<Rightarrow> if v = js ''requested'' then Wake_Requested else if v = js ''accepted'' then Wake_Accepted
                       else if v = js ''failed'' then Wake_Failed else Wake_None))"

end
