(* ===== verification/Json.thy ===== *)
theory Json
  imports Ledger
begin

text \<open>
  \<open>JSON.stringify\<close> and \<open>JSON.parse\<close> on the values the broker exchanges. A number literal with a
  fraction, an exponent or a magnitude above \<open>2 ^ 53\<close> denotes a double outside the integers of the
  model; the parser takes its reading as the argument \<open>fl\<close>.
\<close>

section \<open>Printing\<close>

fun json_stringify :: "jval \<Rightarrow> js_string" where
  "json_stringify JNull = js ''null''"
| "json_stringify (JBool b) = (if b then js ''true'' else js ''false'')"
| "json_stringify (JNum n) = json_number n"
| "json_stringify (JStr s) = json_string s"
| "json_stringify (JArr vs) = [91] @ join_commas (map json_stringify vs) @ [93]"
| "json_stringify (JObj kvs) = [123] @ join_commas (map (\<lambda>(k, v). json_string k @ [58] @ json_stringify v) kvs) @ [125]"

section \<open>Parsing\<close>

definition json_space :: "nat \<Rightarrow> bool" where
  "json_space c \<longleftrightarrow> c = 32 \<or> c = 9 \<or> c = 10 \<or> c = 13"

definition skip_space :: "js_string \<Rightarrow> js_string" where
  "skip_space = dropWhile json_space"

definition hex_value :: "nat \<Rightarrow> nat" where
  "hex_value c = (if is_digit c then c - 48 else if is_lower c then c - 87 else c - 55)"

definition hex4 :: "nat \<Rightarrow> nat \<Rightarrow> nat \<Rightarrow> nat \<Rightarrow> nat option" where
  "hex4 a b c d =
     (if is_hex a \<and> is_hex b \<and> is_hex c \<and> is_hex d
      then Some (hex_value a * 4096 + hex_value b * 256 + hex_value c * 16 + hex_value d) else None)"

definition json_escape :: "nat \<Rightarrow> nat option" where
  "json_escape e =
     (if e = 34 \<or> e = 92 \<or> e = 47 then Some e
      else if e = 98 then Some 8 else if e = 102 then Some 12 else if e = 110 then Some 10
      else if e = 114 then Some 13 else if e = 116 then Some 9 else None)"

definition cons_first :: "nat \<Rightarrow> (js_string \<times> 'a) option \<Rightarrow> (js_string \<times> 'a) option" where
  "cons_first c = map_option (\<lambda>(s, r). (c # s, r))"

text \<open>The characters of a string literal after its opening quote.\<close>

fun parse_chars :: "js_string \<Rightarrow> (js_string \<times> js_string) option" where
  "parse_chars [] = None"
| "parse_chars (c # r) =
     (if c = 34 then Some ([], r)
      else if c = 92 then
        (case r of
           [] \<Rightarrow> None
         | e # t \<Rightarrow>
             if e = 117 then
               (case t of
                  h1 # h2 # h3 # h4 # u \<Rightarrow>
                    (case hex4 h1 h2 h3 h4 of None \<Rightarrow> None | Some n \<Rightarrow> cons_first n (parse_chars u))
                | _ \<Rightarrow> None)
             else (case json_escape e of None \<Rightarrow> None | Some n \<Rightarrow> cons_first n (parse_chars t)))
      else if c < 32 then None
      else cons_first c (parse_chars r))"

definition digits_value :: "js_string \<Rightarrow> nat" where
  "digits_value ds = foldl (\<lambda>n c. 10 * n + (c - 48)) 0 ds"

definition MAX_INTEGER :: nat where
  "MAX_INTEGER = 9007199254740992"

text \<open>An optional fraction or exponent: the literal up to it and the rest, or a syntax error.\<close>

definition parse_fraction :: "js_string \<Rightarrow> (js_string \<times> js_string) option" where
  "parse_fraction s =
     (case s of
        [] \<Rightarrow> Some ([], [])
      | c # r \<Rightarrow>
          if c \<noteq> 46 then Some ([], s)
          else let ds = takeWhile is_digit r in
               if ds = [] then None else Some (c # ds, dropWhile is_digit r))"

definition parse_exponent :: "js_string \<Rightarrow> (js_string \<times> js_string) option" where
  "parse_exponent s =
     (case s of
        [] \<Rightarrow> Some ([], [])
      | c # r \<Rightarrow>
          if c \<noteq> 101 \<and> c \<noteq> 69 then Some ([], s)
          else let sg = (case r of [] \<Rightarrow> [] | g # _ \<Rightarrow> if g = 43 \<or> g = 45 then [g] else []);
                   t = drop (length sg) r;
                   ds = takeWhile is_digit t
               in if ds = [] then None else Some (c # sg @ ds, dropWhile is_digit t))"

definition parse_number :: "(js_string \<Rightarrow> jval) \<Rightarrow> js_string \<Rightarrow> (jval \<times> js_string) option" where
  "parse_number fl s =
     (let sg = (case s of [] \<Rightarrow> [] | c # _ \<Rightarrow> if c = 45 then [c] else []);
          t = drop (length sg) s;
          ds = takeWhile is_digit t
      in if ds = [] \<or> (hd ds = 48 \<and> 1 < length ds) then None
         else case parse_fraction (dropWhile is_digit t) of
                None \<Rightarrow> None
              | Some (fr, u) \<Rightarrow>
                  (case parse_exponent u of
                     None \<Rightarrow> None
                   | Some (ex, v) \<Rightarrow>
                       Some (if fr = [] \<and> ex = [] \<and> digits_value ds \<le> MAX_INTEGER
                             then JNum (if sg = [] then int (digits_value ds) else - int (digits_value ds))
                             else fl (sg @ ds @ fr @ ex), v)))"

definition strip_word :: "js_string \<Rightarrow> js_string \<Rightarrow> js_string option" where
  "strip_word w s = (if starts_with s w then Some (drop (length w) s) else None)"

text \<open>
  The nesting depth is bounded by the fuel; every nested value starts after at least one more
  character, so the length of the text is enough.
\<close>

fun parse_value :: "(js_string \<Rightarrow> jval) \<Rightarrow> nat \<Rightarrow> js_string \<Rightarrow> (jval \<times> js_string) option"
  and parse_items :: "(js_string \<Rightarrow> jval) \<Rightarrow> nat \<Rightarrow> js_string \<Rightarrow> (jval list \<times> js_string) option"
  and parse_fields :: "(js_string \<Rightarrow> jval) \<Rightarrow> nat \<Rightarrow> js_string \<Rightarrow> ((js_string \<times> jval) list \<times> js_string) option" where
  "parse_value fl 0 s = None"
| "parse_value fl (Suc n) s =
     (case skip_space s of
        [] \<Rightarrow> None
      | c # r \<Rightarrow>
          if c = 34 then map_option (\<lambda>(t, u). (JStr t, u)) (parse_chars r)
          else if c = 91 then
            (case skip_space r of
               [] \<Rightarrow> None
             | e # t \<Rightarrow> if e = 93 then Some (JArr [], t)
                        else map_option (\<lambda>(vs, u). (JArr vs, u)) (parse_items fl n (e # t)))
          else if c = 123 then
            (case skip_space r of
               [] \<Rightarrow> None
             | e # t \<Rightarrow> if e = 125 then Some (JObj [], t)
                        else map_option (\<lambda>(kvs, u). (JObj (foldl (\<lambda>es (k, v). obj_put k v es) [] kvs), u)) (parse_fields fl n (e # t)))
          else if c = 110 then map_option (Pair JNull) (strip_word (js ''null'') (c # r))
          else if c = 116 then map_option (Pair (JBool True)) (strip_word (js ''true'') (c # r))
          else if c = 102 then map_option (Pair (JBool False)) (strip_word (js ''false'') (c # r))
          else parse_number fl (c # r))"
| "parse_items fl 0 s = None"
| "parse_items fl (Suc n) s =
     (case parse_value fl n s of
        None \<Rightarrow> None
      | Some (v, r) \<Rightarrow>
          (case skip_space r of
             [] \<Rightarrow> None
           | c # t \<Rightarrow> if c = 93 then Some ([v], t)
                      else if c = 44 then map_option (\<lambda>(vs, u). (v # vs, u)) (parse_items fl n t)
                      else None))"
| "parse_fields fl 0 s = None"
| "parse_fields fl (Suc n) s =
     (case skip_space s of
        [] \<Rightarrow> None
      | q # r \<Rightarrow>
          if q \<noteq> 34 then None
          else case parse_chars r of
                 None \<Rightarrow> None
               | Some (k, t) \<Rightarrow>
                   (case skip_space t of
                      [] \<Rightarrow> None
                    | c # u \<Rightarrow>
                        if c \<noteq> 58 then None
                        else case parse_value fl n u of
                               None \<Rightarrow> None
                             | Some (v, w) \<Rightarrow>
                                 (case skip_space w of
                                    [] \<Rightarrow> None
                                  | e # x \<Rightarrow> if e = 125 then Some ([(k, v)], x)
                                             else if e = 44 then map_option (\<lambda>(kvs, y). ((k, v) # kvs, y)) (parse_fields fl n x)
                                             else None)))"

definition json_parse :: "(js_string \<Rightarrow> jval) \<Rightarrow> js_string \<Rightarrow> jval option" where
  "json_parse fl s =
     (case parse_value fl (2 * length s + 2) s of
        None \<Rightarrow> None
      | Some (v, r) \<Rightarrow> if skip_space r = [] then Some v else None)"

section \<open>The fuel is enough\<close>

declare json_stringify.simps(5,6) [simp del] dec_str.simps [simp del] parse_chars.simps(2) [simp del]

lemma parse_chars_shorter: "parse_chars s = Some (t, r) \<Longrightarrow> length r < length s"
proof (induction s arbitrary: t r rule: length_induct)
  case (1 s)
  show ?case
  proof (cases s)
    case (Cons c u)
    from 1 show ?thesis unfolding Cons parse_chars.simps(2)
      by (force simp: cons_first_def split: if_splits list.splits option.splits)
  qed (use 1 in simp)
qed

lemma dropWhile_shorter: "takeWhile P t \<noteq> [] \<Longrightarrow> length (dropWhile P t) < length t"
  by (cases t) (auto simp: le_imp_less_Suc length_dropWhile_le split: if_splits)

lemma skip_space_shorter: "length (skip_space s) \<le> length s"
  by (simp add: skip_space_def length_dropWhile_le)

lemma fraction_shorter: "parse_fraction s = Some (t, r) \<Longrightarrow> length r \<le> length s"
  by (auto simp: parse_fraction_def Let_def length_dropWhile_le le_SucI split: list.splits if_splits)

lemma exponent_shorter: "parse_exponent s = Some (t, r) \<Longrightarrow> length r \<le> length s"
  by (auto simp: parse_exponent_def Let_def intro: le_SucI order_trans [OF length_dropWhile_le] split: list.splits if_splits)

lemma parse_number_shorter:
  assumes "parse_number fl s = Some (v, r)"
  shows "length r < length s"
proof -
  define sg where "sg = (case s of [] \<Rightarrow> [] | c # _ \<Rightarrow> if c = 45 then [c] else [])"
  define t where "t = drop (length sg) s"
  from assms obtain fr u ex where "takeWhile is_digit t \<noteq> []" and
    f: "parse_fraction (dropWhile is_digit t) = Some (fr, u)" "parse_exponent u = Some (ex, r)"
    by (auto simp: parse_number_def Let_def sg_def t_def split: if_splits option.splits)
  then have "length (dropWhile is_digit t) < length t"
    by (simp add: dropWhile_shorter)
  moreover have "length t \<le> length s" by (simp add: t_def)
  ultimately show ?thesis using fraction_shorter [OF f(1)] exponent_shorter [OF f(2)] by linarith
qed

lemma strip_word_shorter: "strip_word (w # ws) s = Some r \<Longrightarrow> length r < length s"
  by (cases s) (auto simp: strip_word_def split: if_splits)

lemma parse_shorter:
  "parse_value fl n s = Some (v, r) \<Longrightarrow> length r < length s"
  "parse_items fl n s = Some (vs, r) \<Longrightarrow> length r < length s"
  "parse_fields fl n s = Some (kvs, r) \<Longrightarrow> length r < length s"
proof (induction fl n s and fl n s and fl n s arbitrary: v r and vs r and kvs r
    rule: parse_value_parse_items_parse_fields.induct)
  case (2 fl n s)
  obtain c u where u: "skip_space s = c # u" using "2.prems" by (auto split: list.splits)
  then have "length (c # u) \<le> length s" using skip_space_shorter [of s] by simp
  moreover have "length r < length (c # u)"
    using "2.prems" u "2.IH" skip_space_shorter [of u]
    by (fastforce simp: le_imp_less_Suc strip_word_def split: if_splits list.splits dest: parse_chars_shorter parse_number_shorter)
  ultimately show ?case by linarith
next
  case (4 fl n s)
  then obtain v t where 1: "parse_value fl n s = Some (v, t)" by (auto split: option.splits)
  with 4 have "length t < length s" by blast
  moreover obtain c u where u: "skip_space t = c # u" using "4.prems" 1 by (auto split: list.splits)
  then have "length (c # u) \<le> length t" using skip_space_shorter [of t] by simp
  moreover have "length r \<le> length u" using "4.prems" 1 u "4.IH"(2) [OF 1 refl u]
    by (auto split: if_splits intro: less_imp_le)
  ultimately show ?case by simp
next
  case (6 fl n s)
  then obtain q t where 0: "skip_space s = 34 # t" by (auto split: list.splits if_splits)
  with 6 obtain k u where 1: "parse_chars t = Some (k, u)" by (auto split: option.splits)
  with 6 0 obtain w where 2: "skip_space u = 58 # w" by (auto split: list.splits if_splits)
  with 6 0 1 obtain v x where 3: "parse_value fl n w = Some (v, x)" by (auto split: option.splits)
  with 6 0 1 2 obtain e y where 4: "skip_space x = e # y" by (auto split: list.splits)
  have "length r \<le> length y" using "6.prems" 0 1 2 3 4 "6.IH"(2) [OF 0 _ 1 refl 2 _ 3 refl 4]
    by (auto split: if_splits intro: less_imp_le)
  moreover have "length x < length w" using "6.IH"(1) [OF 0 _ 1 refl 2 _ 3] by simp
  moreover have "length (34 # t) \<le> length s" "length (58 # w) \<le> length u" "length (e # y) \<le> length x" "length u < length t"
    using 0 2 4 skip_space_shorter [of s] skip_space_shorter [of u] skip_space_shorter [of x] parse_chars_shorter [OF 1] by simp_all
  ultimately show ?case by simp
qed simp_all

lemma skip_space_cons: "skip_space s = c # r \<Longrightarrow> length r < length s"
  using skip_space_shorter [of s] by simp

lemma parse_fuel_step:
  assumes V: "\<And>s m. 2 * length s < n \<Longrightarrow> 2 * length s < m \<Longrightarrow> parse_value fl n s = parse_value fl m s"
    and I: "\<And>s m. 2 * length s + 1 < n \<Longrightarrow> 2 * length s + 1 < m \<Longrightarrow> parse_items fl n s = parse_items fl m s"
    and F: "\<And>s m. 2 * length s + 1 < n \<Longrightarrow> 2 * length s + 1 < m \<Longrightarrow> parse_fields fl n s = parse_fields fl m s"
  shows "2 * length s < Suc n \<Longrightarrow> 2 * length s < Suc m \<Longrightarrow> parse_value fl (Suc n) s = parse_value fl (Suc m) s"
    and "2 * length s + 1 < Suc n \<Longrightarrow> 2 * length s + 1 < Suc m \<Longrightarrow> parse_items fl (Suc n) s = parse_items fl (Suc m) s"
    and "2 * length s + 1 < Suc n \<Longrightarrow> 2 * length s + 1 < Suc m \<Longrightarrow> parse_fields fl (Suc n) s = parse_fields fl (Suc m) s"
proof -
  assume b: "2 * length s < Suc n" "2 * length s < Suc m"
  have "parse_items fl n (e # t) = parse_items fl m (e # t) \<and> parse_fields fl n (e # t) = parse_fields fl m (e # t)"
    if "skip_space s = c # r" "skip_space r = e # t" for c r e t
    using that b skip_space_cons [of s c r] skip_space_cons [of r e t] by (intro conjI I F) simp_all
  then show "parse_value fl (Suc n) s = parse_value fl (Suc m) s" by (auto split: list.splits)
next
  assume b: "2 * length s + 1 < Suc n" "2 * length s + 1 < Suc m"
  have v: "parse_value fl n s = parse_value fl m s" using b by (intro V) simp_all
  have "parse_items fl n t = parse_items fl m t" if "parse_value fl n s = Some (v, r)" "skip_space r = c # t" for v r c t
    using that b parse_shorter(1) [OF that(1)] skip_space_cons [OF that(2)] by (intro I) simp_all
  then show "parse_items fl (Suc n) s = parse_items fl (Suc m) s" unfolding parse_items.simps v [symmetric]
    by (intro option.case_cong list.case_cong prod.case_cong refl if_cong arg_cong [where f = "map_option _"]) blast
next
  assume b: "2 * length s + 1 < Suc n" "2 * length s + 1 < Suc m"
  have v: "parse_value fl n u = parse_value fl m u"
    if "skip_space s = q # r" "parse_chars r = Some (k, t)" "skip_space t = c # u" for q r k t c u
    using b skip_space_cons [OF that(1)] parse_chars_shorter [OF that(2)] skip_space_cons [OF that(3)] by (intro V) simp_all
  have "parse_fields fl n x = parse_fields fl m x"
    if "skip_space s = q # r" "parse_chars r = Some (k, t)" "skip_space t = c # u" "parse_value fl n u = Some (v, w)"
      "skip_space w = e # x" for q r k t c u v w e x
    using b skip_space_cons [OF that(1)] parse_chars_shorter [OF that(2)] skip_space_cons [OF that(3)]
      parse_shorter(1) [OF that(4)] skip_space_cons [OF that(5)] by (intro F) simp_all
  with v show "parse_fields fl (Suc n) s = parse_fields fl (Suc m) s" unfolding parse_fields.simps
    by (intro option.case_cong list.case_cong prod.case_cong refl if_cong arg_cong [where f = "map_option _"]) auto
qed

lemma parse_fuel:
  "(\<forall>s m. 2 * length s < n \<longrightarrow> 2 * length s < m \<longrightarrow> parse_value fl n s = parse_value fl m s) \<and>
   (\<forall>s m. 2 * length s + 1 < n \<longrightarrow> 2 * length s + 1 < m \<longrightarrow> parse_items fl n s = parse_items fl m s) \<and>
   (\<forall>s m. 2 * length s + 1 < n \<longrightarrow> 2 * length s + 1 < m \<longrightarrow> parse_fields fl n s = parse_fields fl m s)"
proof (induction n)
  case (Suc n)
  then have IH: "\<And>s m. 2 * length s < n \<Longrightarrow> 2 * length s < m \<Longrightarrow> parse_value fl n s = parse_value fl m s"
    "\<And>s m. 2 * length s + 1 < n \<Longrightarrow> 2 * length s + 1 < m \<Longrightarrow> parse_items fl n s = parse_items fl m s"
    "\<And>s m. 2 * length s + 1 < n \<Longrightarrow> 2 * length s + 1 < m \<Longrightarrow> parse_fields fl n s = parse_fields fl m s" by blast+
  show ?case
  proof (intro conjI allI impI)
    fix s :: js_string and m
    assume "2 * length s < Suc n" "2 * length s < m"
    then show "parse_value fl (Suc n) s = parse_value fl m s" using parse_fuel_step(1) [OF IH] by (cases m) blast+
  next
    fix s :: js_string and m
    assume "2 * length s + 1 < Suc n" "2 * length s + 1 < m"
    then show "parse_items fl (Suc n) s = parse_items fl m s" using parse_fuel_step(2) [OF IH] by (cases m) blast+
  next
    fix s :: js_string and m
    assume "2 * length s + 1 < Suc n" "2 * length s + 1 < m"
    then show "parse_fields fl (Suc n) s = parse_fields fl m s" using parse_fuel_step(3) [OF IH] by (cases m) blast+
  qed
qed simp

lemma json_parse_fuel:
  assumes "2 * length s < n"
  shows "json_parse fl s = (case parse_value fl n s of None \<Rightarrow> None | Some (v, r) \<Rightarrow> if skip_space r = [] then Some v else None)"
proof -
  have "2 * length s < 2 * length s + 2" by simp
  with assms have "parse_value fl (2 * length s + 2) s = parse_value fl n s"
    using parse_fuel [of "2 * length s + 2" fl, THEN conjunct1] by blast
  then show ?thesis by (simp add: json_parse_def)
qed

section \<open>Round trip\<close>

text \<open>The values that survive printing: sixteen-bit units, exact integers and distinct keys.\<close>

definition code_units :: "js_string \<Rightarrow> bool" where
  "code_units = list_all (\<lambda>c. c < 65536)"

fun json_value :: "jval \<Rightarrow> bool" where
  "json_value (JNum n) \<longleftrightarrow> nat \<bar>n\<bar> \<le> MAX_INTEGER"
| "json_value (JStr s) \<longleftrightarrow> code_units s"
| "json_value (JArr vs) \<longleftrightarrow> list_all json_value vs"
| "json_value (JObj kvs) \<longleftrightarrow> distinct (map fst kvs) \<and> list_all (\<lambda>(k, v). code_units k \<and> json_value v) kvs"
| "json_value _ \<longleftrightarrow> True"

lemma hex_digit_value:
  assumes "d < 16"
  shows "is_hex (hex_digit d)" "hex_value (hex_digit d) = d"
  using assms by (auto simp: hex_digit_def hex_value_def char_class_defs)

lemma digits_16:
  fixes c :: nat
  assumes "c < 65536"
  shows "c div 4096 mod 16 = c div 4096" "c div 4096 * 4096 + c div 256 mod 16 * 256 + c div 16 mod 16 * 16 + c mod 16 = c"
proof -
  have 1: "c div 16 div 16 = c div 256" "c div 256 div 16 = c div 4096" by (simp_all flip: div_mult2_eq)
  have 2: "c div 16 * 16 + c mod 16 = c" "c div 256 * 16 + c div 16 mod 16 = c div 16" "c div 4096 * 16 + c div 256 mod 16 = c div 256"
    using div_mult_mod_eq [of c 16] div_mult_mod_eq [of "c div 16" 16] div_mult_mod_eq [of "c div 256" 16] 1 by simp_all
  from 2 show "c div 4096 * 4096 + c div 256 mod 16 * 256 + c div 16 mod 16 * 16 + c mod 16 = c" by linarith
qed (use assms in simp)

lemma parse_unicode_escape:
  "c < 65536 \<Longrightarrow> parse_chars (unicode_escape c @ r) = cons_first c (parse_chars r)"
  by (simp add: unicode_escape_def parse_chars.simps(2) hex4_def hex_digit_value digits_16)

lemma parse_json_chars:
  "code_units s \<Longrightarrow> parse_chars (json_chars s @ 34 # r) = Some (s, r)"
proof (induction s rule: json_chars.induct)
  case 1
  show ?case by (simp add: parse_chars.simps(2))
next
  case (2 c s)
  have c: "c < 65536" and s: "code_units s" using "2.prems" by (simp_all add: code_units_def)
  note esc = parse_unicode_escape [OF c] cons_first_def
  show ?case
  proof (cases "high_surrogate c")
    case True
    then have h: "c \<noteq> 34" "c \<noteq> 92" "c \<noteq> 8" "c \<noteq> 9" "c \<noteq> 10" "c \<noteq> 12" "c \<noteq> 13" "\<not> c < 32" by (auto simp: high_surrogate_def)
    show ?thesis
    proof (cases s)
      case Nil
      with True h show ?thesis by (simp add: esc parse_chars.simps(2))
    next
      case (Cons e t)
      show ?thesis
      proof (cases "low_surrogate e")
        case low: True
        then have "e \<noteq> 34" "e \<noteq> 92" "\<not> e < 32" by (auto simp: low_surrogate_def)
        moreover have "parse_chars (json_chars t @ 34 # r) = Some (t, r)"
          using "2.IH"(9) h True low s Cons by (simp add: code_units_def)
        ultimately show ?thesis using True low h Cons by (simp add: parse_chars.simps(2) cons_first_def)
      next
        case False
        moreover have "parse_chars (json_chars s @ 34 # r) = Some (s, r)" using "2.IH"(10) h True False s Cons by simp
        ultimately show ?thesis using True h Cons by (simp add: esc)
      qed
    qed
  next
    case False
    have "parse_chars (json_chars s @ 34 # r) = Some (s, r)" using "2.IH"(1-8,11-12) False s by blast
    with False show ?thesis by (simp add: esc parse_chars.simps(2) json_escape_def)
  qed
qed

lemma dec_str_digits: "dec_str n \<noteq> [] \<and> list_all is_digit (dec_str n) \<and> digits_value (dec_str n) = n"
proof (induction n rule: dec_str.induct)
  case (1 n)
  have "n mod 10 < 10" by simp
  with 1 show ?case using div_mult_mod_eq [of n 10] unfolding dec_str.simps [of n]
    by (auto simp: digits_value_def dec_digit_def char_class_defs)
qed

lemma dec_str_head: "hd (dec_str n) = 48 \<longleftrightarrow> n = 0"
proof (induction n rule: dec_str.induct)
  case (1 n)
  show ?case using 1 dec_str_digits [of "n div 10"] unfolding dec_str.simps [of n]
    by (auto simp: dec_digit_def)
qed

lemma dec_str_0: "length (dec_str 0) = 1"
  by (simp add: dec_str.simps)

text \<open>What may follow a value inside a text.\<close>

definition value_end :: "js_string \<Rightarrow> bool" where
  "value_end r \<longleftrightarrow> (case r of [] \<Rightarrow> True | c # _ \<Rightarrow> c = 44 \<or> c = 93 \<or> c = 125)"

lemma takeWhile_digits:
  assumes "list_all is_digit ds" "value_end r"
  shows "takeWhile is_digit (ds @ r) = ds" "dropWhile is_digit (ds @ r) = r"
  using assms by (auto simp: list_all_iff value_end_def char_class_defs takeWhile_append dropWhile_append split: list.splits)

lemma value_end_plain:
  assumes "value_end r"
  shows "parse_fraction r = Some ([], r)" "parse_exponent r = Some ([], r)"
  using assms by (auto simp: value_end_def parse_fraction_def parse_exponent_def split: list.splits)

lemma parse_json_number:
  assumes "nat \<bar>n\<bar> \<le> MAX_INTEGER" "value_end r"
  shows "parse_number fl (json_number n @ r) = Some (JNum n, r)"
proof -
  define ds where "ds = dec_str (nat \<bar>n\<bar>)"
  have d: "ds \<noteq> []" "list_all is_digit ds" "digits_value ds = nat \<bar>n\<bar>" using dec_str_digits by (auto simp: ds_def)
  have z: "\<not> (hd ds = 48 \<and> Suc 0 < length ds)" using dec_str_head [of "nat \<bar>n\<bar>"] dec_str_0 by (auto simp: ds_def)
  obtain c t where c: "ds = c # t" using d by (cases ds) auto
  then have "c \<noteq> 45" using d by (auto simp: char_class_defs)
  with c have sg: "(case ds @ r of [] \<Rightarrow> [] | x # _ \<Rightarrow> if x = 45 then [x] else []) = []" by simp
  note facts = takeWhile_digits [OF d(2) assms(2)] value_end_plain [OF assms(2)]
  show ?thesis
  proof (cases "n < 0")
    case True
    then have "json_number n = 45 # ds" by (simp add: json_number_def ds_def)
    with True d z facts assms show ?thesis by (simp add: parse_number_def Let_def)
  next
    case False
    then have "json_number n = ds" by (simp add: json_number_def ds_def)
    with False d z sg facts assms show ?thesis by (simp add: parse_number_def Let_def)
  qed
qed

lemma join_commas_Cons: "join_commas (x # xs) = x @ (if xs = [] then [] else 44 # join_commas xs)"
  by (cases xs) simp_all

lemma skip_space_value [simp]: "\<not> json_space c \<Longrightarrow> skip_space (c # r) = c # r"
  by (simp add: skip_space_def)

lemma not_json_space [simp]: "\<not> json_space 34" "\<not> json_space 44" "\<not> json_space 58" "\<not> json_space 91" "\<not> json_space 93" "\<not> json_space 123" "\<not> json_space 125"
  by (simp_all add: json_space_def)

lemma json_number_head: "\<exists>c t. json_number n = c # t \<and> (c = 45 \<or> is_digit c)"
proof -
  have "\<exists>c t. dec_str k = c # t \<and> is_digit c" for k using dec_str_digits [of k] by (cases "dec_str k") auto
  from this [of "nat n"] show ?thesis by (auto simp: json_number_def)
qed

lemma stringify_head: "\<exists>c t. json_stringify v = c # t \<and> \<not> json_space c \<and> c \<noteq> 93 \<and> c \<noteq> 125"
proof (cases v)
  case (JNum n)
  then show ?thesis using json_number_head [of n] by (auto simp: json_space_def char_class_defs)
qed (auto simp: json_string_def json_stringify.simps(5,6) json_space_def)

definition reads :: "(js_string \<Rightarrow> jval) \<Rightarrow> jval \<Rightarrow> bool" where
  "reads fl v \<longleftrightarrow> (\<forall>n r. value_end r \<longrightarrow> 2 * length (json_stringify v) < n \<longrightarrow> parse_value fl n (json_stringify v @ r) = Some (v, r))"

lemma readsD:
  "reads fl v \<Longrightarrow> value_end r \<Longrightarrow> 2 * length (json_stringify v) < n \<Longrightarrow> parse_value fl n (json_stringify v @ r) = Some (v, r)"
  by (simp add: reads_def)

lemma value_end_delim [simp]: "value_end (44 # r)" "value_end (93 # r)" "value_end (125 # r)"
  by (simp_all add: value_end_def)

lemma parse_items_join:
  assumes "vs \<noteq> []" "\<forall>v\<in>set vs. reads fl v" "2 * length (join_commas (map json_stringify vs)) + 1 < n"
  shows "parse_items fl n (join_commas (map json_stringify vs) @ 93 # r) = Some (vs, r)"
  using assms
proof (induction vs arbitrary: n)
  case (Cons v vs)
  then obtain m where m: "n = Suc m" by (cases n) auto
  show ?case
  proof (cases "vs = []")
    case True
    have "parse_value fl m (json_stringify v @ 93 # r) = Some (v, 93 # r)"
      using Cons.prems m True by (intro readsD) simp_all
    with True m show ?thesis by simp
  next
    case False
    have "parse_value fl m (json_stringify v @ 44 # join_commas (map json_stringify vs) @ 93 # r)
        = Some (v, 44 # join_commas (map json_stringify vs) @ 93 # r)"
      using Cons.prems m False by (intro readsD) (simp_all add: join_commas_Cons)
    moreover have "parse_items fl m (join_commas (map json_stringify vs) @ 93 # r) = Some (vs, r)"
      using Cons.prems m False by (intro Cons.IH) (simp_all add: join_commas_Cons)
    ultimately show ?thesis using m False by (simp add: join_commas_Cons)
  qed
qed simp

definition field_text :: "js_string \<times> jval \<Rightarrow> js_string" where
  "field_text = (\<lambda>(k, v). json_string k @ [58] @ json_stringify v)"

lemma stringify_object: "json_stringify (JObj kvs) = 123 # join_commas (map field_text kvs) @ [125]"
  by (simp add: json_stringify.simps(6) field_text_def)

lemma parse_fields_join:
  assumes "kvs \<noteq> []" "\<forall>(k, v)\<in>set kvs. code_units k \<and> reads fl v" "2 * length (join_commas (map field_text kvs)) + 1 < n"
  shows "parse_fields fl n (join_commas (map field_text kvs) @ 125 # r) = Some (kvs, r)"
  using assms
proof (induction kvs arbitrary: n)
  case (Cons kv kvs)
  obtain k v where kv: "kv = (k, v)" by (cases kv)
  from Cons obtain m where m: "n = Suc m" by (cases n) auto
  have k: "parse_chars (json_chars k @ 34 # u) = Some (k, u)" for u using Cons.prems kv by (simp add: parse_json_chars)
  show ?case
  proof (cases "kvs = []")
    case True
    have "parse_value fl m (json_stringify v @ 125 # r) = Some (v, 125 # r)"
      using Cons.prems m kv True by (intro readsD) (simp_all add: field_text_def)
    with True m k kv show ?thesis by (simp add: field_text_def json_string_def)
  next
    case False
    have "parse_value fl m (json_stringify v @ 44 # join_commas (map field_text kvs) @ 125 # r)
        = Some (v, 44 # join_commas (map field_text kvs) @ 125 # r)"
      using Cons.prems m kv False by (intro readsD) (simp_all add: join_commas_Cons field_text_def)
    moreover have "parse_fields fl m (join_commas (map field_text kvs) @ 125 # r) = Some (kvs, r)"
      using Cons.prems m kv False by (intro Cons.IH) (simp_all add: join_commas_Cons field_text_def)
    ultimately show ?thesis using m k kv False by (simp add: join_commas_Cons json_string_def field_text_def)
  qed
qed simp

lemma obj_put_fresh: "k \<notin> fst ` set es \<Longrightarrow> obj_put k v es = es @ [(k, v)]"
  by (induction k v es rule: obj_put.induct) auto

lemma obj_put_all: "distinct (map fst (es @ kvs)) \<Longrightarrow> foldl (\<lambda>es (k, v). obj_put k v es) es kvs = es @ kvs"
  by (induction kvs arbitrary: es) (auto simp: obj_put_fresh image_iff)

lemma strip_word_append [simp]: "strip_word w (w @ r) = Some r"
  by (simp add: strip_word_def)

lemma json_value_reads: "json_value v \<Longrightarrow> reads fl v"
proof (induction v)
  case (JNum x)
  obtain c t where c: "json_number x = c # t" "c = 45 \<or> is_digit c" using json_number_head by blast
  then have h: "\<not> json_space c" "c \<noteq> 34" "c \<noteq> 91" "c \<noteq> 123" "c \<noteq> 110" "c \<noteq> 116" "c \<noteq> 102"
    by (auto simp: json_space_def char_class_defs)
  show ?case unfolding reads_def
  proof (intro allI impI)
    fix n r
    assume "value_end r" "2 * length (json_stringify (JNum x)) < n"
    then show "parse_value fl n (json_stringify (JNum x) @ r) = Some (JNum x, r)"
      using JNum c h parse_json_number [of x r fl] by (cases n) simp_all
  qed
next
  case (JStr s)
  then show ?case by (auto simp: reads_def json_string_def parse_json_chars gr0_conv_Suc dest!: gr_implies_not0 not0_implies_Suc)
next
  case (JArr vs)
  then have all: "\<forall>v\<in>set vs. reads fl v" by (auto simp: list_all_iff)
  show ?case unfolding reads_def
  proof (intro allI impI)
    fix n r
    assume "2 * length (json_stringify (JArr vs)) < n"
    then obtain m where m: "n = Suc m" "2 * length (join_commas (map json_stringify vs)) + 1 < m"
      by (cases n) (auto simp: json_stringify.simps(5))
    show "parse_value fl n (json_stringify (JArr vs) @ r) = Some (JArr vs, r)"
    proof (cases vs)
      case (Cons v ws)
      obtain c t where c: "json_stringify v = c # t" "\<not> json_space c" "c \<noteq> 93" using stringify_head by blast
      then obtain u where u: "join_commas (map json_stringify vs) = c # u" using Cons by (simp add: join_commas_Cons)
      have "parse_items fl m (c # u @ 93 # r) = Some (vs, r)"
        using parse_items_join [of vs fl m r] all m Cons u by simp
      with c u m show ?thesis by (simp add: json_stringify.simps(5))
    qed (simp add: m json_stringify.simps(5))
  qed
next
  case (JObj kvs)
  then have all: "\<forall>(k, v)\<in>set kvs. code_units k \<and> reads fl v" and dist: "distinct (map fst kvs)"
    by (auto simp: list_all_iff)
  show ?case unfolding reads_def
  proof (intro allI impI)
    fix n r
    assume "2 * length (json_stringify (JObj kvs)) < n"
    then obtain m where m: "n = Suc m" "2 * length (join_commas (map field_text kvs)) + 1 < m"
      by (cases n) (auto simp: json_stringify.simps(6) field_text_def)
    show "parse_value fl n (json_stringify (JObj kvs) @ r) = Some (JObj kvs, r)"
    proof (cases kvs)
      case (Cons kv ws)
      then obtain u where u: "join_commas (map field_text kvs) = 34 # u"
        by (cases kv) (simp add: join_commas_Cons field_text_def json_string_def)
      have "parse_fields fl m (34 # u @ 125 # r) = Some (kvs, r)"
        using parse_fields_join [of kvs fl m r] all m Cons u by simp
      with u m dist obj_put_all [of "[]" kvs] show ?thesis by (simp add: stringify_object)
    qed (simp add: m json_stringify.simps(6))
  qed
qed (auto simp: reads_def json_space_def strip_word_def gr0_conv_Suc dest!: gr_implies_not0 not0_implies_Suc)

lemma json_roundtrips [simp]:
  assumes "json_value v"
  shows "json_parse fl (json_stringify v) = Some v"
proof -
  have "parse_value fl (2 * length (json_stringify v) + 2) (json_stringify v @ []) = Some (v, [])"
    using assms by (intro readsD json_value_reads) (simp_all add: value_end_def)
  then show ?thesis by (simp add: json_parse_def skip_space_def)
qed

end
