(* ===== verification/Payload.thy ===== *)
theory Payload
  imports Ledger
begin

text \<open>
  Reading untrusted JSON values the way the broker's handlers do: property access, truthiness, \<open>??\<close>, the text of a
  value in a template literal, and the field validators of \<^verbatim>\<open>src/broker/daemon.ts\<close>.
\<close>

section \<open>JavaScript access\<close>

text \<open>\<open>v.k\<close> for the field names of the protocol: only objects have them, a missing one is undefined.\<close>

definition get_prop :: "jval \<Rightarrow> string \<Rightarrow> jval option" where
  "get_prop v k = (case v of JObj kvs \<Rightarrow> map_of kvs (js k) | _ \<Rightarrow> None)"

lemma get_prop_JObj [simp]: "get_prop (JObj kvs) k = map_of kvs (js k)"
  by (simp add: get_prop_def)

fun truthy_val :: "jval \<Rightarrow> bool" where
  "truthy_val JNull \<longleftrightarrow> False"
| "truthy_val (JBool b) \<longleftrightarrow> b"
| "truthy_val (JNum n) \<longleftrightarrow> n \<noteq> 0"
| "truthy_val (JStr s) \<longleftrightarrow> s \<noteq> []"
| "truthy_val _ \<longleftrightarrow> True"

definition truthy_prop :: "jval option \<Rightarrow> bool" where
  "truthy_prop v = (case v of None \<Rightarrow> False | Some w \<Rightarrow> truthy_val w)"

text \<open>\<open>v ?? null\<close>\<close>

definition or_null :: "jval option \<Rightarrow> jval" where
  "or_null v = (case v of None \<Rightarrow> JNull | Some w \<Rightarrow> w)"

text \<open>\<open>frame.payload ?? {}\<close>\<close>

definition payload_or_empty :: "jval option \<Rightarrow> jval" where
  "payload_or_empty v = (case v of None \<Rightarrow> JObj [] | Some JNull \<Rightarrow> JObj [] | Some w \<Rightarrow> w)"

definition string_prop :: "jval option \<Rightarrow> js_string option" where
  "string_prop v = (case v of Some (JStr s) \<Rightarrow> Some s | _ \<Rightarrow> None)"

text \<open>\<open>typeof v === 'string' && v\<close>\<close>

definition nonempty_string :: "jval option \<Rightarrow> js_string option" where
  "nonempty_string v = (case v of Some (JStr s) \<Rightarrow> if s \<noteq> [] then Some s else None | _ \<Rightarrow> None)"

lemma nonempty_string_Some: "nonempty_string v = Some s \<longleftrightarrow> v = Some (JStr s) \<and> s \<noteq> []"
  by (auto simp: nonempty_string_def split: option.splits jval.splits if_splits)

text \<open>
  The text of a value in a template literal; \<open>None\<close> is the \<open>TypeError\<close> of an object whose own \<open>toString\<close> is not
  callable. \<open>null\<close> is the empty text inside an array.
\<close>

fun to_text :: "jval \<Rightarrow> js_string option" where
  "to_text JNull = Some (js ''null'')"
| "to_text (JBool b) = Some (js (if b then ''true'' else ''false''))"
| "to_text (JNum n) = Some (json_number n)"
| "to_text (JStr s) = Some s"
| "to_text (JArr vs) =
     (let ts = map (\<lambda>v. if v = JNull then Some [] else to_text v) vs in
      if None \<in> set ts then None else Some (join_commas (map the ts)))"
| "to_text (JObj kvs) = (if js ''toString'' \<in> set (map fst kvs) then None else Some (js ''[object Object]''))"

definition prop_text :: "jval option \<Rightarrow> js_string option" where
  "prop_text v = (case v of None \<Rightarrow> Some (js ''undefined'') | Some w \<Rightarrow> to_text w)"

section \<open>Field validators of the daemon\<close>

definition MAX_SAFE_INTEGER :: int where
  "MAX_SAFE_INTEGER = 9007199254740991"

definition validatedLimit :: "jval option \<Rightarrow> xerror + int option" where
  "validatedLimit raw =
     (case raw of
        None \<Rightarrow> Inr None
      | Some (JNum n) \<Rightarrow> if n < 0 \<or> MAX_SAFE_INTEGER < n then Inl (xerr PROTOCOL_VIOLATION) else Inr (Some n)
      | Some _ \<Rightarrow> Inl (xerr PROTOCOL_VIOLATION))"

definition optString :: "jval option \<Rightarrow> string \<Rightarrow> xerror + js_string option" where
  "optString raw field =
     (case raw of
        None \<Rightarrow> Inr None
      | Some (JStr s) \<Rightarrow> Inr (Some s)
      | Some _ \<Rightarrow> Inl (XBusError PROTOCOL_VIOLATION [(js ''field'', JStr (js field))]))"

text \<open>Sequencing of checks that may throw.\<close>

definition checked :: "'e + 'a \<Rightarrow> ('a \<Rightarrow> 'e + 'b) \<Rightarrow> 'e + 'b" where
  "checked r k = (case r of Inl e \<Rightarrow> Inl e | Inr x \<Rightarrow> k x)"

lemma checked_simps [simp]: "checked (Inl e) k = Inl e" "checked (Inr x) k = k x"
  by (simp_all add: checked_def)

lemma checked_Inr [res_simps]: "checked r k = Inr y \<longleftrightarrow> (\<exists>x. r = Inr x \<and> k x = Inr y)"
  by (cases r) auto

definition require :: "bool \<Rightarrow> 'e \<Rightarrow> 'e + unit" where
  "require b e = (if b then Inr () else Inl e)"

lemma require_Inr [res_simps]: "require b e = Inr u \<longleftrightarrow> b"
  by (simp add: require_def)

end
