(* ===== verification/Scheduler.thy ===== *)
theory Scheduler
  imports Operator_Console Json Payload
begin

text \<open>
  Schedules: creation and state changes (\<^verbatim>\<open>src/broker/store.ts\<close>) and the scheduler tick of
  \<^verbatim>\<open>src/broker/scheduler.ts\<close>. \<open>iso_string\<close> is \<open>Date.prototype.toISOString\<close>, \<open>time_value\<close> the clipping of a number to a
  date with the \<open>RangeError\<close> of printing an invalid one. Instants are kept as milliseconds; \<open>text_key\<close> orders them as SQLite
  orders their texts. \<open>js_number\<close> is \<open>Number\<close> applied to a string, with exact rationals for doubles and \<open>None\<close> for \<open>NaN\<close>
  and the infinities. The column \<open>quiet_hours_json\<close> holds the text it was created with; it is parsed at each evaluation,
  and whatever throws there is an \<open>Inl\<close>.
\<close>

section \<open>Dates and numbers as text\<close>

fun pad_zero :: "nat \<Rightarrow> nat \<Rightarrow> js_string" where
  "pad_zero 0 n = []"
| "pad_zero (Suc w) n = pad_zero w (n div 10) @ [48 + n mod 10]"

text \<open>Proleptic Gregorian date of a day number (day 0 is 1970-01-01): year, month, day.\<close>

definition civil :: "int \<Rightarrow> int \<times> int \<times> int" where
  "civil days =
     (let z = days + 719468;
          era = z div 146097;
          doe = z mod 146097;
          yoe = (doe - doe div 1460 + doe div 36524 - doe div 146096) div 365;
          doy = doe - (365 * yoe + yoe div 4 - yoe div 100);
          mp = (5 * doy + 2) div 153;
          day = doy - (153 * mp + 2) div 5 + 1;
          month = (if mp < 10 then mp + 3 else mp - 9)
      in (yoe + era * 400 + (if month \<le> 2 then 1 else 0), month, day))"

text \<open>The first instants of the years 0 and 10000, and the largest magnitude of a date.\<close>

definition YEAR_0 :: int where
  "YEAR_0 = -62167219200000"

definition YEAR_10000 :: int where
  "YEAR_10000 = 253402300800000"

definition MAX_TIME :: int where
  "MAX_TIME = 8640000000000000"

text \<open>Years outside 0 to 9999 are printed with a sign and six digits.\<close>

definition iso_year :: "int \<Rightarrow> int \<Rightarrow> js_string" where
  "iso_year t y =
     (if t < YEAR_0 then js ''-'' @ pad_zero 6 (nat (- y))
      else if t < YEAR_10000 then pad_zero 4 (nat y)
      else js ''+'' @ pad_zero 6 (nat y))"

definition iso_string :: "int \<Rightarrow> js_string" where
  "iso_string t =
     (let (y, m, d) = civil (t div 86400000);
          ms = t mod 86400000
      in iso_year t y @ js ''-'' @ pad_zero 2 (nat m) @ js ''-'' @ pad_zero 2 (nat d) @ js ''T'' @
         pad_zero 2 (nat (ms div 3600000)) @ js '':'' @ pad_zero 2 (nat (ms div 60000 mod 60)) @ js '':'' @
         pad_zero 2 (nat (ms div 1000 mod 60)) @ js ''.'' @ pad_zero 3 (nat (ms mod 1000)) @ js ''Z'')"

text \<open>
  The place of an instant in the order of its text: a plus sign sorts below a minus sign and that below the digits, and years
  before 0 are printed by their magnitude.
\<close>

definition text_key :: "int \<Rightarrow> int" where
  "text_key t =
     (if t < YEAR_0 then
        (let (y, m, d) = civil (t div 86400000)
         in - (10 ^ 18) + (- y) * 10 ^ 11 + (31 * m + d) * 86400000 + t mod 86400000)
      else if t < YEAR_10000 then t
      else t - 10 ^ 20)"

text \<open>\<open>new Date(t).toISOString()\<close> throws for a number that is no date and drops the fraction of any other.\<close>

definition time_value :: "rat \<Rightarrow> xerror + int" where
  "time_value t =
     (if of_int MAX_TIME < \<bar>t\<bar> then Inl JsRangeError else Inr (if t < 0 then \<lceil>t\<rceil> else \<lfloor>t\<rfloor>))"

definition radix_value :: "nat \<Rightarrow> js_string \<Rightarrow> rat option" where
  "radix_value b ds =
     (if ds \<noteq> [] \<and> list_all (\<lambda>c. is_hex c \<and> hex_value c < b) ds
      then Some (of_nat (foldl (\<lambda>n c. b * n + hex_value c) 0 ds)) else None)"

definition exponent_value :: "js_string \<Rightarrow> int option" where
  "exponent_value s =
     (case s of
        [] \<Rightarrow> Some 0
      | c # r \<Rightarrow>
          if c = 101 \<or> c = 69 then
            let neg = (r \<noteq> [] \<and> hd r = 45);
                ds = (if r \<noteq> [] \<and> (hd r = 45 \<or> hd r = 43) then tl r else r)
            in if ds \<noteq> [] \<and> list_all is_digit ds then Some (if neg then - int (digits_value ds) else int (digits_value ds)) else None
          else None)"

definition pow10 :: "int \<Rightarrow> rat" where
  "pow10 e = (if 0 \<le> e then 10 ^ nat e else 1 / 10 ^ nat (- e))"

definition unsigned_decimal :: "js_string \<Rightarrow> rat option" where
  "unsigned_decimal s =
     (let whole = takeWhile is_digit s;
          r = dropWhile is_digit s;
          frac = (if r \<noteq> [] \<and> hd r = 46 then takeWhile is_digit (tl r) else []);
          r2 = (if r \<noteq> [] \<and> hd r = 46 then dropWhile is_digit (tl r) else r)
      in if whole = [] \<and> frac = [] then None
         else map_option (\<lambda>e. of_nat (digits_value (whole @ frac)) * pow10 (e - int (length frac))) (exponent_value r2))"

definition numeric_text :: "js_string \<Rightarrow> rat option" where
  "numeric_text raw =
     (case js_trim raw of
        [] \<Rightarrow> Some 0
      | c # r \<Rightarrow>
          if c = 45 then map_option uminus (unsigned_decimal r)
          else if c = 43 then unsigned_decimal r
          else if c = 48 \<and> r \<noteq> [] \<and> (hd r = 120 \<or> hd r = 88) then radix_value 16 (tl r)
          else if c = 48 \<and> r \<noteq> [] \<and> (hd r = 111 \<or> hd r = 79) then radix_value 8 (tl r)
          else if c = 48 \<and> r \<noteq> [] \<and> (hd r = 98 \<or> hd r = 66) then radix_value 2 (tl r)
          else unsigned_decimal (c # r))"

text \<open>Half an ulp above the largest double a decimal rounds to infinity.\<close>

definition finite_double :: "rat \<Rightarrow> bool" where
  "finite_double r \<longleftrightarrow> \<bar>r\<bar> < 2 ^ 1024 - 2 ^ 970"

definition js_number :: "js_string \<Rightarrow> rat option" where
  "js_number raw = (case numeric_text raw of None \<Rightarrow> None | Some r \<Rightarrow> if finite_double r then Some r else None)"

section \<open>Creating and changing a schedule\<close>

record schedule_input =
  ni_actor :: js_string
  ni_title :: "js_string option"
  ni_target :: js_string
  ni_text :: js_string
  ni_payloadKind :: "js_string option"
  ni_requiresAck :: "bool option"
  ni_requiresReply :: "bool option"
  ni_kind :: schedule_kind
  ni_expr :: "js_string option"
  ni_timezone :: "js_string option"
  ni_quiet :: "js_string option"
  ni_deliveryMode :: "js_string option"
  ni_budget :: "js_string option"
  ni_concurrency :: "js_string option"
  ni_minInterval :: "int option"
  ni_wakeLimit :: "int option"
  ni_maxFires :: "int option"
  ni_originGuard :: "bool option"
  ni_nextRun :: int

fun kind_name :: "schedule_kind \<Rightarrow> string" where
  "kind_name Once = ''once''" | "kind_name Interval = ''interval''" | "kind_name Cron = ''cron''"

definition default :: "'a \<Rightarrow> 'a option \<Rightarrow> 'a" where
  "default x v = (case v of None \<Rightarrow> x | Some y \<Rightarrow> y)"

definition interval_refused :: "schedule_input \<Rightarrow> int \<Rightarrow> bool" where
  "interval_refused inp minInterval \<longleftrightarrow> ni_kind inp = Interval \<and>
     (case js_number (default [] (ni_expr inp)) of None \<Rightarrow> True | Some iv \<Rightarrow> iv < of_int minInterval)"

definition new_schedule :: "env \<Rightarrow> schedule_input \<Rightarrow> js_string \<Rightarrow> int \<Rightarrow> schedule_row" where
  "new_schedule E inp i minInterval =
     \<lparr>sc_id = i, sc_actor = ni_actor inp, sc_title = ni_title inp, sc_target = ni_target inp,
      sc_payloadKind = default (js ''request'') (ni_payloadKind inp), sc_payload = ni_text inp,
      sc_requiresAck = (ni_requiresAck inp \<noteq> Some False), sc_requiresReply = (ni_requiresReply inp \<noteq> Some False),
      sc_kind = ni_kind inp, sc_expr = ni_expr inp, sc_timezone = default (js ''UTC'') (ni_timezone inp),
      sc_quiet = ni_quiet inp, sc_deliveryMode = default (js ''enqueue_only'') (ni_deliveryMode inp),
      sc_budget = ni_budget inp, sc_concurrency = ni_concurrency inp, sc_minInterval = minInterval,
      sc_wakeLimit = ni_wakeLimit inp, sc_wakesToday = 0, sc_wakesDate = None, sc_nextRun = Some (ni_nextRun inp),
      sc_lastRun = None, sc_maxFires = ni_maxFires inp, sc_firesUsed = 0,
      sc_originGuard = (ni_originGuard inp \<noteq> Some False), sc_state = Sched_Active, sc_createdAt = now E, sc_updatedAt = now E\<rparr>"

definition createSchedule :: "env \<Rightarrow> schedule_input \<Rightarrow> db \<Rightarrow> (js_string \<times> int) result" where
  "createSchedule E inp =
     transaction (\<lambda>d.
       let (i, d) = next_id E d;
           minInterval = default 60000 (ni_minInterval inp)
       in if minInterval < 1000 then (d, Inl (xerr PROTOCOL_VIOLATION))
          else if interval_refused inp minInterval then (d, Inl (xerr PROTOCOL_VIOLATION))
          else if list_ex (\<lambda>s. sc_id s = i) (schedules d) then (d, Inl SqliteConstraint)
          else
            let d = d\<lparr>schedules := schedules d @ [new_schedule E inp i minInterval]\<rparr>;
                d = ledger E ''SCHEDULE_CREATED'' (if ni_actor inp = OPERATOR_SESSION_ID then OPERATOR_LEDGER_ACTOR else ni_actor inp) []
                      [(js ''scheduleId'', JStr i), (js ''kind'', JStr (js (kind_name (ni_kind inp)))), (js ''target'', JStr (ni_target inp)),
                       (js ''deliveryMode'', JStr (default (js ''enqueue_only'') (ni_deliveryMode inp)))] d
            in (d, Inr (i, ni_nextRun inp)))"

definition schedule_of :: "db \<Rightarrow> js_string \<Rightarrow> schedule_row option" where
  "schedule_of d i = List.find (\<lambda>s. sc_id s = i) (schedules d)"

definition setScheduleState :: "env \<Rightarrow> js_string \<Rightarrow> schedule_state \<Rightarrow> db \<Rightarrow> (js_string \<times> schedule_state) result" where
  "setScheduleState E i st =
     transaction (\<lambda>d.
       case schedule_of d i of
         None \<Rightarrow> (d, Inl (xerr MESSAGE_NOT_FOUND))
       | Some s \<Rightarrow>
           if sc_state s = Sched_Cancelled \<or> sc_state s = Sched_Exhausted
           then if st = Sched_Cancelled then (d, Inr (i, sc_state s)) else (d, Inl (xerr ILLEGAL_STATE_TRANSITION))
           else
             (ledger E (if st = Sched_Cancelled then ''SCHEDULE_CANCELLED'' else if st = Sched_Paused then ''SCHEDULE_PAUSED''
                        else ''SCHEDULE_RESUMED'') OPERATOR_LEDGER_ACTOR [] [(js ''scheduleId'', JStr i)]
                (d\<lparr>schedules := upd_where (\<lambda>s. sc_id s = i) (\<lambda>s. s\<lparr>sc_state := st, sc_updatedAt := now E\<rparr>) (schedules d)\<rparr>),
              Inr (i, st)))"

section \<open>Quiet hours and the next run\<close>

text \<open>\<open>/T(\d{2}):(\d{2})/.exec(iso)\<close>: the leftmost match.\<close>

fun time_match :: "js_string \<Rightarrow> (nat \<times> nat) option" where
  "time_match (c # a # b # s # e # f # r) =
     (if c = 84 \<and> is_digit a \<and> is_digit b \<and> s = 58 \<and> is_digit e \<and> is_digit f
      then Some (digits_value [a, b], digits_value [e, f]) else time_match (a # b # s # e # f # r))"
| "time_match _ = None"

definition utcMinutes :: "js_string \<Rightarrow> int" where
  "utcMinutes nowIso = (case time_match nowIso of None \<Rightarrow> 0 | Some (h, m) \<Rightarrow> int h * 60 + int m)"

definition hhmmToMin :: "js_string \<Rightarrow> int" where
  "hhmmToMin s =
     (case js_trim s of
        [a, c, e, f] \<Rightarrow> if is_digit a \<and> c = 58 \<and> is_digit e \<and> is_digit f
                        then int (digits_value [a]) * 60 + int (digits_value [e, f]) else -1
      | [a, b, c, e, f] \<Rightarrow> if is_digit a \<and> is_digit b \<and> c = 58 \<and> is_digit e \<and> is_digit f
                           then int (digits_value [a, b]) * 60 + int (digits_value [e, f]) else -1
      | _ \<Rightarrow> -1)"

definition in_window :: "int \<Rightarrow> js_string \<times> js_string \<Rightarrow> bool" where
  "in_window cur w =
     (let s = hhmmToMin (fst w); e = hhmmToMin (snd w) in
      if s < 0 \<or> e < 0 then False else if s \<le> e then s \<le> cur \<and> cur < e else s \<le> cur \<or> cur < e)"

text \<open>
  The values the loop of \<open>inQuietHours\<close> runs over, \<open>qh.windows ?? []\<close>: reading a field of \<open>null\<close> and iterating over what is
  neither an array nor a string throw. The characters of a string have no bounds, so only their number matters.
\<close>

definition windows_of :: "jval \<Rightarrow> xerror + jval list" where
  "windows_of qh =
     (case qh of
        JNull \<Rightarrow> Inl JsTypeError
      | _ \<Rightarrow>
          (case get_prop qh ''windows'' of
             None \<Rightarrow> Inr []
           | Some JNull \<Rightarrow> Inr []
           | Some (JArr ws) \<Rightarrow> Inr ws
           | Some (JStr t) \<Rightarrow> Inr (map (\<lambda>c. JStr [c]) t)
           | Some _ \<Rightarrow> Inl JsTypeError))"

text \<open>\<open>hhmmToMin\<close> calls \<open>trim\<close>, which only strings have.\<close>

definition window_bounds :: "jval \<Rightarrow> xerror + js_string \<times> js_string" where
  "window_bounds w =
     (case (get_prop w ''start'', get_prop w ''end'') of
        (Some (JStr s), Some (JStr e)) \<Rightarrow> Inr (s, e)
      | _ \<Rightarrow> Inl JsTypeError)"

fun quiet_windows :: "int \<Rightarrow> jval list \<Rightarrow> xerror + bool" where
  "quiet_windows cur [] = Inr False"
| "quiet_windows cur (w # ws) =
     checked (window_bounds w) (\<lambda>b. if in_window cur b then Inr True else quiet_windows cur ws)"

text \<open>The numbers of the text are never looked at, so they are all read as 0.\<close>

definition inQuietHours :: "js_string \<Rightarrow> js_string option \<Rightarrow> xerror + bool" where
  "inQuietHours nowIso quietHoursJson =
     (if \<not> truthy quietHoursJson then Inr False
      else case json_parse (\<lambda>_. JNum 0) (the quietHoursJson) of
             None \<Rightarrow> Inr False
           | Some qh \<Rightarrow> checked (windows_of qh) (quiet_windows (utcMinutes nowIso)))"

definition computeNextRun :: "schedule_kind \<Rightarrow> js_string option \<Rightarrow> int \<Rightarrow> int \<Rightarrow> rat option" where
  "computeNextRun kind expr afterMs minIntervalMs =
     (let raw = js_number (default [] expr) in
      case kind of
        Once \<Rightarrow> None
      | Interval \<Rightarrow> Some (of_int afterMs + (case raw of Some r \<Rightarrow> if 0 < r then max r (of_int minIntervalMs) else of_int minIntervalMs
                                              | None \<Rightarrow> of_int minIntervalMs))
      | Cron \<Rightarrow> (case raw of Some r \<Rightarrow> if 0 < r then Some (of_int afterMs + max r (of_int minIntervalMs)) else None | None \<Rightarrow> None))"

text \<open>The push out of the quiet hours, at most 96 steps.\<close>

fun push_quiet :: "nat \<Rightarrow> int \<Rightarrow> js_string option \<Rightarrow> rat \<Rightarrow> xerror + rat" where
  "push_quiet 0 step qh t = Inr t"
| "push_quiet (Suc n) step qh t =
     checked (time_value t) (\<lambda>i.
     checked (inQuietHours (iso_string i) qh) (\<lambda>quiet.
       if quiet then push_quiet n step qh (t + of_int step) else Inr t))"

section \<open>The tick\<close>

datatype advance_mode = Fired | Terminal | Deferred
datatype fire_outcome = Fire_Fired | Fire_Skipped

record tick_result =
  tk_fired :: nat
  tk_skipped :: nat
  tk_failed :: nat

definition scheduler_audit :: "env \<Rightarrow> string \<Rightarrow> (string \<times> jval) list \<Rightarrow> db \<Rightarrow> db" where
  "scheduler_audit E ev fs = insert_audit E ev None None None None fs"

definition advance_step :: "schedule_row \<Rightarrow> int" where
  "advance_step s = max (sc_minInterval s) (15 * 60000)"

definition next_candidate :: "env \<Rightarrow> schedule_row \<Rightarrow> advance_mode \<Rightarrow> xerror + rat option" where
  "next_candidate E s mode =
     (let n = computeNextRun (sc_kind s) (sc_expr s) (now E) (sc_minInterval s);
          n = (if mode = Deferred \<and> n = None then Some (of_int (now E + advance_step s)) else n)
      in case n of
           None \<Rightarrow> Inr None
         | Some t \<Rightarrow>
             if truthy (sc_quiet s) then checked (push_quiet 96 (advance_step s) (sc_quiet s) t) (\<lambda>t. Inr (Some t))
             else Inr (Some t))"

definition exhausts :: "schedule_row \<Rightarrow> advance_mode \<Rightarrow> bool" where
  "exhausts s mode \<longleftrightarrow> mode \<noteq> Deferred \<and>
     ((case sc_maxFires s of None \<Rightarrow> False | Some n \<Rightarrow> n \<le> sc_firesUsed s + (if mode = Fired then 1 else 0)) \<or> sc_kind s = Once)"

definition next_run :: "env \<Rightarrow> schedule_row \<Rightarrow> advance_mode \<Rightarrow> xerror + int option" where
  "next_run E s mode =
     checked (next_candidate E s mode) (\<lambda>n.
       if exhausts s mode then Inr None
       else case n of None \<Rightarrow> Inr None | Some t \<Rightarrow> checked (time_value t) (\<lambda>i. Inr (Some i)))"

definition advance :: "env \<Rightarrow> schedule_row \<Rightarrow> advance_mode \<Rightarrow> db \<Rightarrow> unit result" where
  "advance E s mode d =
     (case next_run E s mode of
        Inl e \<Rightarrow> (d, Inl e)
      | Inr nextRun \<Rightarrow>
          (d\<lparr>schedules := upd_where (\<lambda>r. sc_id r = sc_id s)
             (\<lambda>r. r\<lparr>sc_firesUsed := sc_firesUsed s + (if mode = Fired then 1 else 0),
                    sc_lastRun := (if mode = Fired then Some (now E) else sc_nextRun s), sc_nextRun := nextRun,
                    sc_state := (if exhausts s mode then Sched_Exhausted else sc_state r), sc_updatedAt := now E\<rparr>) (schedules d)\<rparr>,
           Inr ()))"

definition slot_key :: "schedule_row \<Rightarrow> int \<Rightarrow> js_string" where
  "slot_key s slot = js ''sched:'' @ sc_id s @ js '':'' @ iso_string slot"

definition set_run :: "env \<Rightarrow> schedule_row \<Rightarrow> int \<Rightarrow> (run_row \<Rightarrow> run_row) \<Rightarrow> db \<Rightarrow> db" where
  "set_run E s slot f d =
     d\<lparr>schedule_runs := upd_where (\<lambda>r. sr_schedule r = sc_id s \<and> sr_scheduledFor r = slot)
         (\<lambda>r. f (r\<lparr>sr_updatedAt := now E\<rparr>)) (schedule_runs d)\<rparr>"

definition skip_run :: "string \<Rightarrow> run_row \<Rightarrow> run_row" where
  "skip_run why r = r\<lparr>sr_state := Run_Skipped, sr_skipReason := Some why\<rparr>"

definition skip :: "env \<Rightarrow> schedule_row \<Rightarrow> int \<Rightarrow> string \<Rightarrow> string \<Rightarrow> db \<Rightarrow> fire_outcome result" where
  "skip E s slot why ev d =
     andThen (advance E s Deferred (set_run E s slot (skip_run why) d)) (\<lambda>_ d.
       (scheduler_audit E ev [(''scheduleId'', JStr (sc_id s))] d, Inr Fire_Skipped))"

text \<open>The date of an instant as the first ten characters of its text.\<close>

definition day_of :: "int \<Rightarrow> js_string" where
  "day_of t = take 10 (iso_string t)"

text \<open>Runs joined with their schedules; a run's schedule is found by its key.\<close>

definition runs_where :: "(schedule_row \<Rightarrow> bool) \<Rightarrow> (run_row \<Rightarrow> bool) \<Rightarrow> db \<Rightarrow> nat" where
  "runs_where p q d =
     length (filter (\<lambda>r. q r \<and> (case schedule_of d (sr_schedule r) of None \<Rightarrow> False | Some s \<Rightarrow> p s)) (schedule_runs d))"

definition fire_input :: "schedule_row \<Rightarrow> int \<Rightarrow> operator_input" where
  "fire_input s slot =
     \<lparr>oi_to = sc_target s, oi_text = sc_payload s, oi_kind = (if sc_payloadKind s = js ''event'' then Event else Request),
      oi_requiresAck = sc_requiresAck s, oi_requiresReply = sc_requiresReply s, oi_thread = None, oi_parent = None,
      oi_idempotency = Some (slot_key s slot), oi_ttlSeconds = None, oi_subject = None,
      oi_metadata = Some [(js ''xbus_scheduled'', js ''1''), (js ''xbus_schedule_id'', sc_id s)]\<rparr>"

definition run_error_of :: "xerror \<Rightarrow> run_error" where
  "run_error_of e = (case e of XBusError c _ \<Rightarrow> Run_Error c | _ \<Rightarrow> Run_Internal)"

definition transient_error :: "run_error \<Rightarrow> bool" where
  "transient_error e \<longleftrightarrow> e = Run_Error UNKNOWN_RECIPIENT \<or> e = Run_Error AMBIGUOUS_RECIPIENT"

fun run_error_name :: "run_error \<Rightarrow> string" where
  "run_error_name (Run_Error c) = error_name c"
| "run_error_name Run_Internal = ''internal''"

definition wakes_today :: "env \<Rightarrow> schedule_row \<Rightarrow> int" where
  "wakes_today E s = (if sc_wakesDate s = Some (day_of (now E)) then sc_wakesToday s else 0)"

definition fire_failed :: "env \<Rightarrow> schedule_row \<Rightarrow> int \<Rightarrow> xerror \<Rightarrow> db \<Rightarrow> fire_outcome result" where
  "fire_failed E s slot e d =
     (let code = run_error_of e;
          transient = transient_error code;
          d = set_run E s slot (\<lambda>r. r\<lparr>sr_state := Run_Failed,
                sr_skipReason := Some (if transient then ''recipient_unresolved_transient'' else ''recipient_error''), sr_error := Some code\<rparr>) d
      in andThen (advance E s (if transient then Deferred else Terminal) d) (\<lambda>_ d.
           (scheduler_audit E ''SCHEDULE_FIRE_FAILED''
              [(''scheduleId'', JStr (sc_id s)), (''code'', JStr (js (run_error_name code))), (''deferred'', JBool transient)] d,
            Inr Fire_Skipped)))"

definition fire_send :: "env \<Rightarrow> schedule_row \<Rightarrow> int \<Rightarrow> db \<Rightarrow> fire_outcome result" where
  "fire_send E s slot d =
     (case operatorSend E (fire_input s slot) d of
        (d, Inl e) \<Rightarrow> fire_failed E s slot e d
      | (d, Inr sent) \<Rightarrow>
          let d = set_run E s slot (\<lambda>r. r\<lparr>sr_state := Run_Sent, sr_message := Some (sr_messageId (or_send sent))\<rparr>) d;
              d = d\<lparr>schedules := upd_where (\<lambda>r. sc_id r = sc_id s)
                    (\<lambda>r. r\<lparr>sc_wakesToday := wakes_today E s + 1, sc_wakesDate := Some (day_of (now E))\<rparr>) (schedules d)\<rparr>
          in andThen (advance E s Fired d) (\<lambda>_ d.
               (scheduler_audit E ''SCHEDULE_FIRED'' [(''scheduleId'', JStr (sc_id s)), (''scheduledFor'', JStr (iso_string slot))] d,
                Inr Fire_Fired)))"

definition new_run :: "env \<Rightarrow> schedule_row \<Rightarrow> int \<Rightarrow> js_string \<Rightarrow> run_row" where
  "new_run E s slot i =
     \<lparr>sr_id = i, sr_schedule = sc_id s, sr_scheduledFor = slot, sr_idempotency = slot_key s slot, sr_state = Run_Claimed,
      sr_skipReason = None, sr_claimedAt = now E, sr_message = None, sr_error = None, sr_createdAt = now E, sr_updatedAt = now E\<rparr>"

definition run_claimed :: "db \<Rightarrow> js_string \<Rightarrow> int \<Rightarrow> js_string \<Rightarrow> bool" where
  "run_claimed d sid slot i =
     list_ex (\<lambda>r. sr_id r = i \<or> (sr_schedule r = sid \<and> sr_scheduledFor r = slot)) (schedule_runs d)"

text \<open>Claim, gates and send of one due slot; \<open>fireOne\<close> runs them in a transaction.\<close>

definition fire_slot :: "int \<Rightarrow> env \<Rightarrow> schedule_row \<Rightarrow> int \<Rightarrow> db \<Rightarrow> fire_outcome result" where
  "fire_slot wakeCap E s slot d =
     (let (i, d) = next_id E d in
       if run_claimed d (sc_id s) slot i then andThen (advance E s Terminal d) (\<lambda>_ d. (d, Inr Fire_Skipped))
       else
         let d = d\<lparr>schedule_runs := schedule_runs d @ [new_run E s slot i]\<rparr>;
             today = day_of (now E)
         in case inQuietHours (iso_string (now E)) (sc_quiet s) of
              Inl e \<Rightarrow> (d, Inl e)
            | Inr quiet \<Rightarrow>
                if quiet then skip E s slot ''quiet_hours'' ''SCHEDULE_SKIPPED_QUIET_HOURS'' d
                else if (case sc_wakeLimit s of None \<Rightarrow> False | Some n \<Rightarrow> n \<le> wakes_today E s)
                then skip E s slot ''wake_limit'' ''SCHEDULE_SKIPPED_WAKE_LIMIT'' d
                else if 0 < wakeCap \<and>
                  wakeCap \<le> int (runs_where (\<lambda>r. sc_target r = sc_target s) (\<lambda>r. sr_state r = Run_Sent \<and> day_of (sr_scheduledFor r) = today) d)
                then skip E s slot ''session_wake_cap'' ''SCHEDULE_SKIPPED_SESSION_CAP'' d
                else if truthy (sc_concurrency s) \<and>
                  1 < runs_where (\<lambda>r. sc_concurrency r = sc_concurrency s) (\<lambda>r. sr_state r = Run_Claimed) d
                then skip E s slot ''concurrency'' ''SCHEDULE_SKIPPED_CONCURRENCY'' d
                else fire_send E s slot d)"

definition fireOne :: "int \<Rightarrow> env \<Rightarrow> schedule_row \<Rightarrow> int \<Rightarrow> db \<Rightarrow> fire_outcome result" where
  "fireOne wakeCap E s slot = transaction (fire_slot wakeCap E s slot)"

definition schedule_due :: "env \<Rightarrow> schedule_row \<Rightarrow> bool" where
  "schedule_due E s \<longleftrightarrow> sc_state s = Sched_Active \<and> (case sc_nextRun s of None \<Rightarrow> False | Some t \<Rightarrow> text_key t \<le> text_key (now E))"

definition due_schedules :: "env \<Rightarrow> db \<Rightarrow> schedule_row list" where
  "due_schedules E d = sort_key (\<lambda>s. text_key (the (sc_nextRun s))) (filter (schedule_due E) (schedules d))"

text \<open>
  A schedule that throws is counted and audited; its transaction has been rolled back, so it stays due. The message of an
  exception that is no \<open>XBusError\<close> is not modelled.
\<close>

definition tick_error :: "xerror \<Rightarrow> jval" where
  "tick_error e = JStr (js (run_error_name (run_error_of e)))"

fun tick_all :: "int \<Rightarrow> env \<Rightarrow> schedule_row list \<Rightarrow> db \<Rightarrow> tick_result \<times> db" where
  "tick_all cap E [] d = (\<lparr>tk_fired = 0, tk_skipped = 0, tk_failed = 0\<rparr>, d)"
| "tick_all cap E (s # ss) d =
     (case fireOne cap E s (the (sc_nextRun s)) d of
        (d, Inr Fire_Fired) \<Rightarrow> let (r, d) = tick_all cap E ss d in (r\<lparr>tk_fired := Suc (tk_fired r)\<rparr>, d)
      | (d, Inr Fire_Skipped) \<Rightarrow> let (r, d) = tick_all cap E ss d in (r\<lparr>tk_skipped := Suc (tk_skipped r)\<rparr>, d)
      | (d, Inl e) \<Rightarrow>
          let (r, d) = tick_all cap E ss (scheduler_audit E ''SCHEDULE_TICK_ERROR''
                [(''scheduleId'', JStr (sc_id s)), (''error'', tick_error e)] d)
          in (r\<lparr>tk_failed := Suc (tk_failed r)\<rparr>, d))"

definition tick :: "int \<Rightarrow> env \<Rightarrow> db \<Rightarrow> tick_result \<times> db" where
  "tick cap E d = tick_all cap E (due_schedules E d) d"

end
