(* ===== verification/Broker_Steps.thy ===== *)
theory Broker_Steps
  imports Session_Steps Scheduler
begin

text \<open>
  Sending, cancellation, the dead-letter queue, the reaper, the operator console and the scheduler evolve the
  database.
\<close>

section \<open>Sending\<close>

lemma send_new_evolves [evolve]:
  assumes "evolves R H d e"
  shows "evolves R H d (fst (send_new E auth inp r e))"
  unfolding send_new_def Let_def case_prod_beta
  by (intro evolves_insert evolve assms; (erule evolves_deliver)?) (simp_all add: send_message_def)

lemma send_evolves: "evolves R H d (fst (send E auth inp d))"
  unfolding send_def by (intro evolve)

lemma operatorSend_evolves [evolve]:
  assumes "evolves R (sha256 E) d e"
  shows "evolves R (sha256 E) d (fst (operatorSend E inp e))"
  unfolding operatorSend_def Let_def case_prod_beta
  by (intro evolves_insert evolve assms; (erule evolves_deliver)?) simp_all

lemma markThreadRead_evolves: "evolves R (sha256 E) d (fst (markThreadRead E t n d))"
  unfolding markThreadRead_def Let_def by (intro evolve)

section \<open>Controls, cancellation and dead letters\<close>

lemma evolves_controls [evolve]:
  assumes "evolves R H d e"
  shows "evolves R H d (setControl E i m e)" "evolves R H d (blockPeer E i a e)" "evolves R H d (unblockPeer E i a e)"
  using assms by (auto simp: setControl_def blockPeer_def unblockPeer_def Let_def case_prod_beta intro!: evolve split: option.splits)

lemma cancel_evolves: "evolves ordinary_edge H d (fst (cancel E mid reason d))"
  unfolding cancel_def cancel_audit_def cancel_waiting_def by (intro evolve) (auto simp: ordinary_edge_def)

text \<open>The unguarded UPDATE of a redrive touches one row, the dead letter that was read.\<close>

lemma redrive_update:
  assumes "store_ok d" "delivery_row d mid = Some x" "d_state x = Dead_Letter"
  shows "upd_where (\<lambda>x. d_message x = mid) f (deliveries d)
    = upd_where (\<lambda>x. d_message x = mid \<and> d_state x = Dead_Letter) f (deliveries d)"
proof -
  have "d_state y = Dead_Letter" if "y \<in> set (deliveries d)" "d_message y = mid" for y
    using delivery_row_unique [OF assms(1) that(1)] that(2) assms(2,3) by simp
  then show ?thesis by (auto simp: upd_where_def)
qed

lemma redrive_evolves: "evolves recovery_edge H d (fst (redrive E validate mid d))"
proof (rule evolvesI)
  assume "broker_ok H d"
  then have ok: "store_ok d" by (simp add: broker_ok_def)
  have upd: "evolves recovery_edge H d (d\<lparr>ids_drawn := n,
      deliveries := upd_where (\<lambda>x. d_message x = mid) (redrive_row E i) (deliveries (d\<lparr>ids_drawn := n\<rparr>))\<rparr>)"
    if row: "\<exists>x. delivery_row d mid = Some x \<and> d_state x = Dead_Letter" for n i
  proof -
    have "evolves recovery_edge H d ((d\<lparr>ids_drawn := n\<rparr>)\<lparr>deliveries := upd_where (\<lambda>x. d_message x = mid \<and> d_state x = Dead_Letter)
        (redrive_row E i) (deliveries (d\<lparr>ids_drawn := n\<rparr>))\<rparr>)"
      by (intro evolve) (auto simp: redrive_row_def recovery_edge_def)
    with row redrive_update [OF ok] show ?thesis by auto
  qed
  show "evolves recovery_edge H d (fst (redrive E validate mid d))"
    unfolding redrive_def Let_def next_id_def prod.case by (intro upd evolve) auto
qed

lemma discard_evolves: "evolves recovery_edge H d (snd (discard E mid d))"
  unfolding discard_def Let_def by (intro evolve) (auto simp: recovery_edge_def)

section \<open>Reaper\<close>

lemma evolves_reaper [evolve]:
  assumes "evolves R H d e"
  shows "evolves R H d (reaper_audit E ev mid fs e)" "evolves R H d (close_components E sid e)"
    "evolves R H d (retire_aliases E sid e)" "evolves R H d (purge_map sid e)" "evolves R H d (release_leases E p e)"
  unfolding reaper_audit_def close_components_def retire_aliases_def purge_map_def release_leases_def Let_def
  by (intro evolve assms; simp)+

lemma evolves_reaped [evolve]:
  assumes "evolves ordinary_edge H d e"
  shows "evolves ordinary_edge H d (dead_letter_recipient E sid e)" "evolves ordinary_edge H d (expire_owed_replies E sid e)"
    "evolves ordinary_edge H d (expire_waiting E m e)"
  unfolding dead_letter_recipient_def expire_owed_replies_def expire_waiting_def
  by (intro evolve; use assms in \<open>auto simp: ordinary_edge_def\<close>)+

lemma reapStalePendingNames_evolves [evolve]:
  assumes "evolves R H d e"
  shows "evolves R H d (reapStalePendingNames E e)"
  unfolding reapStalePendingNames_def Let_def by (intro evolve evolves_unname assms) simp_all

lemma expire_session_evolves [evolve]: "evolves ordinary_edge H d e \<Longrightarrow> evolves ordinary_edge H d (expire_session E sid e)"
  unfolding expire_session_def Let_def by (intro evolve evolves_upd_sessions) (simp_all add: names_view_def expire_row_def)

lemma expire_all_evolves [evolve]: "evolves ordinary_edge H d e \<Longrightarrow> evolves ordinary_edge H d (snd (expire_all E sids e))"
  by (induction sids arbitrary: e) (simp_all add: Let_def case_prod_beta expire_session_evolves)

lemma timeout_one_evolves [evolve]:
  assumes "evolves ordinary_edge H d e"
  shows "evolves ordinary_edge H d (snd (timeout_one opts E r e))"
  unfolding timeout_one_def Let_def
  using assms by (auto simp: ordinary_edge_def still_unacked_def timeout_dead_def timeout_retry_def intro!: evolve)

lemma timeout_all_evolves [evolve]: "evolves ordinary_edge H d e \<Longrightarrow> evolves ordinary_edge H d (snd (timeout_all opts E used rs e))"
  by (induction rs arbitrary: e used) (simp_all add: Let_def case_prod_beta timeout_one_evolves)

lemma expire_messages_evolves [evolve]: "evolves ordinary_edge H d e \<Longrightarrow> evolves ordinary_edge H d (snd (expire_messages E ms e))"
  by (induction ms arbitrary: e) (simp_all add: Let_def case_prod_beta evolves_reaper evolves_reaped)

lemma passes_evolve [evolve]:
  assumes "evolves ordinary_edge H d e"
  shows "evolves ordinary_edge H d (snd (reapAckTimeouts opts E e))" "evolves ordinary_edge H d (snd (reapAcceptanceTtl E e))"
    "evolves ordinary_edge H d (snd (reclaimLeases E e))" "evolves ordinary_edge H d (snd (reapExpiredSessions E e))"
    "evolves ordinary_edge H d (snd (reapOldScheduleRuns opts E e))"
  unfolding reapAckTimeouts_def reapAcceptanceTtl_def reclaimLeases_def reapExpiredSessions_def reapOldScheduleRuns_def Let_def
  by (intro evolve assms)+

lemma sweep_evolves: "evolves ordinary_edge H d (fst (sweep opts E d))"
  unfolding sweep_def Let_def case_prod_beta by (intro evolve)

section \<open>Operator console and scheduler\<close>

lemma evolves_with_session [evolve]:
  "evolves R H d (fst (with_session sid k d))" if "\<And>s. session_row d sid = Some s \<Longrightarrow> evolves R H d (fst (k s d))"
  using that by (auto simp: with_session_def requireSession_def split: option.splits)

lemma operatorRenameAlias_evolves: "evolves R (sha256 E) d (fst (operatorRenameAlias E sid raw d))"
  unfolding operatorRenameAlias_def Let_def case_prod_beta
  by (intro evolve evolves_name_claim) (simp_all add: set_name_def)

lemma operatorSetControl_evolves: "evolves R (sha256 E) d (fst (operatorSetControl E sid m d))"
  unfolding operatorSetControl_def by (intro evolve)

lemma operatorRedeliver_evolves: "evolves recovery_edge H d (fst (operatorRedeliver E mid why c d))"
  unfolding operatorRedeliver_def Let_def case_prod_beta by (intro evolve) (auto simp: recovery_edge_def rearm_row_def)

lemma replaceCollections_evolves: "evolves R (sha256 E) d (fst (replaceCollections E cols ms d))"
  unfolding replaceCollections_def Let_def by (intro evolve)

lemma operatorSetPinned_evolves: "evolves R (sha256 E) d (fst (operatorSetPinned E sid b d))"
  unfolding operatorSetPinned_def by (intro evolve) (simp add: names_view_def)

lemma operatorSetArchived_evolves: "evolves R (sha256 E) d (fst (operatorSetArchived E sid b d))"
  unfolding operatorSetArchived_def by (intro evolve) (simp add: names_view_def)

lemma operatorRemoveRecord_evolves: "evolves recovery_edge (sha256 E) d (fst (operatorRemoveRecord E sid d))"
  unfolding operatorRemoveRecord_def remove_rows_def remove_deliveries_def Let_def
  by (intro evolve evolves_del_session) (auto simp: recovery_edge_def del_where_def purge_map_def Let_def)

lemma managed_evolves:
  "evolves R (sha256 E) d (fst (recordManagedSession E sid pid key d))"
  "evolves R (sha256 E) d (fst (clearManagedSession E sid d))"
  "evolves R (sha256 E) d (fst (markManagedSessionExited E sid d))"
  unfolding recordManagedSession_def clearManagedSession_def markManagedSessionExited_def Let_def
  by (intro evolve; simp add: names_view_def set_managed_def clear_managed_def blank_session_def)+

lemma schedule_state_evolves:
  "evolves R (sha256 E) d (fst (createSchedule E inp d))" "evolves R (sha256 E) d (fst (setScheduleState E i st d))"
  unfolding createSchedule_def setScheduleState_def Let_def case_prod_beta by (intro evolve)+

lemma evolves_scheduler [evolve]:
  assumes "evolves R H d e"
  shows "evolves R H d (scheduler_audit E ev fs e)" "evolves R H d (fst (advance E s mode e))" "evolves R H d (set_run E s slot f e)"
  unfolding advance_def set_run_def scheduler_audit_def Let_def by (intro evolve assms)+

lemma evolves_skips [evolve]:
  assumes "evolves R H d e"
  shows "evolves R H d (fst (skip E s slot why ev e))" "evolves R H d (fst (fire_failed E s slot err e))"
  unfolding skip_def fire_failed_def Let_def by (intro evolve assms)+

lemma fire_send_evolves [evolve]:
  assumes "evolves R (sha256 E) d e"
  shows "evolves R (sha256 E) d (fst (fire_send E s slot e))"
proof (cases "operatorSend E (fire_input s slot) e")
  case (Pair e' r)
  with operatorSend_evolves [OF assms, of "fire_input s slot"] have "evolves R (sha256 E) d e'" by simp
  with Pair show ?thesis
    unfolding fire_send_def Let_def by (cases r) (auto intro!: evolve)
qed

lemma fireOne_evolves: "evolves R (sha256 E) d (fst (fireOne cap E s slot d))"
  unfolding fireOne_def fire_slot_def Let_def case_prod_beta by (intro evolve)

lemma tick_all_evolves: "evolves R (sha256 E) d e \<Longrightarrow> evolves R (sha256 E) d (snd (tick_all cap E ss e))"
proof (induction ss arbitrary: e)
  case (Cons s ss)
  obtain e' r where f: "fireOne cap E s (the (sc_nextRun s)) e = (e', r)" by fastforce
  then have step: "evolves R (sha256 E) d e'"
    using evolves_trans [OF Cons.prems fireOne_evolves [where d = e and cap = cap and s = s and slot = "the (sc_nextRun s)"]] by simp
  from Cons.IH step show ?case
    by (auto simp: f Let_def case_prod_beta evolves_scheduler split: sum.splits fire_outcome.splits)
qed simp

lemma tick_evolves: "evolves R (sha256 E) d (snd (tick cap E d))"
  unfolding tick_def by (rule tick_all_evolves) simp

lemma recordWakeAttempt_evolves: "evolves R H d (recordWakeAttempt E mid sid w t d)"
  unfolding recordWakeAttempt_def by (intro evolve)

lemma daemon_evolves:
  "evolves R H d (daemon_audit E ev fs d)" "evolves R H d (touchCheckpoint E sid d)"
  "evolves R H d (refreshMeaningfulActivity E sid d)" "evolves R H d (snd (next_id E d))"
  "evolves R H d (fst (pendingForSession E auth n d))"
  unfolding daemon_audit_def touchCheckpoint_def next_id_def snd_conv pendingForSession_def
  by (intro evolve evolves_upd_sessions; simp add: names_view_def)+

end
