(* ===== verification/Delivery_Correct.thy ===== *)
theory Delivery_Correct
  imports Delivery_Flow
begin

text \<open>
  What the delivery operations guarantee to their callers: soundness and completeness of a pull, the path from a
  pull to an acknowledgement, acknowledgement exactly once, the effect of a reply, and the fence around stale epochs.
\<close>

section \<open>Sample state\<close>

definition sample_env :: env where
  "sample_env = \<lparr>now = 1000, now_iso = js ''t1000'', id_of = (\<lambda>n. [n]), sha256 = (\<lambda>x. x), secret_of = (\<lambda>n. [n]),
     capability_of = (\<lambda>n. [n]), liveness = (\<lambda>p. Inconclusive), uni = ascii_unicode\<rparr>"

lemma sample_env_simps [simp]:
  "now sample_env = 1000" "id_of sample_env n = [n]" "sha256 sample_env x = x" "capability_of sample_env n = [n]"
  "uni sample_env = ascii_unicode" "secret_of sample_env n = [n]" "liveness sample_env p = Inconclusive"
  by (simp_all add: sample_env_def)

definition sample_message :: message_row where
  "sample_message = \<lparr>m_id = js ''m1'', m_sender = js ''a'', m_senderAlias = js ''a'', m_recipient = js ''b'',
     m_recipientAlias = js ''b'', m_kind = Request, m_correlation = js ''m1'', m_causation = None, m_parent = None,
     m_sequence = 1, m_idempotency = None, m_text = js ''hi'', m_bodyHash = js ''hi'', m_metadata = None, m_requiresAck = True,
     m_requiresReply = True, m_expiresAt = None, m_createdAt = 1, m_trace = js ''tr'', m_thread = Some (js ''t''),
     m_threadSequence = Some 1, m_author = Claude\<rparr>"

definition sample_delivery :: delivery_row where
  "sample_delivery = \<lparr>d_id = js ''d1'', d_message = js ''m1'', d_recipient = js ''b'', d_targetInstance = None,
     d_targetGeneration = None, d_fencing = None, d_attempt = 0, d_attemptTransport = 0, d_attemptInjection = 0,
     d_attemptAckTimeout = 0, d_attemptReply = 0, d_state = Queued, d_rejectedReason = None, d_failureCategory = None,
     d_leaseAcquiredAt = None, d_leaseExpiresAt = None, d_transportWrittenAt = None, d_acceptedAt = None,
     d_completedAt = None, d_nextAttemptAt = None, d_createdAt = 1, d_updatedAt = 1\<rparr>"

definition queued_db :: db where
  "queued_db = sample_db\<lparr>messages := [sample_message], deliveries := [sample_delivery], recipient_sequences := [\<lparr>q_key = js ''b'', q_next = 2\<rparr>]\<rparr>"

definition sample_auth :: "component_role \<Rightarrow> authority" where
  "sample_auth r = \<lparr>a_session = js ''b'', a_instance = js ''c'', a_component = js ''c'', a_role = r, a_epoch = 1,
     a_fencing = Some 1, a_conn = js ''k''\<rparr>"

lemma queued_db_tables [simp]:
  "sessions queued_db = [sample_session (js ''a''), sample_session (js ''b'')]" "messages queued_db = [sample_message]"
  "deliveries queued_db = [sample_delivery]" "context_injections queued_db = []" "receipts queued_db = []"
  "session_controls queued_db = []" "ids_drawn queued_db = 0" "capabilities_drawn queued_db = 0"
  "threads queued_db = [sample_thread (js ''t'')]"
  "recipient_sequences queued_db = [\<lparr>q_key = js ''b'', q_next = 2\<rparr>]" "thread_sequences queued_db = []"
  by (simp_all add: queued_db_def sample_db_def)

lemma queued_db_ok: "store_ok queued_db"
  by (simp add: store_ok_def sample_message_def sample_delivery_def)

lemma queued_db_fresh: "fresh_supply sample_env queued_db"
  by (simp add: fresh_supply_def inj_on_def)

lemma queued_db_epoch: "current_epoch queued_db (sample_auth r)"
  by (simp add: current_epoch_def session_row_def sample_auth_def)

lemma queued_db_pending: "pendingForSessionId sample_env queued_db (js ''b'') (cap_limit 10) = [rowToPending sample_message]"
  by (simp add: pendingForSessionId_def joined_def eligible_def waiting_def unexpired_def sample_message_def sample_delivery_def
      cap_limit_def sql_limit_def)

lemma checkpointPull_open:
  assumes "a_role auth = HOOK" "current_epoch d auth" "sessionAcceptsInjection d (a_session auth)"
    "autoDeliveryEnabled d (a_session auth)"
  shows "checkpointPull C E auth cp n d = pull_pending C E auth cp True n d"
  using assms by (simp add: checkpointPull_def assertAllowed_def ack_reply_pull_roles assertCurrentEpoch_current)

lemma queued_db_gates:
  "sessionAcceptsInjection queued_db (js ''b'')" "autoDeliveryEnabled queued_db (js ''b'')" "checkpoint_new queued_db cp m"
  by (simp_all add: sessionAcceptsInjection_def readinessOf_def session_row_def acceptsInjection_iff autoDeliveryEnabled_def
      getControl_def control_row_of_def checkpoint_new_def)

lemma sample_auth_simps [simp]:
  "a_session (sample_auth r) = js ''b''" "a_role (sample_auth r) = r" "a_epoch (sample_auth r) = 1"
  by (simp_all add: sample_auth_def)

lemma queued_db_checkpoint:
  "checkpointPull C E (sample_auth HOOK) cp n queued_db = pull_pending C E (sample_auth HOOK) cp True n queued_db"
  by (rule checkpointPull_open) (simp_all only: sample_auth_simps queued_db_gates queued_db_epoch)

lemma queued_db_pull:
  obtains d' p where "pull_pending daemon_config sample_env (sample_auth HOOK) (js ''cp'') True 10 queued_db = (d', Inr [p])"
    "pn_id p = js ''m1''" "pn_requiresAck p"
proof -
  have new: "\<forall>m\<in>set (pendingForSessionId sample_env queued_db (a_session (sample_auth HOOK)) (cap_limit 10)).
      checkpoint_new queued_db (js ''cp'') (pn_id m)"
    by (simp only: queued_db_gates) simp
  obtain d' out where o: "pull_pending daemon_config sample_env (sample_auth HOOK) (js ''cp'') True 10 queued_db = (d', Inr out)"
    "map pn_id out = filter (\<lambda>i. \<not> injected queued_db i (a_epoch (sample_auth HOOK)) 1)
       (map pn_id (pendingForSessionId sample_env queued_db (a_session (sample_auth HOOK)) (cap_limit 10)))"
    using pull_pending_complete [OF queued_db_ok queued_db_fresh new] by blast
  then have "map pn_id out = [js ''m1'']"
    by (simp only: sample_auth_simps queued_db_pending) (simp add: injected_def rowToPending_def sample_message_def)
  then obtain p where p: "out = [p]" "pn_id p = js ''m1''" by (cases out) auto
  have req: "pn_requiresAck p"
    using pull_content(3) [OF o(1)] p(1) by (simp add: sample_message_def rowToPending_def without_reference_def
        pending_message.defs) (metis pending_message.select_convs(8) pending_message.update_convs(11) pending_message.surjective)
  show ?thesis using o(1) p req that by blast
qed

section \<open>Pull\<close>

text \<open>C22: a hook checkpoint pull never presents anything that is not due: only a current-epoch hook gets messages, only
  while its session accepts injection and automatic delivery is on, at most 50, in sequence order, each a live,
  unexpired, due delivery of that session with its own body, each for the first time in this epoch, and none twice.\<close>

theorem pull_sound:
  assumes "checkpointPull C E auth cp n d = (d', Inr out)" and "p \<in> set out"
  shows "(a_role auth = HOOK \<and> current_epoch d auth \<and> sessionAcceptsInjection d (a_session auth) \<and> autoDeliveryEnabled d (a_session auth))
    \<and> (length out \<le> 50 \<and> sorted (map pn_sequence out) \<and> distinct (map pn_id out))
    \<and> (\<exists>x\<in>set (deliveries d). \<exists>m\<in>set (messages d). m_id m = d_message x \<and> eligible E (a_session auth) x m \<and>
       without_reference p = without_reference (rowToPending m))
    \<and> (\<not> injected d (pn_id p) (a_epoch auth) 1 \<and> injected d' (pn_id p) (a_epoch auth) 1)"
proof -
  note c = checkpointPull_Inr [OF assms(1)]
  have acc: "sessionAcceptsInjection d (a_session auth)" "autoDeliveryEnabled d (a_session auth)"
    and pull: "pull_pending C E auth cp True n d = (d', Inr out)"
    using c(3) assms(2) by auto
  have "a_role auth = HOOK \<and> current_epoch d auth \<and> sessionAcceptsInjection d (a_session auth) \<and> autoDeliveryEnabled d (a_session auth)"
    using c acc by simp
  moreover note p = pull_pending_presents [OF pull]
  have "length out \<le> 50 \<and> sorted (map pn_sequence out) \<and> distinct (map pn_id out)"
    using pull_content(1,2) [OF pull] p by (simp add: presents_def)
  moreover have "\<exists>x\<in>set (deliveries d). \<exists>m\<in>set (messages d). m_id m = d_message x \<and> eligible E (a_session auth) x m \<and>
       without_reference p = without_reference (rowToPending m)"
    using pull_content(3) [OF pull] assms(2) by blast
  moreover have "\<not> injected d (pn_id p) (a_epoch auth) 1 \<and> injected d' (pn_id p) (a_epoch auth) 1"
    using p assms(2) by (auto simp: presents_def)
  ultimately show ?thesis by blast
qed

theorem pull_sound_witness:
  "\<exists>d' p. checkpointPull daemon_config sample_env (sample_auth HOOK) (js ''cp'') 10 queued_db = (d', Inr [p]) \<and>
     \<not> injected queued_db (pn_id p) 1 1 \<and> injected d' (pn_id p) 1 1"
proof -
  obtain d' p where pull: "pull_pending daemon_config sample_env (sample_auth HOOK) (js ''cp'') True 10 queued_db = (d', Inr [p])"
    and req: "pn_requiresAck p"
    by (rule queued_db_pull)
  from pull have c: "checkpointPull daemon_config sample_env (sample_auth HOOK) (js ''cp'') 10 queued_db = (d', Inr [p])"
    by (simp only: queued_db_checkpoint)
  from pull_sound [OF c, of p] c show ?thesis by auto
qed

text \<open>C23: a pull presents everything it should: with the gates open, the presented messages are exactly the due messages
  of the session, cut at the limit and in sequence order, that this epoch has not seen yet.\<close>

theorem pull_complete:
  assumes "store_ok d" "fresh_supply E d" "a_role auth = HOOK" "current_epoch d auth"
    "sessionAcceptsInjection d (a_session auth)" "autoDeliveryEnabled d (a_session auth)"
    "\<forall>m\<in>set (pendingForSessionId E d (a_session auth) (cap_limit n)). checkpoint_new d cp (pn_id m)"
  shows "\<exists>d' out. checkpointPull C E auth cp n d = (d', Inr out) \<and>
     map pn_id out = filter (\<lambda>i. \<not> injected d i (a_epoch auth) 1)
       (map pn_id (pendingForSessionId E d (a_session auth) (cap_limit n)))"
  using pull_pending_complete [OF assms(1,2,7)] checkpointPull_open [OF assms(3-6)] by simp

theorem pull_complete_witness:
  "\<exists>d' out. checkpointPull daemon_config sample_env (sample_auth HOOK) (js ''cp'') 10 queued_db = (d', Inr out) \<and>
     map pn_id out = [js ''m1'']"
  using pull_complete [OF queued_db_ok queued_db_fresh, of "sample_auth HOOK" 10 "js ''cp''" daemon_config]
  by (simp add: queued_db_gates queued_db_epoch queued_db_pending injected_def del: js_Cons)
    (simp add: rowToPending_def sample_message_def)

section \<open>Acknowledgement\<close>

lemma ack_success:
  assumes "ack C E auth inp d = (d', Inr r)"
  shows "a_role auth = MCP" "current_epoch d auth"
  using assms by (auto simp: ack_def res_simps ack_reply_pull_roles split: option.splits)

lemma ack_recorded:
  assumes "a_role auth = MCP" "current_epoch d auth" "message_row d (ai_message inp) = Some m" "m_recipient m = a_session auth"
    "receipt_of d (ai_message inp) (a_session auth) AckOp = Some r" "delivery_row d (ai_message inp) = Some x"
  shows "rc_status r = status_name (ai_status inp) \<Longrightarrow> ack C E auth inp d = (d, Inr (d_state x, True))"
    "rc_status r \<noteq> status_name (ai_status inp) \<Longrightarrow>
       \<exists>d'. ack C E auth inp d = (d', Inl (xerr ILLEGAL_STATE_TRANSITION)) \<and> same_tables d d'"
  using assms
  by (auto simp: ack_def assertAllowed_def ack_reply_pull_roles assertCurrentEpoch_current transaction_def Let_def same_tables_def)

lemma ack_after:
  assumes "store_ok d" "ack C E auth inp d = (d', Inr (st, dup))"
  obtains m r y where "current_epoch d' auth" "message_row d' (ai_message inp) = Some m" "m_recipient m = a_session auth"
    "receipt_of d' (ai_message inp) (a_session auth) AckOp = Some r" "rc_status r = status_name (ai_status inp)"
    "delivery_row d' (ai_message inp) = Some y" "d_state y = st"
    "\<forall>k. k \<noteq> ai_message inp \<longrightarrow> delivery_row d' k = delivery_row d k"
proof -
  note cur = ack_success [OF assms(2)]
  from assms(2) show ?thesis
  proof (cases rule: ack_Inr)
    case (duplicate m r x)
    with cur show ?thesis by (intro that [of m r x]) simp_all
  next
    case (first m i)
    obtain x where x: "x \<in> set (deliveries d)" "d_message x = ai_message inp" "d_state x = Transport_Written"
      using first(6) by blast
    then have row: "delivery_row d (ai_message inp) = Some x" using delivery_row_unique [OF assms(1) x(1)] by simp
    obtain r where r: "receipt_of d' (ai_message inp) (a_session auth) AckOp = Some r" "rc_status r = status_name (ai_status inp)"
      using ack_commit_receipt [OF first(4)] first(7) by blast
    show ?thesis
    proof (rule that [of m r "ack_row E inp x"])
      have "delivery_row d' k = delivery_row d k" if "k \<noteq> ai_message inp" for k
        using first(7) that by (cases "delivery_row d k") (auto simp: ack_commit_row dest: delivery_row_SomeD)
      then show "\<forall>k. k \<noteq> ai_message inp \<longrightarrow> delivery_row d' k = delivery_row d k" by simp
      show "message_row d' (ai_message inp) = Some m" using first(2,7) by (simp add: message_row_def)
    qed (use first cur r x row in \<open>simp_all add: ack_commit_row ack_row_def\<close>)
  qed
qed

text \<open>C24: an acknowledgement takes effect exactly once. The answer is the state the delivery is left in; repeating it gives
  the same answer as a duplicate and changes nothing; acknowledging with the other status is refused and changes no
  table; and no other delivery is touched.\<close>

theorem ack_exactly_once:
  assumes "store_ok d" "ack C E auth inp d = (d', Inr (st, dup))"
  shows "(\<exists>y. delivery_row d' (ai_message inp) = Some y \<and> d_state y = st)
    \<and> ack C E' auth inp d' = (d', Inr (st, True))
    \<and> (ai_status other \<noteq> ai_status inp \<and> ai_message other = ai_message inp \<longrightarrow>
       (\<exists>d''. ack C E' auth other d' = (d'', Inl (xerr ILLEGAL_STATE_TRANSITION)) \<and> same_tables d' d''))
    \<and> (k \<noteq> ai_message inp \<longrightarrow> delivery_row d' k = delivery_row d k)"
proof (intro conjI impI)
  note role = ack_success(1) [OF assms(2)]
  obtain m r y where a: "current_epoch d' auth" "message_row d' (ai_message inp) = Some m" "m_recipient m = a_session auth"
    "receipt_of d' (ai_message inp) (a_session auth) AckOp = Some r" "rc_status r = status_name (ai_status inp)"
    "delivery_row d' (ai_message inp) = Some y" "d_state y = st"
    and rest: "\<forall>k. k \<noteq> ai_message inp \<longrightarrow> delivery_row d' k = delivery_row d k"
    using assms by (rule ack_after)
  show "\<exists>y. delivery_row d' (ai_message inp) = Some y \<and> d_state y = st" using a by blast
  show "ack C E' auth inp d' = (d', Inr (st, True))" using ack_recorded(1) [OF role a(1-4,6,5)] a(7) by simp
  show "delivery_row d' k = delivery_row d k" if "k \<noteq> ai_message inp" using rest that by simp
  show "\<exists>d''. ack C E' auth other d' = (d'', Inl (xerr ILLEGAL_STATE_TRANSITION)) \<and> same_tables d' d''"
    if o: "ai_status other \<noteq> ai_status inp \<and> ai_message other = ai_message inp"
  proof (rule ack_recorded(2) [OF role a(1)])
    show "rc_status r \<noteq> status_name (ai_status other)"
      using a(5) o by (cases "ai_status other"; cases "ai_status inp") simp_all
  qed (use a o in simp_all)
qed

lemma queued_db_ack:
  obtains d1 p d2 where "store_ok d1" "ack daemon_config sample_env (sample_auth MCP)
       \<lparr>ai_message = pn_id p, ai_status = Ack_Accepted, ai_note = None, ai_injection = reference p\<rparr> d1 = (d2, Inr (Accepted, False))"
proof -
  obtain d1 p where pull: "pull_pending daemon_config sample_env (sample_auth HOOK) (js ''cp'') True 10 queued_db = (d1, Inr [p])"
    and req: "pn_requiresAck p"
    by (rule queued_db_pull)
  have "\<exists>d2. ack daemon_config sample_env (sample_auth MCP)
       \<lparr>ai_message = pn_id p, ai_status = Ack_Accepted, ai_note = None, ai_injection = reference p\<rparr> d1 = (d2, Inr (ack_target Ack_Accepted, False))"
    by (rule pull_then_ack [OF queued_db_ok pull _ req]) (simp_all add: receipt_of_def daemon_config_def queued_db_epoch)
  moreover have "store_ok d1" using pull_pending_ok [OF queued_db_ok] pull by (metis fst_conv)
  ultimately show ?thesis using that by (auto simp: ack_target_def)
qed

theorem ack_exactly_once_witness:
  "\<exists>d inp d'. ack daemon_config sample_env (sample_auth MCP) inp d = (d', Inr (Accepted, False)) \<and>
     ack daemon_config sample_env (sample_auth MCP) inp d' = (d', Inr (Accepted, True)) \<and>
     (\<exists>d''. ack daemon_config sample_env (sample_auth MCP) (inp\<lparr>ai_status := Ack_Rejected\<rparr>) d' = (d'', Inl (xerr ILLEGAL_STATE_TRANSITION)))"
proof -
  obtain d1 p d2 where "store_ok d1" and a: "ack daemon_config sample_env (sample_auth MCP)
       \<lparr>ai_message = pn_id p, ai_status = Ack_Accepted, ai_note = None, ai_injection = reference p\<rparr> d1 = (d2, Inr (Accepted, False))"
    by (rule queued_db_ack)
  note o = ack_exactly_once [OF this]
  let ?i = "\<lparr>ai_message = pn_id p, ai_status = Ack_Accepted, ai_note = None, ai_injection = reference p\<rparr>"
  have "\<exists>d''. ack daemon_config sample_env (sample_auth MCP) (?i\<lparr>ai_status := Ack_Rejected\<rparr>) d2 = (d'', Inl (xerr ILLEGAL_STATE_TRANSITION))"
    using o [where E' = sample_env and other = "?i\<lparr>ai_status := Ack_Rejected\<rparr>"] by auto
  with a o [where E' = sample_env] show ?thesis by blast
qed

section \<open>Reply\<close>

text \<open>The database just before a first reply writes its message row: only counters have moved.\<close>

lemma reply_first:
  assumes "store_ok d" "reply C E auth inp allocSequence d = (d', Inr (res, rid))" "\<not> sr_deduplicated res"
  obtains orig m d4 where "message_row d (ri_message inp) = Some orig" "messages d' = messages d @ [m]" "m_id m = rid"
    "m = reply_message E auth inp orig rid (seq_next (m_sender orig) (recipient_sequences d)) (reply_thread orig) (the (m_threadSequence m))"
    "\<forall>r\<in>set (messages d). \<not> message_conflict m r"
    "deliveries d' = upd_where (\<lambda>x. d_message x = ri_message inp \<and> (d_state x = Accepted \<or> d_state x = Transport_Written))
       (\<lambda>x. x\<lparr>d_state := Completed, d_completedAt := Some (now E), d_updatedAt := now E\<rparr>)
       (deliveries (insert_delivery E rid (m_sender orig) d4))" "deliveries d4 = deliveries d"
    "m_recipient orig = a_session auth" "rid = id_of E (ids_drawn d)"
proof -
  from assms(2) show ?thesis
  proof (cases rule: reply_Inr)
    case (duplicate orig m)
    with assms(3) show ?thesis by simp
  next
    case (first orig i d2 n d3 k d4)
    let ?m = "reply_message E auth inp orig rid n (reply_thread orig) k"
    have same: "messages d3 = messages d" "deliveries d3 = deliveries d"
      using first(5,6) allocSequence_frame [of "m_sender orig" "d\<lparr>ids_drawn := Suc (ids_drawn d)\<rparr>"]
        allocThread_frame [of "reply_thread orig" d2] by simp_all
    have n: "n = seq_next (m_sender orig) (recipient_sequences d)"
      using recipient.alloc_Inr [OF first(5)] by simp
    have ins: "d4 = d3\<lparr>messages := messages d3 @ [?m]\<rparr>" "\<forall>r\<in>set (messages d3). \<not> message_conflict ?m r"
      using first(7) by (simp_all add: insert_message_Inr)
    show ?thesis
    proof (rule that [of orig ?m d4])
      show "messages d' = messages d @ [?m]" using first(8) ins same by (simp add: reply_commit_frame)
      show "?m = reply_message E auth inp orig rid (seq_next (m_sender orig) (recipient_sequences d)) (reply_thread orig)
          (the (m_threadSequence ?m))" using n by (simp add: reply_message_def)
    qed (use first ins same in \<open>simp_all add: reply_commit_deliveries reply_message_def\<close>)
  qed
qed

text \<open>C25: a first reply creates one new message from the replier to the original sender, on the original's correlation
  and caused by it, with the sender's next sequence number, queues its delivery, and completes the original delivery
  when it was written or accepted (a delivery that was re-queued in between stays as it is).\<close>

theorem reply_effect:
  assumes "store_ok d" "reply C E auth inp allocSequence d = (d', Inr (res, rid))" "\<not> sr_deduplicated res"
  shows "(\<exists>orig m. message_row d (ri_message inp) = Some orig \<and> messages d' = messages d @ [m] \<and> m_id m = rid \<and>
      m_sender m = a_session auth \<and> m_recipient m = m_sender orig \<and> m_text m = ri_text inp \<and>
      m_correlation m = m_correlation orig \<and> m_causation m = Some (ri_message inp) \<and>
      m_sequence m = seq_next (m_sender orig) (recipient_sequences d))
    \<and> (\<exists>y. delivery_row d' rid = Some y \<and> d_state y = Queued \<and> delivery_row d rid = None)
    \<and> (delivery_row d (ri_message inp) = Some x \<longrightarrow> (\<exists>y. delivery_row d' (ri_message inp) = Some y \<and>
      d_state y = (if d_state x = Accepted \<or> d_state x = Transport_Written then Completed else d_state x)))"
proof (intro conjI impI)
  obtain orig m d4 where r: "message_row d (ri_message inp) = Some orig" "messages d' = messages d @ [m]" "m_id m = rid"
    "m = reply_message E auth inp orig rid (seq_next (m_sender orig) (recipient_sequences d)) (reply_thread orig) (the (m_threadSequence m))"
    "\<forall>r\<in>set (messages d). \<not> message_conflict m r"
    "deliveries d' = upd_where (\<lambda>x. d_message x = ri_message inp \<and> (d_state x = Accepted \<or> d_state x = Transport_Written))
       (\<lambda>x. x\<lparr>d_state := Completed, d_completedAt := Some (now E), d_updatedAt := now E\<rparr>)
       (deliveries (insert_delivery E rid (m_sender orig) d4))" "deliveries d4 = deliveries d"
    using assms by (rule reply_first)
  have orig: "orig \<in> set (messages d)" "m_id orig = ri_message inp"
    using find_SomeD [OF r(1) [unfolded message_row_def]] by auto
  then have new: "rid \<noteq> ri_message inp" using r(3,5) by (auto simp: message_conflict_def)
  show "\<exists>orig m. message_row d (ri_message inp) = Some orig \<and> messages d' = messages d @ [m] \<and> m_id m = rid \<and>
      m_sender m = a_session auth \<and> m_recipient m = m_sender orig \<and> m_text m = ri_text inp \<and>
      m_correlation m = m_correlation orig \<and> m_causation m = Some (ri_message inp) \<and>
      m_sequence m = seq_next (m_sender orig) (recipient_sequences d)"
  proof -
    have "m_sender m = a_session auth \<and> m_recipient m = m_sender orig \<and> m_text m = ri_text inp \<and>
      m_correlation m = m_correlation orig \<and> m_causation m = Some (ri_message inp) \<and>
      m_sequence m = seq_next (m_sender orig) (recipient_sequences d)"
      using arg_cong [OF r(4), of m_sender] arg_cong [OF r(4), of m_recipient] arg_cong [OF r(4), of m_text]
        arg_cong [OF r(4), of m_correlation] arg_cong [OF r(4), of m_causation] arg_cong [OF r(4), of m_sequence]
      by (simp add: reply_message_def)
    with r(1-3) show ?thesis by blast
  qed
  have row: "delivery_row d' k = map_option (\<lambda>x. if d_message x = ri_message inp \<and> (d_state x = Accepted \<or> d_state x = Transport_Written)
      then x\<lparr>d_state := Completed, d_completedAt := Some (now E), d_updatedAt := now E\<rparr> else x)
      (delivery_row (insert_delivery E rid (m_sender orig) d4) k)" for k
    by (rule delivery_row_upd [OF r(6)]) simp
  have none: "delivery_row d rid = None"
    using assms(1) r(3,5) by (fastforce simp: delivery_row_def find_None_conv store_ok_def message_conflict_def)
  then have "\<exists>y. delivery_row (insert_delivery E rid (m_sender orig) d4) rid = Some y \<and> d_state y = Queued \<and> d_message y = rid"
    using r(7) by (simp add: insert_delivery_def next_id_def delivery_row_def find_append)
  with none new show "\<exists>y. delivery_row d' rid = Some y \<and> d_state y = Queued \<and> delivery_row d rid = None"
    by (auto simp: row)
  show "\<exists>y. delivery_row d' (ri_message inp) = Some y \<and>
      d_state y = (if d_state x = Accepted \<or> d_state x = Transport_Written then Completed else d_state x)"
    if x: "delivery_row d (ri_message inp) = Some x"
  proof -
    have "delivery_row (insert_delivery E rid (m_sender orig) d4) (ri_message inp) = Some x"
      using x r(7) by (simp add: insert_delivery_def next_id_def delivery_row_def find_append)
    with delivery_row_SomeD [OF x] show ?thesis by (simp add: row)
  qed
qed

definition written_db :: db where
  "written_db = queued_db\<lparr>deliveries := [sample_delivery\<lparr>d_state := Transport_Written\<rparr>]\<rparr>"

lemma written_db_reply:
  "\<exists>d' res. reply (daemon_config\<lparr>cf_requireReceipt := False\<rparr>) sample_env (sample_auth MCP)
     \<lparr>ri_message = js ''m1'', ri_text = js ''ok'', ri_outcome = ''success'', ri_idempotency = None, ri_metadata = None, ri_injection = None\<rparr>
     allocSequence written_db = (d', Inr (res, [0])) \<and> \<not> sr_deduplicated res"
proof -
  have "current_epoch written_db (sample_auth MCP)"
    using queued_db_epoch [of MCP] by (simp add: written_db_def current_epoch_def session_row_def)
  then show ?thesis
    by (simp add: reply_def assertAllowed_def ack_reply_pull_roles assertCurrentEpoch_current transaction_def message_row_def
        written_db_def sample_message_def truthy_def authorize_if_def session_row_def next_id_def allocSequence_def
        allocThreadSequence_def thread_of_def insert_message_def message_conflict_def reply_message_def Let_def)
qed

theorem reply_effect_witness:
  "\<exists>d' y. delivery_row d' (js ''m1'') = Some y \<and> d_state y = Completed \<and> (\<exists>z. delivery_row d' [0] = Some z \<and> d_state z = Queued)"
proof -
  have ok: "store_ok written_db"
    by (rule store_ok_cong [OF queued_db_ok]) (simp_all add: written_db_def keys_def)
  obtain d' res where r: "reply (daemon_config\<lparr>cf_requireReceipt := False\<rparr>) sample_env (sample_auth MCP)
     \<lparr>ri_message = js ''m1'', ri_text = js ''ok'', ri_outcome = ''success'', ri_idempotency = None, ri_metadata = None, ri_injection = None\<rparr>
     allocSequence written_db = (d', Inr (res, [0]))" "\<not> sr_deduplicated res"
    using written_db_reply by blast
  have "delivery_row written_db (js ''m1'') = Some (sample_delivery\<lparr>d_state := Transport_Written\<rparr>)"
    by (simp add: written_db_def delivery_row_def sample_delivery_def)
  with reply_effect [OF ok r, of "sample_delivery\<lparr>d_state := Transport_Written\<rparr>"]
  show ?thesis by auto
qed

section \<open>The epoch fence\<close>

text \<open>What the fence protects: the tables a delivery operation may write, apart from the audit trail.\<close>

text \<open>Nothing but the audit trail (and the ids drawn for it) differs.\<close>

definition only_audited :: "db \<Rightarrow> db \<Rightarrow> bool" where
  "only_audited d d' \<longleftrightarrow> (\<exists>n rows. d' = d\<lparr>ids_drawn := n, audit_events := audit_events d @ rows\<rparr>)"

lemma only_audited_refl [simp]: "only_audited d d"
  unfolding only_audited_def by (rule exI [of _ "ids_drawn d"], rule exI [of _ "[]"]) simp

lemma only_audited_audit: "only_audited d (audit E ev fs d)"
  by (auto simp: only_audited_def audit_def insert_audit_def next_id_def Let_def split: if_splits)

lemma fence_closed:
  assumes "\<not> current_epoch d auth"
  shows "\<exists>e d'. andThen (assertCurrentEpoch E auth d) k = (d', Inl e) \<and> only_audited d d'"
  using assms by (auto simp: assertCurrentEpoch_def current_epoch_def only_audited_audit split: option.splits)

lemma gated_fence:
  assumes "\<not> current_epoch d auth"
  shows "\<exists>e d'. (case assertAllowed r op of Some e \<Rightarrow> (d, Inl e) | None \<Rightarrow> andThen (assertCurrentEpoch E auth d) k)
      = (d', Inl e) \<and> only_audited d d'"
  using fence_closed [OF assms, of E k] by (auto split: option.splits)

text \<open>C26: a component whose epoch is no longer the session's current one can do nothing: pulling, forced pulling, viewing
  the inbox, redelivering, marking, reading pending messages, acknowledging and replying all fail, and the whole database is
  as before except for rows appended to the audit trail and the ids drawn for them.\<close>

theorem stale_epoch_fenced:
  assumes "\<not> current_epoch d auth"
  shows "(\<exists>e d'. checkpointPull C E auth cp n d = (d', Inl e) \<and> only_audited d d')
    \<and> (\<exists>e d'. processNext C E auth cp d = (d', Inl e) \<and> only_audited d d')
    \<and> (\<exists>e d'. inboxView C E auth cp n d = (d', Inl e) \<and> only_audited d d')
    \<and> (\<exists>e d'. redeliver C E auth msg reason d = (d', Inl e) \<and> only_audited d d')
    \<and> (\<exists>e d'. markInjected C E auth msgs d = (d', Inl e) \<and> only_audited d d')
    \<and> (\<exists>e d'. ack C E auth ai d = (d', Inl e) \<and> only_audited d d')
    \<and> (\<exists>e d'. reply C E auth ri alloc d = (d', Inl e) \<and> only_audited d d')
    \<and> (\<exists>e d'. pendingForSession E auth count d = (d', Inl e) \<and> only_audited d d')"
  unfolding checkpointPull_def processNext_def inboxView_def redeliver_def markInjected_def ack_def reply_def pendingForSession_def
  by (intro conjI gated_fence [OF assms] fence_closed [OF assms])

theorem stale_epoch_fenced_witness:
  "\<exists>e d'. ack daemon_config sample_env ((sample_auth MCP)\<lparr>a_epoch := 0\<rparr>) \<lparr>ai_message = js ''m1'', ai_status = Ack_Accepted,
     ai_note = None, ai_injection = None\<rparr> written_db = (d', Inl e) \<and> only_audited written_db d'"
  by (rule stale_epoch_fenced [THEN conjunct2, THEN conjunct2, THEN conjunct2, THEN conjunct2, THEN conjunct2, THEN conjunct1]) (simp add: current_epoch_def session_row_def sample_auth_def written_db_def)

end
