(* ===== verification/Broker.thy ===== *)
theory Broker
  imports Broker_Steps Delivery_Correct
begin

text \<open>
  The broker as one machine: every operation of the components, its execution on the database, the steps it can
  take in any order and at any time, and what holds in every state it can reach. Clock, id generator and random
  sources may differ from step to step; only the hash function stays the same.
\<close>

section \<open>The machine\<close>

datatype broker_op =
    Do_Register register_input
  | Do_Register_Alias authority js_string
  | Do_Announce authority announce_input
  | Do_Import "imported_meta list"
  | Do_Rename authority js_string "js_string option"
  | Do_Signal_Readiness authority readiness_hints
  | Do_Set_Readiness js_string readiness
  | Do_Ensure_Operator
  | Do_Conn_Close js_string "authority option"
  | Do_Diagnose js_string
  | Do_Cleanup_Components "js_string list" "int option"
  | Do_Send authority send_input
  | Do_Operator_Send operator_input
  | Do_Mark_Thread_Read js_string nat
  | Do_Pull authority js_string int
  | Do_Process_Next authority js_string
  | Do_Inbox authority js_string int
  | Do_Redeliver authority js_string js_string
  | Do_Mark_Injected authority "js_string list"
  | Do_Pull_By_Session js_string int
  | Do_Ack authority ack_input
  | Do_Reply authority reply_input
  | Do_Set_Control js_string receive_control
  | Do_Block js_string js_string
  | Do_Unblock js_string js_string
  | Do_Cancel js_string "js_string option"
  | Do_Redrive "js_string \<Rightarrow> js_string \<Rightarrow> string option option" js_string
  | Do_Discard js_string
  | Do_Sweep reaper_options
  | Do_Operator_Rename js_string js_string
  | Do_Operator_Control js_string receive_control
  | Do_Operator_Redeliver js_string "js_string option" bool
  | Do_Replace_Collections "collection_input list" "(js_string \<times> js_string list) list"
  | Do_Pin js_string bool
  | Do_Archive js_string bool
  | Do_Remove js_string
  | Do_Record_Managed js_string int js_string
  | Do_Clear_Managed js_string
  | Do_Managed_Exited js_string
  | Do_Wake_Attempt js_string js_string wake_outcome "js_string option"
  | Do_Create_Schedule schedule_input
  | Do_Set_Schedule js_string schedule_state
  | Do_Tick int
  | Do_Daemon_Audit string "(string \<times> jval) list"
  | Do_Touch_Checkpoint js_string
  | Do_Refresh_Activity js_string
  | Do_Draw_Id
  | Do_Peek authority "int option"

fun exec :: "config \<Rightarrow> env \<Rightarrow> broker_op \<Rightarrow> db \<Rightarrow> db" where
  "exec C E (Do_Register inp) d = fst (register E inp d)"
| "exec C E (Do_Register_Alias auth a) d = fst (registerAlias E auth a d)"
| "exec C E (Do_Announce auth inp) d = fst (announceSession E auth inp d)"
| "exec C E (Do_Import metas) d = fst (importDormantSessions E metas d)"
| "exec C E (Do_Rename auth n secret) d = fst (renameSession E auth n secret d)"
| "exec C E (Do_Signal_Readiness auth h) d = fst (signalReadiness E auth h d)"
| "exec C E (Do_Set_Readiness sid r) d = setReadiness E sid r d"
| "exec C E Do_Ensure_Operator d = fst (ensureOperatorSession E d)"
| "exec C E (Do_Conn_Close conn auth) d = onConnClose E conn auth d"
| "exec C E (Do_Diagnose sid) d = fst (diagnoseActivationOnce E sid d)"
| "exec C E (Do_Cleanup_Components live r) d = fst (cleanupComponents E live r d)"
| "exec C E (Do_Send auth inp) d = fst (send E auth inp d)"
| "exec C E (Do_Operator_Send inp) d = fst (operatorSend E inp d)"
| "exec C E (Do_Mark_Thread_Read t n) d = fst (markThreadRead E t n d)"
| "exec C E (Do_Pull auth cp n) d = fst (checkpointPull C E auth cp n d)"
| "exec C E (Do_Process_Next auth cp) d = fst (processNext C E auth cp d)"
| "exec C E (Do_Inbox auth cp n) d = fst (inboxView C E auth cp n d)"
| "exec C E (Do_Redeliver auth m why) d = fst (redeliver C E auth m why d)"
| "exec C E (Do_Mark_Injected auth ms) d = fst (markInjected C E auth ms d)"
| "exec C E (Do_Pull_By_Session sid n) d = fst (checkpointPullBySessionId C E sid n d)"
| "exec C E (Do_Ack auth inp) d = fst (ack C E auth inp d)"
| "exec C E (Do_Reply auth inp) d = fst (reply C E auth inp allocSequence d)"
| "exec C E (Do_Set_Control sid m) d = setControl E sid m d"
| "exec C E (Do_Block sid a) d = blockPeer E sid a d"
| "exec C E (Do_Unblock sid a) d = unblockPeer E sid a d"
| "exec C E (Do_Cancel m why) d = fst (cancel E m why d)"
| "exec C E (Do_Redrive v m) d = fst (redrive E v m d)"
| "exec C E (Do_Discard m) d = snd (discard E m d)"
| "exec C E (Do_Sweep opts) d = fst (sweep opts E d)"
| "exec C E (Do_Operator_Rename sid n) d = fst (operatorRenameAlias E sid n d)"
| "exec C E (Do_Operator_Control sid m) d = fst (operatorSetControl E sid m d)"
| "exec C E (Do_Operator_Redeliver m why c) d = fst (operatorRedeliver E m why c d)"
| "exec C E (Do_Replace_Collections cs ms) d = fst (replaceCollections E cs ms d)"
| "exec C E (Do_Pin sid b) d = fst (operatorSetPinned E sid b d)"
| "exec C E (Do_Archive sid b) d = fst (operatorSetArchived E sid b d)"
| "exec C E (Do_Remove sid) d = fst (operatorRemoveRecord E sid d)"
| "exec C E (Do_Record_Managed sid pid key) d = fst (recordManagedSession E sid pid key d)"
| "exec C E (Do_Clear_Managed sid) d = fst (clearManagedSession E sid d)"
| "exec C E (Do_Managed_Exited sid) d = fst (markManagedSessionExited E sid d)"
| "exec C E (Do_Wake_Attempt m sid w t) d = recordWakeAttempt E m sid w t d"
| "exec C E (Do_Create_Schedule inp) d = fst (createSchedule E inp d)"
| "exec C E (Do_Set_Schedule i st) d = fst (setScheduleState E i st d)"
| "exec C E (Do_Tick cap) d = snd (tick cap E d)"
| "exec C E (Do_Daemon_Audit ev fs) d = daemon_audit E ev fs d"
| "exec C E (Do_Touch_Checkpoint sid) d = touchCheckpoint E sid d"
| "exec C E (Do_Refresh_Activity sid) d = refreshMeaningfulActivity E sid d"
| "exec C E Do_Draw_Id d = snd (next_id E d)"
| "exec C E (Do_Peek auth n) d = fst (pendingForSession E auth n d)"

inductive broker_step :: "config \<Rightarrow> (js_string \<Rightarrow> js_string) \<Rightarrow> db \<Rightarrow> db \<Rightarrow> bool" for C H where
  operate: "sha256 E = H \<Longrightarrow> broker_step C H d (exec C E op d)"

inductive_cases broker_stepE: "broker_step C H d d'"

lemma setReadiness_evolves: "evolves R H d (setReadiness E sid r d)"
  unfolding setReadiness_def by (intro evolve) (simp add: names_view_def set_readiness_row_def)

text \<open>The operations that follow the ordinary edges, and those that recover or remove.\<close>

lemmas ordinary_evolves =
  register_evolves registerAlias_evolves announceSession_evolves importDormantSessions_evolves renameSession_evolves
  signalReadiness_evolves setReadiness_evolves ensureOperatorSession_evolves onConnClose_evolves diagnoseActivationOnce_evolves
  cleanupComponents_evolves send_evolves operatorSend_evolves [OF evolves_refl] markThreadRead_evolves
  checkpointPull_evolves [OF evolves_refl] processNext_evolves inboxView_evolves redeliver_evolves markInjected_evolves
  checkpointPullBySessionId_evolves ack_evolves reply_evolves evolves_controls [OF evolves_refl] cancel_evolves
  sweep_evolves operatorRenameAlias_evolves operatorSetControl_evolves
  replaceCollections_evolves operatorSetPinned_evolves operatorSetArchived_evolves managed_evolves
  recordWakeAttempt_evolves schedule_state_evolves tick_evolves daemon_evolves

lemmas recovery_evolves = redrive_evolves discard_evolves operatorRedeliver_evolves operatorRemoveRecord_evolves

fun is_recovery :: "broker_op \<Rightarrow> bool" where
  "is_recovery (Do_Redrive v m) = True"
| "is_recovery (Do_Discard m) = True"
| "is_recovery (Do_Operator_Redeliver m why c) = True"
| "is_recovery (Do_Remove sid) = True"
| "is_recovery _ = False"

lemma exec_ordinary: "\<not> is_recovery op \<Longrightarrow> evolves ordinary_edge (sha256 E) d (exec C E op d)"
  by (cases op) (simp_all add: ordinary_evolves)

lemma exec_evolves: "evolves recovery_edge (sha256 E) d (exec C E op d)"
proof (cases "is_recovery op")
  case True
  then show ?thesis by (cases op) (simp_all add: recovery_evolves)
next
  case False
  then show ?thesis by (rule evolves_mono [OF exec_ordinary ordinary_recovery])
qed

lemma step_evolves: "broker_step C H d d' \<Longrightarrow> evolves recovery_edge H d d'"
  by (erule broker_stepE) (use exec_evolves in blast)

section \<open>Reachable states\<close>

definition initial :: "db \<Rightarrow> bool" where
  "initial d \<longleftrightarrow> d = empty_db"

interpretation broker: step_system initial "broker_step C H" "broker_ok H" for C H
  by unfold_locales (auto simp: initial_def broker_ok_empty evolves_def dest: step_evolves)

text \<open>The part of a run inside well-formed states, and the state of one message along it.\<close>

definition sound_step :: "config \<Rightarrow> (js_string \<Rightarrow> js_string) \<Rightarrow> db \<Rightarrow> db \<Rightarrow> bool" where
  "sound_step C H d d' \<longleftrightarrow> broker_ok H d \<and> broker_step C H d d'"

definition message_state :: "js_string \<Rightarrow> db \<Rightarrow> delivery_state option" where
  "message_state m d = map_option d_state (delivery_row d m)"

fun may_become :: "delivery_state option \<Rightarrow> delivery_state option \<Rightarrow> bool" where
  "may_become None t \<longleftrightarrow> t \<noteq> None"
| "may_become (Some s) None \<longleftrightarrow> False"
| "may_become (Some s) (Some t) \<longleftrightarrow> s \<noteq> t \<and> recovery_edge\<^sup>*\<^sup>* s t"

lemma sound_step_may:
  assumes "sound_step C H d d'"
  shows "message_state m d' = message_state m d \<or> may_become (message_state m d) (message_state m d')"
proof -
  have mv: "moves recovery_edge d d'" using assms step_evolves by (auto simp: sound_step_def evolves_def)
  show ?thesis
  proof (cases "delivery_row d m")
    case None
    then show ?thesis by (auto simp: message_state_def)
  next
    case (Some x)
    with moves_row [OF mv Some] show ?thesis by (auto simp: message_state_def row_moves_def)
  qed
qed

interpretation message: observed_steps "sound_step C H" "message_state m" may_become for C H m
  by unfold_locales (rule sound_step_may)

lemma run_sound: "(broker_step C H)\<^sup>*\<^sup>* d d' \<Longrightarrow> broker_ok H d \<Longrightarrow> (sound_step C H)\<^sup>*\<^sup>* d d'"
proof (induction rule: rtranclp_induct)
  case (step e e')
  then have "sound_step C H e e'" using broker.run_good [of C H d e] by (simp add: sound_step_def)
  with step show ?case by (simp add: rtranclp.rtrancl_into_rtrancl)
qed simp

lemma final_stuck: "s \<in> {Completed, Rejected, Expired, Cancelled} \<Longrightarrow> \<not> may_become (Some s) t"
  by (cases t) (auto dest: recovery_run_terminal simp: isTerminal_iff)

lemma run_moves:
  assumes "(broker_step C H)\<^sup>*\<^sup>* d d'" "broker_ok H d"
  shows "moves recovery_edge d d'"
  using assms
proof (induction rule: rtranclp_induct)
  case (step e e')
  then have "moves recovery_edge e e'" using step_evolves broker.run_good [of C H d e] by (auto simp: evolves_def)
  with step show ?case using moves_trans by blast
qed simp

lemma reachable_ok: "(broker_step C H)\<^sup>*\<^sup>* empty_db d \<Longrightarrow> broker_ok H d"
  by (rule broker.reachable_good [of empty_db]) (simp_all add: initial_def)

section \<open>Presentation\<close>

text \<open>
  The bodies an operation hands to a session, each with the epoch it is handed to. Two operations may hand out a body the
  epoch has seen: the inbox read that marks nothing (\<open>Do_Peek\<close>) and the explicit request for another copy (\<open>Do_Redeliver\<close>).
\<close>

fun presented :: "config \<Rightarrow> env \<Rightarrow> broker_op \<Rightarrow> db \<Rightarrow> (js_string \<times> nat) list" where
  "presented C E (Do_Pull auth cp n) d =
     (case snd (checkpointPull C E auth cp n d) of Inl _ \<Rightarrow> [] | Inr out \<Rightarrow> map (\<lambda>p. (pn_id p, a_epoch auth)) out)"
| "presented C E (Do_Process_Next auth cp) d =
     (case snd (processNext C E auth cp d) of Inl _ \<Rightarrow> [] | Inr out \<Rightarrow> map (\<lambda>p. (pn_id p, a_epoch auth)) out)"
| "presented C E (Do_Inbox auth cp n) d =
     (case snd (inboxView C E auth cp n d) of
        Inl _ \<Rightarrow> [] | Inr out \<Rightarrow> map (\<lambda>e. (ie_id e, a_epoch auth)) (filter ie_bodyIncluded out))"
| "presented C E (Do_Mark_Injected auth ms) d =
     (case snd (markInjected C E auth ms d) of Inl _ \<Rightarrow> [] | Inr out \<Rightarrow> map (\<lambda>m. (m, a_epoch auth)) out)"
| "presented C E (Do_Pull_By_Session sid n) d =
     (case (snd (checkpointPullBySessionId C E sid n d), session_row d sid) of
        (Inr out, Some s) \<Rightarrow> map (\<lambda>p. (pn_id p, s_epoch s)) out | _ \<Rightarrow> [])"
| "presented C E (Do_Peek auth n) d =
     (case snd (pendingForSession E auth n d) of Inl _ \<Rightarrow> [] | Inr out \<Rightarrow> map (\<lambda>p. (pn_id p, a_epoch auth)) out)"
| "presented C E (Do_Redeliver auth m why) d =
     (case snd (redeliver C E auth m why d) of Inr (Some e) \<Rightarrow> [(ie_id e, a_epoch auth)] | _ \<Rightarrow> [])"
| "presented C E _ d = []"

fun is_peek :: "broker_op \<Rightarrow> bool" where
  "is_peek (Do_Peek auth n) = True"
| "is_peek _ = False"

fun is_redelivery :: "broker_op \<Rightarrow> bool" where
  "is_redelivery (Do_Redeliver auth m why) = True"
| "is_redelivery _ = False"

definition marks_presented :: "broker_op \<Rightarrow> bool" where
  "marks_presented op \<longleftrightarrow> \<not> is_peek op \<and> \<not> is_redelivery op"

definition first_time :: "db \<Rightarrow> db \<Rightarrow> (js_string \<times> nat) list \<Rightarrow> bool" where
  "first_time d d' ps \<longleftrightarrow> distinct ps \<and> (\<forall>(m, ep)\<in>set ps. \<not> injected d m ep 1 \<and> injected d' m ep 1)"

lemma first_time_presents: "presents ep d d' ids \<Longrightarrow> first_time d d' (map (\<lambda>m. (m, ep)) ids)"
  by (auto simp: presents_def first_time_def distinct_map inj_on_def)

lemma first_time_Nil [simp]: "first_time d d' []"
  by (simp add: first_time_def)

lemma first_time_presents_of: "presents ep d d' (map f xs) \<Longrightarrow> first_time d d' (map (\<lambda>x. (f x, ep)) xs)"
  using first_time_presents [of ep d d' "map f xs"] by (simp add: comp_def)

lemma inboxView_presents:
  assumes "inboxView C E auth cp n d = (d', Inr out)"
  shows "presents (a_epoch auth) d d' (map ie_id (filter ie_bodyIncluded out))"
proof -
  obtain e fresh rows where pull: "checkpointPull C E (auth\<lparr>a_role := HOOK\<rparr>) cp n d = (d', Inr fresh)"
    and out: "out = map fresh_entry fresh @ map (\<lambda>(x, m). presented_entry d' auth x m) rows"
    using assms by (auto simp: inboxView_def res_simps Let_def split: option.splits)
  have "filter ie_bodyIncluded (map (\<lambda>(x, m). presented_entry d' auth x m) rows) = []"
    by (auto simp: filter_empty_conv presented_entry_def Let_def)
  then have "map ie_id (filter ie_bodyIncluded out) = map pn_id fresh"
    by (simp add: out filter_map comp_def fresh_entry_def)
  with checkpointPull_presents [OF pull] show ?thesis by simp
qed

lemma checkpointPullBySessionId_presents:
  assumes "store_ok d" "checkpointPullBySessionId C E sid n d = (d', Inr out)" "session_row d sid = Some s"
  shows "presents (s_epoch s) d d' (map pn_id out)"
proof (cases "s_fencing s")
  case None
  with assms show ?thesis by (simp add: checkpointPullBySessionId_def)
next
  case (Some f)
  let ?hook = "js ''hook-'' @ take 8 sid"
  let ?auth = "\<lparr>a_session = sid, a_instance = ?hook, a_component = ?hook, a_role = HOOK, a_epoch = s_epoch s,
     a_fencing = Some f, a_conn = js ''checkpoint-hook''\<rparr>"
  let ?pending = "pendingForSessionId E d sid n"
  obtain newly where m: "markInjectedFor C E ?auth (map pn_id ?pending) None d = (d', Inr newly)"
    and out: "out = map (\<lambda>m. case injectionIdFor d' (pn_id m) (s_epoch s) of None \<Rightarrow> m
          | Some i \<Rightarrow> m\<lparr>pn_metadata := Some (obj_put INJECTION_METADATA_KEY i
              (case pn_metadata m of None \<Rightarrow> [] | Some es \<Rightarrow> es))\<rparr>) (filter (\<lambda>p. pn_id p \<in> set newly) ?pending)"
    using assms(2,3) Some by (auto simp: checkpointPullBySessionId_def Let_def res_simps)
  have pr: "presents (s_epoch s) d d' newly" using markInjectedFor_presents [OF m] by simp
  have sub: "map pn_id out = map pn_id (filter (\<lambda>p. pn_id p \<in> set newly) ?pending)"
    by (auto simp: out split: option.splits)
  then have "distinct (map pn_id out)" using pending_distinct [OF assms(1), of E sid n] by (simp add: distinct_map_filter)
  moreover have "set (map pn_id out) \<subseteq> set newly" unfolding sub by auto
  ultimately show ?thesis using pr by (auto simp: presents_def)
qed

lemma presented_first_time:
  assumes "store_ok d" "marks_presented op"
  shows "first_time d (exec C E op d) (presented C E op d)"
proof (cases op)
  case (Do_Pull auth cp n)
  then show ?thesis
    by (cases "checkpointPull C E auth cp n d")
      (auto dest!: checkpointPull_presents intro: first_time_presents_of split: sum.splits)
next
  case (Do_Process_Next auth cp)
  then show ?thesis
    by (cases "processNext C E auth cp d")
      (auto dest!: processNext_presents intro: first_time_presents_of split: sum.splits)
next
  case (Do_Inbox auth cp n)
  then show ?thesis
    by (cases "inboxView C E auth cp n d")
      (auto dest!: inboxView_presents intro: first_time_presents_of split: sum.splits)
next
  case (Do_Mark_Injected auth ms)
  then show ?thesis
    by (cases "markInjected C E auth ms d")
      (auto simp: markInjected_def res_simps dest!: markInjectedFor_presents intro: first_time_presents split: sum.splits)
next
  case (Do_Pull_By_Session sid n)
  then show ?thesis
    by (cases "checkpointPullBySessionId C E sid n d")
      (auto dest!: checkpointPullBySessionId_presents [OF assms(1)] intro: first_time_presents_of split: sum.splits option.splits)
qed (use assms(2) in \<open>simp_all add: marks_presented_def\<close>)

fun run_ops :: "config \<Rightarrow> (env \<times> broker_op) list \<Rightarrow> db \<Rightarrow> db" where
  "run_ops C [] d = d"
| "run_ops C ((E, op) # ops) d = run_ops C ops (exec C E op d)"

text \<open>The presentations along a run by the operations of a kind.\<close>

fun presentations :: "(broker_op \<Rightarrow> bool) \<Rightarrow> config \<Rightarrow> (env \<times> broker_op) list \<Rightarrow> db \<Rightarrow> (js_string \<times> nat) list" where
  "presentations K C [] d = []"
| "presentations K C ((E, op) # ops) d = (if K op then presented C E op d else []) @ presentations K C ops (exec C E op d)"

lemma presentations_new:
  assumes "broker_ok H d" "\<forall>(E, op)\<in>set ops. sha256 E = H"
  shows "distinct (presentations marks_presented C ops d) \<and>
    (\<forall>(m, ep)\<in>set (presentations marks_presented C ops d). \<not> injected d m ep 1)"
  using assms
proof (induction ops arbitrary: d)
  case (Cons o1 ops)
  obtain E op where o1: "o1 = (E, op)" by (cases o1)
  let ?d = "exec C E op d" and ?p = "presentations marks_presented C ops (exec C E op d)"
  have ev: "evolves recovery_edge H d ?d" using exec_evolves [of E d C op] Cons.prems(2) o1 by simp
  then have ok: "broker_ok H ?d" and mv: "moves recovery_edge d ?d" using Cons.prems(1) by (auto simp: evolves_def)
  have IH: "distinct ?p" "\<forall>(m, ep)\<in>set ?p. \<not> injected ?d m ep 1"
    using Cons.IH [OF ok] Cons.prems(2) by auto
  have first: "first_time d ?d (if marks_presented op then presented C E op d else [])"
    using presented_first_time Cons.prems(1) by (simp add: broker_ok_def)
  from IH first o1 show ?case
    using moves_injected [OF mv] by (fastforce simp: first_time_def)
qed simp

text \<open>What is presented was waiting.\<close>

definition was_waiting :: "js_string \<Rightarrow> db \<Rightarrow> bool" where
  "was_waiting m d \<longleftrightarrow> (\<exists>x\<in>set (deliveries d). d_message x = m \<and> waiting x)"

lemma pull_was_waiting:
  assumes "pull_pending C E auth cp au n d = (d', Inr out)" "p \<in> set out"
  shows "was_waiting (pn_id p) d"
proof -
  obtain x m where x: "x \<in> set (deliveries d)" "m_id m = d_message x" "eligible E (a_session auth) x m"
    "without_reference p = without_reference (rowToPending m)"
    using pull_content(3) [OF assms(1)] assms(2) by blast
  have "pn_id p = m_id m" using arg_cong [OF x(4), of pn_id] by (simp add: without_reference_def rowToPending_def)
  with x show ?thesis by (auto simp: was_waiting_def eligible_def)
qed

lemma not_final_waiting:
  assumes "store_ok d" "message_state m d = Some s" "s \<in> {Completed, Rejected, Expired, Cancelled}" "moves broker_edge d d'"
    "store_ok d'"
  shows "\<not> was_waiting m d'"
proof
  assume "was_waiting m d'"
  then obtain y where y: "y \<in> set (deliveries d')" "d_message y = m" "waiting y" by (auto simp: was_waiting_def)
  obtain x where x: "delivery_row d m = Some x" "d_state x = s" using assms(2) by (auto simp: message_state_def)
  obtain z where "delivery_row d' m = Some z" "row_moves broker_edge x z" using moves_row [OF assms(4) x(1)] by blast
  moreover have "delivery_row d' m = Some y" using delivery_row_unique [OF assms(5) y(1)] y(2) by simp
  ultimately have "broker_edge\<^sup>*\<^sup>* s (d_state y)" using x(2) by (simp add: row_moves_def)
  then have "d_state y = s" using assms(3) by (intro broker_run_terminal) (auto simp: isTerminal_iff)
  with y(3) assms(3) show False by (auto simp: waiting_def)
qed

lemma mark_one_waiting: "mark_one C E auth cp m d = ([m'], d') \<Longrightarrow> was_waiting m' d"
  by (auto simp: mark_one_def Let_def was_waiting_def changes_0_iff split: option.splits if_splits prod.splits)

lemma mark_all_waiting:
  "mark_all C E auth cp ms d = (out, d') \<Longrightarrow> store_ok d \<Longrightarrow> m \<in> set out \<Longrightarrow>
     \<exists>e. moves broker_edge d e \<and> store_ok e \<and> was_waiting m e"
proof (induction ms arbitrary: d out)
  case (Cons m0 ms)
  then obtain o1 d1 o2 where 1: "mark_one C E auth cp m0 d = (o1, d1)"
    and 2: "mark_all C E auth cp ms d1 = (o2, d')" and out: "out = o1 @ o2"
    by (auto simp: Let_def split: prod.splits)
  have mv: "moves broker_edge d d1" and ok: "store_ok d1"
    using mark_one_moves mark_one_ok [OF Cons.prems(2)] 1 by (metis snd_conv)+
  show ?case
  proof (cases "m \<in> set o2")
    case True
    with Cons.IH [OF 2 ok] mv moves_trans show ?thesis by blast
  next
    case False
    with Cons.prems(3) out have m: "m \<in> set o1" by simp
    then have "o1 = [m]" using mark_one_presents [OF 1] by (cases o1) (auto simp: presents_def subset_singleton_iff)
    with 1 mark_one_waiting Cons.prems(2) show ?thesis by (metis moves_refl)
  qed
qed simp

lemma markInjectedFor_waiting:
  assumes "markInjectedFor C E auth ms cp d = (d', Inr out)" "store_ok d" "m \<in> set out"
  shows "\<exists>e. moves broker_edge d e \<and> store_ok e \<and> was_waiting m e"
  using assms mark_all_waiting by (fastforce simp: markInjectedFor_def res_simps Let_def split: prod.splits)

lemma peek_waiting: "p \<in> set (pendingForSessionId E d sid n) \<Longrightarrow> was_waiting (pn_id p) d"
  by (erule pending_member) (auto simp: was_waiting_def eligible_def rowToPending_def)

lemma pendingForSession_Inr: "pendingForSession E auth n d = (d', Inr out) \<Longrightarrow> d' = d \<and> (\<exists>k. out = pendingForSessionId E d (a_session auth) k)"
  by (auto simp: pendingForSession_def res_simps)

lemma max_logical_injected: "max_logical d m ep \<noteq> 0 \<Longrightarrow> \<exists>lg. injected d m ep lg"
  by (cases "filter (\<lambda>r. ci_message r = m \<and> ci_epoch r = ep) (context_injections d)")
    (auto simp: max_logical_def injected_def list_ex_iff filter_eq_Cons_iff)

lemma redeliver_injected:
  assumes "redeliver C E auth m why d = (d', Inr (Some e))"
  shows "ie_id e = m \<and> (\<exists>lg. injected d m (a_epoch auth) lg)"
proof -
  have "max_logical d m (a_epoch auth) \<noteq> 0 \<and> ie_id e = m"
    using assms by (auto simp: redeliver_def res_simps Let_def fresh_entry_def rowToPending_def message_row_def find_Some_iff
        split: option.splits if_splits prod.splits)
  then show ?thesis using max_logical_injected by blast
qed

text \<open>What the two exceptions hand out.\<close>

lemma presented_on_request:
  assumes "(m, ep) \<in> set (presented C E op d)"
  shows "is_peek op \<Longrightarrow> was_waiting m d" "is_redelivery op \<Longrightarrow> \<exists>lg. injected d m ep lg"
proof -
  show "was_waiting m d" if "is_peek op"
  proof (cases op)
    case (Do_Peek auth n)
    with assms obtain d' out where "pendingForSession E auth n d = (d', Inr out)" "m \<in> pn_id ` set out"
      by (cases "pendingForSession E auth n d") (auto split: sum.splits)
    then show ?thesis using pendingForSession_Inr peek_waiting by blast
  qed (use that in simp_all)
  show "\<exists>lg. injected d m ep lg" if "is_redelivery op"
  proof (cases op)
    case (Do_Redeliver auth k why)
    with assms obtain d' e where "redeliver C E auth k why d = (d', Inr (Some e))" "m = ie_id e" "ep = a_epoch auth"
      by (cases "redeliver C E auth k why d") (auto split: sum.splits option.splits)
    then show ?thesis using redeliver_injected by blast
  qed (use that in simp_all)
qed

lemma presented_waiting:
  assumes "store_ok d" "(m, ep) \<in> set (presented C E op d)" "\<not> is_redelivery op"
  shows "\<exists>e. moves broker_edge d e \<and> store_ok e \<and> was_waiting m e"
proof -
  have now: ?thesis if "was_waiting m d" using that assms(1) moves_refl by blast
  have pull: "was_waiting m d" if "checkpointPull C E a cp n d = (d', Inr out)" "m \<in> pn_id ` set out" for a cp n d' out
    using that checkpointPull_Inr(3) [OF that(1)] pull_was_waiting by fastforce
  show ?thesis
  proof (cases op)
    case (Do_Pull auth cp n)
    with assms(2) obtain d' out where "checkpointPull C E auth cp n d = (d', Inr out)" "m \<in> pn_id ` set out"
      by (cases "checkpointPull C E auth cp n d") (auto split: sum.splits)
    with pull now show ?thesis by blast
  next
    case (Do_Process_Next auth cp)
    with assms(2) obtain d' out where p: "processNext C E auth cp d = (d', Inr out)" "m \<in> pn_id ` set out"
      by (cases "processNext C E auth cp d") (auto split: sum.splits)
    with processNext_Inr(3) [OF p(1)] pull_was_waiting now show ?thesis by fastforce
  next
    case (Do_Inbox auth cp n)
    with assms(2) obtain d' out where i: "inboxView C E auth cp n d = (d', Inr out)" "m \<in> ie_id ` set (filter ie_bodyIncluded out)"
      by (cases "inboxView C E auth cp n d") (auto split: sum.splits)
    then obtain e fresh where "checkpointPull C E (auth\<lparr>a_role := HOOK\<rparr>) cp n d = (e, Inr fresh)" "m \<in> pn_id ` set fresh"
      by (auto simp: inboxView_def res_simps Let_def fresh_entry_def presented_entry_def split: option.splits)
    with pull now show ?thesis by blast
  next
    case (Do_Mark_Injected auth ms)
    with assms(2) obtain d' out where "markInjectedFor C E auth ms None d = (d', Inr out)" "m \<in> set out"
      by (cases "markInjected C E auth ms d") (auto simp: markInjected_def res_simps split: sum.splits)
    then show ?thesis using markInjectedFor_waiting [OF _ assms(1)] by blast
  next
    case (Do_Pull_By_Session sid n)
    with assms(2) obtain out where "snd (checkpointPullBySessionId C E sid n d) = Inr out" "m \<in> pn_id ` set out"
      by (cases "snd (checkpointPullBySessionId C E sid n d)"; cases "session_row d sid") auto
    then have "m \<in> pn_id ` set (pendingForSessionId E d sid n)"
      by (cases "checkpointPullBySessionId C E sid n d")
        (force simp: checkpointPullBySessionId_def Let_def res_simps split: option.splits)
    then obtain pm where pm: "pm \<in> set (pendingForSessionId E d sid n)" "m = pn_id pm" by blast
    from pm(1) obtain x r where "x \<in> set (deliveries d)" "m_id r = d_message x" "eligible E sid x r" "pm = rowToPending r"
      by (rule pending_member)
    with pm(2) show ?thesis by (intro now) (auto simp: was_waiting_def eligible_def rowToPending_def)
  next
    case (Do_Peek auth n)
    with presented_on_request(1) [OF assms(2)] now show ?thesis by simp
  qed (use assms(2,3) in simp_all)
qed

lemma run_ops_run:
  "\<forall>(E, op)\<in>set ops. sha256 E = H \<Longrightarrow> (broker_step C H)\<^sup>*\<^sup>* d (run_ops C ops d)"
proof (induction ops arbitrary: d)
  case (Cons o1 ops)
  obtain E op where o1: "o1 = (E, op)" by (cases o1)
  then have "broker_step C H d (exec C E op d)" using Cons.prems by (auto intro: operate)
  with Cons o1 show ?case by (auto intro: converse_rtranclp_into_rtranclp)
qed simp

end
