(* ===== verification/Broker_Samples.thy ===== *)
theory Broker_Samples
  imports Broker
begin

text \<open>
  Concrete states on which the properties of the broker are evaluated.
\<close>

lemma queued_db_broker_ok: "broker_ok (sha256 sample_env) queued_db"
  using queued_db_ok
  by (simp add: broker_ok_def log_ok_def ledger_ok_env sessions_ok_def names_ok_def components_ok_def unique_on_def holds_name_def)
    (simp add: verifyLedger_def queued_db_def sample_db_def)

text \<open>Session \<open>b\<close> is also reachable as \<open>api\<close>.\<close>

definition api_alias :: alias_row where
  "api_alias = \<lparr>al_id = js ''al'', al_alias = js ''api'', al_ci = js ''api'', al_global = True, al_session = js ''b'', al_active = True,
     al_createdAt = 1, al_retiredAt = None\<rparr>"

definition api_db :: db where
  "api_db = queued_db\<lparr>aliases := [api_alias]\<rparr>"

definition sender_auth :: authority where
  "sender_auth = (sample_auth MCP)\<lparr>a_session := js ''a''\<rparr>"

lemma api_db_broker_ok: "broker_ok (sha256 sample_env) api_db"
  using evolves_field(1) [OF evolves_refl, of broker_edge "sha256 sample_env" queued_db "[api_alias]"] queued_db_broker_ok
  by (simp add: evolves_def api_db_def)

end
