(* ===== verification/Broker_Correct.thy ===== *)
theory Broker_Correct
  imports Broker_Samples
begin

text \<open>
  What holds of the whole broker, over every run of its operations: the invariant of the reachable states, the
  finality of closed deliveries, and presentation at most once per epoch.
\<close>

section \<open>Reachable states\<close>

text \<open>C2: in every state the broker can reach from the empty database, by any sequence of operations at any times and with
  any inputs, message ids, deliveries and injections are unique and every delivery has its message, no two messages share
  a sender and idempotency key or a recipient and sequence number, the audit ledger verifies, session ids are unique, and
  no two sessions hold the same name.\<close>

theorem reachable_invariant:
  assumes "(broker_step C H)\<^sup>*\<^sup>* empty_db d"
  shows "store_ok d \<and>
    (\<forall>j<length (messages d). \<forall>i<j. let m = messages d ! i; n = messages d ! j in
       (m_sender m = m_sender n \<and> m_idempotency m \<noteq> None \<longrightarrow> m_idempotency m \<noteq> m_idempotency n) \<and>
       (m_recipient m = m_recipient n \<longrightarrow> m_sequence m \<noteq> m_sequence n)) \<and>
    (\<forall>E. sha256 E = H \<longrightarrow> lv_ok (verifyLedger E d)) \<and> distinct (map s_id (sessions d)) \<and>
    (\<forall>s\<in>set (sessions d). \<forall>s'\<in>set (sessions d). holds_name s \<and> holds_name s' \<and> s_normName s = s_normName s' \<longrightarrow> s = s')"
proof -
  have ok: "broker_ok H d" using assms by (rule reachable_ok)
  then have "store_ok d" "sessions_ok d" "log_ok d" by (simp_all add: broker_ok_def)
  moreover have "lv_ok (verifyLedger E d)" if "sha256 E = H" for E
    using ok that ledger_ok_env [of E d] by (simp add: broker_ok_def)
  moreover have "s = s'" if "s \<in> set (sessions d)" "s' \<in> set (sessions d)" "holds_name s" "holds_name s'" "s_normName s = s_normName s'"
    for s s'
    using \<open>sessions_ok d\<close> that distinct_map_inj [of s_normName "filter holds_name (sessions d)" s s']
    by (simp add: sessions_ok_def names_ok_def unique_on_def)
  moreover have "let m = messages d ! i; n = messages d ! j in
       (m_sender m = m_sender n \<and> m_idempotency m \<noteq> None \<longrightarrow> m_idempotency m \<noteq> m_idempotency n) \<and>
       (m_recipient m = m_recipient n \<longrightarrow> m_sequence m \<noteq> m_sequence n)" if "j < length (messages d)" "i < j" for i j
    using sorted_wrt_nth_less [OF \<open>log_ok d\<close> [unfolded log_ok_def] that(2,1)] by (auto simp: Let_def message_conflict_def)
  ultimately show ?thesis unfolding sessions_ok_def names_ok_def by blast
qed

theorem reachable_invariant_witness:
  "store_ok (exec daemon_config sample_env Do_Ensure_Operator empty_db) \<and>
   map s_id (sessions (exec daemon_config sample_env Do_Ensure_Operator empty_db)) = [OPERATOR_SESSION_ID]"
proof -
  have "(broker_step daemon_config (sha256 sample_env))\<^sup>*\<^sup>* empty_db (exec daemon_config sample_env Do_Ensure_Operator empty_db)"
    by (intro r_into_rtranclp operate) simp
  from reachable_invariant [OF this] show ?thesis
    by (simp add: ensureOperatorSession_def transaction_def session_row_def Let_def ensure_sequence_def blank_session_def
        name_taken_def active_alias_def)
qed

text \<open>C3: no split brain. In every reachable state all live MCP components of a session belong to the session's current
  epoch and are on one and the same connection: a second process can only take a session over by superseding the first.\<close>

theorem single_live_mcp:
  assumes "(broker_step C H)\<^sup>*\<^sup>* empty_db d" "session_row d sid = Some s"
    and "c \<in> set (component_instances d)" "c_session c = sid" "c_role c = MCP" "c_state c = Comp_Live"
  shows "c_epoch c = s_epoch s \<and>
    (\<forall>c'\<in>set (component_instances d). c_session c' = sid \<and> c_role c' = MCP \<and> c_state c' = Comp_Live \<longrightarrow> c_conn c' = c_conn c)"
proof -
  have ok: "names_ok d" "components_ok d"
    using reachable_ok [OF assms(1)] by (simp_all add: broker_ok_def sessions_ok_def)
  obtain t where t: "t \<in> set (sessions d)" "s_id t = c_session c" "s_epoch t = c_epoch c"
    using ok(2) assms(3,6) by (auto simp: live_component_def elim!: components_ok_session)
  have "s \<in> set (sessions d)" "s_id s = sid" using assms(2) by (auto simp: session_row_def find_Some_iff)
  with t assms(4) ok(1) have "t = s" by (auto simp: names_ok_def intro: distinct_map_inj)
  moreover have "c_conn c' = c_conn c"
    if "c' \<in> set (component_instances d)" "c_session c' = sid" "c_role c' = MCP" "c_state c' = Comp_Live" for c'
    by (rule components_ok_conn [OF ok(2)]) (use that assms in \<open>simp_all add: live_component_def\<close>)
  ultimately show ?thesis using t by auto
qed

definition sample_registration :: "js_string \<Rightarrow> register_input" where
  "sample_registration conn = \<lparr>rg_session = js ''s1'', rg_conn = conn, rg_pid = 1, rg_projectId = js ''p'', rg_cwd = js ''/'',
     rg_receiveMode = js ''auto'', rg_capabilities = [], rg_role = None, rg_buildId = None, rg_repoRoot = None,
     rg_ccVersion = None, rg_name = None, rg_agentType = None, rg_secret = None, rg_supersede = False\<rparr>"

definition contended :: db where
  "contended = fst (register sample_env (sample_registration (js ''k2'')) (fst (register sample_env (sample_registration (js ''k1'')) empty_db)))"

lemma contended_reached: "(broker_step daemon_config (sha256 sample_env))\<^sup>*\<^sup>* empty_db contended"
proof -
  let ?k = "\<lambda>c. Do_Register (sample_registration (js c))"
  have "broker_step daemon_config (sha256 sample_env) d (exec daemon_config sample_env (?k c) d)" for c d
    by (rule operate) simp
  then have "(broker_step daemon_config (sha256 sample_env))\<^sup>*\<^sup>* empty_db
      (exec daemon_config sample_env (?k ''k2'') (exec daemon_config sample_env (?k ''k1'') empty_db))"
    by (meson converse_rtranclp_into_rtranclp r_into_rtranclp)
  then show ?thesis by (simp add: contended_def)
qed

theorem single_live_mcp_witness: "map (\<lambda>c. (c_conn c, c_epoch c)) (component_instances contended) = [(Some (js ''k1''), 1)]"
proof -
  let ?s = "the (session_row contended (js ''s1''))" and ?c = "hd (component_instances contended)"
  have "session_row contended (js ''s1'') = Some ?s \<and> s_epoch ?s = 1" by code_simp
  moreover have "?c \<in> set (component_instances contended) \<and> c_session ?c = js ''s1'' \<and> c_role ?c = MCP \<and> c_state ?c = Comp_Live \<and>
      c_conn ?c = Some (js ''k1'') \<and> length (component_instances contended) = 1" by code_simp
  ultimately show ?thesis using single_live_mcp [OF contended_reached, of "js ''s1''" ?s ?c]
    by (cases "component_instances contended") auto
qed

text \<open>C4: a closed delivery stays closed. Once a message is completed, rejected, expired or cancelled, no run of broker
  operations, recovery operations included, changes its state, and no operation other than the recipient's explicit request
  for another copy (redeliver, which does not look at the state) hands its body to a session again; reading the inbox without
  marking does not show it either.\<close>

theorem final_states_final:
  assumes "broker_ok H d" "\<forall>(E, op)\<in>set ops. sha256 E = H"
    and "delivery_row d m = Some x" "d_state x \<in> {Completed, Rejected, Expired, Cancelled}"
  shows "message_state m (run_ops C ops d) = Some (d_state x) \<and> m \<notin> fst ` set (presentations (\<lambda>op. \<not> is_redelivery op) C ops d)"
  using assms
proof (induction ops arbitrary: d x)
  case Nil
  then show ?case by (simp add: message_state_def)
next
  case (Cons o1 ops)
  obtain E op where o1: "o1 = (E, op)" by (cases o1)
  let ?d = "exec C E op d"
  have step: "sound_step C H d ?d" using Cons.prems(1,2) o1 by (auto simp: sound_step_def intro: operate)
  have ok: "broker_ok H ?d" using step broker.step_good [of H d C ?d] by (simp add: sound_step_def)
  have st: "message_state m d = Some (d_state x)" using Cons.prems(3) by (simp add: message_state_def)
  have "(sound_step C H)\<^sup>*\<^sup>* d ?d" using step by (rule r_into_rtranclp)
  from message.absorbed [OF this st] have "message_state m ?d = Some (d_state x)"
    using final_stuck [OF Cons.prems(4)] by blast
  then obtain y where y: "delivery_row ?d m = Some y" "d_state y = d_state x" by (auto simp: message_state_def)
  have "(m, ep) \<notin> set (presented C E op d)" if "\<not> is_redelivery op" for ep
  proof
    assume "(m, ep) \<in> set (presented C E op d)"
    then obtain e where "moves broker_edge d e" "store_ok e" "was_waiting m e"
      using presented_waiting [of d m ep C E op] Cons.prems(1) \<open>\<not> is_redelivery op\<close> by (auto simp: broker_ok_def)
    then show False using not_final_waiting [of d m "d_state x" e] st Cons.prems(1,4) by (simp add: broker_ok_def)
  qed
  then have "m \<notin> fst ` set (if \<not> is_redelivery op then presented C E op d else [])" by auto
  with Cons.IH [OF ok _ y(1)] Cons.prems(2,4) y(2) o1 show ?case by (auto simp: image_Un)
qed

theorem final_states_final_witness:
  "let d = queued_db\<lparr>deliveries := [sample_delivery\<lparr>d_state := Cancelled\<rparr>]\<rparr>;
       ops = [(sample_env, Do_Pull (sample_auth HOOK) (js ''cp'') 10), (sample_env, Do_Peek (sample_auth MCP) None)]
   in message_state (js ''m1'') (run_ops daemon_config ops d) = Some Cancelled \<and>
      js ''m1'' \<notin> fst ` set (presentations (\<lambda>op. \<not> is_redelivery op) daemon_config ops d)"
proof -
  let ?d = "queued_db\<lparr>deliveries := [sample_delivery\<lparr>d_state := Cancelled\<rparr>]\<rparr>"
  let ?ops = "[(sample_env, Do_Pull (sample_auth HOOK) (js ''cp'') 10), (sample_env, Do_Peek (sample_auth MCP) None)]"
  have ok: "broker_ok (sha256 sample_env) ?d"
    using queued_db_broker_ok ledger_ok_cong [of ?d queued_db] sessions_ok_cong [of ?d queued_db] log_ok_cong [of ?d queued_db]
    by (simp add: broker_ok_def store_ok_def sample_delivery_def sample_message_def)
  have row: "delivery_row ?d (js ''m1'') = Some (sample_delivery\<lparr>d_state := Cancelled\<rparr>)"
    by (simp add: delivery_row_def sample_delivery_def)
  show ?thesis unfolding Let_def
    using final_states_final [OF ok _ row, of ?ops daemon_config] by (simp del: run_ops.simps presentations.simps js_Cons)
qed

text \<open>C1: at most once. Over any run of broker operations no message body is handed twice to the same epoch of a session by
  the operations that record a presentation (checkpoint pull, process-next, inbox, marking, hook pull), whichever are used and
  whatever happens in between. The two operations that may repeat a body do it only where they are meant to: the inbox read
  that marks nothing shows only messages that are still waiting, and the recipient's redelivery request returns only a message
  that was injected in this epoch before.\<close>

theorem at_most_once_per_epoch:
  assumes "broker_ok H d" "\<forall>(E, op)\<in>set ops. sha256 E = H"
  shows "distinct (presentations marks_presented C ops d) \<and>
    (\<forall>pre E op post. ops = pre @ (E, op) # post \<longrightarrow> (\<forall>(m, ep)\<in>set (presented C E op (run_ops C pre d)).
       (is_peek op \<longrightarrow> was_waiting m (run_ops C pre d)) \<and>
       (is_redelivery op \<longrightarrow> (\<exists>lg. injected (run_ops C pre d) m ep lg))))"
  using presentations_new [OF assms] presented_on_request by blast

theorem at_most_once_per_epoch_witness:
  "let ops = [(sample_env, Do_Pull (sample_auth HOOK) (js ''c1'') 10), (sample_env, Do_Operator_Redeliver (js ''m1'') None False),
      (sample_env, Do_Process_Next (sample_auth HOOK) (js ''c2'')), (sample_env, Do_Peek (sample_auth MCP) None)]
   in distinct (presentations marks_presented daemon_config ops queued_db)"
  using at_most_once_per_epoch [OF queued_db_broker_ok, of "[(sample_env, Do_Pull (sample_auth HOOK) (js ''c1'') 10),
      (sample_env, Do_Operator_Redeliver (js ''m1'') None False), (sample_env, Do_Process_Next (sample_auth HOOK) (js ''c2'')),
      (sample_env, Do_Peek (sample_auth MCP) None)]" daemon_config]
  by (simp add: Let_def del: presentations.simps js_Cons)

end
