(* ===== verification/Session_Correct.thy ===== *)
theory Session_Correct
  imports Broker_Samples
begin

text \<open>
  Who may take over a session: registration lands on another session's identity only along a live redirect or with
  that identity's secret.
\<close>

lemma reclaim_ok_secret:
  assumes "resolveReclaim E requested secret phys d = Reclaim_Ok c l"
  obtains raw s nm own where "requested = Some raw" "secret = Some s" "validateSessionName (uni E) raw = Inr nm"
    "name_owner d (nsn_normalized nm) = Some own" "o_secretHash own = Some (hashSecret E s)" "o_session own = Some c"
    "o_logical own = l" "c \<noteq> phys" "\<not> hasProvenLiveMcp E d c"
  using assms
  by (auto simp: resolveReclaim_def truthy_def Let_def split: option.splits sum.splits if_splits)

lemma followed_map_edge:
  assumes "followed_map phys d = (Some c, d')"
  obtains r s where "r \<in> set (physical_session_map d)" "pm_physical r = phys" "pm_canonical r = c"
    "session_row d c = Some s" "s_expiredAt s = None"
  using assms by (auto simp: followed_map_def find_Some_iff in_set_conv_nth split: option.splits if_splits)

text \<open>C14: a registration is bound to a session other than the one it names only when a live redirect of that physical
  session leads there, or when it presents the ownership secret of the name it asks for and the owner of that name has no
  process that is proven to be alive.\<close>

theorem takeover_needs_secret:
  assumes "register E inp d = (d', Inr r)" "a_session (rd_auth r) \<noteq> rg_session inp"
  shows "(\<exists>e s. e \<in> set (physical_session_map d) \<and> pm_physical e = rg_session inp \<and> pm_canonical e = a_session (rd_auth r) \<and>
            session_row d (a_session (rd_auth r)) = Some s \<and> s_expiredAt s = None) \<or>
    (\<exists>raw secret nm own. rg_name inp = Some raw \<and> rg_secret inp = Some secret \<and> validateSessionName (uni E) raw = Inr nm \<and>
       name_owner d (nsn_normalized nm) = Some own \<and> o_secretHash own = Some (hashSecret E secret) \<and>
       o_session own = Some (a_session (rd_auth r)) \<and> \<not> hasProvenLiveMcp E d (a_session (rd_auth r)))"
proof -
  let ?d1 = "snd (next_id E d)" and ?phys = "rg_session inp"
  let ?d2 = "snd (followed_map ?phys ?d1)"
  let ?mcp = "(case rg_role inp of None \<Rightarrow> MCP | Some r \<Rightarrow> r) = MCP"
  let ?reclaim = "if ?mcp then resolveReclaim E (rg_name inp) (rg_secret inp) ?phys ?d2 else Reclaim_No Not_Attempted"
  have sid: "a_session (rd_auth r) = reclaim_target ?reclaim (fst (followed_map ?phys ?d1)) ?phys"
    using assms(1) unfolding register_def Let_def case_prod_beta
    by (auto simp: transaction_Inr andThen_eq_Inr split: if_splits)
  have view: "sessions ?d2 = sessions d" "name_ownership ?d2 = name_ownership d" "component_instances ?d2 = component_instances d"
    "sessions ?d1 = sessions d" "physical_session_map ?d1 = physical_session_map d"
    by (auto simp: followed_map_def next_id_def split: option.splits)
  have reads: "name_owner ?d2 n = name_owner d n" "hasProvenLiveMcp E ?d2 c = hasProvenLiveMcp E d c" for n c
  proof -
    have comps: "live_mcp ?d2 = live_mcp d" by (simp add: live_mcp_def [abs_def] components_of_def view)
    show "name_owner ?d2 n = name_owner d n" "hasProvenLiveMcp E ?d2 c = hasProvenLiveMcp E d c"
      unfolding name_owner_def hasProvenLiveMcp_def session_row_def view comps by simp_all
  qed
  show ?thesis
  proof (cases ?reclaim)
    case (Reclaim_Ok c l)
    then have "resolveReclaim E (rg_name inp) (rg_secret inp) ?phys ?d2 = Reclaim_Ok c l" by (simp split: if_splits)
    then show ?thesis using sid Reclaim_Ok
      by (elim reclaim_ok_secret)
        (auto simp: reclaim_target_def reads)
  next
    case (Reclaim_No why)
    with sid assms(2) obtain c where "fst (followed_map ?phys ?d1) = Some c" "a_session (rd_auth r) = c"
      by (auto simp: reclaim_target_def truthy_def split: if_splits option.splits)
    then show ?thesis
      by (metis followed_map_edge prod.collapse session_row_def view(4,5))
  qed
qed

text \<open>A physical session that is redirected to session \<open>b\<close>.\<close>

definition redirected_db :: db where
  "redirected_db = queued_db\<lparr>physical_session_map := [\<lparr>pm_physical = js ''s2'', pm_canonical = js ''b'', pm_logical = js ''b'', pm_createdAt = 0\<rparr>]\<rparr>"

definition redirected :: register_input where
  "redirected = \<lparr>rg_session = js ''s2'', rg_conn = js ''k2'', rg_pid = 1, rg_projectId = js ''p'', rg_cwd = js ''/'',
     rg_receiveMode = js ''auto'', rg_capabilities = [], rg_role = None, rg_buildId = None, rg_repoRoot = None,
     rg_ccVersion = None, rg_name = None, rg_agentType = None, rg_secret = None, rg_supersede = False\<rparr>"

theorem takeover_needs_secret_witness:
  "\<exists>e. e \<in> set (physical_session_map redirected_db) \<and> pm_physical e = js ''s2'' \<and> pm_canonical e = js ''b''"
proof -
  have "case snd (register sample_env redirected redirected_db) of Inl _ \<Rightarrow> False | Inr r \<Rightarrow> a_session (rd_auth r) = js ''b''" by code_simp
  then obtain d' r where "register sample_env redirected redirected_db = (d', Inr r)" "a_session (rd_auth r) = js ''b''"
    by (auto simp: prod_eq_iff split: sum.splits)
  with takeover_needs_secret [OF this(1)] show ?thesis by (auto simp: redirected_def)
qed

end
