(* ===== verification/Reaper_Correct.thy ===== *)
theory Reaper_Correct
  imports Broker_Samples
begin

text \<open>
  The reaper: its acknowledgement pass is the one-step update of every overdue delivery, and a sweep leaves no
  undelivered work behind for the sessions it expires.
\<close>

section \<open>Acknowledgement timeouts\<close>

text \<open>The reference: what happens to one overdue delivery.\<close>

definition unacked_due :: "env \<Rightarrow> db \<Rightarrow> delivery_row \<Rightarrow> bool" where
  "unacked_due E d x \<longleftrightarrow> d_state x = Transport_Written \<and> message_requires m_requiresAck d (d_message x) \<and>
     (case d_leaseExpiresAt x of None \<Rightarrow> False | Some t \<Rightarrow> t \<le> now E)"

definition exhausted :: "reaper_options \<Rightarrow> delivery_row \<Rightarrow> bool" where
  "exhausted opts x \<longleftrightarrow> bc_maxAttempts (ro_backoff opts) \<le> Suc (d_attemptAckTimeout x)"

definition timed_out :: "reaper_options \<Rightarrow> env \<Rightarrow> delivery_row \<Rightarrow> delivery_row" where
  "timed_out opts E x =
     (if exhausted opts x then timeout_dead E (Suc (d_attemptAckTimeout x)) x
      else timeout_retry E (Suc (d_attemptAckTimeout x))
             (now E + nextBackoffMs (d_attemptAckTimeout x) (ro_backoff opts) (ro_rng opts (d_message x))) x)"

lemma timed_out_message [simp]: "d_message (timed_out opts E x) = d_message x"
  by (simp add: timed_out_def timeout_dead_def timeout_retry_def)

lemma upd_one:
  assumes "distinct (map k rs)" "r \<in> set rs" "p r" "\<And>x. p x \<Longrightarrow> k x = k r" "f r = y"
  shows "upd_where p f rs = map (\<lambda>x. if x = r then y else x) rs"
proof -
  have "(if p x then f x else x) = (if x = r then y else x)" if "x \<in> set rs" for x
  proof (cases "p x")
    case True
    then have "x = r" by (intro distinct_map_inj [OF assms(1) that assms(2)] assms(4))
    with True assms(5) show ?thesis by simp
  qed (use assms(3) in auto)
  then show ?thesis by (simp add: upd_where_def)
qed

lemma timeout_one_spec:
  assumes "distinct (map d_message (deliveries d))" "r \<in> set (deliveries d)" "still_unacked d (d_message r) r"
  shows "deliveries (snd (timeout_one opts E r d)) = map (\<lambda>x. if x = r then timed_out opts E r else x) (deliveries d)"
    "messages (snd (timeout_one opts E r d)) = messages d"
    "fst (timeout_one opts E r d) = (if exhausted opts r then (0, 1) else (1, 0))"
proof -
  have hit: "changes (still_unacked d (d_message r)) (deliveries d) \<noteq> 0"
    using assms(2,3) by (auto simp: changes_0_iff)
  have upd: "upd_where (still_unacked d (d_message r)) f (deliveries d) = map (\<lambda>x. if x = r then f r else x) (deliveries d)" for f
    by (rule upd_one [of d_message]) (use assms in \<open>auto simp: still_unacked_def\<close>)
  show "deliveries (snd (timeout_one opts E r d)) = map (\<lambda>x. if x = r then timed_out opts E r else x) (deliveries d)"
    "messages (snd (timeout_one opts E r d)) = messages d"
    "fst (timeout_one opts E r d) = (if exhausted opts r then (0, 1) else (1, 0))"
    using hit by (simp_all add: timeout_one_def Let_def reaper_audit_def release_leases_def upd timed_out_def exhausted_def)
qed

lemma timeout_all_spec:
  assumes "distinct (map d_message (deliveries d))" "distinct (map d_message rs)" "ro_perSessionCap opts \<le> 0"
    and "\<And>r. r \<in> set rs \<Longrightarrow> r \<in> set (deliveries d) \<and> still_unacked d (d_message r) r"
  shows "deliveries (snd (timeout_all opts E used rs d)) = map (\<lambda>x. if x \<in> set rs then timed_out opts E x else x) (deliveries d) \<and>
    fst (timeout_all opts E used rs d) = (length (filter (\<lambda>x. \<not> exhausted opts x) rs), length (filter (exhausted opts) rs))"
  using assms
proof (induction rs arbitrary: d used)
  case (Cons r rs)
  let ?d = "snd (timeout_one opts E r d)"
  have r: "r \<in> set (deliveries d)" "still_unacked d (d_message r) r" using Cons.prems(4) by simp_all
  note one = timeout_one_spec [OF Cons.prems(1) r, of opts E]
  have ids: "map d_message (deliveries ?d) = map d_message (deliveries d)" by (simp add: one(1))
  have rest: "x \<in> set (deliveries ?d) \<and> still_unacked ?d (d_message x) x" if "x \<in> set rs" for x
    using Cons.prems(2) Cons.prems(4) [of x] that
    by (auto simp: one still_unacked_def message_requires_def message_row_def image_iff)
  have IH: "deliveries (snd (timeout_all opts E u rs ?d)) = map (\<lambda>x. if x \<in> set rs then timed_out opts E x else x) (deliveries ?d) \<and>
    fst (timeout_all opts E u rs ?d) = (length (filter (\<lambda>x. \<not> exhausted opts x) rs), length (filter (exhausted opts) rs))" for u
    using Cons.prems(1-3) rest by (intro Cons.IH) (simp_all add: ids)
  have "timed_out opts E r \<notin> set rs" "r \<notin> set rs"
    using Cons.prems(2) timed_out_message [of opts E r] by (auto simp: image_iff)
  then show ?case
    using Cons.prems(3) IH by (simp add: Let_def case_prod_beta one)
qed simp

text \<open>C16: with no cap per recipient, the acknowledgement pass does to the deliveries exactly what one simultaneous update
  would: every overdue delivery whose message requires an acknowledgement is dead-lettered when its attempts are used up
  and otherwise waits for its backoff, all others are left alone; the counts it reports are the numbers of both.\<close>

theorem ack_timeouts_simultaneous:
  assumes "store_ok d" "ro_perSessionCap opts \<le> 0"
  shows "deliveries (snd (reapAckTimeouts opts E d)) =
      map (\<lambda>x. if unacked_due E d x then timed_out opts E x else x) (deliveries d) \<and>
    fst (reapAckTimeouts opts E d) =
      (length (filter (\<lambda>x. unacked_due E d x \<and> \<not> exhausted opts x) (deliveries d)),
       length (filter (\<lambda>x. unacked_due E d x \<and> exhausted opts x) (deliveries d)))"
proof -
  let ?rs = "ack_timeout_rows E d"
  have "message_row d (m_id m) = Some m" if "m \<in> set (messages d)" for m
    using assms(1) that unfolding message_row_def store_ok_def by (auto intro: find_key_unique)
  then have due: "(\<exists>m. (x, m) \<in> set (joined d) \<and> ack_due E x m) \<longleftrightarrow> x \<in> set (deliveries d) \<and> unacked_due E d x" for x
    using assms(1) by (fastforce simp: set_joined ack_due_def unacked_due_def message_requires_def store_ok_def)
  have "set ?rs = {x. \<exists>m. (x, m) \<in> set (joined d) \<and> ack_due E x m}" by (force simp: ack_timeout_rows_def)
  then have rows: "set ?rs = {x \<in> set (deliveries d). unacked_due E d x}" by (simp add: due)
  have "map d_message ?rs = map (\<lambda>(x, m). m_id m) (sort_key (\<lambda>(x, m). d_updatedAt x) (filter (\<lambda>(x, m). ack_due E x m) (joined d)))"
    by (auto simp: ack_timeout_rows_def set_joined)
  then have dist: "distinct (map d_message ?rs)"
    using distinct_map_filter [OF distinct_joined [OF assms(1)], of "\<lambda>(x, m). ack_due E x m"] by (simp add: distinct_map)
  have spec: "deliveries (snd (reapAckTimeouts opts E d)) = map (\<lambda>x. if x \<in> set ?rs then timed_out opts E x else x) (deliveries d)"
    "fst (reapAckTimeouts opts E d) = (length (filter (\<lambda>x. \<not> exhausted opts x) ?rs), length (filter (exhausted opts) ?rs))"
    unfolding reapAckTimeouts_def
    using timeout_all_spec [of d ?rs opts E "\<lambda>_. 0"] assms dist
    by (auto simp: rows store_ok_def still_unacked_def unacked_due_def)
  have len: "length (filter p ?rs) = length (filter (\<lambda>x. unacked_due E d x \<and> p x) (deliveries d))" for p
  proof -
    have "distinct (filter p ?rs)" "distinct (filter (\<lambda>x. unacked_due E d x \<and> p x) (deliveries d))"
      using dist assms(1) by (auto simp: store_ok_def distinct_map)
    moreover have "set (filter p ?rs) = set (filter (\<lambda>x. unacked_due E d x \<and> p x) (deliveries d))" by (auto simp: rows)
    ultimately show ?thesis by (metis distinct_card)
  qed
  show ?thesis unfolding spec len by (auto simp: rows)
qed

definition overdue_db :: db where
  "overdue_db = queued_db\<lparr>deliveries := [sample_delivery\<lparr>d_state := Transport_Written, d_leaseExpiresAt := Some 500\<rparr>]\<rparr>"

theorem ack_timeouts_simultaneous_witness:
  "map d_state (deliveries (snd (reapAckTimeouts (default_reaper\<lparr>ro_perSessionCap := 0\<rparr>) sample_env overdue_db))) = [Retry_Wait]"
proof -
  have "store_ok overdue_db"
    using queued_db_ok by (simp add: overdue_db_def store_ok_def sample_delivery_def sample_message_def)
  from ack_timeouts_simultaneous [OF this, of "default_reaper\<lparr>ro_perSessionCap := 0\<rparr>" sample_env] show ?thesis
    by (simp add: overdue_db_def unacked_due_def message_requires_def message_row_def sample_delivery_def sample_message_def
        timed_out_def exhausted_def timeout_dead_def timeout_retry_def default_reaper_def DEFAULT_BACKOFF_def)
qed

section \<open>Expired sessions\<close>

text \<open>Nothing is left to deliver to the session, and nothing routes to it or acts for it.\<close>

definition laid_to_rest :: "db \<Rightarrow> js_string \<Rightarrow> bool" where
  "laid_to_rest d sid \<longleftrightarrow>
     (\<forall>x\<in>set (deliveries d). d_recipient x = sid \<longrightarrow> d_state x \<notin> {Queued, Retry_Wait, Transport_Written} \<and>
        (d_state x = Accepted \<longrightarrow> \<not> message_requires m_requiresReply d (d_message x))) \<and>
     (\<forall>c\<in>set (component_instances d). c_session c = sid \<longrightarrow> c_state c \<noteq> Comp_Live) \<and>
     (\<forall>a\<in>set (aliases d). al_session a = sid \<longrightarrow> \<not> al_active a) \<and>
     (\<forall>r\<in>set (physical_session_map d). pm_canonical r \<noteq> sid \<and> pm_physical r \<noteq> sid)"

lemma expire_session_tables:
  "sessions (expire_session E sid d) = upd_where (\<lambda>s. s_id s = sid \<and> s_expiredAt s = None) (expire_row E) (sessions d)"
  "component_instances (expire_session E sid d) = component_instances (close_components E sid d)"
  "aliases (expire_session E sid d) = aliases (retire_aliases E sid d)"
  "set (physical_session_map (expire_session E sid d)) \<subseteq> {r \<in> set (physical_session_map d). pm_canonical r \<noteq> sid \<and> pm_physical r \<noteq> sid}"
  "deliveries (expire_session E sid d) = deliveries (expire_owed_replies E sid (dead_letter_recipient E sid d))"
  "messages (expire_session E sid d) = messages d"
  by (auto simp: expire_session_def Let_def reaper_audit_def close_components_def retire_aliases_def purge_map_def release_leases_def
      dead_letter_recipient_def expire_owed_replies_def message_requires_def message_row_def del_where_def)

lemma ball_upd_where: "(\<forall>x\<in>set (upd_where p f rs). Q x) \<longleftrightarrow> (\<forall>x\<in>set rs. if p x then Q (f x) else Q x)"
  by (auto simp: set_upd_where)

text \<open>Whether a session rests after the expiry of another, or of itself.\<close>

lemma expire_session_rest:
  assumes "x = sid \<or> laid_to_rest d x"
  shows "laid_to_rest (expire_session E sid d) x"
  unfolding laid_to_rest_def
proof (intro conjI)
  let ?e = "expire_session E sid d"
  have owed: "message_requires m_requiresReply ?e mid = message_requires m_requiresReply d mid" for mid
    by (simp add: message_requires_def message_row_def expire_session_tables(6))
  have kept: "message_requires m_requiresReply (dead_letter_recipient E sid d) mid = message_requires m_requiresReply d mid" for mid
    by (simp add: message_requires_def message_row_def dead_letter_recipient_def)
  show "\<forall>y\<in>set (deliveries ?e). d_recipient y = x \<longrightarrow> d_state y \<notin> {Queued, Retry_Wait, Transport_Written} \<and>
      (d_state y = Accepted \<longrightarrow> \<not> message_requires m_requiresReply ?e (d_message y))"
    using assms kept unfolding owed expire_session_tables(5) expire_owed_replies_def dead_letter_recipient_def laid_to_rest_def
    by (simp add: ball_upd_where) blast
  show "\<forall>c\<in>set (component_instances ?e). c_session c = x \<longrightarrow> c_state c \<noteq> Comp_Live"
    using assms unfolding expire_session_tables(2) close_components_def laid_to_rest_def by (simp add: ball_upd_where) blast
  show "\<forall>a\<in>set (aliases ?e). al_session a = x \<longrightarrow> \<not> al_active a"
    using assms unfolding expire_session_tables(3) retire_aliases_def laid_to_rest_def by (simp add: ball_upd_where) blast
  show "\<forall>r\<in>set (physical_session_map ?e). pm_canonical r \<noteq> x \<and> pm_physical r \<noteq> x"
    using assms expire_session_tables(4) [of E sid d] unfolding laid_to_rest_def by blast
qed

lemma expire_all_keeps: "laid_to_rest d x \<Longrightarrow> laid_to_rest (snd (expire_all E sids d)) x"
  by (induction sids arbitrary: d) (simp_all add: Let_def case_prod_beta expire_session_rest)

lemma expire_all_rests:
  assumes "x \<in> set sids" "\<exists>s\<in>set (sessions d). s_id s = x \<and> s_expiredAt s = None"
  shows "laid_to_rest (snd (expire_all E sids d)) x"
  using assms
proof (induction sids arbitrary: d)
  case (Cons sid rest)
  show ?case
  proof (cases "x = sid")
    case True
    then have "changes (\<lambda>s. s_id s = sid \<and> s_expiredAt s = None) (sessions d) \<noteq> 0" using Cons.prems(2) by (auto simp: changes_0_iff)
    with True show ?thesis by (simp add: Let_def case_prod_beta expire_all_keeps expire_session_rest)
  next
    case False
    then have "\<exists>s\<in>set (sessions (expire_session E sid d)). s_id s = x \<and> s_expiredAt s = None"
      using Cons.prems(2) by (auto simp: expire_session_tables(1) set_upd_where image_iff)
    with False Cons show ?thesis by (simp add: Let_def case_prod_beta)
  qed
qed simp

lemma expire_all_sessions:
  "map (\<lambda>s. (s_id s, s_expiredAt s)) (sessions (snd (expire_all E sids d))) =
   map (\<lambda>s. (s_id s, if s_id s \<in> set sids \<and> s_expiredAt s = None then Some (now E) else s_expiredAt s)) (sessions d)"
proof (induction sids arbitrary: d)
  case (Cons sid rest)
  show ?case
  proof (cases "changes (\<lambda>s. s_id s = sid \<and> s_expiredAt s = None) (sessions d) = 0")
    case True
    then have "\<forall>s\<in>set (sessions d). s_id s = sid \<longrightarrow> s_expiredAt s \<noteq> None" by (auto simp: changes_0_iff)
    with True Cons.IH [of d] show ?thesis by auto
  next
    case False
    then show ?thesis
      using Cons.IH [of "expire_session E sid d"]
      by (auto simp: Let_def case_prod_beta expire_session_tables(1) upd_where_def comp_def expire_row_def)
  qed
qed simp

text \<open>The other passes leave sessions, components, aliases and redirects alone.\<close>

lemma timeout_all_tables:
  "sessions (snd (timeout_all opts E used rs d)) = sessions d"
proof (induction rs arbitrary: used d)
  case (Cons r rs)
  have "sessions (snd (timeout_one opts E r d)) = sessions d"
    by (simp add: timeout_one_def Let_def reaper_audit_def release_leases_def)
  with Cons show ?case by (simp add: Let_def case_prod_beta)
qed simp

lemma expire_messages_tables: "sessions (snd (expire_messages E ms d)) = sessions d"
  by (induction ms arbitrary: d) (simp_all add: Let_def case_prod_beta reaper_audit_def expire_waiting_def)

lemma passes_sessions:
  "sessions (snd (reclaimLeases E (snd (reapAcceptanceTtl E (snd (reapAckTimeouts opts E d)))))) = sessions d"
  by (simp add: reclaimLeases_def Let_def reaper_audit_def release_leases_def reapAcceptanceTtl_def reapAckTimeouts_def
      timeout_all_tables expire_messages_tables)

lemma last_passes:
  "laid_to_rest (reapStalePendingNames E (snd (reapOldScheduleRuns opts E d))) x = laid_to_rest d x"
  "map (\<lambda>s. (s_id s, s_expiredAt s)) (sessions (reapStalePendingNames E (snd (reapOldScheduleRuns opts E d)))) =
   map (\<lambda>s. (s_id s, s_expiredAt s)) (sessions d)"
  by (auto simp: reapStalePendingNames_def reapOldScheduleRuns_def Let_def reaper_audit_def laid_to_rest_def upd_where_def
      message_requires_def message_row_def)

text \<open>C15: a sweep expires exactly the sessions whose inactivity deadline has passed, never the operator; each expired
  session is left without a delivery still to be presented or acknowledged and without an accepted one that owes a reply (an
  accepted delivery whose message asks for no reply stays as it is), without live components, live aliases and redirects.\<close>

theorem sweep_expires_sessions:
  assumes "distinct (map s_id (sessions d))" "sweep opts E d = (d', Inr res)"
  shows "map (\<lambda>s. (s_id s, s_expiredAt s)) (sessions d') =
      map (\<lambda>s. (s_id s, if due_session E s then Some (now E) else s_expiredAt s)) (sessions d) \<and>
    (\<forall>s\<in>set (sessions d). due_session E s \<longrightarrow> s_id s \<noteq> OPERATOR_SESSION_ID \<and> laid_to_rest d' (s_id s))"
proof -
  let ?d0 = "snd (reclaimLeases E (snd (reapAcceptanceTtl E (snd (reapAckTimeouts opts E d)))))"
  have d': "d' = reapStalePendingNames E (snd (reapOldScheduleRuns opts E (snd (reapExpiredSessions E ?d0))))"
    using assms(2) by (auto simp: sweep_def transaction_Inr Let_def case_prod_beta)
  have due: "set (due_sessions E ?d0) = s_id ` {s \<in> set (sessions d). due_session E s}"
    by (auto simp: due_sessions_def passes_sessions)
  have "s_id s \<in> set (due_sessions E ?d0) \<and> s_expiredAt s = None \<longleftrightarrow> due_session E s" if "s \<in> set (sessions d)" for s
  proof
    assume "s_id s \<in> set (due_sessions E ?d0) \<and> s_expiredAt s = None"
    then obtain t where "t \<in> set (sessions d)" "due_session E t" "s_id t = s_id s" by (auto simp: due)
    with distinct_map_inj [OF assms(1) this(1) that] show "due_session E s" by simp
  qed (use that in \<open>auto simp: due due_session_def\<close>)
  then have "map (\<lambda>s. (s_id s, s_expiredAt s)) (sessions d') =
      map (\<lambda>s. (s_id s, if due_session E s then Some (now E) else s_expiredAt s)) (sessions d)"
    unfolding d' last_passes reapExpiredSessions_def expire_all_sessions passes_sessions by auto
  moreover have "laid_to_rest d' (s_id s)" if "s \<in> set (sessions d)" "due_session E s" for s
    unfolding d' last_passes reapExpiredSessions_def
    by (rule expire_all_rests) (use that in \<open>auto simp: due passes_sessions due_session_def\<close>)
  ultimately show ?thesis by (auto simp: due_session_def)
qed

definition idle_db :: db where
  "idle_db = queued_db\<lparr>sessions := [sample_session (js ''a''), (sample_session (js ''b''))\<lparr>s_expiresAt := Some 500\<rparr>]\<rparr>"

theorem sweep_expires_sessions_witness:
  "map s_expiredAt (sessions (fst (sweep default_reaper sample_env idle_db))) = [None, Some 1000] \<and>
   laid_to_rest (fst (sweep default_reaper sample_env idle_db)) (js ''b'')"
proof -
  obtain d' res where sw: "sweep default_reaper sample_env idle_db = (d', Inr res)"
    by (auto simp: sweep_def transaction_def Let_def case_prod_beta)
  have "distinct (map s_id (sessions idle_db))" by (simp add: idle_db_def sample_session_def)
  note swept = sweep_expires_sessions [OF this sw]
  from swept have "map (\<lambda>s. (s_id s, s_expiredAt s)) (sessions d') = [(js ''a'', None), (js ''b'', Some 1000)]"
    by (simp add: idle_db_def sample_session_def due_session_def OPERATOR_SESSION_ID_def)
  then have "map snd (map (\<lambda>s. (s_id s, s_expiredAt s)) (sessions d')) = [None, Some 1000]" by simp
  moreover have "laid_to_rest d' (js ''b'')"
    using swept by (simp add: idle_db_def sample_session_def due_session_def OPERATOR_SESSION_ID_def)
  ultimately show ?thesis by (simp add: sw comp_def)
qed

end
