(* ===== verification/Sending_Correct.thy ===== *)
theory Sending_Correct
  imports Broker_Samples
begin

text \<open>
  Sending: what a recipient address resolves to, what an accepted send writes, which sends are refused, and that an
  idempotency key names one message for good, whatever the broker does in between.
\<close>

section \<open>Recipients\<close>

text \<open>The sessions an address stands for: holders of the name or of a live alias.\<close>

definition holders :: "db \<Rightarrow> js_string \<Rightarrow> js_string set" where
  "holders d want =
     {s_id s | s. s \<in> set (sessions d) \<and> s_normName s = Some want \<and> s_nameState s = Active \<and> s_expiredAt s = None} \<union>
     {al_session a | a. a \<in> set (aliases d) \<and> al_ci a = want \<and> al_active a}"

lemma obj_put_keys: "set (map fst (obj_put k v es)) = insert k (set (map fst es))"
  by (induction k v es rule: obj_put.induct) auto

lemma obj_put_distinct: "distinct (map fst es) \<Longrightarrow> distinct (map fst (obj_put k v es))"
proof (induction k v es rule: obj_put.induct)
  case (2 k v k' v' es)
  then show ?case using obj_put_keys [of k v es] by auto
qed simp

lemma fold_obj_put:
  assumes "distinct (map fst es)"
  shows "distinct (map fst (fold (\<lambda>(k, v). obj_put k v) kvs es)) \<and>
    set (map fst (fold (\<lambda>(k, v). obj_put k v) kvs es)) = set (map fst es) \<union> set (map fst kvs)"
  using assms
proof (induction kvs arbitrary: es)
  case (Cons kv kvs)
  obtain k v where "kv = (k, v)" by (cases kv)
  with Cons.IH [OF obj_put_distinct [OF Cons.prems]] show ?case by (simp add: obj_put_keys [unfolded set_map])
qed simp

lemma alias_matches_holders:
  "distinct (map fst (alias_matches d want)) \<and> set (map fst (alias_matches d want)) = holders d want"
proof -
  let ?kvs = "map (\<lambda>s. (s_id s, case s_name s of None \<Rightarrow> [] | Some n \<Rightarrow> n))
      (filter (\<lambda>s. s_normName s = Some want \<and> s_nameState s = Active \<and> s_expiredAt s = None) (sessions d)) @
    map (\<lambda>a. (al_session a, al_alias a)) (filter (\<lambda>a. al_ci a = want \<and> al_active a) (aliases d))"
  have "set (map fst ?kvs) = holders d want" by (auto simp: holders_def image_iff)
  then show ?thesis using fold_obj_put [of "[]" ?kvs] by (simp add: alias_matches_def)
qed

lemma only_match_cases:
  "only_match [] = Inl (xerr UNKNOWN_RECIPIENT)" "only_match [(i, a)] = Inr \<lparr>rp_session = i, rp_alias = a\<rparr>"
  "only_match (x # y # zs) = Inl (xerr AMBIGUOUS_RECIPIENT)"
  by (simp_all add: only_match_def split: prod.splits)

text \<open>C20: an alias address reaches the one session that holds it as its name or as a live alias; with no holder the
  recipient is unknown, with several it is ambiguous, and the broker never picks one of them.\<close>

theorem alias_resolution:
  assumes "parseRecipient raw = Inr (AliasRef a)"
  shows "case resolveRecipient d raw of
      Inr rp \<Rightarrow> holders d (ascii_lower a) = {rp_session rp}
    | Inl e \<Rightarrow> e = (if holders d (ascii_lower a) = {} then xerr UNKNOWN_RECIPIENT else xerr AMBIGUOUS_RECIPIENT) \<and>
               (\<forall>s. holders d (ascii_lower a) \<noteq> {s})"
proof -
  let ?ms = "alias_matches d (ascii_lower a)"
  have keys: "distinct (map fst ?ms)" "set (map fst ?ms) = holders d (ascii_lower a)"
    using alias_matches_holders by simp_all
  have res: "resolveRecipient d raw = only_match ?ms" using assms by (simp add: resolveRecipient_def)
  consider "?ms = []" | i b where "?ms = [(i, b)]" | x y zs where "?ms = x # y # zs" by (metis list.exhaust surj_pair)
  then show ?thesis
  proof cases
    case 1
    with keys show ?thesis by (simp add: res only_match_cases)
  next
    case 2
    with keys show ?thesis by (simp add: res only_match_cases)
  next
    case 3
    with keys show ?thesis by (auto simp: res only_match_cases)
  qed
qed

lemma api_parsed: "parseRecipient (js ''api'') = Inr (AliasRef (js ''api''))"
  by (simp add: parseRecipient_def js_trim_def js_space_def UUID_RE_def validateRecipientAliasPart_def ALIAS_RE_def matches_class_def
      alias_char_def char_class_defs)

lemma api_resolved: "resolveRecipient api_db (js ''api'') = Inr \<lparr>rp_session = js ''b'', rp_alias = js ''api''\<rparr>"
  by (simp only: resolveRecipient_def api_parsed sum.case recipient_ref.case)
    (simp add: alias_matches_def only_match_def api_db_def api_alias_def ascii_lower_def lower_unit_def is_upper_def)

theorem alias_resolution_witness: "holders api_db (js ''api'') = {js ''b''}"
proof -
  have "ascii_lower (js ''api'') = js ''api''" by (simp add: ascii_lower_def lower_unit_def is_upper_def)
  then show ?thesis using alias_resolution [OF api_parsed, of api_db] api_resolved by simp
qed

section \<open>Effect\<close>

lemma send_new_effect:
  assumes "send_new E auth inp r d = (d', Inr res)"
  obtains m x where "messages d' = messages d @ [m]" "deliveries d' = deliveries d @ [x]"
    "m_id m = sr_messageId res" "m_sender m = a_session auth" "m_recipient m = rp_session r" "m_text m = si_text inp"
    "m_kind m = si_kind inp" "m_idempotency m = si_idempotencyKey inp" "m_sequence m = sr_sequence res" "m_recipientAlias m = rp_alias r"
    "m_requiresAck m = si_requiresAck inp" "m_requiresReply m = si_requiresReply inp"
    "m_expiresAt m = ttl_expiry E (si_ttlSeconds inp)"
    "d_message x = m_id m" "d_recipient x = rp_session r" "d_state x = Queued"
    "res = \<lparr>sr_messageId = m_id m, sr_correlationId = m_id m, sr_recipient = rp_session r, sr_recipientAlias = rp_alias r,
            sr_sequence = m_sequence m, sr_sendState = Queued, sr_deduplicated = False\<rparr>"
    "m_sequence m = seq_next (rp_session r) (recipient_sequences d)"
proof -
  from assms obtain d1 d2 d3 d4 t0 sequence ts al where chain:
    "allocSequence (rp_session r) (snd (next_id E (snd (next_id E d)))) = (d1, Inr sequence)"
    "allocThreadSequence (fst (next_id E d)) (ensureThread E (fst (next_id E d)) (fst (next_id E d)) (a_session auth) d1) = (d2, Inr ts)"
    "insert_message (send_message E auth inp r (fst (next_id E d)) t0 sequence ts al)
       (ensureParticipant E (fst (next_id E d)) (rp_session r) Claude (ensureParticipant E (fst (next_id E d)) (a_session auth) Claude d2)) = (d3, Inr ())"
    "messages d' = messages d3" "deliveries d' = deliveries (insert_delivery E (fst (next_id E d)) (rp_session r) d4)" "deliveries d4 = deliveries d3"
    "res = \<lparr>sr_messageId = fst (next_id E d), sr_correlationId = fst (next_id E d), sr_recipient = rp_session r, sr_recipientAlias = rp_alias r,
            sr_sequence = sequence, sr_sendState = Queued, sr_deduplicated = False\<rparr>"
    unfolding send_new_def Let_def case_prod_beta andThen_eq_Inr by auto
  have "messages d1 = messages d \<and> deliveries d1 = deliveries d"
    using chain(1) by (auto simp: allocSequence_def next_id_def Let_def split: if_splits)
  then have same: "messages d2 = messages d" "deliveries d2 = deliveries d"
    using chain(2) allocThread_frame [of "fst (next_id E d)" "ensureThread E (fst (next_id E d)) (fst (next_id E d)) (a_session auth) d1"]
    by simp_all
  have "messages d' = messages d @ [send_message E auth inp r (fst (next_id E d)) t0 sequence ts al]"
    "deliveries d3 = deliveries d"
    using chain(3,4) same by (auto simp: insert_message_Inr)
  moreover obtain x where "deliveries d' = deliveries d @ [x]" "d_message x = fst (next_id E d)" "d_recipient x = rp_session r" "d_state x = Queued"
    using chain(5,6) calculation(2) by (auto simp: insert_delivery_def next_id_def Let_def)
  moreover have "sequence = seq_next (rp_session r) (recipient_sequences d)"
    using chain(1) by (auto simp: allocSequence_def next_id_def Let_def split: if_splits)
  ultimately show thesis
    using chain(7) by (intro that [of "send_message E auth inp r (fst (next_id E d)) t0 sequence ts al" x]) (simp_all add: send_message_def)
qed

text \<open>C6: an accepted send that is not a repetition appends exactly one message, with the sender, the resolved recipient,
  the text and flags of the request and the next number of the recipient's sequence, and one queued delivery for it.
  The recipient has not expired and does not block the sender.\<close>

theorem send_effect:
  assumes "send E auth inp d = (d', Inr res)" "\<not> sr_deduplicated res"
  shows "\<exists>rp m x. resolveRecipient d (si_to inp) = Inr rp \<and> \<not> session_expired d (rp_session rp) \<and>
      \<not> isBlocked E d (rp_session rp) (to_lower (uni E) (aliasForSession d (a_session auth))) \<and>
      messages d' = messages d @ [m] \<and> deliveries d' = deliveries d @ [x] \<and>
      m_id m = sr_messageId res \<and> m_sender m = a_session auth \<and> m_recipient m = rp_session rp \<and> m_text m = si_text inp \<and>
      m_kind m = si_kind inp \<and> m_requiresAck m = si_requiresAck inp \<and> m_requiresReply m = si_requiresReply inp \<and>
      m_expiresAt m = ttl_expiry E (si_ttlSeconds inp) \<and> m_sequence m = seq_next (rp_session rp) (recipient_sequences d) \<and>
      d_message x = m_id m \<and> d_recipient x = m_recipient m \<and> d_state x = Queued"
proof -
  from assms obtain rp where rp: "resolveRecipient d (si_to inp) = Inr rp" "\<not> session_expired d (rp_session rp)"
      "\<not> isBlocked E d (rp_session rp) (to_lower (uni E) (aliasForSession d (a_session auth)))"
    and new: "send_new E auth inp rp d = (d', Inr res)"
    by (auto simp: send_def transaction_Inr recorded_result_def split: option.splits if_splits sum.splits)
  from new obtain m x where "messages d' = messages d @ [m]" "deliveries d' = deliveries d @ [x]"
    "m_id m = sr_messageId res" "m_sender m = a_session auth" "m_recipient m = rp_session rp" "m_text m = si_text inp"
    "m_kind m = si_kind inp" "m_requiresAck m = si_requiresAck inp" "m_requiresReply m = si_requiresReply inp"
    "m_expiresAt m = ttl_expiry E (si_ttlSeconds inp)" "d_message x = m_id m" "d_recipient x = rp_session rp" "d_state x = Queued"
    "m_sequence m = seq_next (rp_session rp) (recipient_sequences d)"
    by (rule send_new_effect)
  with rp show ?thesis by auto
qed

text \<open>A concrete send: session \<open>a\<close> writes to \<open>api\<close>.\<close>

definition sent_db :: db where
  "sent_db = fst (send sample_env sender_auth sample_input api_db)"

definition sent_result :: send_result where
  "sent_result = \<lparr>sr_messageId = [0], sr_correlationId = [0], sr_recipient = js ''b'', sr_recipientAlias = js ''api'', sr_sequence = 2,
     sr_sendState = Queued, sr_deduplicated = False\<rparr>"

lemma sent: "send sample_env sender_auth sample_input api_db = (sent_db, Inr sent_result)"
proof -
  let ?r = "\<lparr>rp_session = js ''b'', rp_alias = js ''api''\<rparr>"
  have "case snd (send_new sample_env sender_auth sample_input ?r api_db) of Inl _ \<Rightarrow> False | Inr r \<Rightarrow> r = sent_result" by code_simp
  then obtain d' where new: "send_new sample_env sender_auth sample_input ?r api_db = (d', Inr sent_result)"
    by (auto simp: prod_eq_iff split: sum.splits)
  have "\<not> session_expired api_db (js ''b'') \<and> blocked_peers api_db = [] \<and> find_idempotent api_db (js ''a'') (js ''k1'') = None" by code_simp
  then have "send sample_env sender_auth sample_input api_db = (d', Inr sent_result)"
    using new api_resolved
    by (simp add: send_def transaction_Inr truthy_def isBlocked_def sender_auth_def sample_input_def)
  then show ?thesis by (simp add: sent_db_def)
qed

theorem send_effect_witness: "\<exists>m x. messages sent_db = messages api_db @ [m] \<and> deliveries sent_db = deliveries api_db @ [x] \<and> d_state x = Queued"
  using send_effect [OF sent] by (auto simp: sent_result_def)

section \<open>Refusals\<close>

text \<open>C21: a send that names no earlier message is refused, with these codes in this order, when its address does not
  resolve, when the recipient has expired and when the recipient blocks the sender; a refused send leaves every table as
  it was.\<close>

theorem send_refused:
  assumes "\<forall>k. si_idempotencyKey inp = Some k \<longrightarrow> find_idempotent d (a_session auth) k = None"
  shows "(case resolveRecipient d (si_to inp) of
      Inl e \<Rightarrow> snd (send E auth inp d) = Inl e
    | Inr rp \<Rightarrow>
        (session_expired d (rp_session rp) \<longrightarrow> snd (send E auth inp d) = Inl (expired_error (rp_alias rp))) \<and>
        (\<not> session_expired d (rp_session rp) \<and> isBlocked E d (rp_session rp) (to_lower (uni E) (aliasForSession d (a_session auth))) \<longrightarrow>
           snd (send E auth inp d) = Inl (xerr BLOCKED))) \<and>
    (isl (snd (send E auth inp d)) \<longrightarrow> same_tables d (fst (send E auth inp d)))"
proof -
  have none: "(if truthy (si_idempotencyKey inp) then find_idempotent d (a_session auth) (the (si_idempotencyKey inp)) else None) = None"
    using assms by (cases "si_idempotencyKey inp") (auto simp: truthy_def)
  have "same_tables d (fst (send E auth inp d))" if "snd (send E auth inp d) = Inl e" for e
  proof -
    from that have "send E auth inp d = (fst (send E auth inp d), Inl e)" by (simp add: prod_eq_iff)
    then show ?thesis unfolding send_def by (blast dest: transaction_Inl)
  qed
  moreover have "snd (send E auth inp d) = Inl e" if "resolveRecipient d (si_to inp) = Inl e" for e
    using that none by (simp add: send_def transaction_def)
  moreover have "snd (send E auth inp d) = Inl (expired_error (rp_alias rp))"
    if "resolveRecipient d (si_to inp) = Inr rp" "session_expired d (rp_session rp)" for rp
    using that none by (simp add: send_def transaction_def)
  moreover have "snd (send E auth inp d) = Inl (xerr BLOCKED)"
    if "resolveRecipient d (si_to inp) = Inr rp" "\<not> session_expired d (rp_session rp)"
      "isBlocked E d (rp_session rp) (to_lower (uni E) (aliasForSession d (a_session auth)))" for rp
    using that none by (simp add: send_def transaction_def)
  ultimately show ?thesis by (auto simp: isl_def split: sum.splits)
qed

theorem send_refused_witness: "snd (send sample_env sender_auth sample_input queued_db) = Inl (xerr UNKNOWN_RECIPIENT)"
proof -
  have "alias_matches queued_db (js ''api'') = []" "find_idempotent queued_db (a_session sender_auth) (js ''k1'') = None" by code_simp+
  moreover from this have "resolveRecipient queued_db (si_to sample_input) = Inl (xerr UNKNOWN_RECIPIENT)"
    using api_parsed by (simp add: resolveRecipient_def only_match_def sample_input_def ascii_lower_def lower_unit_def is_upper_def)
  ultimately show ?thesis using send_refused [of sample_input queued_db sender_auth sample_env] by (simp add: sample_input_def)
qed

section \<open>Idempotency\<close>

lemma run_ops_evolves:
  "broker_ok H d \<Longrightarrow> \<forall>(E, op)\<in>set ops. sha256 E = H \<Longrightarrow> evolves recovery_edge H d (run_ops C ops d)"
proof (induction ops arbitrary: d)
  case (Cons o1 ops)
  obtain E op where o1: "o1 = (E, op)" by (cases o1)
  have step: "evolves recovery_edge H d (exec C E op d)" using exec_evolves [of E d C op] Cons.prems(2) o1 by simp
  then have "broker_ok H (exec C E op d)" using Cons.prems(1) by (simp add: evolves_def)
  from evolves_trans [OF step Cons.IH [OF this]] Cons.prems(2) o1 show ?case by simp
qed simp

text \<open>C19: messages are permanent. No run of broker operations removes, reorders or alters the row of a message that has
  been stored: its sender, recipient, text and numbers stay what they were.\<close>

theorem messages_permanent:
  assumes "broker_ok H d" "\<forall>(E, op)\<in>set ops. sha256 E = H" "i < length (messages d)"
  shows "i < length (messages (run_ops C ops d)) \<and> messages (run_ops C ops d) ! i = messages d ! i"
proof -
  have "prefix (messages d) (messages (run_ops C ops d))"
    using run_ops_evolves [OF assms(1,2), of C] assms(1) by (simp add: evolves_def)
  then show ?thesis using assms(3) by (auto elim!: prefixE simp: nth_append)
qed

theorem messages_permanent_witness:
  "messages (run_ops daemon_config [(sample_env, Do_Remove (js ''b'')), (sample_env, Do_Cancel (js ''m1'') None)] queued_db) ! 0 = sample_message"
  using messages_permanent [OF queued_db_broker_ok, of "[(sample_env, Do_Remove (js ''b'')), (sample_env, Do_Cancel (js ''m1'') None)]" 0 daemon_config]
  by (simp del: run_ops.simps)

lemma find_idempotent_prefix:
  assumes "find_idempotent d s k = Some m" "prefix (messages d) (messages d')"
  shows "find_idempotent d' s k = Some m"
proof -
  have "List.find p (xs @ ys) = Some x" if "List.find p xs = Some x" for p xs ys and x :: message_row
    using that by (induction xs) (auto split: if_splits)
  with assms show ?thesis by (auto simp: find_idempotent_def elim!: prefixE)
qed

lemma find_append_new: "List.find p xs = None \<Longrightarrow> p x \<Longrightarrow> List.find p (xs @ [x]) = Some x"
  by (induction xs) (auto split: if_splits)

lemma send_recorded:
  assumes "send E auth inp d = (d', Inr res)" "si_idempotencyKey inp = Some k" "k \<noteq> []"
  obtains m where "find_idempotent d' (a_session auth) k = Some m" "m_id m = sr_messageId res" "m_recipient m = sr_recipient res"
    "m_recipientAlias m = sr_recipientAlias res" "m_sequence m = sr_sequence res"
proof (cases "find_idempotent d (a_session auth) k")
  case (Some m)
  with assms have "d' = d" "res = recorded_result d m"
    by (auto simp: send_def transaction_Inr truthy_def split: if_splits)
  with Some show thesis by (intro that) (simp_all add: recorded_result_def)
next
  case None
  with assms obtain rp where new: "send_new E auth inp rp d = (d', Inr res)"
    by (auto simp: send_def transaction_Inr split: if_splits sum.splits)
  then obtain m where m: "messages d' = messages d @ [m]" "m_id m = sr_messageId res" "m_sender m = a_session auth"
    "m_recipient m = rp_session rp" "m_idempotency m = si_idempotencyKey inp" "m_recipientAlias m = rp_alias rp"
    and res: "res = \<lparr>sr_messageId = m_id m, sr_correlationId = m_id m, sr_recipient = rp_session rp, sr_recipientAlias = rp_alias rp,
            sr_sequence = m_sequence m, sr_sendState = Queued, sr_deduplicated = False\<rparr>"
    by (rule send_new_effect)
  have "find_idempotent d' (a_session auth) k = Some m"
    using None m assms(2) unfolding find_idempotent_def by (simp add: find_append_new)
  with m res show thesis by (intro that) simp_all
qed

text \<open>C5: exactly once. When a send with an idempotency key has succeeded, a repetition with the same key by the same
  session, at any later time and after any run of other operations, stores nothing: it is answered with the first
  message's identity, or refused because that message's recipient has expired meanwhile.\<close>

theorem send_exactly_once:
  assumes "broker_ok H d" "sha256 E = H" "\<forall>(E, op)\<in>set ops. sha256 E = H"
    and "send E auth inp d = (d1, Inr res)" "si_idempotencyKey inp = Some k" "k \<noteq> []"
    and "a_session auth' = a_session auth" "si_idempotencyKey inp' = Some k"
  shows "let d2 = run_ops C ops d1 in
    messages (fst (send E' auth' inp' d2)) = messages d2 \<and> deliveries (fst (send E' auth' inp' d2)) = deliveries d2 \<and>
    (case snd (send E' auth' inp' d2) of
       Inr res' \<Rightarrow> sr_messageId res' = sr_messageId res \<and> sr_recipient res' = sr_recipient res \<and>
                  sr_sequence res' = sr_sequence res \<and> sr_deduplicated res'
     | Inl e \<Rightarrow> e = expired_error (sr_recipientAlias res) \<and> session_expired d2 (sr_recipient res))"
proof -
  let ?d2 = "run_ops C ops d1"
  obtain m where m: "find_idempotent d1 (a_session auth) k = Some m" "m_id m = sr_messageId res" "m_recipient m = sr_recipient res"
    "m_recipientAlias m = sr_recipientAlias res" "m_sequence m = sr_sequence res"
    using assms(4-6) by (rule send_recorded)
  have "evolves ordinary_edge H d d1" using send_evolves [of ordinary_edge H d E auth inp] assms(2,4) by simp
  then have "broker_ok H d1" using assms(1) by (simp add: evolves_def)
  then have "prefix (messages d1) (messages ?d2)"
    using run_ops_evolves [OF _ assms(3), of d1 C] by (simp add: evolves_def)
  from find_idempotent_prefix [OF m(1) this] have dup: "find_idempotent ?d2 (a_session auth') k = Some m" using assms(7) by simp
  show ?thesis
    unfolding Let_def using m(2-) dup assms(6,8)
    by (simp add: send_def transaction_def recorded_result_def truthy_def)
qed

theorem send_exactly_once_witness:
  "messages (fst (send sample_env sender_auth sample_input (run_ops daemon_config [(sample_env, Do_Cancel [0] None)] sent_db))) =
   messages (run_ops daemon_config [(sample_env, Do_Cancel [0] None)] sent_db)"
  using send_exactly_once [OF api_db_broker_ok refl _ sent, of "[(sample_env, Do_Cancel [0] None)]" "js ''k1''" sender_auth sample_input daemon_config sample_env]
  by (simp add: sample_input_def Let_def del: run_ops.simps)

end
