(* ===== verification/Scheduler_Correct.thy ===== *)
theory Scheduler_Correct
  imports Sending_Correct
begin

text \<open>
  The scheduler: quiet hours are cyclic intervals of the UTC day, a tick settles every due schedule whose quiet hours can be
  read and whose next run is a date the text order covers, and does nothing when repeated at the same clock, a slot that has
  fired never stores a second message, and a schedule outside these conditions stays due for ever.
\<close>

section \<open>Quiet hours\<close>

lemma mod10_le [simp]: "(n :: nat) mod 10 \<le> 9"
  by presburger

lemma length_pad_zero [simp]: "length (pad_zero w n) = w"
  by (induction w n rule: pad_zero.induct) auto

lemma pad_zero_digits: "c \<in> set (pad_zero w n) \<Longrightarrow> is_digit c"
  by (induction w n rule: pad_zero.induct) (auto simp: is_digit_def)

lemma pad_zero_2: "pad_zero 2 n = [48 + n div 10 mod 10, 48 + n mod 10]"
  by (simp add: numeral_2_eq_2)

lemma digits_value_pad: "n < 100 \<Longrightarrow> digits_value (pad_zero 2 n) = n"
  by (simp add: pad_zero_2 digits_value_def)

lemma time_match_skip: "c \<noteq> 84 \<Longrightarrow> time_match (c # r) = time_match r"
  by (cases "c # r" rule: time_match.cases) auto

lemma time_match_skips: "\<forall>c\<in>set cs. c \<noteq> 84 \<Longrightarrow> time_match (cs @ r) = time_match r"
  by (induction cs) (auto simp: time_match_skip)

lemma time_match_hit: "h < 100 \<Longrightarrow> m < 100 \<Longrightarrow> time_match (84 # pad_zero 2 h @ 58 # pad_zero 2 m @ r) = Some (h, m)"
proof -
  assume "h < 100" "m < 100"
  then have "h div 10 < 10" "m div 10 < 10" by (simp_all add: less_mult_imp_div_less)
  then show ?thesis by (simp add: pad_zero_2 is_digit_def digits_value_def)
qed

lemma cyclic_diff:
  fixes c s :: int
  assumes "0 \<le> c" "c < 1440" "0 \<le> s" "s < 1440"
  shows "(c - s) mod 1440 = (if s \<le> c then c - s else c - s + 1440)"
proof (cases "s \<le> c")
  case False
  have "(c - s) mod 1440 = (c - s + 1440) mod 1440" by simp
  also have "\<dots> = c - s + 1440" using False assms by (intro mod_pos_pos_trivial) auto
  finally show ?thesis using False by simp
qed (use assms in simp)

lemma utcMinutes_iso: "utcMinutes (iso_string t) = t div 60000 mod 1440"
proof -
  let ?ms = "t mod 86400000"
  obtain y m d where ymd: "civil (t div 86400000) = (y, m, d)" by (cases "civil (t div 86400000)")
  define date where "date = iso_year t y @ js ''-'' @ pad_zero 2 (nat m) @ js ''-'' @ pad_zero 2 (nat d)"
  define rest where "rest = js '':'' @ pad_zero 2 (nat (?ms div 1000 mod 60)) @ js ''.'' @ pad_zero 3 (nat (?ms mod 1000)) @ js ''Z''"
  have iso: "iso_string t = date @ 84 # pad_zero 2 (nat (?ms div 3600000)) @ 58 # pad_zero 2 (nat (?ms div 60000 mod 60)) @ rest"
    by (simp add: iso_string_def ymd date_def rest_def Let_def)
  have skip: "\<forall>c\<in>set date. c \<noteq> 84" by (auto simp: date_def iso_year_def is_digit_def dest!: pad_zero_digits split: if_splits)
  define v where "v = t div 60000 mod 1440"
  have v: "0 \<le> v" "v < 1440" by (simp_all add: v_def)
  have ms: "?ms div 60000 = v" unfolding v_def using zmod_zmult2_eq [of 1440 t 60000] by simp
  then have hours: "?ms div 3600000 = v div 60" using zdiv_zmult2_eq [of 60 ?ms 60000] by simp
  have "v div 60 < 24" "0 \<le> v div 60" using v by (linarith, simp add: pos_imp_zdiv_nonneg_iff)
  then have small: "nat (v div 60) < 100" "nat (v mod 60) < 100" "0 \<le> v div 60" by (simp_all add: nat_less_iff)
  have "time_match (iso_string t) = Some (nat (v div 60), nat (v mod 60))"
    unfolding iso time_match_skips [OF skip] hours ms by (rule time_match_hit [OF small(1,2)])
  then have "utcMinutes (iso_string t) = v div 60 * 60 + v mod 60" using small(3) by (simp add: utcMinutes_def)
  then show ?thesis by (simp add: v_def)
qed

text \<open>A minute of the day as the text of a window bound.\<close>

definition hhmm :: "int \<Rightarrow> js_string" where
  "hhmm n = pad_zero 2 (nat (n div 60)) @ js '':'' @ pad_zero 2 (nat (n mod 60))"

lemma hhmmToMin_hhmm:
  assumes "0 \<le> n" "n < 1440"
  shows "hhmmToMin (hhmm n) = n"
proof -
  let ?h = "nat (n div 60)" and ?m = "nat (n mod 60)"
  have small: "?h < 100" "?m < 100" using assms by auto
  have "\<not> js_space (48 + k mod 10)" for k
  proof -
    have "48 + k mod 10 \<le> 57" by simp
    then show ?thesis by (auto simp: js_space_def)
  qed
  then have "js_trim (hhmm n) = hhmm n" by (simp add: js_trim_def hhmm_def pad_zero_2)
  then have "hhmmToMin (hhmm n) = int (digits_value (pad_zero 2 ?h)) * 60 + int (digits_value (pad_zero 2 ?m))"
    by (simp add: hhmmToMin_def hhmm_def pad_zero_2 is_digit_def)
  also have "\<dots> = n div 60 * 60 + n mod 60" using assms by (simp add: digits_value_pad small pos_imp_zdiv_nonneg_iff)
  finally show ?thesis by simp
qed

text \<open>The text of quiet hours with the given windows.\<close>

definition quiet_json :: "(js_string \<times> js_string) list \<Rightarrow> js_string" where
  "quiet_json ws = json_stringify (JObj [(js ''windows'',
     JArr (map (\<lambda>(s, e). JObj [(js ''start'', JStr s), (js ''end'', JStr e)]) ws))])"

lemma pad_zero_units: "code_units (pad_zero w n)"
proof -
  have "c < 65536" if "c \<in> set (pad_zero w n)" for c using pad_zero_digits [OF that] by (simp add: is_digit_def)
  then show ?thesis by (simp add: code_units_def list_all_iff)
qed

lemma hhmm_units: "code_units (hhmm n)"
  using pad_zero_units by (simp add: hhmm_def code_units_def)

lemma quiet_json_parsed:
  "json_parse fl (quiet_json [(hhmm s, hhmm e)]) =
     Some (JObj [(js ''windows'', JArr [JObj [(js ''start'', JStr (hhmm s)), (js ''end'', JStr (hhmm e))]])])"
  unfolding quiet_json_def by (subst json_roundtrips) (simp_all add: hhmm_units [unfolded code_units_def] code_units_def)

lemma quiet_json_truthy: "truthy (Some (quiet_json ws))"
  by (simp add: truthy_def quiet_json_def json_stringify.simps)

text \<open>C18: quiet hours given as the JSON text of one window with two times of day cover exactly the half-open cyclic interval
  between them, measured on the UTC minute of the instant: it may wrap past midnight, and equal bounds make it empty.\<close>

theorem quiet_window_cyclic:
  assumes "0 \<le> s" "s < 1440" "0 \<le> e" "e < 1440"
  shows "inQuietHours (iso_string t) (Some (quiet_json [(hhmm s, hhmm e)])) = Inr ((t div 60000 - s) mod 1440 < (e - s) mod 1440)"
proof -
  define c where "c = t div 60000 mod 1440"
  have c: "0 \<le> c" "c < 1440" by (simp_all add: c_def)
  have "(t div 60000 - s) mod 1440 = (c - s) mod 1440" by (simp add: c_def mod_diff_left_eq)
  also have "\<dots> = (if s \<le> c then c - s else c - s + 1440)" using c assms by (simp add: cyclic_diff)
  finally have cs: "(t div 60000 - s) mod 1440 = (if s \<le> c then c - s else c - s + 1440)" .
  have es: "(e - s) mod 1440 = (if s \<le> e then e - s else e - s + 1440)"
    using assms by (simp add: cyclic_diff)
  have "inQuietHours (iso_string t) (Some (quiet_json [(hhmm s, hhmm e)])) = Inr (in_window c (hhmm s, hhmm e))"
    by (simp add: inQuietHours_def quiet_json_truthy quiet_json_parsed windows_of_def window_bounds_def utcMinutes_iso c_def)
  moreover have "in_window c (hhmm s, hhmm e) \<longleftrightarrow> (if s \<le> e then s \<le> c \<and> c < e else s \<le> c \<or> c < e)"
    using assms by (simp add: in_window_def hhmmToMin_hhmm)
  ultimately show ?thesis using c assms unfolding cs es by auto
qed

theorem quiet_window_cyclic_witness: "inQuietHours (iso_string 82800000) (Some (quiet_json [(hhmm 1320, hhmm 360)])) = Inr True"
  using quiet_window_cyclic [of 1320 360 82800000] by simp

section \<open>The next run\<close>

text \<open>Quiet hours that can be evaluated at every instant: absent, not JSON, or with windows whose bounds are strings.\<close>

definition readable_quiet :: "js_string option \<Rightarrow> bool" where
  "readable_quiet q \<longleftrightarrow> (truthy q \<longrightarrow>
     (case json_parse (\<lambda>_. JNum 0) (the q) of
        None \<Rightarrow> True
      | Some v \<Rightarrow> (case windows_of v of Inl _ \<Rightarrow> False | Inr ws \<Rightarrow> list_all (\<lambda>w. \<not> isl (window_bounds w)) ws)))"

lemma quiet_windows_total: "list_all (\<lambda>w. \<not> isl (window_bounds w)) ws \<Longrightarrow> \<exists>b. quiet_windows cur ws = Inr b"
proof (induction ws)
  case (Cons w ws)
  then show ?case by (cases "window_bounds w") auto
qed auto

lemma readable_total: "readable_quiet q \<Longrightarrow> \<exists>b. inQuietHours txt q = Inr b"
  by (auto simp: readable_quiet_def inQuietHours_def quiet_windows_total split: option.splits sum.splits)

text \<open>
  The latest instant \<open>advance\<close> may compute is before the year 10000: from there on the text of a date sorts below every current
  one, and beyond the range of dates it cannot be printed at all.
\<close>

definition within_calendar :: "env \<Rightarrow> schedule_row \<Rightarrow> bool" where
  "within_calendar E s \<longleftrightarrow> YEAR_0 \<le> now E \<and>
     of_int (now E) + max (case js_number (default [] (sc_expr s)) of None \<Rightarrow> 0 | Some r \<Rightarrow> r) (of_int (advance_step s)) +
       96 * of_int (advance_step s) < (of_int YEAR_10000 :: rat)"

definition settleable :: "env \<Rightarrow> schedule_row \<Rightarrow> bool" where
  "settleable E s \<longleftrightarrow> 1 \<le> sc_minInterval s \<and> readable_quiet (sc_quiet s) \<and> within_calendar E s"

lemma time_value_date:
  assumes "of_int YEAR_0 \<le> t" "t < of_int YEAR_10000"
  shows "\<exists>i. time_value t = Inr i \<and> \<lfloor>t\<rfloor> \<le> i \<and> i < YEAR_10000"
proof -
  have "\<bar>t\<bar> \<le> of_int MAX_TIME" using assms unfolding YEAR_0_def YEAR_10000_def MAX_TIME_def by simp
  moreover have "\<lceil>t\<rceil> \<le> 0" if "t < 0" using that by linarith
  moreover have "\<lfloor>t\<rfloor> < YEAR_10000" using assms(2) by linarith
  ultimately show ?thesis
    by (auto simp: time_value_def YEAR_10000_def ceiling_altdef)
qed

lemma push_quiet_ok:
  assumes "readable_quiet q" "0 \<le> step" "of_int YEAR_0 \<le> t" "t + of_nat n * of_int step < of_int YEAR_10000"
  shows "\<exists>u. push_quiet n step q t = Inr u \<and> t \<le> u \<and> u \<le> t + of_nat n * of_int step"
  using assms
proof (induction n arbitrary: t)
  case (Suc n)
  have st: "(0 :: rat) \<le> of_int step" and n: "(0 :: rat) \<le> of_nat n * of_int step" using Suc.prems(2) by simp_all
  have eq: "t + of_nat (Suc n) * of_int step = (t + of_int step) + of_nat n * of_int step" by (simp add: algebra_simps)
  obtain i where i: "time_value t = Inr i" using time_value_date [of t] Suc.prems(3,4) st n unfolding eq by fastforce
  obtain b where b: "inQuietHours (iso_string i) q = Inr b" using readable_total [OF Suc.prems(1)] by blast
  obtain u where "push_quiet n step q (t + of_int step) = Inr u" "t + of_int step \<le> u" "u \<le> t + of_nat (Suc n) * of_int step"
    using Suc.IH [of "t + of_int step"] Suc.prems st unfolding eq by fastforce
  then show ?case using i b st n eq by (cases b) (auto intro: order_trans)
qed simp

lemma candidate_future:
  assumes "1 \<le> sc_minInterval s"
    and "computeNextRun (sc_kind s) (sc_expr s) (now E) (sc_minInterval s) = Some u \<or> u = of_int (now E + advance_step s)"
  shows "of_int (now E) + 1 \<le> u"
    "u \<le> of_int (now E) + max (case js_number (default [] (sc_expr s)) of None \<Rightarrow> 0 | Some r \<Rightarrow> r) (of_int (advance_step s))"
proof -
  have one: "(1 :: rat) \<le> of_int (sc_minInterval s)" using assms(1) by linarith
  have step: "(1 :: rat) \<le> of_int (advance_step s)" "(of_int (sc_minInterval s) :: rat) \<le> of_int (advance_step s)"
    by (simp_all add: advance_step_def)
  show "of_int (now E) + 1 \<le> u"
    using assms(2) one step
    by (auto simp: computeNextRun_def Let_def max_def split: schedule_kind.splits option.splits if_splits)
  show "u \<le> of_int (now E) + max (case js_number (default [] (sc_expr s)) of None \<Rightarrow> 0 | Some r \<Rightarrow> r) (of_int (advance_step s))"
    using assms(2) one step
    by (auto simp: computeNextRun_def Let_def max_def split: schedule_kind.splits option.splits if_splits)
qed

lemma next_run_future:
  assumes "settleable E s"
  shows "\<exists>r. next_run E s mode = Inr r \<and> (\<forall>i. r = Some i \<longrightarrow> now E < i \<and> i < YEAR_10000)"
proof -
  have step: "0 \<le> advance_step s" by (simp add: advance_step_def)
  let ?n = "if mode = Deferred \<and> computeNextRun (sc_kind s) (sc_expr s) (now E) (sc_minInterval s) = None
    then Some (of_int (now E + advance_step s)) else computeNextRun (sc_kind s) (sc_expr s) (now E) (sc_minInterval s)"
  show ?thesis
  proof (cases ?n)
    case None
    then show ?thesis by (auto simp: next_run_def next_candidate_def Let_def)
  next
    case (Some u)
    then have u: "of_int (now E) + 1 \<le> u"
      "u \<le> of_int (now E) + max (case js_number (default [] (sc_expr s)) of None \<Rightarrow> 0 | Some r \<Rightarrow> r) (of_int (advance_step s))"
      using assms candidate_future [of s E u] by (auto simp: settleable_def split: if_splits)
    have lo: "of_int YEAR_0 \<le> u" and hi: "u + of_nat 96 * of_int (advance_step s) < of_int YEAR_10000"
      using u assms by (auto simp: settleable_def within_calendar_def)
    obtain t where t: "next_candidate E s mode = Inr (Some t)" "u \<le> t" "t \<le> u + of_nat 96 * of_int (advance_step s)"
    proof (cases "truthy (sc_quiet s)")
      case True
      obtain t where "push_quiet 96 (advance_step s) (sc_quiet s) u = Inr t" "u \<le> t" "t \<le> u + of_nat 96 * of_int (advance_step s)"
        using push_quiet_ok [OF _ step lo hi] assms by (auto simp: settleable_def)
      with True Some that [of t] show ?thesis by (simp add: next_candidate_def Let_def)
    next
      case False
      with Some step that [of u] show ?thesis by (simp add: next_candidate_def Let_def)
    qed
    obtain i where i: "time_value t = Inr i" "\<lfloor>t\<rfloor> \<le> i" "i < YEAR_10000"
      using time_value_date [of t] lo hi t(2,3) by fastforce
    have "now E < \<lfloor>t\<rfloor>" using u(1) t(2) by linarith
    with i t(1) show ?thesis by (auto simp: next_run_def)
  qed
qed

section \<open>One schedule\<close>

text \<open>An operator message touches neither schedules nor runs.\<close>

lemma ledger_schedules:
  "schedules (ledger E ev a s p d) = schedules d" "schedule_runs (ledger E ev a s p d) = schedule_runs d"
  by (auto simp: ledger_def ledgerAppend_def next_id_def Let_def split: option.splits prod.splits)

lemma transaction_keeps:
  assumes "g (fst (f d)) = g d" "\<And>e :: db. g (d\<lparr>ids_drawn := ids_drawn e, secrets_drawn := secrets_drawn e, capabilities_drawn := capabilities_drawn e\<rparr>) = g d"
  shows "g (fst (transaction f d)) = g d"
  using assms by (auto simp: transaction_def split: prod.splits sum.splits)

lemma operatorSend_schedules: "schedules (fst (operatorSend E inp d)) = schedules d"
  unfolding operatorSend_def
  by (rule transaction_keeps)
    (auto simp: Let_def next_id_def case_prod_beta ledger_schedules andThen_keeps [where g = schedules] split: option.splits sum.splits)

definition settled :: "env \<Rightarrow> js_string \<Rightarrow> db \<Rightarrow> db \<Rightarrow> bool" where
  "settled E i d d' \<longleftrightarrow> (\<exists>f. schedules d' = upd_where (\<lambda>r. sc_id r = i) f (schedules d) \<and>
     (\<forall>r. sc_id (f r) = sc_id r \<and> \<not> schedule_due E (f r)))"

lemma text_key_date: "YEAR_0 \<le> t \<Longrightarrow> t < YEAR_10000 \<Longrightarrow> text_key t = t"
  by (simp add: text_key_def)

lemma advance_settles:
  assumes "settleable E s" "schedules e = schedules d"
  shows "\<exists>e'. advance E s mode e = (e', Inr ()) \<and> settled E (sc_id s) d e'"
proof -
  obtain r where r: "next_run E s mode = Inr r" "\<And>i. r = Some i \<Longrightarrow> now E < i \<and> i < YEAR_10000"
    using next_run_future [OF assms(1)] by blast
  have "YEAR_0 \<le> now E" using assms(1) by (simp add: settleable_def within_calendar_def)
  then have key: "\<not> schedule_due E (x\<lparr>sc_firesUsed := n, sc_lastRun := l, sc_nextRun := r, sc_state := st, sc_updatedAt := u\<rparr>)" for x n l st u
    using r(2) by (cases r) (auto simp: schedule_due_def text_key_date)
  let ?f = "\<lambda>x. x\<lparr>sc_firesUsed := sc_firesUsed s + (if mode = Fired then 1 else 0),
      sc_lastRun := (if mode = Fired then Some (now E) else sc_nextRun s), sc_nextRun := r,
      sc_state := (if exhausts s mode then Sched_Exhausted else sc_state x), sc_updatedAt := now E\<rparr>"
  have "advance E s mode e = (e\<lparr>schedules := upd_where (\<lambda>x. sc_id x = sc_id s) ?f (schedules e)\<rparr>, Inr ())"
    by (simp add: advance_def r(1))
  moreover have "settled E (sc_id s) d (e\<lparr>schedules := upd_where (\<lambda>x. sc_id x = sc_id s) ?f (schedules e)\<rparr>)"
    unfolding settled_def by (rule exI [of _ ?f], intro conjI allI, simp add: assms(2), simp, rule key)
  ultimately show ?thesis by blast
qed

lemma settled_after:
  assumes "settled E i e d'" "schedules e = upd_where (\<lambda>r. sc_id r = i) g (schedules d)" "\<And>r. sc_id (g r) = sc_id r"
  shows "settled E i d d'"
proof -
  obtain f where f: "schedules d' = upd_where (\<lambda>r. sc_id r = i) f (schedules e)" "\<And>r. sc_id (f r) = sc_id r \<and> \<not> schedule_due E (f r)"
    using assms(1) by (auto simp: settled_def)
  have "schedules d' = upd_where (\<lambda>r. sc_id r = i) (\<lambda>r. f (g r)) (schedules d)"
    unfolding f(1) assms(2) upd_where_def using assms(3) by auto
  then show ?thesis using f(2) assms(3) by (auto simp: settled_def)
qed

lemma settled_audit: "settled E i d (scheduler_audit E' ev fs e) = settled E i d e"
  by (simp add: settled_def scheduler_audit_def)

lemma skip_settles:
  assumes "settleable E s" "schedules e = schedules d"
  shows "settled E (sc_id s) d (fst (skip E s slot why ev e)) \<and> snd (skip E s slot why ev e) = Inr Fire_Skipped"
  using advance_settles [OF assms(1), of "set_run E s slot (skip_run why) e" d Deferred] assms(2)
  by (auto simp: skip_def set_run_def settled_audit)

lemma fire_failed_settles:
  assumes "settleable E s" "schedules e = schedules d"
  shows "settled E (sc_id s) d (fst (fire_failed E s slot x e)) \<and> snd (fire_failed E s slot x e) = Inr Fire_Skipped"
proof -
  have "\<exists>e'. advance E s mode (set_run E s slot f e) = (e', Inr ()) \<and> settled E (sc_id s) d e'" for mode f
    by (rule advance_settles [OF assms(1)]) (simp add: set_run_def assms(2))
  from this [where mode = "if transient_error (run_error_of x) then Deferred else Terminal" and
      f = "\<lambda>r. r\<lparr>sr_state := Run_Failed, sr_skipReason := Some (if transient_error (run_error_of x)
        then ''recipient_unresolved_transient'' else ''recipient_error''), sr_error := Some (run_error_of x)\<rparr>"]
  show ?thesis unfolding fire_failed_def Let_def by (auto simp: settled_audit)
qed

lemma fire_send_settles:
  assumes "settleable E s" "schedules e = schedules d"
  shows "settled E (sc_id s) d (fst (fire_send E s slot e)) \<and> \<not> isl (snd (fire_send E s slot e))"
proof (cases "operatorSend E (fire_input s slot) e")
  case (Pair e1 r)
  have e1: "schedules e1 = schedules d" using operatorSend_schedules [of E "fire_input s slot" e] Pair assms(2) by simp
  show ?thesis
  proof (cases r)
    case (Inl x)
    with Pair fire_failed_settles [OF assms(1) e1] show ?thesis by (simp add: fire_send_def)
  next
    case (Inr sent)
    let ?e2 = "set_run E s slot (\<lambda>r. r\<lparr>sr_state := Run_Sent, sr_message := Some (sr_messageId (or_send sent))\<rparr>) e1"
    let ?e3 = "?e2\<lparr>schedules := upd_where (\<lambda>r. sc_id r = sc_id s)
        (\<lambda>r. r\<lparr>sc_wakesToday := wakes_today E s + 1, sc_wakesDate := Some (day_of (now E))\<rparr>) (schedules ?e2)\<rparr>"
    obtain e4 where e4: "advance E s Fired ?e3 = (e4, Inr ())" "settled E (sc_id s) ?e3 e4"
      using advance_settles [OF assms(1) refl] by blast
    have "settled E (sc_id s) d e4" using e4(2)
      by (rule settled_after [where g = "\<lambda>r. r\<lparr>sc_wakesToday := wakes_today E s + 1, sc_wakesDate := Some (day_of (now E))\<rparr>"])
        (simp_all add: set_run_def e1)
    with Pair Inr e4(1) show ?thesis by (simp add: fire_send_def Let_def settled_audit)
  qed
qed

lemma fire_slot_cases:
  assumes "\<And>n. Q (andThen (advance E s Terminal (d\<lparr>ids_drawn := n\<rparr>)) (\<lambda>_ d. (d, Inr Fire_Skipped)))"
    and "\<And>n rs x. inQuietHours (iso_string (now E)) (sc_quiet s) = Inl x \<Longrightarrow> Q (d\<lparr>ids_drawn := n, schedule_runs := rs\<rparr>, Inl x)"
    and "\<And>n rs why ev. Q (skip E s slot why ev (d\<lparr>ids_drawn := n, schedule_runs := rs\<rparr>))"
    and "\<And>n rs. Q (fire_send E s slot (d\<lparr>ids_drawn := n, schedule_runs := rs\<rparr>))"
  shows "Q (fire_slot cap E s slot d)"
  unfolding fire_slot_def next_id_def Let_def prod.case using assms
  by (cases "inQuietHours (iso_string (now E)) (sc_quiet s)") simp_all

lemma fireOne_settles:
  assumes "settleable E s"
  shows "settled E (sc_id s) d (fst (fireOne cap E s slot d)) \<and> \<not> isl (snd (fireOne cap E s slot d))"
proof -
  let ?ok = "\<lambda>x. settled E (sc_id s) d (fst x) \<and> \<not> isl (snd x)"
  have "?ok (fire_slot cap E s slot d)"
  proof (rule fire_slot_cases)
    show "?ok (skip E s slot why ev (d\<lparr>ids_drawn := n, schedule_runs := rs\<rparr>))" for why ev n rs
      using skip_settles [OF assms, of "d\<lparr>ids_drawn := n, schedule_runs := rs\<rparr>" d slot why ev] by simp
    show "?ok (andThen (advance E s Terminal (d\<lparr>ids_drawn := n\<rparr>)) (\<lambda>_ d. (d, Inr Fire_Skipped)))" for n
      using advance_settles [OF assms, of "d\<lparr>ids_drawn := n\<rparr>" d Terminal] by auto
    show "?ok (d\<lparr>ids_drawn := n, schedule_runs := rs\<rparr>, Inl x)" if "inQuietHours (iso_string (now E)) (sc_quiet s) = Inl x" for n rs x
      using that readable_total [of "sc_quiet s" "iso_string (now E)"] assms by (simp add: settleable_def)
  qed (use fire_send_settles [OF assms] in simp_all)
  then show ?thesis unfolding fireOne_def
    by (cases "fire_slot cap E s slot d"; cases "snd (fire_slot cap E s slot d)") (auto simp: transaction_def)
qed

section \<open>The tick\<close>

lemma settled_other:
  assumes "settled E i d d'" "s \<in> set (schedules d)" "sc_id s \<noteq> i"
  shows "s \<in> set (schedules d')"
  using assms by (auto simp: settled_def set_upd_where image_iff)

lemma tick_all_settles:
  assumes "distinct (map sc_id (schedules d))" "distinct (map sc_id ss)" "set ss \<subseteq> set (schedules d)" "\<forall>s\<in>set ss. settleable E s"
    and "\<And>s. s \<in> set (schedules d) \<Longrightarrow> schedule_due E s \<Longrightarrow> s \<in> set ss"
  shows "(\<forall>s\<in>set (schedules (snd (tick_all cap E ss d))). \<not> schedule_due E s) \<and>
    tk_failed (fst (tick_all cap E ss d)) = 0 \<and>
    tk_fired (fst (tick_all cap E ss d)) + tk_skipped (fst (tick_all cap E ss d)) = length ss"
  using assms
proof (induction ss arbitrary: d)
  case (Cons s ss)
  obtain d1 r where fire: "fireOne cap E s (the (sc_nextRun s)) d = (d1, r)" by fastforce
  have st: "settled E (sc_id s) d d1" and ok: "\<not> isl r"
    using fireOne_settles [of E s d cap "the (sc_nextRun s)"] Cons.prems(4) fire by auto
  obtain f where f: "schedules d1 = upd_where (\<lambda>r. sc_id r = sc_id s) f (schedules d)" "\<And>r. sc_id (f r) = sc_id r \<and> \<not> schedule_due E (f r)"
    using st by (auto simp: settled_def)
  have ids: "map sc_id (schedules d1) = map sc_id (schedules d)" by (simp add: f map_upd_where)
  have sub: "set ss \<subseteq> set (schedules d1)"
  proof
    fix x assume x: "x \<in> set ss"
    then have "sc_id x \<noteq> sc_id s" using Cons.prems(2) by (metis distinct.simps(2) image_eqI list.set_map list.simps(9))
    with x Cons.prems(3) show "x \<in> set (schedules d1)" by (intro settled_other [OF st]) auto
  qed
  have due: "x \<in> set ss" if "x \<in> set (schedules d1)" "schedule_due E x" for x
    using that Cons.prems(5) f(2) by (auto simp: f(1) set_upd_where split: if_splits)
  note IH = Cons.IH [OF _ _ sub _ due]
  show ?case
  proof (cases r)
    case (Inr o1)
    with IH Cons.prems(1,2,4) ids fire show ?thesis by (cases o1) (simp_all add: Let_def case_prod_beta)
  qed (use ok in simp)
qed auto

text \<open>C17: one tick settles the clock, provided every due schedule has quiet hours that can be read and a next run before the
  year 10000. The tick handles each due schedule exactly once, none of them fails with an exception, afterwards no schedule is
  due any more, and a second tick at the same time changes nothing.\<close>

theorem tick_settles:
  assumes "distinct (map sc_id (schedules d))" "\<forall>s\<in>set (schedules d). schedule_due E s \<longrightarrow> settleable E s"
  shows "case tick cap E d of (r, d') \<Rightarrow>
    tk_failed r = 0 \<and> tk_fired r + tk_skipped r = length (filter (schedule_due E) (schedules d)) \<and>
    (\<forall>s\<in>set (schedules d'). \<not> schedule_due E s) \<and>
    tick cap E d' = (\<lparr>tk_fired = 0, tk_skipped = 0, tk_failed = 0\<rparr>, d')"
proof -
  let ?ss = "due_schedules E d"
  have dist: "distinct (map sc_id ?ss)"
    using distinct_map_filter [OF assms(1), of "schedule_due E"] by (simp add: due_schedules_def distinct_map)
  have ss: "set ?ss = {s \<in> set (schedules d). schedule_due E s}" "length ?ss = length (filter (schedule_due E) (schedules d))"
    by (auto simp: due_schedules_def)
  have sub: "set ?ss \<subseteq> set (schedules d)" "\<forall>s\<in>set ?ss. settleable E s" using assms(2) by (simp_all add: ss subset_iff)
  have all: "(\<forall>s\<in>set (schedules (snd (tick_all cap E ?ss d))). \<not> schedule_due E s) \<and>
    tk_failed (fst (tick_all cap E ?ss d)) = 0 \<and>
    tk_fired (fst (tick_all cap E ?ss d)) + tk_skipped (fst (tick_all cap E ?ss d)) = length (filter (schedule_due E) (schedules d))"
    unfolding ss(2) [symmetric] by (rule tick_all_settles [OF assms(1) dist sub]) (simp add: ss(1))
  have "due_schedules E e = []" if "\<forall>s\<in>set (schedules e). \<not> schedule_due E s" for e
    using that by (simp add: due_schedules_def)
  with all have "due_schedules E (snd (tick_all cap E ?ss d)) = []" by blast
  with all show ?thesis by (simp add: tick_def case_prod_beta)
qed

section \<open>Exactly once\<close>

lemma operatorSend_recorded:
  assumes "operatorSend E inp d = (d', Inr r)" "oi_idempotency inp = Some k" "k \<noteq> []"
  shows "find_idempotent d' OPERATOR_SESSION_ID k \<noteq> None"
proof (cases "find_idempotent d OPERATOR_SESSION_ID k")
  case (Some m)
  with assms have "d' = d" by (auto simp: operatorSend_def transaction_Inr truthy_def)
  with Some show ?thesis by simp
next
  case None
  have "\<exists>m\<in>set (messages d'). m_sender m = OPERATOR_SESSION_ID \<and> m_idempotency m = Some k"
    using assms None unfolding operatorSend_def transaction_Inr
    by (auto simp: truthy_def Let_def case_prod_beta andThen_eq_Inr insert_message_Inr ledger_tables
        split: sum.splits if_splits prod.splits)
  then show ?thesis by (auto simp: find_idempotent_def find_None_conv)
qed

lemma operatorSend_duplicate:
  assumes "find_idempotent d OPERATOR_SESSION_ID k \<noteq> None" "oi_idempotency inp = Some k" "k \<noteq> []"
  shows "fst (operatorSend E inp d) = d"
  using assms by (auto simp: operatorSend_def transaction_def truthy_def)

lemma slot_key_nonempty [simp]: "slot_key s slot \<noteq> []"
  by (simp add: slot_key_def)

text \<open>Everything a fire does besides sending leaves the messages and deliveries alone.\<close>

lemma set_run_tables [simp]:
  "messages (set_run E s slot f d) = messages d" "deliveries (set_run E s slot f d) = deliveries d"
  by (simp_all add: set_run_def)

lemma advance_tables [simp]:
  "messages (fst (advance E s mode d)) = messages d" "deliveries (fst (advance E s mode d)) = deliveries d"
  by (simp_all add: advance_def split: sum.split)

lemma skip_tables [simp]:
  "messages (fst (skip E s slot why ev d)) = messages d" "deliveries (fst (skip E s slot why ev d)) = deliveries d"
  by (simp_all add: skip_def andThen_keeps scheduler_audit_def)

lemma fire_failed_tables [simp]:
  "messages (fst (fire_failed E s slot x d)) = messages d" "deliveries (fst (fire_failed E s slot x d)) = deliveries d"
  by (simp_all add: fire_failed_def andThen_keeps scheduler_audit_def Let_def)

lemma fire_send_tables:
  "messages (fst (fire_send E s slot d)) = messages (fst (operatorSend E (fire_input s slot) d))"
  "deliveries (fst (fire_send E s slot d)) = deliveries (fst (operatorSend E (fire_input s slot) d))"
  by (cases "operatorSend E (fire_input s slot) d"; cases "snd (operatorSend E (fire_input s slot) d)";
      auto simp: fire_send_def Let_def andThen_keeps scheduler_audit_def)+

lemma fire_send_duplicate:
  assumes "find_idempotent d OPERATOR_SESSION_ID (slot_key s slot) \<noteq> None"
  shows "messages (fst (fire_send E s slot d)) = messages d \<and> deliveries (fst (fire_send E s slot d)) = deliveries d"
  using operatorSend_duplicate [OF assms, of "fire_input s slot" E] by (simp add: fire_send_tables fire_input_def)

lemma andThen_not: "(\<And>x e. snd (k x e) \<noteq> Inr y) \<Longrightarrow> snd (andThen r k) \<noteq> Inr y"
  by (cases r; cases "snd r") auto

lemma not_fired:
  "snd (fire_failed E s slot x d) \<noteq> Inr Fire_Fired" "snd (skip E s slot why ev d) \<noteq> Inr Fire_Fired"
  "snd (andThen r (\<lambda>_ d. (d, Inr Fire_Skipped))) \<noteq> Inr Fire_Fired"
  unfolding fire_failed_def skip_def Let_def by (rule andThen_not; simp)+

lemma fireOne_duplicate:
  assumes "find_idempotent d OPERATOR_SESSION_ID (slot_key s slot) \<noteq> None"
  shows "messages (fst (fireOne cap E s slot d)) = messages d \<and> deliveries (fst (fireOne cap E s slot d)) = deliveries d"
proof -
  let ?g = "\<lambda>d. (messages d, deliveries d)"
  have "?g (fst (fire_slot cap E s slot d)) = ?g d"
  proof (rule fire_slot_cases)
    fix n rs
    have "find_idempotent (d\<lparr>ids_drawn := n, schedule_runs := rs\<rparr>) OPERATOR_SESSION_ID (slot_key s slot) \<noteq> None"
      using assms by (simp add: find_idempotent_def)
    then show "?g (fst (fire_send E s slot (d\<lparr>ids_drawn := n, schedule_runs := rs\<rparr>))) = ?g d"
      using fire_send_duplicate [of "d\<lparr>ids_drawn := n, schedule_runs := rs\<rparr>" s slot E] by simp
  qed (simp_all add: andThen_keeps)
  then have "?g (fst (fireOne cap E s slot d)) = ?g d"
    unfolding fireOne_def by (rule transaction_keeps) simp
  then show ?thesis by simp
qed

lemma fireOne_recorded:
  assumes "fireOne cap E s slot d = (d', Inr Fire_Fired)"
  shows "find_idempotent d' OPERATOR_SESSION_ID (slot_key s slot) \<noteq> None"
proof -
  have "snd x = Inr Fire_Fired \<longrightarrow> find_idempotent (fst x) OPERATOR_SESSION_ID (slot_key s slot) \<noteq> None"
    if "x = fire_slot cap E s slot d" for x
    unfolding that
  proof (rule fire_slot_cases)
    fix n rs
    let ?d = "d\<lparr>ids_drawn := n, schedule_runs := rs\<rparr>"
    show "snd (fire_send E s slot ?d) = Inr Fire_Fired \<longrightarrow> find_idempotent (fst (fire_send E s slot ?d)) OPERATOR_SESSION_ID (slot_key s slot) \<noteq> None"
    proof (cases "operatorSend E (fire_input s slot) ?d")
      case (Pair e r)
      show ?thesis
      proof (cases r)
        case (Inl x)
        with Pair not_fired(1) show ?thesis by (simp add: fire_send_def)
      next
        case (Inr sent)
        with Pair have "find_idempotent e OPERATOR_SESSION_ID (slot_key s slot) \<noteq> None"
          by (intro operatorSend_recorded) (auto simp: fire_input_def)
        with Pair show ?thesis using fire_send_tables(1) [of E s slot ?d] by (simp add: find_idempotent_def)
      qed
    qed
  qed (simp_all add: not_fired)
  with assms show ?thesis by (simp add: fireOne_def transaction_Inr)
qed

text \<open>C13: a slot fires once. After a schedule has fired for a slot, no later attempt for the same slot, after any run of
  other operations (the pruning of old runs included) and at any later time, stores another message or delivery.\<close>

theorem slot_fired_once:
  assumes "broker_ok H d" "sha256 E = H" "\<forall>(E, op)\<in>set ops. sha256 E = H"
    and "fireOne cap E s slot d = (d1, Inr Fire_Fired)" "sc_id s' = sc_id s"
  shows "let d2 = run_ops C ops d1 in
    messages (fst (fireOne cap' E' s' slot d2)) = messages d2 \<and> deliveries (fst (fireOne cap' E' s' slot d2)) = deliveries d2"
proof -
  have "evolves ordinary_edge H d d1" using fireOne_evolves [of ordinary_edge E d cap s slot] assms(2,4) by simp
  then have "broker_ok H d1" using assms(1) by (simp add: evolves_def)
  then have "prefix (messages d1) (messages (run_ops C ops d1))"
    using run_ops_evolves [OF _ assms(3), of d1 C] by (simp add: evolves_def)
  moreover have "slot_key s' slot = slot_key s slot" by (simp add: slot_key_def assms(5))
  moreover obtain m where "find_idempotent d1 OPERATOR_SESSION_ID (slot_key s slot) = Some m"
    using fireOne_recorded [OF assms(4)] by blast
  ultimately have "find_idempotent (run_ops C ops d1) OPERATOR_SESSION_ID (slot_key s' slot) \<noteq> None"
    using find_idempotent_prefix [of d1 OPERATOR_SESSION_ID "slot_key s slot" m "run_ops C ops d1"] by simp
  then show ?thesis by (simp add: Let_def fireOne_duplicate)
qed

section \<open>A schedule that cannot advance\<close>

text \<open>
  A recurring schedule whose interval reaches beyond the range of dates is accepted by \<open>createSchedule\<close>. Each time it is due
  the tick throws in \<open>advance\<close>, its transaction is rolled back, and the schedule is as due as before.
\<close>

lemma advance_stuck: "next_run E s mode = Inl x \<Longrightarrow> advance E s mode d = (d, Inl x)"
  by (simp add: advance_def)

lemma fire_slot_stuck:
  assumes "\<And>mode. next_run E s mode = Inl x" "\<not> truthy (sc_quiet s)"
  shows "snd (fire_slot cap E s slot d) = Inl x"
proof (rule fire_slot_cases)
  show "snd (fire_send E s slot (d\<lparr>ids_drawn := n, schedule_runs := rs\<rparr>)) = Inl x" for n rs
    by (cases "operatorSend E (fire_input s slot) (d\<lparr>ids_drawn := n, schedule_runs := rs\<rparr>)";
        cases "snd (operatorSend E (fire_input s slot) (d\<lparr>ids_drawn := n, schedule_runs := rs\<rparr>))")
      (simp_all add: fire_send_def fire_failed_def Let_def advance_stuck assms(1))
qed (use assms in \<open>simp_all add: skip_def advance_stuck inQuietHours_def\<close>)

theorem huge_interval_stuck:
  assumes "sc_kind s = Interval" "js_number (default [] (sc_expr s)) = Some r" "of_int MAX_TIME < r" "0 \<le> now E"
    and "sc_maxFires s = None" "\<not> truthy (sc_quiet s)"
  shows "\<exists>d'. fireOne cap E s slot d = (d', Inl JsRangeError) \<and> schedules d' = schedules d"
proof -
  have r: "0 < r" using assms(3) by (simp add: MAX_TIME_def)
  define t where "t = of_int (now E) + max r (of_int (sc_minInterval s))"
  have "of_int MAX_TIME < \<bar>t\<bar>" using assms(3,4) r by (simp add: t_def max_def)
  then have "time_value t = Inl JsRangeError" by (simp add: time_value_def)
  moreover have "next_candidate E s mode = Inr (Some t)" for mode
    using assms r by (simp add: next_candidate_def computeNextRun_def t_def)
  ultimately have "next_run E s mode = Inl JsRangeError" for mode
    using assms(1,5) by (simp add: next_run_def exhausts_def)
  then have "snd (fire_slot cap E s slot d) = Inl JsRangeError" by (rule fire_slot_stuck [OF _ assms(6)])
  then show ?thesis
    by (cases "fire_slot cap E s slot d") (simp add: fireOne_def transaction_def)
qed

section \<open>Samples\<close>

text \<open>A schedule that writes to \<open>api\<close>, due at 500.\<close>

definition sample_schedule :: schedule_row where
  "sample_schedule = \<lparr>sc_id = js ''s'', sc_actor = js ''a'', sc_title = None, sc_target = js ''api'', sc_payloadKind = js ''event'',
     sc_payload = js ''hi'', sc_requiresAck = False, sc_requiresReply = False, sc_kind = Once, sc_expr = None, sc_timezone = js ''UTC'',
     sc_quiet = None, sc_deliveryMode = js ''enqueue_only'', sc_budget = None, sc_concurrency = None, sc_minInterval = 60000,
     sc_wakeLimit = None, sc_wakesToday = 0, sc_wakesDate = None, sc_nextRun = Some 500, sc_lastRun = None, sc_maxFires = None,
     sc_firesUsed = 0, sc_originGuard = True, sc_state = Sched_Active, sc_createdAt = 0, sc_updatedAt = 0\<rparr>"

text \<open>The same schedule every hour, with a quiet window from 22:00 to 06:00.\<close>

definition hourly_schedule :: schedule_row where
  "hourly_schedule = sample_schedule\<lparr>sc_kind := Interval, sc_expr := Some (js ''3600000''), sc_quiet := Some (quiet_json [(hhmm 1320, hhmm 360)])\<rparr>"

lemma hour_text: "js_number (js ''3600000'') = Some 3600000"
  by (simp add: js_number_def numeric_text_def unsigned_decimal_def js_trim_def js_space_def is_digit_def exponent_value_def pow10_def
      digits_value_def finite_double_def Let_def)

lemma hourly_settleable: "settleable sample_env hourly_schedule"
proof -
  have "readable_quiet (sc_quiet hourly_schedule)"
    by (simp add: readable_quiet_def hourly_schedule_def quiet_json_parsed windows_of_def window_bounds_def)
  moreover have "within_calendar sample_env hourly_schedule"
    by (simp add: within_calendar_def hourly_schedule_def sample_schedule_def default_def hour_text advance_step_def
        YEAR_0_def YEAR_10000_def del: js_Cons)
  ultimately show ?thesis by (simp add: settleable_def hourly_schedule_def sample_schedule_def)
qed

theorem tick_settles_witness:
  "let d = api_db\<lparr>schedules := [hourly_schedule]\<rparr> in
   tk_failed (fst (tick 200 sample_env d)) = 0 \<and> tk_fired (fst (tick 200 sample_env d)) + tk_skipped (fst (tick 200 sample_env d)) = 1"
proof -
  have "schedule_due sample_env hourly_schedule"
    by (simp add: schedule_due_def hourly_schedule_def sample_schedule_def text_key_def YEAR_0_def YEAR_10000_def)
  with tick_settles [of "api_db\<lparr>schedules := [hourly_schedule]\<rparr>" sample_env 200] hourly_settleable show ?thesis
    by (simp add: case_prod_beta Let_def)
qed

lemma sample_next: "next_run sample_env sample_schedule Fired = Inr None"
  by (simp add: next_run_def next_candidate_def computeNextRun_def sample_schedule_def)

lemma sample_fired: "snd (fireOne 0 sample_env sample_schedule 500 api_db) = Inr Fire_Fired"
proof -
  have res: "resolveRecipient (api_db\<lparr>ids_drawn := n, schedule_runs := rs\<rparr>) (js ''api'') = Inr \<lparr>rp_session = js ''b'', rp_alias = js ''api''\<rparr>" for n rs
    using api_resolved api_parsed by (simp add: resolveRecipient_def alias_matches_def)
  have key: "find_idempotent (api_db\<lparr>ids_drawn := n, schedule_runs := rs\<rparr>) OPERATOR_SESSION_ID k = None" for n rs k
    by (simp add: find_idempotent_def api_db_def sample_message_def)
  have ex: "\<not> session_expired (api_db\<lparr>ids_drawn := n, schedule_runs := rs\<rparr>) (js ''b'')" for n rs
    by (simp add: session_expired_def session_row_def api_db_def sample_session_def)
  have op: "js ''b'' \<noteq> OPERATOR_SESSION_ID" by (simp add: OPERATOR_SESSION_ID_def)
  have tables: "sessions api_db = [sample_session (js ''a''), sample_session (js ''b'')]" "messages api_db = [sample_message]"
    "threads api_db = [sample_thread (js ''t'')]" "thread_sequences api_db = []" "ids_drawn api_db = 0" "schedule_runs api_db = []"
    "recipient_sequences api_db = [\<lparr>q_key = js ''b'', q_next = 2\<rparr>]" "thread_participants api_db = []"
    by (simp_all add: api_db_def queued_db_def sample_db_def)
  let ?d = "api_db\<lparr>ids_drawn := 1, schedule_runs := [new_run sample_env sample_schedule 500 [0]]\<rparr>"
  have "\<not> isl (snd (operatorSend sample_env (fire_input sample_schedule 500) ?d))"
    unfolding operatorSend_def
    by (simp add: transaction_def key res ex op fire_input_def sample_schedule_def operator_thread_def next_id_def truthy_def del: js_Cons)
      (simp add: Let_def allocThreadSequence_def allocSequence_def ensureThread_def thread_of_def ensureParticipant_def next_id_def
        session_row_def insert_message_def message_conflict_def sample_message_def sample_session_def sample_thread_def seq_next_def tables)
  then have "snd (fire_send sample_env sample_schedule 500 ?d) = Inr Fire_Fired"
    by (cases "operatorSend sample_env (fire_input sample_schedule 500) ?d") (auto simp: fire_send_def Let_def isl_def advance_def sample_next split: sum.splits)
  then show ?thesis
    by (simp add: fireOne_def transaction_def fire_slot_def next_id_def tables run_claimed_def sample_schedule_def inQuietHours_def truthy_def case_prod_beta split: sum.splits)
qed

theorem slot_fired_once_witness:
  "let d2 = run_ops daemon_config [(sample_env, Do_Cancel [1] None)] (fst (fireOne 0 sample_env sample_schedule 500 api_db))
   in messages (fst (fireOne 0 sample_env sample_schedule 500 d2)) = messages d2"
proof -
  have "fireOne 0 sample_env sample_schedule 500 api_db = (fst (fireOne 0 sample_env sample_schedule 500 api_db), Inr Fire_Fired)"
    using sample_fired by (simp add: prod_eq_iff)
  from slot_fired_once [OF api_db_broker_ok refl _ this refl, of "[(sample_env, Do_Cancel [1] None)]" daemon_config 0 sample_env]
  show ?thesis by (simp add: Let_def)
qed

end
