(* ===== verification/Bytes.thy ===== *)
theory Bytes
  imports Prelude "HOL-Library.Word"
begin

text \<open>
  Node buffers: octet strings, big-endian integers of two and four octets, and the UTF-8 conversions
  \<open>Buffer.from(s, 'utf8')\<close> and \<open>buf.toString('utf8')\<close> between buffers and JavaScript strings.
\<close>

unbundle bit_operations_syntax

type_synonym byte = "8 word"

type_synonym bytes = "byte list"

section \<open>Big-endian integers\<close>

definition writeUInt16BE :: "16 word \<Rightarrow> bytes" where
  "writeUInt16BE w = [ucast (drop_bit 8 w), ucast w]"

definition writeUInt32BE :: "32 word \<Rightarrow> bytes" where
  "writeUInt32BE w = [ucast (drop_bit 24 w), ucast (drop_bit 16 w), ucast (drop_bit 8 w), ucast w]"

definition readUInt16BE :: "bytes \<Rightarrow> nat" where
  "readUInt16BE bs = unat (bs ! 0) * 256 + unat (bs ! 1)"

definition readUInt32BE :: "bytes \<Rightarrow> nat" where
  "readUInt32BE bs = unat (bs ! 0) * 16777216 + unat (bs ! 1) * 65536 + unat (bs ! 2) * 256 + unat (bs ! 3)"

lemma length_writeUInt [simp]: "length (writeUInt16BE v) = 2" "length (writeUInt32BE w) = 4"
  by (simp_all add: writeUInt16BE_def writeUInt32BE_def)

text \<open>Splitting a number into its digits to the base of an octet and of six bits.\<close>

lemma digits_256:
  fixes n :: nat
  shows "n div 65536 * 65536 + n div 256 mod 256 * 256 + n mod 256 = n"
    and "n div 16777216 * 16777216 + n div 65536 mod 256 * 65536 + n div 256 mod 256 * 256 + n mod 256 = n"
proof -
  have 1: "n div 256 div 256 = n div 65536" "n div 65536 div 256 = n div 16777216" by (simp_all flip: div_mult2_eq)
  have 2: "n div 256 * 256 + n mod 256 = n" "n div 65536 * 256 + n div 256 mod 256 = n div 256"
    "n div 16777216 * 256 + n div 65536 mod 256 = n div 65536"
    using div_mult_mod_eq [of n 256] div_mult_mod_eq [of "n div 256" 256] div_mult_mod_eq [of "n div 65536" 256] 1 by simp_all
  from 2 show "n div 65536 * 65536 + n div 256 mod 256 * 256 + n mod 256 = n" by linarith
  from 2 show "n div 16777216 * 16777216 + n div 65536 mod 256 * 65536 + n div 256 mod 256 * 256 + n mod 256 = n" by linarith
qed

lemma digits_64:
  fixes n :: nat
  shows "n div 64 * 64 + n mod 64 = n"
    and "(n div 4096 * 64 + n div 64 mod 64) * 64 + n mod 64 = n"
    and "((n div 262144 * 64 + n div 4096 mod 64) * 64 + n div 64 mod 64) * 64 + n mod 64 = n"
proof -
  have 1: "n div 64 div 64 = n div 4096" "n div 4096 div 64 = n div 262144" by (simp_all flip: div_mult2_eq)
  have 2: "n div 64 * 64 + n mod 64 = n" "n div 4096 * 64 + n div 64 mod 64 = n div 64"
    "n div 262144 * 64 + n div 4096 mod 64 = n div 4096"
    using div_mult_mod_eq [of n 64] div_mult_mod_eq [of "n div 64" 64] div_mult_mod_eq [of "n div 4096" 64] 1 by simp_all
  from 2 show "n div 64 * 64 + n mod 64 = n" "(n div 4096 * 64 + n div 64 mod 64) * 64 + n mod 64 = n"
    "((n div 262144 * 64 + n div 4096 mod 64) * 64 + n div 64 mod 64) * 64 + n mod 64 = n" by simp_all
qed

lemma unat_octet:
  fixes w :: "'a::len word"
  shows "unat (ucast (drop_bit n w) :: byte) = unat w div 2 ^ n mod 256"
proof -
  have "unat (drop_bit n w) = unat w div 2 ^ n" by (simp add: unsigned_drop_bit_eq take_bit_nat_eq_self unsigned_less flip: drop_bit_eq_div)
  then show ?thesis by (simp add: unsigned_ucast_eq take_bit_eq_mod)
qed

lemma read_write_16 [simp]: "readUInt16BE (writeUInt16BE v @ r) = unat v"
proof -
  have "unat (ucast v :: byte) = unat v mod 256" using unat_octet [of 0 v] by simp
  moreover have "unat v < 65536" using unsigned_less [of v] by simp
  ultimately show ?thesis by (simp add: readUInt16BE_def writeUInt16BE_def unat_octet)
qed

lemma read_write_32 [simp]: "readUInt32BE (writeUInt32BE w @ r) = unat w"
proof -
  have low: "unat (ucast w :: byte) = unat w mod 256" using unat_octet [of 0 w] by simp
  have bound: "unat w < 4294967296" using unsigned_less [of w] by simp
  have "unat w div 16777216 < 256" using bound by linarith
  then have "unat w div 16777216 mod 256 = unat w div 16777216" by simp
  with low digits_256(2) [of "unat w"] show ?thesis by (simp add: readUInt32BE_def writeUInt32BE_def unat_octet)
qed

lemma readUInt_less: "readUInt32BE bs < 4294967296" "readUInt16BE bs < 65536"
proof -
  have *: "unat (b :: byte) < 256" for b using unsigned_less [of b] by simp
  show "readUInt32BE bs < 4294967296" unfolding readUInt32BE_def
    using * [of "bs ! 0"] * [of "bs ! 1"] * [of "bs ! 2"] * [of "bs ! 3"] by linarith
  show "readUInt16BE bs < 65536" unfolding readUInt16BE_def using * [of "bs ! 0"] * [of "bs ! 1"] by linarith
qed

lemma readUInt32BE_append: "4 \<le> length bs \<Longrightarrow> readUInt32BE (bs @ r) = readUInt32BE bs"
  by (cases bs) (auto simp: readUInt32BE_def nth_append)

lemma readUInt16BE_append: "2 \<le> length bs \<Longrightarrow> readUInt16BE (bs @ r) = readUInt16BE bs"
  by (cases bs) (auto simp: readUInt16BE_def nth_append)

lemma write_read_32:
  assumes "length b = 4"
  shows "writeUInt32BE (word_of_nat (readUInt32BE b)) = b"
proof -
  from assms obtain b0 b1 b2 b3 where b: "b = [b0, b1, b2, b3]" by (auto simp: numeral_eq_Suc length_Suc_conv)
  define n where "n = readUInt32BE b"
  have lt: "unat (x :: byte) < 256" for x using unsigned_less [of x] by simp
  have n: "n = ((unat b0 * 256 + unat b1) * 256 + unat b2) * 256 + unat b3" by (simp add: n_def b readUInt32BE_def)
  have q: "(m * 256 + unat x) div 256 = m" "(m * 256 + unat x) mod 256 = unat x" for m and x :: byte
    using lt [of x] by simp_all
  have e: "n div 65536 = n div 256 div 256" "n div 16777216 = n div 256 div 256 div 256" by (simp_all flip: div_mult2_eq)
  have d: "n mod 256 = unat b3" "n div 256 mod 256 = unat b2" "n div 65536 mod 256 = unat b1" "n div 16777216 = unat b0"
    unfolding e unfolding n q by (rule refl)+
  have w: "unat (word_of_nat n :: 32 word) = n"
    using readUInt_less(1) [of b] by (simp add: n_def unat_of_nat take_bit_nat_eq_self)
  have low: "unat (ucast (word_of_nat n :: 32 word) :: byte) = n mod 256" using unat_octet [of 0 "word_of_nat n :: 32 word"] w by simp
  show ?thesis unfolding n_def [symmetric] using d lt [of b0] w low
    by (simp add: b writeUInt32BE_def word_unat_eq_iff unat_octet)
qed

section \<open>UTF-8\<close>

definition octet :: "nat \<Rightarrow> byte" where
  "octet n = word_of_nat n"

lemma unat_octet_of [simp]: "n < 256 \<Longrightarrow> unat (octet n) = n"
  by (simp add: octet_def unat_of_nat take_bit_nat_eq_self)

definition utf8_two :: "nat \<Rightarrow> bytes" where
  "utf8_two c = [octet (192 + c div 64), octet (128 + c mod 64)]"

definition utf8_three :: "nat \<Rightarrow> bytes" where
  "utf8_three c = [octet (224 + c div 4096), octet (128 + c div 64 mod 64), octet (128 + c mod 64)]"

definition utf8_four :: "nat \<Rightarrow> bytes" where
  "utf8_four c = [octet (240 + c div 262144), octet (128 + c div 4096 mod 64), octet (128 + c div 64 mod 64), octet (128 + c mod 64)]"

text \<open>The code point of a surrogate pair, and the replacement character of a lone surrogate.\<close>

definition pair_point :: "nat \<Rightarrow> nat \<Rightarrow> nat" where
  "pair_point h l = 65536 + (h - 55296) * 1024 + (l - 56320)"

definition REPLACEMENT :: nat where
  "REPLACEMENT = 65533"

fun utf8_encode :: "js_string \<Rightarrow> bytes" where
  "utf8_encode [] = []"
| "utf8_encode (c # s) =
     (if c < 128 then octet c # utf8_encode s
      else if c < 2048 then utf8_two c @ utf8_encode s
      else case s of
             [] \<Rightarrow> utf8_three (if high_surrogate c \<or> low_surrogate c then REPLACEMENT else c)
           | e # t \<Rightarrow>
               if high_surrogate c \<and> low_surrogate e then utf8_four (pair_point c e) @ utf8_encode t
               else utf8_three (if high_surrogate c \<or> low_surrogate c then REPLACEMENT else c) @ utf8_encode s)"

lemma length_utf8_encode: "length (utf8_encode s) = byteLen s"
proof (induction s rule: utf8_encode.induct)
  case (2 c s)
  then show ?case unfolding utf8_encode.simps(2) [of c s] byteLen.simps(2) [of c s]
    by (auto simp: utf8_two_def utf8_three_def utf8_four_def simp del: utf8_encode.simps byteLen.simps split: list.splits)
qed simp

text \<open>
  Decoding follows the maximal-subpart rule: a lead octet fixes how many continuation octets follow
  and the range of the first one; what does not fit is replaced by U+FFFD, up to the offending
  octet, which is read again.
\<close>

definition utf8_lead :: "nat \<Rightarrow> (nat \<times> nat \<times> nat \<times> nat) option" where
  "utf8_lead b =
     (if 194 \<le> b \<and> b \<le> 223 then Some (1, 128, 191, b - 192)
      else if 224 \<le> b \<and> b \<le> 239 then Some (2, if b = 224 then 160 else 128, if b = 237 then 159 else 191, b - 224)
      else if 240 \<le> b \<and> b \<le> 244 then Some (3, if b = 240 then 144 else 128, if b = 244 then 143 else 191, b - 240)
      else None)"

fun utf8_tail :: "nat \<Rightarrow> nat \<Rightarrow> nat \<Rightarrow> nat \<Rightarrow> bytes \<Rightarrow> nat option \<times> bytes" where
  "utf8_tail 0 lo hi cp bs = (Some cp, bs)"
| "utf8_tail (Suc n) lo hi cp [] = (None, [])"
| "utf8_tail (Suc n) lo hi cp (b # bs) =
     (if lo \<le> unat b \<and> unat b \<le> hi then utf8_tail n 128 191 (cp * 64 + (unat b - 128)) bs else (None, b # bs))"

lemma length_utf8_tail: "length (snd (utf8_tail n lo hi cp bs)) \<le> length bs"
  by (induction n lo hi cp bs rule: utf8_tail.induct) auto

lemma utf8_tail_shorter: "(x, r) = utf8_tail n lo hi cp bs \<Longrightarrow> length r < Suc (length bs)"
  using length_utf8_tail [of n lo hi cp bs] by (simp flip: less_Suc_eq_le) (metis snd_conv)

definition utf16 :: "nat \<Rightarrow> js_string" where
  "utf16 cp = (if cp < 65536 then [cp] else [55296 + (cp - 65536) div 1024, 56320 + (cp - 65536) mod 1024])"

function utf8_decode :: "bytes \<Rightarrow> js_string" where
  "utf8_decode [] = []"
| "utf8_decode (b # bs) =
     (if unat b < 128 then unat b # utf8_decode bs
      else case utf8_lead (unat b) of
             None \<Rightarrow> REPLACEMENT # utf8_decode bs
           | Some (n, lo, hi, cp) \<Rightarrow>
               (case utf8_tail n lo hi cp bs of
                  (None, r) \<Rightarrow> REPLACEMENT # utf8_decode r
                | (Some c, r) \<Rightarrow> utf16 c @ utf8_decode r))"
  by pat_completeness auto
termination
proof (relation "measure length", goal_cases)
  case 4
  then show ?case by (auto dest: utf8_tail_shorter)
next
  case 5
  then show ?case by (auto dest: utf8_tail_shorter)
qed simp_all

text \<open>Well-formed UTF-16: sixteen-bit units in which surrogates come in pairs.\<close>

fun utf16_ok :: "js_string \<Rightarrow> bool" where
  "utf16_ok [] = True"
| "utf16_ok (c # s) =
     (if high_surrogate c then (case s of [] \<Rightarrow> False | e # t \<Rightarrow> low_surrogate e \<and> utf16_ok t)
      else \<not> low_surrogate c \<and> c < 65536 \<and> utf16_ok s)"

lemma decode_two:
  assumes "128 \<le> c" "c < 2048"
  shows "utf8_decode (utf8_two c @ r) = c # utf8_decode r"
proof -
  have b: "2 \<le> c div 64" "c div 64 < 32" "c mod 64 < 64" using assms by simp_all
  have lead: "utf8_lead (192 + c div 64) = Some (Suc 0, 128, 191, c div 64)" using b by (simp add: utf8_lead_def)
  have tail: "utf8_tail (Suc 0) 128 191 (c div 64) (octet (128 + c mod 64) # r) = (Some c, r)"
    using b digits_64(1) [of c] by simp
  from assms b lead tail show ?thesis by (simp add: utf8_two_def utf16_def)
qed

lemma decode_three:
  assumes "2048 \<le> c" "c < 65536" "\<not> high_surrogate c" "\<not> low_surrogate c"
  shows "utf8_decode (utf8_three c @ r) = c # utf8_decode r"
proof -
  define x y z where "x = c div 4096" and "y = c div 64 mod 64" and "z = c mod 64"
  have e: "(x * 64 + y) * 64 + z = c" using digits_64(2) [of c] by (simp add: x_def y_def z_def)
  have b: "x < 16" "y < 64" "z < 64" using assms by (auto simp: x_def y_def z_def)
  have lo: "x = 0 \<Longrightarrow> 32 \<le> y" using e b assms by simp
  have hi: "x = 13 \<Longrightarrow> y \<le> 31" using e b assms unfolding high_surrogate_def low_surrogate_def by simp
  have lead: "utf8_lead (224 + x) = Some (2, if x = 0 then 160 else 128, if x = 13 then 159 else 191, x)"
    using b by (simp add: utf8_lead_def)
  have tail: "utf8_tail 2 (if x = 0 then 160 else 128) (if x = 13 then 159 else 191) x (octet (128 + y) # octet (128 + z) # r)
      = (Some c, r)"
    using b lo hi e by (auto simp: numeral_2_eq_2)
  from assms b lead tail show ?thesis by (simp add: utf8_three_def utf16_def flip: x_def y_def z_def)
qed

lemma pair_point_range:
  assumes "high_surrogate h" "low_surrogate l"
  shows "65536 \<le> pair_point h l" "pair_point h l < 1114112" "utf16 (pair_point h l) = [h, l]"
proof -
  have hl: "55296 \<le> h" "h - 55296 < 1024" "56320 \<le> l" "l - 56320 < 1024"
    using assms by (auto simp: high_surrogate_def low_surrogate_def)
  then show "65536 \<le> pair_point h l" "pair_point h l < 1114112" by (simp_all add: pair_point_def)
  have "pair_point h l - 65536 = (h - 55296) * 1024 + (l - 56320)" by (simp add: pair_point_def)
  moreover obtain i j where "h = 55296 + i" "l = 56320 + j" using hl by (meson nat_le_iff_add)
  ultimately have "(pair_point h l - 65536) div 1024 = h - 55296" "(pair_point h l - 65536) mod 1024 = l - 56320"
    using hl by simp_all
  with hl show "utf16 (pair_point h l) = [h, l]" by (simp add: utf16_def) (simp add: pair_point_def)
qed

lemma decode_four:
  assumes "65536 \<le> c" "c < 1114112"
  shows "utf8_decode (utf8_four c @ r) = utf16 c @ utf8_decode r"
proof -
  define w x y z where "w = c div 262144" and "x = c div 4096 mod 64" and "y = c div 64 mod 64" and "z = c mod 64"
  have e: "((w * 64 + x) * 64 + y) * 64 + z = c" using digits_64(3) [of c] by (simp add: w_def x_def y_def z_def)
  have b: "w < 5" "x < 64" "y < 64" "z < 64" using assms by (auto simp: w_def x_def y_def z_def)
  have lo: "w = 0 \<Longrightarrow> 16 \<le> x" and hi: "w = 4 \<Longrightarrow> x \<le> 15" using e b assms by simp_all
  have lead: "utf8_lead (240 + w) = Some (3, if w = 0 then 144 else 128, if w = 4 then 143 else 191, w)"
    using b by (simp add: utf8_lead_def)
  have tail: "utf8_tail 3 (if w = 0 then 144 else 128) (if w = 4 then 143 else 191) w
        (octet (128 + x) # octet (128 + y) # octet (128 + z) # r) = (Some c, r)"
    using b lo hi e by (auto simp: numeral_3_eq_3)
  from b lead tail show ?thesis by (simp add: utf8_four_def flip: w_def x_def y_def z_def)
qed

lemma utf8_roundtrip_append: "utf16_ok s \<Longrightarrow> utf8_decode (utf8_encode s @ r) = s @ utf8_decode r"
proof (induction s rule: utf8_encode.induct)
  case (2 c s)
  show ?case
  proof (cases "high_surrogate c")
    case True
    with 2 obtain e t where "s = e # t" "low_surrogate e" "utf16_ok t" by (auto split: list.splits)
    with True 2 show ?thesis by (simp add: decode_four pair_point_range) (simp add: high_surrogate_def)
  next
    case False
    with 2 show ?thesis by (cases s) (auto simp: decode_two decode_three)
  qed
qed simp

lemma utf8_roundtrip [simp]: "utf16_ok s \<Longrightarrow> utf8_decode (utf8_encode s) = s"
  using utf8_roundtrip_append [of s "[]"] by simp

text \<open>Decoded text is well-formed whatever the octets are, and at most as long as they are.\<close>

definition scalar :: "nat \<Rightarrow> bool" where
  "scalar c \<longleftrightarrow> c < 1114112 \<and> \<not> high_surrogate c \<and> \<not> low_surrogate c"

lemma octet_less: "unat (b :: byte) < 256"
  using unsigned_less [of b] by simp

lemma utf8_tail_step:
  assumes "utf8_tail (Suc n) lo hi cp bs = (Some c, r)" "128 \<le> lo"
  obtains x bs' where "lo \<le> x + 128" "x + 128 \<le> hi" "utf8_tail n 128 191 (cp * 64 + x) bs' = (Some c, r)"
proof (cases bs)
  case (Cons b bs')
  with assms have b: "lo \<le> unat b" "unat b \<le> hi" "utf8_tail n 128 191 (cp * 64 + (unat b - 128)) bs' = (Some c, r)"
    by (simp_all only: utf8_tail.simps prod.inject option.distinct simp_thms split: if_splits)
  with that [of "unat b - 128" bs'] assms(2) show thesis by simp
qed (use assms in simp)

lemma utf8_tail_one:
  assumes "utf8_tail (Suc 0) lo hi cp bs = (Some c, r)" "128 \<le> lo"
  obtains x where "c = cp * 64 + x" "lo \<le> x + 128" "x + 128 \<le> hi"
  using assms by (rule utf8_tail_step) (rule that; simp only: utf8_tail.simps prod.inject option.inject)

lemma utf8_tail_two:
  assumes "utf8_tail (Suc (Suc 0)) lo hi cp bs = (Some c, r)" "128 \<le> lo"
  obtains x y where "c = (cp * 64 + x) * 64 + y" "lo \<le> x + 128" "x + 128 \<le> hi" "y < 64"
proof -
  obtain x bs' where x: "lo \<le> x + 128" "x + 128 \<le> hi" "utf8_tail (Suc 0) 128 191 (cp * 64 + x) bs' = (Some c, r)"
    using assms by (rule utf8_tail_step)
  obtain y where "c = (cp * 64 + x) * 64 + y" "y + 128 \<le> 191" using x(3) order_refl by (rule utf8_tail_one)
  with x that show thesis by simp
qed

lemma utf8_tail_three:
  assumes "utf8_tail (Suc (Suc (Suc 0))) lo hi cp bs = (Some c, r)" "128 \<le> lo"
  obtains x y z where "c = ((cp * 64 + x) * 64 + y) * 64 + z" "lo \<le> x + 128" "x + 128 \<le> hi" "y < 64" "z < 64"
proof -
  obtain x bs' where x: "lo \<le> x + 128" "x + 128 \<le> hi" "utf8_tail (Suc (Suc 0)) 128 191 (cp * 64 + x) bs' = (Some c, r)"
    using assms by (rule utf8_tail_step)
  obtain y z where "c = ((cp * 64 + x) * 64 + y) * 64 + z" "y + 128 \<le> 191" "z < 64" using x(3) order_refl by (rule utf8_tail_two)
  with x that show thesis by simp
qed

lemma decoded_scalar:
  assumes "utf8_lead b = Some (n, lo, hi, cp)" "utf8_tail n lo hi cp bs = (Some c, r)"
  shows "scalar c \<and> (n < 3 \<longrightarrow> c < 65536)"
proof -
  from assms(1) consider "194 \<le> b" "b \<le> 223" "n = Suc 0" "lo = 128" "hi = 191" "cp = b - 192"
    | "224 \<le> b" "b \<le> 239" "n = Suc (Suc 0)" "lo = (if b = 224 then 160 else 128)" "hi = (if b = 237 then 159 else 191)" "cp = b - 224"
    | "240 \<le> b" "b \<le> 244" "n = Suc (Suc (Suc 0))" "lo = (if b = 240 then 144 else 128)" "hi = (if b = 244 then 143 else 191)" "cp = b - 240"
    by (auto simp: utf8_lead_def numeral_2_eq_2 numeral_3_eq_3 split: if_splits)
  then show ?thesis
  proof cases
    case 1
    obtain x where "c = cp * 64 + x" "x + 128 \<le> hi" using assms(2) 1 by (auto elim: utf8_tail_one)
    with 1 have "c < 2048" by linarith
    then show ?thesis by (simp add: scalar_def high_surrogate_def low_surrogate_def)
  next
    case 2
    have "128 \<le> lo" using 2 by simp
    then obtain x y where c: "c = (cp * 64 + x) * 64 + y" "x + 128 \<le> hi" "y < 64"
      using assms(2) unfolding 2(3) by (rule_tac utf8_tail_two) blast+
    have x: "x < 64" "b = 237 \<Longrightarrow> x < 32" using c(2) 2(5) by (cases "b = 237"; simp)+
    have b: "b = 224 + cp" "cp \<le> 15" "x \<le> 63" "y \<le> 63" using 2(1,2,6) x c(3) by simp_all
    have "c < 65536" using c(1) b by simp
    moreover have "c < 55296 \<or> 57344 \<le> c"
    proof (cases "b = 237")
      case True
      with c(1,3) x(2) 2(6) show ?thesis by simp
    next
      case False
      with b have "cp \<le> 12 \<or> 14 \<le> cp" by linarith
      with c(1) b show ?thesis by (elim disjE) simp_all
    qed
    ultimately have "c < 55296 \<or> 57344 \<le> c" "c < 65536" by simp_all
    then show ?thesis by (auto simp: scalar_def high_surrogate_def low_surrogate_def)
  next
    case 3
    have "128 \<le> lo" using 3 by simp
    then obtain x y z where c: "c = ((cp * 64 + x) * 64 + y) * 64 + z" "lo \<le> x + 128" "x + 128 \<le> hi" "y < 64" "z < 64"
      using assms(2) unfolding 3(3) by (rule_tac utf8_tail_three) blast+
    have x: "x < 64" "b = 244 \<Longrightarrow> x < 16" "b = 240 \<Longrightarrow> 16 \<le> x" using c(2,3) 3(4,5) by (cases "b = 240"; cases "b = 244"; simp)+
    have b: "b = 240 + cp" "cp \<le> 4" "x \<le> 63" "y \<le> 63" "z \<le> 63" using 3(1,2,6) x c(4,5) by simp_all
    have "65536 \<le> c"
    proof (cases "b = 240")
      case True
      with c(1,4,5) x(3) 3(6) show ?thesis by simp
    next
      case False
      with b have "1 \<le> cp" by simp
      with c(1) show ?thesis by simp
    qed
    moreover have "c < 1114112"
    proof (cases "b = 244")
      case True
      with c(1,4,5) x(2) 3(6) show ?thesis by simp
    next
      case False
      with b have "cp \<le> 3" by simp
      with c(1) b show ?thesis by simp
    qed
    ultimately have "65536 \<le> c" "c < 1114112" by simp_all
    with 3 show ?thesis by (auto simp: scalar_def high_surrogate_def low_surrogate_def)
  qed
qed

lemma utf16_ok_utf16: "scalar c \<Longrightarrow> utf16_ok s \<Longrightarrow> utf16_ok (utf16 c @ s)"
proof (cases "c < 65536")
  case False
  assume "scalar c" "utf16_ok s"
  then have "(c - 65536) div 1024 < 1024" "(c - 65536) mod 1024 < 1024" by (auto simp: scalar_def)
  with False \<open>utf16_ok s\<close> show ?thesis by (simp add: utf16_def high_surrogate_def low_surrogate_def)
qed (simp add: utf16_def scalar_def)

lemma utf16_ok_decode [simp]: "utf16_ok (utf8_decode bs)"
proof (induction bs rule: utf8_decode.induct)
  case (2 b bs)
  show ?case
  proof (cases "unat b < 128")
    case True
    with 2(1) show ?thesis by (simp add: high_surrogate_def low_surrogate_def)
  next
    case False
    show ?thesis
    proof (cases "utf8_lead (unat b)")
      case None
      with False 2(2) show ?thesis by (simp add: REPLACEMENT_def high_surrogate_def low_surrogate_def)
    next
      case (Some q)
      then obtain n lo hi cp where l: "utf8_lead (unat b) = Some (n, lo, hi, cp)" by (cases q) auto
      obtain x r where t: "utf8_tail n lo hi cp bs = (x, r)" by fastforce
      show ?thesis
      proof (cases x)
        case None
        with False l t 2(3) show ?thesis by (simp add: REPLACEMENT_def high_surrogate_def low_surrogate_def)
      next
        case (Some c)
        with False l t 2(4) decoded_scalar [OF l] show ?thesis by (simp add: utf16_ok_utf16)
      qed
    qed
  qed
qed simp

lemma length_utf8_decode: "length (utf8_decode bs) \<le> length bs"
proof (induction bs rule: utf8_decode.induct)
  case (2 b bs)
  show ?case
  proof (cases "unat b < 128 \<or> utf8_lead (unat b) = None")
    case True
    with 2(1,2) show ?thesis by auto
  next
    case False
    then obtain n lo hi cp where l: "utf8_lead (unat b) = Some (n, lo, hi, cp)" "\<not> unat b < 128" by auto
    obtain x r where t: "utf8_tail n lo hi cp bs = (x, r)" by fastforce
    have r: "x = None \<Longrightarrow> length r \<le> length bs" "\<And>c. x = Some c \<Longrightarrow> length bs = length r + n"
      using t by (induction n lo hi cp bs rule: utf8_tail.induct) (auto split: if_splits)
    show ?thesis
    proof (cases x)
      case None
      with l t 2(3) r(1) show ?thesis by fastforce
    next
      case (Some c)
      have "length (utf16 c) \<le> Suc n" using decoded_scalar [OF l(1)] t Some l(1) by (auto simp: utf16_def utf8_lead_def split: if_splits)
      with l t 2(4) r(2) Some show ?thesis by fastforce
    qed
  qed
qed simp

end
