(* ===== verification/Base64.thy ===== *)
theory Base64
  imports Bytes Payload
begin

text \<open>
  The base64 coding of \<open>Buffer.toString('base64')\<close> and \<open>Buffer.from(s, 'base64')\<close>, in which sealed buffers and handshake
  messages travel inside JSON frames (\<^verbatim>\<open>src/ipc/server.ts\<close>, \<^verbatim>\<open>src/ipc/client.ts\<close>). Decoding takes both alphabets and skips
  every other character, the padding included.
\<close>

definition b64_char :: "nat \<Rightarrow> nat" where
  "b64_char n = (if n < 26 then n + 65 else if n < 52 then n + 71 else if n < 62 then n - 4 else if n = 62 then 43 else 47)"

definition b64_value :: "nat \<Rightarrow> nat option" where
  "b64_value c =
     (if 65 \<le> c \<and> c < 91 then Some (c - 65)
      else if 97 \<le> c \<and> c < 123 then Some (c - 71)
      else if 48 \<le> c \<and> c < 58 then Some (c + 4)
      else if c = 43 \<or> c = 45 then Some 62
      else if c = 47 \<or> c = 95 then Some 63
      else None)"

lemma b64_value_char: "n < 64 \<Longrightarrow> b64_value (b64_char n) = Some n"
  by (auto simp: b64_char_def b64_value_def)

lemma b64_padding: "b64_value 61 = None"
  by (simp add: b64_value_def)

fun base64_encode :: "bytes \<Rightarrow> js_string" where
  "base64_encode [] = []"
| "base64_encode [a] = [b64_char (unat a div 4), b64_char (unat a mod 4 * 16), 61, 61]"
| "base64_encode [a, b] =
     [b64_char (unat a div 4), b64_char (unat a mod 4 * 16 + unat b div 16), b64_char (unat b mod 16 * 4), 61]"
| "base64_encode (a # b # c # r) =
     b64_char (unat a div 4) # b64_char (unat a mod 4 * 16 + unat b div 16) #
     b64_char (unat b mod 16 * 4 + unat c div 64) # b64_char (unat c mod 64) # base64_encode r"

fun from_sextets :: "nat list \<Rightarrow> bytes" where
  "from_sextets (p # q # r # s # t) =
     octet (p * 4 + q div 16) # octet (q mod 16 * 16 + r div 4) # octet (r mod 4 * 64 + s) # from_sextets t"
| "from_sextets [p, q, r] = [octet (p * 4 + q div 16), octet (q mod 16 * 16 + r div 4)]"
| "from_sextets [p, q] = [octet (p * 4 + q div 16)]"
| "from_sextets _ = []"

definition base64_decode :: "js_string \<Rightarrow> bytes" where
  "base64_decode s = from_sextets (List.map_filter b64_value s)"

text \<open>
  \<open>Buffer.from(p.d, 'base64')\<close> of a decoded frame \<open>p\<close>: nothing when it throws. What \<open>Buffer.from\<close> makes of a value that is no string is
  an argument.
\<close>

definition sealed_of :: "(jval \<Rightarrow> bytes option) \<Rightarrow> jval \<Rightarrow> bytes option" where
  "sealed_of buffer p =
     (case get_prop p ''d'' of
        None \<Rightarrow> None
      | Some (JStr d) \<Rightarrow> Some (base64_decode d)
      | Some v \<Rightarrow> buffer v)"

lemma octet_unat: "octet (unat (b :: byte)) = b"
  by (simp add: octet_def)

lemma b64_digit_less: "unat (b :: byte) div 4 < 64" "unat b mod 4 * 16 < 64" "unat b mod 16 * 4 < 64"
  "unat b mod 4 * 16 + unat (c :: byte) div 16 < 64" "unat b mod 16 * 4 + unat c div 64 < 64"
proof -
  have "unat b < 256" "unat c < 256" by (rule octet_less)+
  then show "unat b div 4 < 64" "unat b mod 4 * 16 < 64" "unat b mod 16 * 4 < 64"
    "unat b mod 4 * 16 + unat c div 16 < 64" "unat b mod 16 * 4 + unat c div 64 < 64" by linarith+
qed

lemma b64_top: "unat (b :: byte) div 16 mod 16 = unat b div 16" "unat b div 64 mod 4 = unat b div 64"
proof -
  have "unat b < 256" by (rule octet_less)
  then have "unat b div 16 < 16" "unat b div 64 < 4" by (simp_all add: div_less_iff_less_mult)
  then show "unat b div 16 mod 16 = unat b div 16" "unat b div 64 mod 4 = unat b div 64" by simp_all
qed

lemma b64_low: "(unat (a :: byte) mod 4 * 16 + unat (b :: byte) div 16) div 16 = unat a mod 4"
  "(unat a mod 16 * 4 + unat b div 64) div 4 = unat a mod 16"
proof -
  have "unat b < 256" by (rule octet_less)
  then have "unat b div 16 < 16" "unat b div 64 < 4" by (simp_all add: div_less_iff_less_mult)
  then show "(unat a mod 4 * 16 + unat b div 16) div 16 = unat a mod 4" "(unat a mod 16 * 4 + unat b div 64) div 4 = unat a mod 16"
    by simp_all
qed

lemma base64_roundtrip [simp]: "base64_decode (base64_encode bs) = bs"
  by (induction bs rule: base64_encode.induct)
    (simp_all add: base64_decode_def List.map_filter_simps b64_value_char b64_padding b64_digit_less b64_top b64_low octet_unat)

text \<open>The encoding is three bytes to four characters, all of them printable ASCII that needs no escape in JSON.\<close>

lemma length_base64_encode: "length (base64_encode bs) = 4 * ((length bs + 2) div 3)"
  by (induction bs rule: base64_encode.induct) (simp_all add: div_add_self2 [of 3 "n + 2" for n :: nat, simplified])

definition plain_char :: "nat \<Rightarrow> bool" where
  "plain_char c \<longleftrightarrow> 42 < c \<and> c < 123 \<and> c \<noteq> 92"

lemma plain_b64_char: "n < 64 \<Longrightarrow> plain_char (b64_char n)"
  by (auto simp: b64_char_def plain_char_def)

lemma plain_base64: "list_all plain_char (base64_encode bs)"
  by (induction bs rule: base64_encode.induct) (simp_all add: plain_b64_char b64_digit_less, simp_all add: plain_char_def)

end
