(* ===== verification/Framing.thy ===== *)
theory Framing
  imports Bytes Json
begin

text \<open>
  The wire framing of \<^verbatim>\<open>src/ipc/framing.ts\<close>: \<open>encodeFrame\<close> and the incremental \<open>FrameDecoder\<close>. A frame is a
  four-octet big-endian length followed by the UTF-8 text of a JSON value.
\<close>

section \<open>Frames\<close>

definition PREFIX_BYTES :: nat where
  "PREFIX_BYTES = 4"

lemma PREFIX_BYTES_4 [simp]: "PREFIX_BYTES = 4"
  by (simp add: PREFIX_BYTES_def)

record decode_result =
  frames :: "jval list"
  hasMore :: bool

record frame_decoder =
  buf :: bytes
  maxFrameBytes :: nat
  drainCap :: nat

definition new_FrameDecoder :: "nat option \<Rightarrow> nat option \<Rightarrow> frame_decoder" where
  "new_FrameDecoder maxBytes cap =
     \<lparr>buf = [], maxFrameBytes = (case maxBytes of None \<Rightarrow> FRAME_BYTES | Some n \<Rightarrow> n),
      drainCap = (case cap of None \<Rightarrow> 32 | Some n \<Rightarrow> n)\<rparr>"

definition encodeFrame :: "jval \<Rightarrow> nat \<Rightarrow> xerror + bytes" where
  "encodeFrame v maxBytes =
     (let json = utf8_encode (json_stringify v) in
      if maxBytes < length json
      then Inl (XBusError FRAME_TOO_LARGE [(js ''limit'', JNum (int maxBytes)), (js ''actual'', JNum (int (length json)))])
      else Inr (writeUInt32BE (word_of_nat (length json)) @ json))"

definition bufferedBytes :: "frame_decoder \<Rightarrow> nat" where
  "bufferedBytes f = length (buf f)"

definition hasCompleteFrame :: "frame_decoder \<Rightarrow> bool" where
  "hasCompleteFrame f \<longleftrightarrow>
     \<not> length (buf f) < PREFIX_BYTES \<and> PREFIX_BYTES + readUInt32BE (buf f) \<le> length (buf f)"

text \<open>One round of the loop in \<open>drain\<close>: nothing to take, an error, or a frame and the rest.\<close>

datatype take_result = Wait | Refuse xerror | Take jval bytes

definition take_frame :: "(js_string \<Rightarrow> jval) \<Rightarrow> nat \<Rightarrow> bytes \<Rightarrow> take_result" where
  "take_frame fl maxBytes b =
     (if length b < PREFIX_BYTES then Wait
      else
        let len = readUInt32BE b in
        if len = 0 then Refuse (xerr PROTOCOL_VIOLATION)
        else if maxBytes < len
        then Refuse (XBusError FRAME_TOO_LARGE [(js ''limit'', JNum (int maxBytes)), (js ''declared'', JNum (int len))])
        else if length b < PREFIX_BYTES + len then Wait
        else case json_parse fl (utf8_decode (take len (drop PREFIX_BYTES b))) of
               None \<Rightarrow> Refuse (xerr PROTOCOL_VIOLATION)
             | Some v \<Rightarrow> Take v (drop (PREFIX_BYTES + len) b))"

lemma take_frame_shorter: "take_frame fl mx b = Take v r \<Longrightarrow> length r < length b"
  by (auto simp: take_frame_def Let_def split: if_splits option.splits)

function drain_loop ::
  "(js_string \<Rightarrow> jval) \<Rightarrow> jval list \<Rightarrow> nat \<Rightarrow> frame_decoder \<Rightarrow> (frame_decoder, xerror, decode_result) outcome" where
  "drain_loop fl out taken f =
     (case take_frame fl (maxFrameBytes f) (buf f) of
        Wait \<Rightarrow> (f, Inr \<lparr>frames = out, hasMore = False\<rparr>)
      | Refuse e \<Rightarrow> (f, Inl e)
      | Take v r \<Rightarrow>
          let f = f\<lparr>buf := r\<rparr>; out = out @ [v]; taken = taken + 1 in
          if 0 < drainCap f \<and> drainCap f \<le> taken then (f, Inr \<lparr>frames = out, hasMore = hasCompleteFrame f\<rparr>)
          else drain_loop fl out taken f)"
  by pat_completeness auto
termination by (relation "measure (\<lambda>(fl, out, taken, f). length (buf f))") (auto dest: take_frame_shorter)

declare drain_loop.simps [simp del]

definition drain :: "(js_string \<Rightarrow> jval) \<Rightarrow> frame_decoder \<Rightarrow> (frame_decoder, xerror, decode_result) outcome" where
  "drain fl = drain_loop fl [] 0"

definition push :: "(js_string \<Rightarrow> jval) \<Rightarrow> bytes \<Rightarrow> frame_decoder \<Rightarrow> (frame_decoder, xerror, decode_result) outcome" where
  "push fl chunk f = drain fl (f\<lparr>buf := (if length (buf f) = 0 then chunk else buf f @ chunk)\<rparr>)"

lemma push_append: "push fl chunk f = drain fl (f\<lparr>buf := buf f @ chunk\<rparr>)"
  by (simp add: push_def)

definition continueDrain :: "(js_string \<Rightarrow> jval) \<Rightarrow> frame_decoder \<Rightarrow> (frame_decoder, xerror, decode_result) outcome" where
  "continueDrain fl = drain fl"

text \<open>
  The read loop of a connection: push the chunk, hand out the frames, and go on draining while more
  complete frames are buffered. The result is the frames handed out and the error that ended it.
\<close>

lemma drain_loop_more:
  "drain_loop fl out taken f = (f', Inr r') \<Longrightarrow> hasMore r' \<Longrightarrow> length (buf f') < length (buf f)"
proof (induction fl out taken f rule: drain_loop.induct)
  case (1 fl out taken f)
  show ?case
  proof (cases "take_frame fl (maxFrameBytes f) (buf f)")
    case (Take v r)
    note shorter = take_frame_shorter [OF Take]
    show ?thesis
    proof (cases "0 < drainCap f \<and> drainCap f \<le> Suc taken")
      case True
      with 1(2) Take shorter show ?thesis by (auto simp: drain_loop.simps [of fl out taken f] Let_def)
    next
      case False
      then have "drain_loop fl (out @ [v]) (taken + 1) (f\<lparr>buf := r\<rparr>) = (f', Inr r')"
        using 1(2) Take by (auto simp: drain_loop.simps [of fl out taken f])
      from "1.IH" [OF Take refl refl refl _ this 1(3)] False shorter show ?thesis by simp
    qed
  qed (use 1 in \<open>auto simp: drain_loop.simps [of fl out taken f]\<close>)
qed

function read_rest ::
  "(js_string \<Rightarrow> jval) \<Rightarrow> (frame_decoder, xerror, decode_result) outcome \<Rightarrow> frame_decoder \<times> jval list \<times> xerror option" where
  "read_rest fl (f, Inl e) = (f, [], Some e)"
| "read_rest fl (f, Inr r) =
     (if hasMore r
      then case read_rest fl (continueDrain fl f) of (f', vs, e) \<Rightarrow> (f', frames r @ vs, e)
      else (f, frames r, None))"
  by pat_completeness auto
termination
proof (relation "measure (\<lambda>(fl, f, x). case x of Inl e \<Rightarrow> 0 | Inr r \<Rightarrow> if hasMore r then Suc (length (buf f)) else 0)", goal_cases)
  case (2 fl f r)
  then show ?case using drain_loop_more [of fl "[]" 0 f]
    by (cases "continueDrain fl f") (auto simp: continueDrain_def drain_def split: sum.splits)
qed simp

definition read_chunk :: "(js_string \<Rightarrow> jval) \<Rightarrow> bytes \<Rightarrow> frame_decoder \<Rightarrow> frame_decoder \<times> jval list \<times> xerror option" where
  "read_chunk fl chunk f = read_rest fl (push fl chunk f)"

fun read_chunks :: "(js_string \<Rightarrow> jval) \<Rightarrow> bytes list \<Rightarrow> frame_decoder \<Rightarrow> frame_decoder \<times> jval list \<times> xerror option" where
  "read_chunks fl [] f = (f, [], None)"
| "read_chunks fl (c # cs) f =
     (case read_chunk fl c f of
        (f, vs, Some e) \<Rightarrow> (f, vs, Some e)
      | (f, vs, None) \<Rightarrow> (case read_chunks fl cs f of (f, ws, e) \<Rightarrow> (f, vs @ ws, e)))"

section \<open>Encoded frames are well-formed text\<close>

lemma utf16_ok_append: "utf16_ok s \<Longrightarrow> utf16_ok t \<Longrightarrow> utf16_ok (s @ t)"
proof (induction s rule: utf16_ok.induct)
  case (2 c s)
  then show ?case by (cases s) (auto split: if_splits)
qed simp

lemma utf16_ok_ascii: "list_all (\<lambda>c. c < 55296) s \<Longrightarrow> utf16_ok s"
  by (induction s) (auto simp: high_surrogate_def low_surrogate_def)

lemma utf16_ok_join: "list_all utf16_ok xs \<Longrightarrow> utf16_ok (join_commas xs)"
proof (induction xs)
  case (Cons x xs)
  then show ?case using utf16_ok_append [of x "44 # join_commas xs"]
    by (auto simp: join_commas_Cons high_surrogate_def low_surrogate_def)
qed simp

lemma utf16_ok_escape: "utf16_ok s \<Longrightarrow> utf16_ok (unicode_escape c @ s)"
proof (rule utf16_ok_append)
  have "hex_digit (d mod 16) < 55296" for d
  proof -
    have "d mod 16 < 16" by simp
    then have "hex_digit (d mod 16) < 103" unfolding hex_digit_def by (simp only: split: if_split) linarith
    then show ?thesis by linarith
  qed
  then show "utf16_ok (unicode_escape c)" by (intro utf16_ok_ascii) (simp add: unicode_escape_def)
qed

lemma utf16_ok_chars: "code_units s \<Longrightarrow> utf16_ok (json_chars s)"
proof (induction s rule: json_chars.induct)
  case (2 c s)
  have c: "c < 65536" and s: "code_units s" using "2.prems" by (simp_all add: code_units_def)
  show ?case
  proof (cases "high_surrogate c")
    case True
    then have h: "c \<noteq> 34" "c \<noteq> 92" "c \<noteq> 8" "c \<noteq> 9" "c \<noteq> 10" "c \<noteq> 12" "c \<noteq> 13" "\<not> c < 32" by (auto simp: high_surrogate_def)
    show ?thesis
    proof (cases s)
      case Nil
      with True h show ?thesis using utf16_ok_escape [of "[]" c] by simp
    next
      case (Cons e t)
      with "2.IH"(9,10) h True s show ?thesis by (auto simp: code_units_def utf16_ok_escape)
    qed
  next
    case False
    have "utf16_ok (json_chars s)" using "2.IH"(1-8,11-12) False s by blast
    with False c show ?thesis by (auto simp: utf16_ok_escape high_surrogate_def low_surrogate_def)
  qed
qed simp

lemma utf16_ok_string: "code_units s \<Longrightarrow> utf16_ok (json_string s)"
  using utf16_ok_append [OF utf16_ok_chars, of s "[34]"] by (simp add: json_string_def high_surrogate_def low_surrogate_def)

lemma utf16_ok_number: "utf16_ok (json_number n)"
proof -
  have "utf16_ok (dec_str k)" for k
    using dec_str_digits [of k] by (intro utf16_ok_ascii) (auto simp: list_all_iff char_class_defs)
  then show ?thesis by (simp add: json_number_def high_surrogate_def low_surrogate_def)
qed

lemma utf16_ok_stringify: "json_value v \<Longrightarrow> utf16_ok (json_stringify v)"
proof (induction v)
  case (JArr vs)
  then have "utf16_ok (join_commas (map json_stringify vs))" by (intro utf16_ok_join) (auto simp: list_all_iff)
  then show ?case using utf16_ok_append [of _ "[93]"] by (simp add: json_stringify.simps(5) high_surrogate_def low_surrogate_def)
next
  case (JObj kvs)
  then have "utf16_ok (field_text kv)" if "kv \<in> set kvs" for kv
    using that utf16_ok_append [OF utf16_ok_string, of _ "58 # _"]
    by (cases kv) (fastforce simp: field_text_def list_all_iff high_surrogate_def low_surrogate_def)
  then have "utf16_ok (join_commas (map field_text kvs))" by (intro utf16_ok_join) (auto simp: list_all_iff)
  then show ?case using utf16_ok_append [of _ "[125]"] by (simp add: stringify_object high_surrogate_def low_surrogate_def)
qed (auto simp: utf16_ok_string utf16_ok_number high_surrogate_def low_surrogate_def)

section \<open>Streams of frames\<close>

definition frame_text :: "jval \<Rightarrow> bytes" where
  "frame_text v = utf8_encode (json_stringify v)"

definition frame_bytes :: "jval \<Rightarrow> bytes" where
  "frame_bytes v = writeUInt32BE (word_of_nat (length (frame_text v))) @ frame_text v"

definition fits :: "nat \<Rightarrow> jval \<Rightarrow> bool" where
  "fits mx v \<longleftrightarrow> json_value v \<and> length (frame_text v) \<le> mx"

definition stream :: "jval list \<Rightarrow> bytes" where
  "stream vs = concat (map frame_bytes vs)"

lemma stream_simps [simp]: "stream [] = []" "stream (v # vs) = frame_bytes v @ stream vs"
  by (simp_all add: stream_def)

lemma encodeFrame_fits: "fits mx v \<Longrightarrow> encodeFrame v mx = Inr (frame_bytes v)"
  by (simp add: fits_def encodeFrame_def frame_bytes_def frame_text_def Let_def)

lemma frame_text_nonempty: "frame_text v \<noteq> []"
proof -
  obtain c t where "json_stringify v = c # t" using stringify_head by blast
  then show ?thesis by (cases t) (simp_all add: frame_text_def utf8_two_def utf8_three_def utf8_four_def)
qed

lemma take_frame_bytes:
  assumes "fits mx v" "mx < 4294967296"
  shows "take_frame fl mx (frame_bytes v @ r) = Take v r"
proof -
  have n: "length (frame_text v) < 4294967296" "length (frame_text v) \<le> mx" "json_value v" using assms by (auto simp: fits_def)
  then have "unat (word_of_nat (length (frame_text v)) :: 32 word) = length (frame_text v)"
    by (simp add: unat_of_nat take_bit_nat_eq_self)
  then have "readUInt32BE (frame_bytes v @ r) = length (frame_text v)" by (simp add: frame_bytes_def)
  moreover have "json_parse fl (utf8_decode (frame_text v)) = Some v"
    using n by (simp add: frame_text_def utf16_ok_stringify)
  ultimately show ?thesis using n frame_text_nonempty [of v] by (simp add: take_frame_def frame_bytes_def)
qed

lemma take_frame_grows:
  "take_frame fl mx b = Take v r \<Longrightarrow> take_frame fl mx (b @ c) = Take v (r @ c)"
  "take_frame fl mx b = Refuse e \<Longrightarrow> take_frame fl mx (b @ c) = Refuse e"
  by (auto simp: take_frame_def Let_def readUInt32BE_append split: if_splits option.splits)

text \<open>
  The decoder holds the beginning of a stream: what it has buffered and what is still to come are the
  frames \<open>us\<close>.
\<close>

definition expects :: "nat \<Rightarrow> bytes \<Rightarrow> jval list \<Rightarrow> bytes \<Rightarrow> bool" where
  "expects mx b us rest \<longleftrightarrow> b @ rest = stream us \<and> list_all (fits mx) us \<and> mx < 4294967296"

lemma expects_take:
  assumes "expects mx b us rest" "take_frame fl mx b = Take v r"
  obtains us' where "us = v # us'" "expects mx r us' rest"
proof (cases us)
  case Nil
  with assms show thesis by (simp add: expects_def take_frame_def)
next
  case (Cons u us')
  from take_frame_grows(1) [OF assms(2), of rest] assms(1) Cons have "take_frame fl mx (frame_bytes u @ stream us') = Take v (r @ rest)"
    by (simp add: expects_def)
  with take_frame_bytes [of mx u fl "stream us'"] assms(1) Cons have "u = v" "stream us' = r @ rest"
    by (simp_all add: expects_def)
  with assms(1) Cons that show thesis by (simp add: expects_def)
qed

lemma expects_not_refused: "expects mx b us rest \<Longrightarrow> take_frame fl mx b \<noteq> Refuse e"
proof
  assume ex: "expects mx b us rest" and ref: "take_frame fl mx b = Refuse e"
  show False
  proof (cases us)
    case Nil
    with ex ref show False by (simp add: expects_def take_frame_def)
  next
    case (Cons u us')
    with take_frame_grows(2) [OF ref, of rest] take_frame_bytes [of mx u fl "stream us'"] ex show False by (simp add: expects_def)
  qed
qed

lemma take_frame_complete:
  "take_frame fl (maxFrameBytes f) (buf f) = Wait \<Longrightarrow> \<not> hasCompleteFrame f"
  "take_frame fl (maxFrameBytes f) (buf f) = Take v r \<Longrightarrow> hasCompleteFrame f"
  by (auto simp: hasCompleteFrame_def take_frame_def Let_def split: if_splits option.splits)

lemma complete_frame_iff:
  "expects (maxFrameBytes f) (buf f) us rest \<Longrightarrow> take_frame fl (maxFrameBytes f) (buf f) = Wait \<longleftrightarrow> \<not> hasCompleteFrame f"
  using expects_not_refused take_frame_complete by (cases "take_frame fl (maxFrameBytes f) (buf f)") auto

lemma drain_stream:
  assumes "expects (maxFrameBytes f) (buf f) us rest"
  shows "\<exists>f' r us'. drain_loop fl out taken f = (f', Inr r) \<and> frames r @ us' = out @ us
    \<and> expects (maxFrameBytes f') (buf f') us' rest \<and> maxFrameBytes f' = maxFrameBytes f \<and> drainCap f' = drainCap f
    \<and> (hasMore r \<or> take_frame fl (maxFrameBytes f') (buf f') = Wait)"
  using assms
proof (induction fl out taken f arbitrary: us rule: drain_loop.induct)
  case (1 fl out taken f)
  show ?case
  proof (cases "take_frame fl (maxFrameBytes f) (buf f)")
    case Wait
    with 1(2) show ?thesis by (simp add: drain_loop.simps [of fl out taken f])
  next
    case (Refuse e)
    with 1(2) show ?thesis by (simp add: expects_not_refused)
  next
    case (Take v r)
    from expects_take [OF 1(2) Take] obtain us' where us': "us = v # us'" "expects (maxFrameBytes f) r us' rest" by blast
    show ?thesis
    proof (cases "0 < drainCap f \<and> drainCap f \<le> Suc taken")
      case True
      with Take us' complete_frame_iff [of "f\<lparr>buf := r\<rparr>" us' rest fl] show ?thesis
        by (simp add: drain_loop.simps [of fl out taken f] Let_def)
    next
      case False
      with Take have "drain_loop fl out taken f = drain_loop fl (out @ [v]) (taken + 1) (f\<lparr>buf := r\<rparr>)"
        by (auto simp: drain_loop.simps [of fl out taken f] Let_def)
      with "1.IH" [OF Take refl refl refl _ , of us'] False us' show ?thesis by simp
    qed
  qed
qed

lemma read_rest_stream:
  assumes "expects (maxFrameBytes f) (buf f) us rest"
  shows "\<exists>f' vs us'. read_rest fl (drain fl f) = (f', vs, None) \<and> vs @ us' = us
    \<and> expects (maxFrameBytes f') (buf f') us' rest \<and> maxFrameBytes f' = maxFrameBytes f
    \<and> take_frame fl (maxFrameBytes f') (buf f') = Wait"
  using assms
proof (induction "length (buf f)" arbitrary: f us rule: less_induct)
  case less
  from drain_stream [OF less.prems, of fl "[]" 0] obtain f' r us' where d: "drain fl f = (f', Inr r)" "frames r @ us' = us"
    "expects (maxFrameBytes f') (buf f') us' rest" "maxFrameBytes f' = maxFrameBytes f"
    "hasMore r \<or> take_frame fl (maxFrameBytes f') (buf f') = Wait" by (auto simp: drain_def)
  show ?case
  proof (cases "hasMore r")
    case True
    with d(1) have "length (buf f') < length (buf f)" using drain_loop_more by (simp add: drain_def)
    from less.hyps [OF this d(3)] obtain f2 vs us2 where "read_rest fl (drain fl f') = (f2, vs, None)" "vs @ us2 = us'"
      "expects (maxFrameBytes f2) (buf f2) us2 rest" "maxFrameBytes f2 = maxFrameBytes f'"
      "take_frame fl (maxFrameBytes f2) (buf f2) = Wait" by blast
    with True d show ?thesis by (auto simp: continueDrain_def)
  next
    case False
    with d show ?thesis by auto
  qed
qed

lemma read_chunks_stream:
  assumes "expects (maxFrameBytes f) (buf f) us (concat cs)" "take_frame fl (maxFrameBytes f) (buf f) = Wait"
  shows "\<exists>f'. read_chunks fl cs f = (f', us, None) \<and> buf f' = []"
  using assms
proof (induction cs arbitrary: f us)
  case Nil
  then have "us = []" using take_frame_bytes [of "maxFrameBytes f" "hd us" fl "stream (tl us)"]
    by (cases us) (auto simp: expects_def)
  with Nil show ?case by (simp add: expects_def)
next
  case (Cons c cs)
  let ?g = "f\<lparr>buf := buf f @ c\<rparr>"
  have "push fl c f = drain fl ?g" by (rule push_append)
  moreover have "expects (maxFrameBytes ?g) (buf ?g) us (concat cs)" using Cons.prems by (simp add: expects_def)
  from read_rest_stream [OF this, of fl] obtain f' vs us' where r: "read_rest fl (drain fl ?g) = (f', vs, None)" "vs @ us' = us"
    "expects (maxFrameBytes f') (buf f') us' (concat cs)" "take_frame fl (maxFrameBytes f') (buf f') = Wait" by auto
  ultimately show ?case using Cons.IH [OF r(3,4)] by (auto simp: read_chunk_def)
qed

section \<open>Correctness\<close>

lemma encoded_frames:
  "list_all2 (\<lambda>v b. encodeFrame v mx = Inr b) vs bs \<Longrightarrow> list_all json_value vs \<Longrightarrow> list_all (fits mx) vs \<and> concat bs = stream vs"
  by (induction vs bs rule: list_all2_induct)
    (auto simp: encodeFrame_def fits_def frame_bytes_def frame_text_def Let_def split: if_splits)

text \<open>C32: Framing is a lossless transport for JSON values, whatever the boundaries of the reads: when every value fits
  the frame limit, cutting the concatenated encodings into chunks in any way and feeding the chunks to a fresh
  decoder with any fairness cap hands out exactly the values sent, in order, without an error, and leaves the
  buffer empty.\<close>

theorem framing_roundtrip:
  assumes "list_all json_value vs" "list_all2 (\<lambda>v b. encodeFrame v mx = Inr b) vs encoded" "mx < 2 ^ 32"
    and "concat chunks = concat encoded"
  shows "\<exists>f. read_chunks fl chunks (new_FrameDecoder (Some mx) cap) = (f, vs, None) \<and> bufferedBytes f = 0"
proof -
  let ?f = "new_FrameDecoder (Some mx) cap"
  have "expects (maxFrameBytes ?f) (buf ?f) vs (concat chunks)" "take_frame fl (maxFrameBytes ?f) (buf ?f) = Wait"
    using encoded_frames [OF assms(2,1)] assms(3,4) by (simp_all add: expects_def new_FrameDecoder_def take_frame_def)
  from read_chunks_stream [OF this] show ?thesis by (auto simp: bufferedBytes_def)
qed

definition sample_values :: "jval list" where
  "sample_values = [JObj [(js ''h'', JStr [233, 8364])], JArr [JNum (- 7), JNull, JBool True], JNum 0]"

theorem framing_roundtrip_witness:
  "\<exists>encoded. list_all2 (\<lambda>v b. encodeFrame v 100 = Inr b) sample_values encoded \<and>
     (\<exists>f. read_chunks JStr (map (\<lambda>b. [b]) (concat encoded)) (new_FrameDecoder (Some 100) (Some 1)) = (f, sample_values, None)
        \<and> bufferedBytes f = 0)"
proof -
  have v: "list_all json_value sample_values" by (simp add: sample_values_def code_units_def MAX_INTEGER_def)
  have "list_all (\<lambda>v. length (utf8_encode (json_stringify v)) \<le> 100) sample_values"
    by (simp add: sample_values_def json_stringify.simps json_string_def json_number_def dec_str.simps dec_digit_def length_utf8_encode
          high_surrogate_def low_surrogate_def)
  then have e: "list_all2 (\<lambda>v b. encodeFrame v 100 = Inr b) sample_values (map frame_bytes sample_values)"
    using v by (auto simp: list_all2_map2 list_all2_same list_all_iff encodeFrame_fits fits_def frame_text_def)
  moreover have "concat (map (\<lambda>b. [b]) bs) = bs" for bs :: bytes by (induction bs) simp_all
  ultimately show ?thesis
    using framing_roundtrip [OF v e, of "map (\<lambda>b. [b]) (concat (map frame_bytes sample_values))" JStr "Some 1"] by auto
qed

lemma drain_config: "drain_loop fl out taken f = (f', x) \<Longrightarrow> maxFrameBytes f' = maxFrameBytes f"
proof (induction fl out taken f rule: drain_loop.induct)
  case (1 fl out taken f)
  show ?case
  proof (cases "take_frame fl (maxFrameBytes f) (buf f)")
    case (Take v r)
    from "1.prems" "1.IH" [OF Take refl refl refl] show ?thesis
      by (auto simp: drain_loop.simps [of fl out taken f] Take Let_def split: if_splits)
  qed (use "1.prems" in \<open>auto simp: drain_loop.simps [of fl out taken f]\<close>)
qed

lemma drain_stops:
  "drain_loop fl out taken f = (f', Inr r) \<Longrightarrow> \<not> hasMore r \<Longrightarrow>
     take_frame fl (maxFrameBytes f') (buf f') = Wait \<or> \<not> hasCompleteFrame f'"
proof (induction fl out taken f rule: drain_loop.induct)
  case (1 fl out taken f)
  show ?case
  proof (cases "take_frame fl (maxFrameBytes f) (buf f)")
    case (Take v r)
    from "1.prems" "1.IH" [OF Take refl refl refl] show ?thesis
      by (auto simp: drain_loop.simps [of fl out taken f] Take Let_def split: if_splits)
  qed (use "1.prems" in \<open>auto simp: drain_loop.simps [of fl out taken f]\<close>)
qed

lemma read_rest_stops:
  "read_rest fl (f, x) = (f', vs, None) \<Longrightarrow> (\<exists>f0 out taken. drain_loop fl out taken f0 = (f, x)) \<Longrightarrow>
     maxFrameBytes f' = maxFrameBytes f \<and> (take_frame fl (maxFrameBytes f') (buf f') = Wait \<or> \<not> hasCompleteFrame f')"
proof (induction fl "(f, x)" arbitrary: f x vs rule: read_rest.induct)
  case (2 fl f r)
  show ?case
  proof (cases "hasMore r")
    case True
    obtain g y where g: "continueDrain fl f = (g, y)" by (cases "continueDrain fl f")
    then have d: "drain_loop fl [] 0 f = (g, y)" by (simp add: continueDrain_def drain_def)
    from "2.prems"(1) True g obtain ws where "read_rest fl (g, y) = (f', ws, None)" by (auto split: prod.splits)
    from "2.hyps" [OF True g this] d drain_config [OF d] show ?thesis by auto
  next
    case False
    with "2.prems" drain_stops show ?thesis by fastforce
  qed
qed simp

text \<open>C40: The decoder never holds more than one frame of body: after a read that raises no error the buffer is shorter
  than a prefix and a frame of the maximal length, unless it begins with a header that declares an oversized
  frame (the fairness cap stopped the drain right before it); then the next read, whatever it brings, is refused
  with FRAME_TOO_LARGE and hands out nothing.\<close>

theorem buffer_bounded:
  assumes "read_chunk fl chunk f = (f', vs, None)"
  shows "bufferedBytes f' < PREFIX_BYTES + maxFrameBytes f \<or>
    (\<forall>next. \<exists>f2 detail. read_chunk fl next f' = (f2, [], Some (XBusError FRAME_TOO_LARGE detail)))"
proof -
  let ?g = "f\<lparr>buf := buf f @ chunk\<rparr>"
  obtain g x where d: "drain_loop fl [] 0 ?g = (g, x)" by (cases "drain_loop fl [] 0 ?g")
  then have "read_rest fl (g, x) = (f', vs, None)" using assms by (simp add: read_chunk_def push_append drain_def)
  from read_rest_stops [OF this] d drain_config [OF d] have
    mx: "maxFrameBytes f' = maxFrameBytes f" and stop: "take_frame fl (maxFrameBytes f') (buf f') = Wait \<or> \<not> hasCompleteFrame f'" by auto
  show ?thesis
  proof (cases "take_frame fl (maxFrameBytes f') (buf f')")
    case Wait
    with mx show ?thesis by (auto simp: take_frame_def bufferedBytes_def Let_def split: if_splits option.splits)
  next
    case (Take v r)
    with stop take_frame_complete(2) show ?thesis by auto
  next
    case (Refuse e)
    with stop have big: "maxFrameBytes f' < readUInt32BE (buf f')" and len: "4 \<le> length (buf f')"
      by (auto simp: take_frame_def hasCompleteFrame_def Let_def split: if_splits option.splits)
    have "\<exists>f2 detail. read_chunk fl c f' = (f2, [], Some (XBusError FRAME_TOO_LARGE detail))" for c
      using big len by (simp add: read_chunk_def push_append drain_def drain_loop.simps take_frame_def readUInt32BE_append Let_def)
    then show ?thesis by blast
  qed
qed

theorem buffer_bounded_witness:
  "\<exists>f. read_chunk JStr ([0, 0, 0, 1, 48, 0, 0, 0, 11] @ replicate 10 7) (new_FrameDecoder (Some 10) (Some 1)) = (f, [JNum 0], None)
     \<and> bufferedBytes f = 14
     \<and> (\<forall>next. \<exists>f2 detail. read_chunk JStr next f = (f2, [], Some (XBusError FRAME_TOO_LARGE detail)))"
proof -
  let ?f = "\<lparr>buf = [0, 0, 0, 11] @ replicate 10 7, maxFrameBytes = 10, drainCap = 1\<rparr>"
  have t: "frame_text (JNum 0) = [48]" by (simp add: frame_text_def json_number_def dec_str.simps dec_digit_def octet_def)
  then have "take_frame JStr 10 (frame_bytes (JNum 0) @ buf ?f) = Take (JNum 0) (buf ?f)"
    by (intro take_frame_bytes) (simp_all add: fits_def MAX_INTEGER_def)
  moreover have "frame_bytes (JNum 0) = [0, 0, 0, 1, 48]" using t by (simp add: frame_bytes_def writeUInt32BE_def)
  ultimately have "take_frame JStr 10 ([0, 0, 0, 1, 48] @ buf ?f) = Take (JNum 0) (buf ?f)" by simp
  then have "read_chunk JStr ([0, 0, 0, 1, 48, 0, 0, 0, 11] @ replicate 10 7) (new_FrameDecoder (Some 10) (Some 1)) = (?f, [JNum 0], None)"
    by (simp add: read_chunk_def push_append drain_def drain_loop.simps new_FrameDecoder_def hasCompleteFrame_def readUInt32BE_def Let_def)
  from buffer_bounded [OF this] this show ?thesis by (simp add: bufferedBytes_def new_FrameDecoder_def)
qed

end
