(* ===== verification/Codec.thy ===== *)
theory Codec
  imports Bytes
begin

text \<open>
  The canonical binary encoding of \<^verbatim>\<open>src/ipc/codec.ts\<close>: \<open>ByteWriter\<close> collects chunks, \<open>ByteReader\<close> walks over a
  buffer and fails when it runs out of octets. Lengths are written with sixteen bits and wrap around.
\<close>

section \<open>ByteWriter\<close>

record byte_writer =
  chunks :: "bytes list"

definition new_ByteWriter :: byte_writer where
  "new_ByteWriter = \<lparr>chunks = []\<rparr>"

definition w_raw :: "bytes \<Rightarrow> byte_writer \<Rightarrow> byte_writer" where
  "w_raw b w = w\<lparr>chunks := chunks w @ [b]\<rparr>"

definition w_u8 :: "nat \<Rightarrow> byte_writer \<Rightarrow> byte_writer" where
  "w_u8 n w = w\<lparr>chunks := chunks w @ [[word_of_nat n]]\<rparr>"

definition w_u16 :: "nat \<Rightarrow> byte_writer \<Rightarrow> byte_writer" where
  "w_u16 n w = w\<lparr>chunks := chunks w @ [writeUInt16BE (word_of_nat n)]\<rparr>"

definition w_u32 :: "nat \<Rightarrow> byte_writer \<Rightarrow> byte_writer" where
  "w_u32 n w = w\<lparr>chunks := chunks w @ [writeUInt32BE (word_of_nat n)]\<rparr>"

definition w_bytes :: "bytes \<Rightarrow> byte_writer \<Rightarrow> byte_writer" where
  "w_bytes b w = (let w = w_u16 (length b) w in w\<lparr>chunks := chunks w @ [b]\<rparr>)"

definition w_str :: "js_string \<Rightarrow> byte_writer \<Rightarrow> byte_writer" where
  "w_str s = w_bytes (utf8_encode s)"

definition w_u16Array :: "nat list \<Rightarrow> byte_writer \<Rightarrow> byte_writer" where
  "w_u16Array ns w = fold w_u16 ns (w_u16 (length ns) w)"

definition w_done :: "byte_writer \<Rightarrow> bytes" where
  "w_done w = concat (chunks w)"

text \<open>A chain of writer calls: \<open>new ByteWriter().f(..).g(..).done()\<close>.\<close>

definition write_all :: "(byte_writer \<Rightarrow> byte_writer) list \<Rightarrow> bytes" where
  "write_all fs = w_done (fold (\<lambda>f. f) fs new_ByteWriter)"

definition u16_bytes :: "nat \<Rightarrow> bytes" where
  "u16_bytes n = writeUInt16BE (word_of_nat n)"

definition u32_bytes :: "nat \<Rightarrow> bytes" where
  "u32_bytes n = writeUInt32BE (word_of_nat n)"

definition prefixed :: "bytes \<Rightarrow> bytes" where
  "prefixed b = u16_bytes (length b) @ b"

lemma w_done_fold_u16: "w_done (fold w_u16 ns w) = w_done w @ concat (map u16_bytes ns)"
  by (induction ns arbitrary: w) (auto simp: w_done_def w_u16_def u16_bytes_def)

named_theorems written \<open>what a chain of writer calls produces\<close>

lemma w_done_simps [written]:
  "w_done new_ByteWriter = []"
  "w_done (w_raw b w) = w_done w @ b"
  "w_done (w_u8 n w) = w_done w @ [word_of_nat n]"
  "w_done (w_u16 n w) = w_done w @ u16_bytes n"
  "w_done (w_u32 n w) = w_done w @ u32_bytes n"
  "w_done (w_bytes b w) = w_done w @ prefixed b"
  "w_done (w_str s w) = w_done w @ prefixed (utf8_encode s)"
  by (simp_all add: w_done_def new_ByteWriter_def w_raw_def w_u8_def w_u16_def w_u32_def w_bytes_def w_str_def
      u16_bytes_def u32_bytes_def prefixed_def Let_def)

lemma w_done_u16Array [written]:
  "w_done (w_u16Array ns w) = w_done w @ u16_bytes (length ns) @ concat (map u16_bytes ns)"
  by (simp add: w_u16Array_def w_done_fold_u16 w_done_simps)

section \<open>ByteReader\<close>

datatype stp_error =
    Decode_Underrun | Auth_Failed | Protocol_Mismatch | Plaintext_Too_Large | Seq_Overflow
  | Replay_Or_Reorder | Sealed_Too_Large | Iv_Mismatch | Gcm_Failure

record byte_reader =
  rd_buf :: bytes
  rd_off :: nat

type_synonym 'a read = "byte_reader \<Rightarrow> (byte_reader, stp_error, 'a) outcome"

definition new_ByteReader :: "bytes \<Rightarrow> byte_reader" where
  "new_ByteReader b = \<lparr>rd_buf = b, rd_off = 0\<rparr>"

definition need :: "nat \<Rightarrow> unit read" where
  "need n r = (if length (rd_buf r) < rd_off r + n then (r, Inl Decode_Underrun) else (r, Inr ()))"

text \<open>The next \<open>n\<close> octets as a value, and the reader after them.\<close>

definition take_octets :: "nat \<Rightarrow> (bytes \<Rightarrow> 'a) \<Rightarrow> 'a read" where
  "take_octets n f r =
     andThen (need n r) (\<lambda>_ r. (r\<lparr>rd_off := rd_off r + n\<rparr>, Inr (f (take n (drop (rd_off r) (rd_buf r))))))"

definition r_u8 :: "nat read" where
  "r_u8 = take_octets 1 (\<lambda>b. unat (b ! 0))"

definition r_u16 :: "nat read" where
  "r_u16 = take_octets 2 readUInt16BE"

definition r_u32 :: "nat read" where
  "r_u32 = take_octets 4 readUInt32BE"

definition r_raw :: "nat \<Rightarrow> bytes read" where
  "r_raw n = take_octets n (\<lambda>b. b)"

definition r_bytes :: "bytes read" where
  "r_bytes r = andThen (r_u16 r) (\<lambda>len. r_raw len)"

definition r_str :: "js_string read" where
  "r_str r = andThen (r_bytes r) (\<lambda>b r. (r, Inr (utf8_decode b)))"

fun r_u16s :: "nat \<Rightarrow> nat list \<Rightarrow> nat list read" where
  "r_u16s 0 out r = (r, Inr out)"
| "r_u16s (Suc n) out r = andThen (r_u16 r) (\<lambda>v. r_u16s n (out @ [v]))"

definition r_u16Array :: "nat list read" where
  "r_u16Array r = andThen (r_u16 r) (\<lambda>n. r_u16s n [])"

definition remaining :: "byte_reader \<Rightarrow> nat" where
  "remaining r = length (rd_buf r) - rd_off r"

section \<open>Reading what was written\<close>

text \<open>
  \<open>yields p enc x\<close>: on a buffer that goes on with \<open>enc\<close> the reader \<open>p\<close> returns \<open>x\<close> and stops right behind it.
\<close>

definition before :: "byte_reader \<Rightarrow> bytes \<Rightarrow> bool" where
  "before r bs \<longleftrightarrow> rd_off r \<le> length (rd_buf r) \<and> drop (rd_off r) (rd_buf r) = bs"

definition yields :: "'a read \<Rightarrow> bytes \<Rightarrow> 'a \<Rightarrow> bool" where
  "yields p enc x \<longleftrightarrow> (\<forall>r rest. before r (enc @ rest) \<longrightarrow> (\<exists>r'. p r = (r', Inr x) \<and> before r' rest))"

lemma yieldsD:
  assumes "yields p enc x" "before r (enc @ rest)"
  obtains r' where "p r = (r', Inr x)" "before r' rest"
  using assms unfolding yields_def by blast

lemma before_new [simp]: "before (new_ByteReader b) b"
  by (simp add: before_def new_ByteReader_def)

lemma before_remaining: "before r bs \<Longrightarrow> remaining r = length bs"
  by (auto simp: before_def remaining_def)

lemma yields_ret: "yields (\<lambda>r. (r, Inr x)) [] x"
  by (auto simp: yields_def)

lemma yields_andThen:
  assumes "yields p enc1 x" "yields (k x) enc2 y"
  shows "yields (\<lambda>r. andThen (p r) k) (enc1 @ enc2) y"
  unfolding yields_def
proof (intro allI impI)
  fix r rest
  assume "before r ((enc1 @ enc2) @ rest)"
  then obtain r1 where 1: "p r = (r1, Inr x)" "before r1 (enc2 @ rest)" using yieldsD [OF assms(1)] by force
  then obtain r2 where "k x r1 = (r2, Inr y)" "before r2 rest" using yieldsD [OF assms(2)] by blast
  with 1 show "\<exists>r'. andThen (p r) k = (r', Inr y) \<and> before r' rest" by simp
qed

lemma yields_last:
  assumes "yields p enc x" "\<And>r. k x r = (r, Inr y)"
  shows "yields (\<lambda>r. andThen (p r) k) enc y"
proof -
  have "k x = (\<lambda>r. (r, Inr y))" using assms(2) by (rule ext)
  then have "yields (k x) [] y" by (simp only: yields_ret)
  from yields_andThen [OF assms(1), of k, OF this] show ?thesis by (simp only: append_Nil2)
qed

lemma yields_take:
  assumes "length b = n"
  shows "yields (take_octets n f) b (f b)"
  unfolding yields_def
proof (intro allI impI)
  fix r rest
  assume b: "before r (b @ rest)"
  then have "length (drop (rd_off r) (rd_buf r)) = n + length rest" "rd_off r \<le> length (rd_buf r)"
    using assms by (simp_all only: before_def length_append)
  then have "length (rd_buf r) = rd_off r + n + length rest" by simp
  moreover have "drop (rd_off r + n) (rd_buf r) = rest" "take n (drop (rd_off r) (rd_buf r)) = b"
    using b assms by (simp_all add: before_def add.commute flip: drop_drop)
  ultimately show "\<exists>r'. take_octets n f r = (r', Inr (f b)) \<and> before r' rest"
    by (simp add: take_octets_def need_def before_def)
qed

lemma take_octets_before:
  assumes "before r bs"
  shows "take_octets n f r = (if length bs < n then (r, Inl Decode_Underrun) else (r\<lparr>rd_off := rd_off r + n\<rparr>, Inr (f (take n bs))))"
    and "n \<le> length bs \<Longrightarrow> before (r\<lparr>rd_off := rd_off r + n\<rparr>) (drop n bs)"
  using assms by (auto simp: take_octets_def need_def before_def add.commute)

lemma yields_raw: "length b = n \<Longrightarrow> yields (r_raw n) b b"
  unfolding r_raw_def by (rule yields_take)

lemma yields_u8: "n < 256 \<Longrightarrow> yields r_u8 [word_of_nat n] n"
  using yields_take [of "[word_of_nat n]" 1 "\<lambda>b. unat (b ! 0)"]
  by (simp add: r_u8_def unat_of_nat take_bit_nat_eq_self)

lemma yields_u16: "n < 65536 \<Longrightarrow> yields r_u16 (u16_bytes n) n"
  using yields_take [of "u16_bytes n" 2 readUInt16BE] read_write_16 [of "word_of_nat n" "[]"]
  by (simp add: r_u16_def u16_bytes_def unat_of_nat take_bit_nat_eq_self)

lemma yields_u32: "n < 4294967296 \<Longrightarrow> yields r_u32 (u32_bytes n) n"
  using yields_take [of "u32_bytes n" 4 readUInt32BE] read_write_32 [of "word_of_nat n" "[]"]
  by (simp add: r_u32_def u32_bytes_def unat_of_nat take_bit_nat_eq_self)

lemma yields_bytes: "length b < 65536 \<Longrightarrow> yields r_bytes (prefixed b) b"
  unfolding prefixed_def r_bytes_def by (rule yields_andThen [OF yields_u16 yields_raw]) simp_all

lemma yields_str: "utf16_ok s \<Longrightarrow> byteLen s < 65536 \<Longrightarrow> yields r_str (prefixed (utf8_encode s)) s"
  unfolding r_str_def by (rule yields_last [OF yields_bytes]) (simp_all add: length_utf8_encode)

lemma yields_u16s: "list_all (\<lambda>n. n < 65536) ns \<Longrightarrow> yields (r_u16s (length ns) out) (concat (map u16_bytes ns)) (out @ ns)"
proof (induction ns arbitrary: out)
  case Nil
  have "r_u16s 0 out = (\<lambda>r. (r, Inr out))" by (rule ext) simp
  then show ?case by (simp add: yields_ret)
next
  case (Cons n ns)
  have "r_u16s (length (n # ns)) out = (\<lambda>r. andThen (r_u16 r) (\<lambda>v. r_u16s (length ns) (out @ [v])))" by (rule ext) simp
  with yields_andThen [OF yields_u16, of n "\<lambda>v. r_u16s (length ns) (out @ [v])"] Cons.IH [of "out @ [n]"] Cons.prems show ?case by simp
qed

lemma yields_u16Array:
  "list_all (\<lambda>n. n < 65536) ns \<Longrightarrow> length ns < 65536 \<Longrightarrow>
     yields r_u16Array (u16_bytes (length ns) @ concat (map u16_bytes ns)) ns"
  using yields_andThen [OF yields_u16, of "length ns" "\<lambda>n. r_u16s n []"] yields_u16s [of ns "[]"]
  by (simp add: r_u16Array_def [abs_def])

lemmas yields_all = yields_raw yields_u8 yields_u16 yields_u32 yields_bytes yields_str yields_u16Array

section \<open>What reading can return\<close>

lemma take_octets_result:
  assumes "take_octets n f r = (r', Inr x)"
  shows "rd_buf r' = rd_buf r" "\<exists>b. length b = n \<and> n \<le> length (rd_buf r) \<and> x = f b"
proof -
  from assms have "rd_off r + n \<le> length (rd_buf r)" "r' = r\<lparr>rd_off := rd_off r + n\<rparr>" "x = f (take n (drop (rd_off r) (rd_buf r)))"
    by (auto simp: take_octets_def need_def split: if_splits)
  then show "rd_buf r' = rd_buf r" "\<exists>b. length b = n \<and> n \<le> length (rd_buf r) \<and> x = f b"
    by (auto intro!: exI [of _ "take n (drop (rd_off r) (rd_buf r))"])
qed

lemma r_raw_result: "r_raw n r = (r', Inr b) \<Longrightarrow> rd_buf r' = rd_buf r \<and> length b = n \<and> n \<le> length (rd_buf r)"
  using take_octets_result [of n "\<lambda>b. b" r r' b] by (auto simp: r_raw_def)

lemma r_u16_result: "r_u16 r = (r', Inr n) \<Longrightarrow> rd_buf r' = rd_buf r \<and> n < 65536"
  using take_octets_result [of 2 readUInt16BE r r' n] by (auto simp: r_u16_def readUInt_less)

lemma r_u32_result: "r_u32 r = (r', Inr n) \<Longrightarrow> rd_buf r' = rd_buf r \<and> n < 4294967296"
  using take_octets_result [of 4 readUInt32BE r r' n] by (auto simp: r_u32_def readUInt_less)

lemma r_u8_result: "r_u8 r = (r', Inr n) \<Longrightarrow> rd_buf r' = rd_buf r \<and> n < 256"
  using take_octets_result [of 1 "\<lambda>b. unat (b ! 0)" r r' n] by (auto simp: r_u8_def octet_less)

lemma r_bytes_result: "r_bytes r = (r', Inr b) \<Longrightarrow> rd_buf r' = rd_buf r \<and> length b < 65536 \<and> length b \<le> length (rd_buf r)"
  by (auto simp: r_bytes_def andThen_eq_Inr dest!: r_u16_result r_raw_result)

lemma r_str_result:
  "r_str r = (r', Inr s) \<Longrightarrow> rd_buf r' = rd_buf r \<and> utf16_ok s \<and> byteLen s \<le> 3 * length (rd_buf r)"
proof -
  assume "r_str r = (r', Inr s)"
  then obtain b where b: "rd_buf r' = rd_buf r" "length b \<le> length (rd_buf r)" "s = utf8_decode b"
    by (auto simp: r_str_def andThen_eq_Inr dest!: r_bytes_result)
  then show ?thesis using byteLen_bounds [of s] length_utf8_decode [of b] by simp
qed

lemma r_u16s_result:
  "r_u16s n out r = (r', Inr ns) \<Longrightarrow> list_all (\<lambda>n. n < 65536) out \<Longrightarrow>
     rd_buf r' = rd_buf r \<and> list_all (\<lambda>n. n < 65536) ns \<and> length ns = length out + n"
  by (induction n out r rule: r_u16s.induct) (auto simp: andThen_eq_Inr dest!: r_u16_result)

lemma r_u16Array_result:
  "r_u16Array r = (r', Inr ns) \<Longrightarrow> rd_buf r' = rd_buf r \<and> list_all (\<lambda>n. n < 65536) ns \<and> length ns < 65536"
  by (auto simp: r_u16Array_def andThen_eq_Inr dest!: r_u16_result r_u16s_result)

lemmas reader_results = r_raw_result r_u8_result r_u16_result r_u32_result r_bytes_result r_str_result r_u16Array_result

end
