(* ===== verification/Secure_Channel.thy ===== *)
theory Secure_Channel
  imports Codec
begin

text \<open>
  The handshake and the sealed session of \<^verbatim>\<open>src/ipc/secure-channel.ts\<close>. The primitives of the runtime (SHA-256,
  HMAC, HKDF, AES-256-GCM) are the fields of a record the definitions take as an argument; what the
  protocol relies on is the predicate \<open>crypto_ok\<close>.
\<close>

record crypto =
  cr_sha256 :: "bytes \<Rightarrow> bytes"
  cr_hmac :: "bytes \<Rightarrow> bytes \<Rightarrow> bytes"
  cr_hkdf :: "bytes \<Rightarrow> bytes \<Rightarrow> bytes \<Rightarrow> nat \<Rightarrow> bytes"
  cr_encrypt :: "bytes \<Rightarrow> bytes \<Rightarrow> bytes \<Rightarrow> bytes \<Rightarrow> bytes \<times> bytes"
  cr_decrypt :: "bytes \<Rightarrow> bytes \<Rightarrow> bytes \<Rightarrow> bytes \<Rightarrow> bytes \<Rightarrow> bytes option"

section \<open>Constants and messages\<close>

definition STP_MAGIC :: js_string where
  "STP_MAGIC = js ''XBUS-STP''"

definition STP_VERSION :: nat where
  "STP_VERSION = 1"

definition SUITE_AES256_GCM :: nat where
  "SUITE_AES256_GCM = 1"

definition NONCE_BYTES :: nat where
  "NONCE_BYTES = 32"

definition CONN_ID_BYTES :: nat where
  "CONN_ID_BYTES = 16"

definition PROOF_BYTES :: nat where
  "PROOF_BYTES = 32"

definition IV_BYTES :: nat where
  "IV_BYTES = 12"

definition TAG_BYTES :: nat where
  "TAG_BYTES = 16"

definition ENC_KEY_BYTES :: nat where
  "ENC_KEY_BYTES = 32"

definition MAX_PLAINTEXT :: nat where
  "MAX_PLAINTEXT = 1024 * 1024"

lemmas stp_constants = STP_VERSION_def SUITE_AES256_GCM_def NONCE_BYTES_def CONN_ID_BYTES_def PROOF_BYTES_def
  IV_BYTES_def TAG_BYTES_def ENC_KEY_BYTES_def

text \<open>The documented behaviour of the primitives: output lengths, and decryption inverts encryption and nothing else.\<close>

definition crypto_ok :: "crypto \<Rightarrow> bool" where
  "crypto_ok C \<longleftrightarrow>
     (\<forall>k m. length (cr_hmac C k m) = PROOF_BYTES) \<and>
     (\<forall>ikm salt info n. n \<le> 255 * 32 \<longrightarrow> length (cr_hkdf C ikm salt info n) = n) \<and>
     (\<forall>k iv a p. length (fst (cr_encrypt C k iv a p)) = length p \<and> length (snd (cr_encrypt C k iv a p)) = TAG_BYTES) \<and>
     (\<forall>k iv a ct t p. cr_decrypt C k iv a ct t = Some p \<longleftrightarrow> cr_encrypt C k iv a p = (ct, t))"

record hello_identity =
  hi_buildId :: js_string
  hi_appProtoRange :: js_string
  hi_claimedRole :: js_string
  hi_claimedSessionId :: js_string
  hi_claimedEpoch :: nat
  hi_capabilities :: js_string

record client_hello =
  ch_keyVersion :: nat
  ch_offeredSuites :: "nat list"
  ch_clientNonce :: bytes
  ch_connId :: bytes
  ch_identity :: hello_identity

definition encodeClientHello :: "client_hello \<Rightarrow> bytes" where
  "encodeClientHello h =
     write_all [w_str STP_MAGIC, w_u8 STP_VERSION, w_u32 (ch_keyVersion h),
       w_u16Array (ch_offeredSuites h), w_raw (ch_clientNonce h), w_bytes (ch_connId h),
       w_str (hi_buildId (ch_identity h)), w_str (hi_appProtoRange (ch_identity h)),
       w_str (hi_claimedRole (ch_identity h)), w_str (hi_claimedSessionId (ch_identity h)), w_u32 (hi_claimedEpoch (ch_identity h)),
       w_str (hi_capabilities (ch_identity h))]"

definition encodeServerHelloCore :: "nat \<Rightarrow> nat \<Rightarrow> nat \<Rightarrow> bytes \<Rightarrow> js_string \<Rightarrow> bytes" where
  "encodeServerHelloCore stpVersion keyVersion selectedSuite serverNonce brokerInstanceId =
     write_all [w_u8 stpVersion, w_u32 keyVersion, w_u16 selectedSuite, w_raw serverNonce, w_str brokerInstanceId]"

definition buildContext :: "bytes \<Rightarrow> js_string \<Rightarrow> client_hello \<Rightarrow> nat \<Rightarrow> bytes" where
  "buildContext th brokerInstanceId h selectedSuite =
     write_all [w_raw th, w_str brokerInstanceId, w_bytes (ch_connId h),
       w_str (hi_claimedRole (ch_identity h)), w_str (hi_claimedSessionId (ch_identity h)), w_u32 (hi_claimedEpoch (ch_identity h)),
       w_str (hi_buildId (ch_identity h)), w_u16 selectedSuite, w_u8 STP_VERSION]"

section \<open>Key schedule\<close>

definition expand :: "crypto \<Rightarrow> bytes \<Rightarrow> string \<Rightarrow> bytes \<Rightarrow> nat \<Rightarrow> bytes" where
  "expand C prk label context len = cr_hkdf C prk [] (utf8_encode (js ''XBUS-STP/v1/'' @ js label) @ context) len"

record derived_keys =
  k_c2s_enc :: bytes
  k_s2c_enc :: bytes
  k_c2s_iv :: bytes
  k_s2c_iv :: bytes
  mk_client :: bytes
  mk_server :: bytes

definition deriveAll :: "crypto \<Rightarrow> bytes \<Rightarrow> bytes \<Rightarrow> bytes \<Rightarrow> bytes \<Rightarrow> derived_keys" where
  "deriveAll C rootSecret clientNonce serverNonce context =
     (let prk = cr_hkdf C rootSecret (clientNonce @ serverNonce) (utf8_encode (js ''XBUS-STP/v1/extract'')) 32 in
      \<lparr>k_c2s_enc = expand C prk ''c2s-enc'' context ENC_KEY_BYTES,
       k_s2c_enc = expand C prk ''s2c-enc'' context ENC_KEY_BYTES,
       k_c2s_iv = expand C prk ''c2s-iv'' context IV_BYTES,
       k_s2c_iv = expand C prk ''s2c-iv'' context IV_BYTES,
       mk_client = expand C prk ''client-proof'' context 32,
       mk_server = expand C prk ''server-proof'' context 32\<rparr>)"

definition proof_of :: "crypto \<Rightarrow> bytes \<Rightarrow> string \<Rightarrow> bytes \<Rightarrow> bytes" where
  "proof_of C mk label th = cr_hmac C mk (utf8_encode (js label) @ th)"

section \<open>Client\<close>

record client_handshake_state =
  hs_hello :: client_hello
  hs_helloBytes :: bytes

definition startClientHandshake :: "nat \<Rightarrow> hello_identity \<Rightarrow> bytes \<Rightarrow> bytes \<Rightarrow> client_handshake_state \<times> bytes" where
  "startClientHandshake keyVersion identity clientNonce connId =
     (let hello = \<lparr>ch_keyVersion = keyVersion, ch_offeredSuites = [SUITE_AES256_GCM], ch_clientNonce = clientNonce,
                   ch_connId = connId, ch_identity = identity\<rparr>;
          helloBytes = encodeClientHello hello
      in (\<lparr>hs_hello = hello, hs_helloBytes = helloBytes\<rparr>, helloBytes))"

record server_hello =
  sh_stpVersion :: nat
  sh_keyVersion :: nat
  sh_selectedSuite :: nat
  sh_serverNonce :: bytes
  sh_brokerInstanceId :: js_string
  sh_serverProof :: bytes

definition read_server_hello :: "server_hello read" where
  "read_server_hello r =
     andThen (r_u8 r) (\<lambda>stpVersion r.
     andThen (r_u32 r) (\<lambda>keyVersion r.
     andThen (r_u16 r) (\<lambda>selectedSuite r.
     andThen (r_raw NONCE_BYTES r) (\<lambda>serverNonce r.
     andThen (r_str r) (\<lambda>brokerInstanceId r.
     andThen (r_raw PROOF_BYTES r) (\<lambda>serverProof r.
       (r, Inr \<lparr>sh_stpVersion = stpVersion, sh_keyVersion = keyVersion, sh_selectedSuite = selectedSuite,
                sh_serverNonce = serverNonce, sh_brokerInstanceId = brokerInstanceId, sh_serverProof = serverProof\<rparr>)))))))"

definition parseServerHello :: "bytes \<Rightarrow> stp_error + server_hello" where
  "parseServerHello b = snd (read_server_hello (new_ByteReader b))"

record client_finish =
  cf_keys :: derived_keys
  cf_clientProof :: bytes
  cf_connId :: bytes

definition clientFinish :: "crypto \<Rightarrow> bytes \<Rightarrow> client_handshake_state \<Rightarrow> server_hello \<Rightarrow> stp_error + client_finish" where
  "clientFinish C rootSecret state sh =
     (if sh_stpVersion sh \<noteq> STP_VERSION \<or> sh_selectedSuite sh \<noteq> SUITE_AES256_GCM then Inl Protocol_Mismatch
      else if sh_selectedSuite sh \<notin> set (ch_offeredSuites (hs_hello state)) then Inl Protocol_Mismatch
      else
        let serverHelloCore = encodeServerHelloCore (sh_stpVersion sh) (sh_keyVersion sh) (sh_selectedSuite sh)
              (sh_serverNonce sh) (sh_brokerInstanceId sh);
            transcript = hs_helloBytes state @ serverHelloCore;
            th = cr_sha256 C transcript;
            context = buildContext th (sh_brokerInstanceId sh) (hs_hello state) (sh_selectedSuite sh);
            keys = deriveAll C rootSecret (ch_clientNonce (hs_hello state)) (sh_serverNonce sh) context;
            expectedServer = proof_of C (mk_server keys) ''server-finished'' th
        in if sh_serverProof sh \<noteq> expectedServer then Inl Auth_Failed
           else Inr \<lparr>cf_keys = keys, cf_clientProof = proof_of C (mk_client keys) ''client-finished'' th,
                     cf_connId = ch_connId (hs_hello state)\<rparr>)"

section \<open>Server\<close>

definition read_client_hello :: "client_hello read" where
  "read_client_hello r =
     andThen (r_str r) (\<lambda>magic r. if magic \<noteq> STP_MAGIC then (r, Inl Protocol_Mismatch) else
     andThen (r_u8 r) (\<lambda>stpVersion r. if stpVersion \<noteq> STP_VERSION then (r, Inl Protocol_Mismatch) else
     andThen (r_u32 r) (\<lambda>keyVersion r.
     andThen (r_u16Array r) (\<lambda>offeredSuites r.
     andThen (r_raw NONCE_BYTES r) (\<lambda>clientNonce r.
     andThen (r_bytes r) (\<lambda>connId r. if length connId \<noteq> CONN_ID_BYTES then (r, Inl Protocol_Mismatch) else
     andThen (r_str r) (\<lambda>buildId r.
     andThen (r_str r) (\<lambda>appProtoRange r.
     andThen (r_str r) (\<lambda>claimedRole r.
     andThen (r_str r) (\<lambda>claimedSessionId r.
     andThen (r_u32 r) (\<lambda>claimedEpoch r.
     andThen (r_str r) (\<lambda>capabilities r.
       (r, Inr \<lparr>ch_keyVersion = keyVersion, ch_offeredSuites = offeredSuites, ch_clientNonce = clientNonce, ch_connId = connId,
                ch_identity = \<lparr>hi_buildId = buildId, hi_appProtoRange = appProtoRange, hi_claimedRole = claimedRole,
                  hi_claimedSessionId = claimedSessionId, hi_claimedEpoch = claimedEpoch, hi_capabilities = capabilities\<rparr>\<rparr>)))))))))))))"

definition parseClientHello :: "bytes \<Rightarrow> stp_error + client_hello" where
  "parseClientHello b = snd (read_client_hello (new_ByteReader b))"

record server_handshake =
  sv_keys :: derived_keys
  sv_serverHelloBytes :: bytes
  sv_serverNonce :: bytes
  sv_selectedSuite :: nat
  sv_th :: bytes
  sv_clientHelloBytes :: bytes

definition serverHandshake :: "crypto \<Rightarrow> bytes \<Rightarrow> js_string \<Rightarrow> client_hello \<Rightarrow> bytes \<Rightarrow> stp_error + server_handshake" where
  "serverHandshake C rootSecret brokerInstanceId hello serverNonce =
     (if SUITE_AES256_GCM \<notin> set (ch_offeredSuites hello) then Inl Protocol_Mismatch
      else
        let selectedSuite = SUITE_AES256_GCM;
            clientHelloBytes = encodeClientHello hello;
            serverHelloCore = encodeServerHelloCore STP_VERSION (ch_keyVersion hello) selectedSuite serverNonce brokerInstanceId;
            transcript = clientHelloBytes @ serverHelloCore;
            th = cr_sha256 C transcript;
            context = buildContext th brokerInstanceId hello selectedSuite;
            keys = deriveAll C rootSecret (ch_clientNonce hello) serverNonce context;
            serverProof = proof_of C (mk_server keys) ''server-finished'' th
        in Inr \<lparr>sv_keys = keys, sv_serverHelloBytes = serverHelloCore @ serverProof, sv_serverNonce = serverNonce,
                sv_selectedSuite = selectedSuite, sv_th = th, sv_clientHelloBytes = clientHelloBytes\<rparr>)"

definition serverVerifyFinish :: "crypto \<Rightarrow> derived_keys \<Rightarrow> bytes \<Rightarrow> bytes \<Rightarrow> stp_error option" where
  "serverVerifyFinish C keys th clientProof =
     (if clientProof \<noteq> proof_of C (mk_client keys) ''client-finished'' th then Some Auth_Failed else None)"

section \<open>Sealed sessions\<close>

datatype session_role = Client_Role | Server_Role

record secure_session =
  sendSeq :: nat
  recvSeq :: nat
  encKey :: bytes
  encIvBase :: bytes
  decKey :: bytes
  decIvBase :: bytes
  sendDir :: nat
  recvDir :: nat
  ss_connId :: bytes

definition new_SecureSession :: "derived_keys \<Rightarrow> bytes \<Rightarrow> session_role \<Rightarrow> secure_session" where
  "new_SecureSession keys connId role =
     (case role of
        Client_Role \<Rightarrow>
          \<lparr>sendSeq = 0, recvSeq = 0, encKey = k_c2s_enc keys, encIvBase = k_c2s_iv keys, decKey = k_s2c_enc keys,
           decIvBase = k_s2c_iv keys, sendDir = 1, recvDir = 2, ss_connId = connId\<rparr>
      | Server_Role \<Rightarrow>
          \<lparr>sendSeq = 0, recvSeq = 0, encKey = k_s2c_enc keys, encIvBase = k_s2c_iv keys, decKey = k_c2s_enc keys,
           decIvBase = k_c2s_iv keys, sendDir = 2, recvDir = 1, ss_connId = connId\<rparr>)"

definition session_iv :: "bytes \<Rightarrow> nat \<Rightarrow> bytes" where
  "session_iv base seq =
     (let ctr = replicate (IV_BYTES - 4) 0 @ writeUInt32BE (word_of_nat seq) in
      map (\<lambda>i. (if i < length base then base ! i else 0) XOR (ctr ! i)) [0..<IV_BYTES])"

definition aad :: "secure_session \<Rightarrow> nat \<Rightarrow> nat \<Rightarrow> nat \<Rightarrow> bytes" where
  "aad ss dir seq ctLen =
     write_all [w_str (js ''XBUS-STP/v1''), w_bytes (ss_connId ss), w_u8 dir, w_u32 seq, w_u32 ctLen]"

definition MAX_SEQ :: nat where
  "MAX_SEQ = 4294967295"

definition seal :: "crypto \<Rightarrow> bytes \<Rightarrow> secure_session \<Rightarrow> (secure_session, stp_error, bytes) outcome" where
  "seal C plaintext ss =
     (if MAX_PLAINTEXT < length plaintext then (ss, Inl Plaintext_Too_Large)
      else if MAX_SEQ \<le> sendSeq ss then (ss, Inl Seq_Overflow)
      else
        let seq = sendSeq ss;
            ss = ss\<lparr>sendSeq := seq + 1\<rparr>;
            iv = session_iv (encIvBase ss) seq;
            (ct, tag) = cr_encrypt C (encKey ss) iv (aad ss (sendDir ss) seq (length plaintext)) plaintext
        in (ss, Inr (write_all [w_u32 seq, w_raw iv, w_raw tag, w_raw ct])))"

definition open_sealed :: "crypto \<Rightarrow> bytes \<Rightarrow> secure_session \<Rightarrow> (secure_session, stp_error, bytes) outcome" where
  "open_sealed C sealed ss =
     (case andThen (r_u32 (new_ByteReader sealed)) (\<lambda>seq r.
             if seq \<noteq> recvSeq ss then (r, Inl Replay_Or_Reorder)
             else andThen (r_raw IV_BYTES r) (\<lambda>iv r.
                  andThen (r_raw TAG_BYTES r) (\<lambda>tag r.
                  andThen (r_raw (remaining r) r) (\<lambda>ct r. (r, Inr (seq, iv, tag, ct)))))) of
        (_, Inl e) \<Rightarrow> (ss, Inl e)
      | (_, Inr (seq, iv, tag, ct)) \<Rightarrow>
          if MAX_PLAINTEXT + TAG_BYTES < length ct then (ss, Inl Sealed_Too_Large)
          else if iv \<noteq> session_iv (decIvBase ss) seq then (ss, Inl Iv_Mismatch)
          else case cr_decrypt C (decKey ss) iv (aad ss (recvDir ss) seq (length ct)) ct tag of
                 None \<Rightarrow> (ss, Inl Gcm_Failure)
               | Some pt \<Rightarrow> (ss\<lparr>recvSeq := recvSeq ss + 1\<rparr>, Inr pt))"

section \<open>Parsing what was encoded\<close>

lemma write_all_Nil: "write_all [] = []"
  by (simp add: write_all_def w_done_simps)

lemma write_all_snoc: "write_all (fs @ [f]) = w_done (f (fold (\<lambda>f. f) fs new_ByteWriter))"
  by (simp add: write_all_def)

lemmas write_simps = write_all_def written

definition short_str :: "js_string \<Rightarrow> bool" where
  "short_str s \<longleftrightarrow> utf16_ok s \<and> byteLen s < 65536"

text \<open>A hello whose fields fit the widths of their encodings.\<close>

definition hello_ok :: "client_hello \<Rightarrow> bool" where
  "hello_ok h \<longleftrightarrow> ch_keyVersion h < 2 ^ 32 \<and> list_all (\<lambda>n. n < 2 ^ 16) (ch_offeredSuites h) \<and> length (ch_offeredSuites h) < 2 ^ 16
     \<and> length (ch_clientNonce h) = NONCE_BYTES \<and> length (ch_connId h) = CONN_ID_BYTES
     \<and> short_str (hi_buildId (ch_identity h)) \<and> short_str (hi_appProtoRange (ch_identity h)) \<and> short_str (hi_claimedRole (ch_identity h))
     \<and> short_str (hi_claimedSessionId (ch_identity h)) \<and> hi_claimedEpoch (ch_identity h) < 2 ^ 32 \<and> short_str (hi_capabilities (ch_identity h))"

lemma yields_short_str: "short_str s \<Longrightarrow> yields r_str (prefixed (utf8_encode s)) s"
  by (simp add: short_str_def yields_str)

lemma yields_unless: "b = c \<Longrightarrow> yields p enc x \<Longrightarrow> yields (\<lambda>r. if b \<noteq> c then q r else p r) enc x"
  by simp

lemma yields_client_hello:
  assumes "hello_ok h"
  shows "yields read_client_hello (encodeClientHello h) h"
proof -
  have ok: "ch_keyVersion h < 4294967296" "list_all (\<lambda>n. n < 65536) (ch_offeredSuites h)" "length (ch_offeredSuites h) < 65536"
    "length (ch_clientNonce h) = NONCE_BYTES" "length (ch_connId h) = CONN_ID_BYTES" "length (ch_connId h) < 65536"
    "hi_claimedEpoch (ch_identity h) < 4294967296" "STP_VERSION < 256"
    using assms by (simp_all add: hello_ok_def stp_constants)
  have strs: "short_str STP_MAGIC" "short_str (hi_buildId (ch_identity h))" "short_str (hi_appProtoRange (ch_identity h))"
    "short_str (hi_claimedRole (ch_identity h))" "short_str (hi_claimedSessionId (ch_identity h))" "short_str (hi_capabilities (ch_identity h))"
    using assms by (simp_all add: hello_ok_def) (simp add: short_str_def STP_MAGIC_def high_surrogate_def low_surrogate_def)
  have "encodeClientHello h = prefixed (utf8_encode STP_MAGIC) @ [word_of_nat STP_VERSION] @ u32_bytes (ch_keyVersion h) @
      (u16_bytes (length (ch_offeredSuites h)) @ concat (map u16_bytes (ch_offeredSuites h))) @ ch_clientNonce h @
      prefixed (ch_connId h) @ prefixed (utf8_encode (hi_buildId (ch_identity h))) @ prefixed (utf8_encode (hi_appProtoRange (ch_identity h))) @
      prefixed (utf8_encode (hi_claimedRole (ch_identity h))) @ prefixed (utf8_encode (hi_claimedSessionId (ch_identity h))) @
      u32_bytes (hi_claimedEpoch (ch_identity h)) @ prefixed (utf8_encode (hi_capabilities (ch_identity h)))"
    by (simp add: encodeClientHello_def write_simps)
  then show ?thesis unfolding read_client_hello_def [abs_def]
    by (simp only:) (rule yields_andThen yields_unless refl ok(5) yields_short_str [OF strs(1)] yields_u8 [OF ok(8)] yields_u32 [OF ok(1)]
      yields_u16Array [OF ok(2,3)] yields_raw [OF ok(4)] yields_bytes [OF ok(6)] yields_short_str [OF strs(2)] yields_short_str [OF strs(3)]
      yields_short_str [OF strs(4)] yields_short_str [OF strs(5)] yields_u32 [OF ok(7)] yields_last [OF yields_short_str [OF strs(6)]] | simp)+
qed

lemma parse_encoded_hello: "hello_ok h \<Longrightarrow> parseClientHello (encodeClientHello h @ extra) = Inr h"
  using yieldsD [OF yields_client_hello before_new] unfolding parseClientHello_def by (metis snd_conv)

lemma encodeServerHelloCore_eq:
  "encodeServerHelloCore v k su nonce i = [word_of_nat v] @ u32_bytes k @ u16_bytes su @ nonce @ prefixed (utf8_encode i)"
  by (simp add: encodeServerHelloCore_def write_simps)

lemma yields_server_hello:
  assumes "v < 256" "k < 2 ^ 32" "su < 2 ^ 16" "length nonce = NONCE_BYTES" "short_str i" "length pr = PROOF_BYTES"
  shows "yields read_server_hello (encodeServerHelloCore v k su nonce i @ pr)
    \<lparr>sh_stpVersion = v, sh_keyVersion = k, sh_selectedSuite = su, sh_serverNonce = nonce, sh_brokerInstanceId = i, sh_serverProof = pr\<rparr>"
proof -
  have n: "k < 4294967296" "su < 65536" using assms by simp_all
  show ?thesis unfolding encodeServerHelloCore_eq append_assoc read_server_hello_def [abs_def]
    by (rule yields_andThen yields_u8 [OF assms(1)] yields_u32 [OF n(1)] yields_u16 [OF n(2)] yields_raw [OF assms(4)]
        yields_short_str [OF assms(5)] yields_last [OF yields_raw [OF assms(6)]] refl)+
qed

lemma parse_encoded_server_hello:
  assumes "v < 256" "k < 2 ^ 32" "su < 2 ^ 16" "length nonce = NONCE_BYTES" "short_str i" "length pr = PROOF_BYTES"
  shows "parseServerHello (encodeServerHelloCore v k su nonce i @ pr) = Inr
    \<lparr>sh_stpVersion = v, sh_keyVersion = k, sh_selectedSuite = su, sh_serverNonce = nonce, sh_brokerInstanceId = i, sh_serverProof = pr\<rparr>"
  using yieldsD [OF yields_server_hello [OF assms], of _ "[]"] unfolding parseServerHello_def
  by (metis append_Nil2 before_new snd_conv)

section \<open>Agreement of the two ends\<close>

text \<open>The bytes each end hashes.\<close>

definition client_transcript :: "client_handshake_state \<Rightarrow> server_hello \<Rightarrow> bytes" where
  "client_transcript state sh = hs_helloBytes state @
     encodeServerHelloCore (sh_stpVersion sh) (sh_keyVersion sh) (sh_selectedSuite sh) (sh_serverNonce sh) (sh_brokerInstanceId sh)"

definition server_transcript :: "client_hello \<Rightarrow> js_string \<Rightarrow> bytes \<Rightarrow> bytes" where
  "server_transcript hello brokerInstanceId serverNonce = encodeClientHello hello @
     encodeServerHelloCore STP_VERSION (ch_keyVersion hello) SUITE_AES256_GCM serverNonce brokerInstanceId"

lemma honest_handshake:
  assumes "crypto_ok C"
    and "startClientHandshake keyVersion identity clientNonce connId = (state, helloBytes)"
    and "hello_ok (hs_hello state)" "length serverNonce = NONCE_BYTES" "short_str brokerInstanceId"
  shows "\<exists>hello sv sh fin. parseClientHello helloBytes = Inr hello
    \<and> serverHandshake C root brokerInstanceId hello serverNonce = Inr sv
    \<and> parseServerHello (sv_serverHelloBytes sv) = Inr sh
    \<and> clientFinish C root state sh = Inr fin
    \<and> serverVerifyFinish C (sv_keys sv) (sv_th sv) (cf_clientProof fin) = None
    \<and> cf_keys fin = sv_keys sv \<and> cf_connId fin = ch_connId hello \<and> hello = hs_hello state
    \<and> client_transcript state sh = server_transcript hello brokerInstanceId serverNonce
    \<and> length (sv_serverHelloBytes sv) = 73 + length (utf8_encode brokerInstanceId)"
proof -
  define h where "h = hs_hello state"
  have h: "helloBytes = encodeClientHello h" "hs_helloBytes state = encodeClientHello h" "ch_offeredSuites h = [SUITE_AES256_GCM]"
    using assms(2) by (auto simp: startClientHandshake_def h_def Let_def)
  have parse: "parseClientHello helloBytes = Inr h" using parse_encoded_hello [of h "[]"] assms(3) h by (simp add: h_def)
  have hmac: "length (proof_of C mk l th) = PROOF_BYTES" for mk l th using assms(1) by (simp add: crypto_ok_def proof_of_def)
  have kv: "ch_keyVersion h < 2 ^ 32" using assms(3) by (simp add: hello_ok_def h_def)
  obtain sv where sv: "serverHandshake C root brokerInstanceId h serverNonce = Inr sv"
    using h(3) by (simp add: serverHandshake_def Let_def)
  define sh where "sh = \<lparr>sh_stpVersion = STP_VERSION, sh_keyVersion = ch_keyVersion h, sh_selectedSuite = SUITE_AES256_GCM,
    sh_serverNonce = serverNonce, sh_brokerInstanceId = brokerInstanceId,
    sh_serverProof = proof_of C (mk_server (sv_keys sv)) ''server-finished'' (sv_th sv)\<rparr>"
  have bytes: "sv_serverHelloBytes sv = encodeServerHelloCore STP_VERSION (ch_keyVersion h) SUITE_AES256_GCM serverNonce brokerInstanceId
      @ proof_of C (mk_server (sv_keys sv)) ''server-finished'' (sv_th sv)"
    using sv by (auto simp: serverHandshake_def Let_def split: if_splits)
  have "parseServerHello (sv_serverHelloBytes sv) = Inr sh" unfolding bytes sh_def
    by (rule parse_encoded_server_hello [OF _ kv _ assms(4,5) hmac]) (simp_all add: stp_constants)
  moreover have "clientFinish C root state sh = Inr \<lparr>cf_keys = sv_keys sv,
      cf_clientProof = proof_of C (mk_client (sv_keys sv)) ''client-finished'' (sv_th sv), cf_connId = ch_connId h\<rparr>"
    using sv h by (auto simp: clientFinish_def serverHandshake_def sh_def Let_def simp flip: h_def split: if_splits)
  moreover have "client_transcript state sh = server_transcript h brokerInstanceId serverNonce"
    using h by (simp add: client_transcript_def server_transcript_def sh_def)
  moreover have "length (sv_serverHelloBytes sv) = 73 + length (utf8_encode brokerInstanceId)"
    unfolding bytes encodeServerHelloCore_eq using assms(4) hmac by (simp add: u32_bytes_def u16_bytes_def prefixed_def stp_constants)
  ultimately show ?thesis using parse sv by (auto simp: serverVerifyFinish_def h_def)
qed

text \<open>What the two directions of a session share.\<close>

definition in_step :: "secure_session \<Rightarrow> secure_session \<Rightarrow> bool" where
  "in_step s r \<longleftrightarrow> encKey s = decKey r \<and> encIvBase s = decIvBase r \<and> sendDir s = recvDir r
     \<and> ss_connId s = ss_connId r \<and> sendSeq s = recvSeq r"

lemma new_sessions_in_step:
  "in_step (new_SecureSession keys connId Client_Role) (new_SecureSession keys connId Server_Role)"
  "in_step (new_SecureSession keys connId Server_Role) (new_SecureSession keys connId Client_Role)"
  by (simp_all add: in_step_def new_SecureSession_def)

lemma length_session_iv [simp]: "length (session_iv base seq) = IV_BYTES"
  by (simp add: session_iv_def Let_def)

definition sealed_bytes :: "nat \<Rightarrow> bytes \<Rightarrow> bytes \<Rightarrow> bytes \<Rightarrow> bytes" where
  "sealed_bytes seq iv tag ct = u32_bytes seq @ iv @ tag @ ct"

lemma seal_eq:
  "seal C p s = (s', Inr x) \<longleftrightarrow> length p \<le> MAX_PLAINTEXT \<and> sendSeq s < MAX_SEQ \<and> s' = s\<lparr>sendSeq := sendSeq s + 1\<rparr> \<and>
     (\<exists>ct tag. cr_encrypt C (encKey s) (session_iv (encIvBase s) (sendSeq s)) (aad s (sendDir s) (sendSeq s) (length p)) p = (ct, tag)
        \<and> x = sealed_bytes (sendSeq s) (session_iv (encIvBase s) (sendSeq s)) tag ct)"
  by (auto simp: seal_def aad_def Let_def case_prod_beta sealed_bytes_def write_simps prod_eq_iff)

text \<open>Splitting a sealed buffer.\<close>

lemma sealed_split:
  assumes "length iv = IV_BYTES" "length tag = TAG_BYTES"
  shows "x = sealed_bytes (readUInt32BE (take 4 x)) iv tag ct \<longleftrightarrow>
    32 \<le> length x \<and> take IV_BYTES (drop 4 x) = iv \<and> take TAG_BYTES (drop 16 x) = tag \<and> drop 32 x = ct" (is "?l \<longleftrightarrow> ?r")
proof
  assume ?l
  then have "\<exists>h. length h = 4 \<and> x = h @ iv @ tag @ ct" unfolding sealed_bytes_def u32_bytes_def by (metis length_writeUInt(2))
  with assms show ?r by (auto simp: stp_constants)
next
  assume r: ?r
  have "x = take 4 x @ take 12 (drop 4 x) @ take 16 (drop 16 x) @ drop 32 x"
    using append_take_drop_id [of 4 x] append_take_drop_id [of 12 "drop 4 x"] append_take_drop_id [of 16 "drop 16 x"] by simp
  moreover have "u32_bytes (readUInt32BE (take 4 x)) = take 4 x" unfolding u32_bytes_def using r by (intro write_read_32) simp
  ultimately show ?l using r by (simp add: sealed_bytes_def stp_constants)
qed

lemma open_eq:
  "open_sealed C x r = (r', Inr p) \<longleftrightarrow> r' = r\<lparr>recvSeq := recvSeq r + 1\<rparr> \<and> 32 \<le> length x \<and> readUInt32BE (take 4 x) = recvSeq r
     \<and> take IV_BYTES (drop 4 x) = session_iv (decIvBase r) (recvSeq r) \<and> length (drop 32 x) \<le> MAX_PLAINTEXT + TAG_BYTES
     \<and> cr_decrypt C (decKey r) (session_iv (decIvBase r) (recvSeq r)) (aad r (recvDir r) (recvSeq r) (length (drop 32 x)))
         (drop 32 x) (take TAG_BYTES (drop 16 x)) = Some p"
proof -
  let ?r0 = "new_ByteReader x"
  let ?r1 = "?r0\<lparr>rd_off := rd_off ?r0 + 4\<rparr>"
  let ?r2 = "?r1\<lparr>rd_off := rd_off ?r1 + 12\<rparr>"
  let ?r3 = "?r2\<lparr>rd_off := rd_off ?r2 + 16\<rparr>"
  note b0 = before_new [of x]
  note t0 = take_octets_before(1) [OF b0, of 4 readUInt32BE] and b1 = take_octets_before(2) [OF b0, of 4]
  note t1 = take_octets_before(1) [OF b1, of 12 "\<lambda>b. b"] and b2 = take_octets_before(2) [OF b1, of 12]
  note t2 = take_octets_before(1) [OF b2, of 16 "\<lambda>b. b"] and b3 = take_octets_before(2) [OF b2, of 16]
  note t3 = take_octets_before(1) [OF b3, of "length x - 32" "\<lambda>b. b"]
  have rem: "32 \<le> length x \<Longrightarrow> remaining ?r3 = length x - 32" by (simp add: remaining_def new_ByteReader_def)
  consider "length x < 4" | "4 \<le> length x" "length x < 16" | "16 \<le> length x" "length x < 32" | "32 \<le> length x" by linarith
  then show ?thesis
  proof cases
    case 4
    then show ?thesis using t0 t1 t2 t3 rem
      by (auto simp: open_sealed_def r_u32_def r_raw_def stp_constants add.commute split: option.splits if_splits)
  qed (use t0 t1 t2 in \<open>auto simp: open_sealed_def r_u32_def r_raw_def stp_constants\<close>)
qed

lemma crypto_encrypt_lengths:
  assumes "crypto_ok C" "cr_encrypt C k iv a p = (ct, tag)"
  shows "length ct = length p" "length tag = TAG_BYTES"
  using assms unfolding crypto_ok_def by (metis fst_conv snd_conv)+

lemma crypto_decrypt: "crypto_ok C \<Longrightarrow> cr_decrypt C k iv a ct t = Some p \<longleftrightarrow> cr_encrypt C k iv a p = (ct, t)"
  by (simp add: crypto_ok_def)

lemma aad_in_step: "in_step s r \<Longrightarrow> aad s = aad r"
  by (intro ext) (simp add: aad_def in_step_def)

lemma readUInt32BE_sealed: "n < 2 ^ 32 \<Longrightarrow> readUInt32BE (take 4 (sealed_bytes n iv tag ct)) = n"
  using read_write_32 [of "word_of_nat n" "[]"]
  by (simp add: sealed_bytes_def u32_bytes_def unat_of_nat take_bit_nat_eq_self)

lemma opened_iff_sealed:
  assumes "crypto_ok C" "in_step s r" "length p \<le> MAX_PLAINTEXT" "sendSeq s < MAX_SEQ"
  shows "open_sealed C x r = (r\<lparr>recvSeq := recvSeq r + 1\<rparr>, Inr p) \<longleftrightarrow> seal C p s = (s\<lparr>sendSeq := sendSeq s + 1\<rparr>, Inr x)"
proof -
  define iv where "iv = session_iv (decIvBase r) (recvSeq r)"
  have st: "encKey s = decKey r" "session_iv (encIvBase s) (sendSeq s) = iv" "sendDir s = recvDir r" "sendSeq s = recvSeq r" "aad s = aad r"
    using assms(2) aad_in_step [OF assms(2)] by (simp_all add: in_step_def iv_def)
  have iv: "length iv = IV_BYTES" by (simp add: iv_def)
  show ?thesis
  proof
    assume "open_sealed C x r = (r\<lparr>recvSeq := recvSeq r + 1\<rparr>, Inr p)"
    then have o: "32 \<le> length x" "readUInt32BE (take 4 x) = recvSeq r" "take IV_BYTES (drop 4 x) = iv"
      "cr_encrypt C (decKey r) iv (aad r (recvDir r) (recvSeq r) (length (drop 32 x))) p = (drop 32 x, take TAG_BYTES (drop 16 x))"
      by (simp_all only: open_eq iv_def crypto_decrypt [OF assms(1)])
    note l = crypto_encrypt_lengths [OF assms(1) o(4)]
    have "x = sealed_bytes (recvSeq r) iv (take TAG_BYTES (drop 16 x)) (drop 32 x)"
      using sealed_split [OF iv l(2), of x "drop 32 x"] o by simp
    with o(4) l assms(3,4) st show "seal C p s = (s\<lparr>sendSeq := sendSeq s + 1\<rparr>, Inr x)" by (auto simp: seal_eq)
  next
    assume "seal C p s = (s\<lparr>sendSeq := sendSeq s + 1\<rparr>, Inr x)"
    then obtain ct tag where e: "cr_encrypt C (decKey r) iv (aad r (recvDir r) (recvSeq r) (length p)) p = (ct, tag)"
      "x = sealed_bytes (recvSeq r) iv tag ct" using st by (auto simp: seal_eq)
    note l = crypto_encrypt_lengths [OF assms(1) e(1)]
    have seq: "readUInt32BE (take 4 x) = recvSeq r" unfolding e(2) using assms(4) st(4) by (intro readUInt32BE_sealed) (simp add: MAX_SEQ_def)
    with e(2) sealed_split [OF iv l(2), of x ct] have "32 \<le> length x" "take IV_BYTES (drop 4 x) = iv" "take TAG_BYTES (drop 16 x) = tag"
      "drop 32 x = ct" by simp_all
    with seq e(1) l assms(3) show "open_sealed C x r = (r\<lparr>recvSeq := recvSeq r + 1\<rparr>, Inr p)"
      by (simp only: open_eq crypto_decrypt [OF assms(1)] iv_def [symmetric]) simp
  qed
qed

lemma open_advances: "open_sealed C x r = (r', Inr p) \<Longrightarrow> r' = r\<lparr>recvSeq := recvSeq r + 1\<rparr>"
  by (simp only: open_eq)

lemma seal_advances: "seal C p s = (s', Inr x) \<Longrightarrow> s' = s\<lparr>sendSeq := sendSeq s + 1\<rparr>"
  by (simp only: seal_eq)

fun seal_all :: "crypto \<Rightarrow> bytes list \<Rightarrow> secure_session \<Rightarrow> bytes list option" where
  "seal_all C [] s = Some []"
| "seal_all C (p # ps) s = (case seal C p s of (_, Inl e) \<Rightarrow> None | (s, Inr x) \<Rightarrow> map_option (Cons x) (seal_all C ps s))"

fun open_all :: "crypto \<Rightarrow> bytes list \<Rightarrow> secure_session \<Rightarrow> bytes list option" where
  "open_all C [] r = Some []"
| "open_all C (x # xs) r = (case open_sealed C x r of (_, Inl e) \<Rightarrow> None | (r, Inr p) \<Rightarrow> map_option (Cons p) (open_all C xs r))"

lemma in_step_next: "in_step s r \<Longrightarrow> in_step (s\<lparr>sendSeq := sendSeq s + 1\<rparr>) (r\<lparr>recvSeq := recvSeq r + 1\<rparr>)"
  by (simp add: in_step_def)

lemma open_all_iff:
  assumes "crypto_ok C" "in_step s r" "list_all (\<lambda>p. length p \<le> MAX_PLAINTEXT) ps" "sendSeq s + length ps \<le> MAX_SEQ"
  shows "open_all C xs r = Some ps \<longleftrightarrow> seal_all C ps s = Some xs"
  using assms
proof (induction ps arbitrary: xs s r)
  case Nil
  then show ?case by (cases xs) (auto split: prod.splits sum.splits)
next
  case (Cons p ps)
  note step = in_step_next [OF Cons.prems(2)]
  show ?case
  proof (cases xs)
    case Nil
    then show ?thesis by (auto split: prod.splits sum.splits)
  next
    case xs: (Cons x ys)
    have "open_all C ys (r\<lparr>recvSeq := recvSeq r + 1\<rparr>) = Some ps \<longleftrightarrow> seal_all C ps (s\<lparr>sendSeq := sendSeq s + 1\<rparr>) = Some ys"
      using Cons.prems by (intro Cons.IH step) simp_all
    moreover have "open_sealed C x r = (r\<lparr>recvSeq := recvSeq r + 1\<rparr>, Inr p) \<longleftrightarrow> seal C p s = (s\<lparr>sendSeq := sendSeq s + 1\<rparr>, Inr x)"
      using Cons.prems by (intro opened_iff_sealed) simp_all
    moreover have "open_all C xs r = Some (p # ps) \<longleftrightarrow>
        open_sealed C x r = (r\<lparr>recvSeq := recvSeq r + 1\<rparr>, Inr p) \<and> open_all C ys (r\<lparr>recvSeq := recvSeq r + 1\<rparr>) = Some ps"
      by (auto simp: xs split: prod.splits sum.splits dest: open_advances)
    moreover have "seal_all C (p # ps) s = Some xs \<longleftrightarrow>
        seal C p s = (s\<lparr>sendSeq := sendSeq s + 1\<rparr>, Inr x) \<and> seal_all C ps (s\<lparr>sendSeq := sendSeq s + 1\<rparr>) = Some ys"
      by (auto simp: xs split: prod.splits sum.splits dest: seal_advances)
    ultimately show ?thesis by simp
  qed
qed

lemma seal_all_total:
  "list_all (\<lambda>p. length p \<le> MAX_PLAINTEXT) ps \<Longrightarrow> sendSeq s + length ps \<le> MAX_SEQ \<Longrightarrow> \<exists>xs. seal_all C ps s = Some xs"
proof (induction ps arbitrary: s)
  case (Cons p ps)
  obtain x where "seal C p s = (s\<lparr>sendSeq := sendSeq s + 1\<rparr>, Inr x)"
    using Cons.prems by (auto simp: seal_eq) (metis surj_pair)
  with Cons.IH [of "s\<lparr>sendSeq := sendSeq s + 1\<rparr>"] Cons.prems show ?case by auto
qed simp

lemma session_iv_inj:
  assumes "session_iv base i = session_iv base j" "i < 2 ^ 32" "j < 2 ^ 32"
  shows "i = j"
proof -
  let ?ctr = "\<lambda>n. replicate (IV_BYTES - 4) (0 :: byte) @ writeUInt32BE (word_of_nat n)"
  have "?ctr i ! k = ?ctr j ! k" if "k < IV_BYTES" for k
  proof -
    have "session_iv base i ! k = session_iv base j ! k" using assms(1) by simp
    then have "(if k < length base then base ! k else 0) XOR (?ctr i ! k) = (if k < length base then base ! k else 0) XOR (?ctr j ! k)"
      using that unfolding session_iv_def Let_def by (subst (asm) (1 2) nth_map_upt) (simp_all only: diff_zero add_0)
    then show ?thesis by (metis (no_types, lifting) bit.xor_left_self)
  qed
  then have "?ctr i = ?ctr j" by (intro nth_equalityI) (simp_all add: IV_BYTES_def)
  then have "u32_bytes i @ [] = u32_bytes j @ []" by (simp add: u32_bytes_def)
  then have "unat (word_of_nat i :: 32 word) = unat (word_of_nat j :: 32 word)" unfolding u32_bytes_def by (metis read_write_32)
  with assms(2,3) show ?thesis by (simp add: unat_of_nat take_bit_nat_eq_self)
qed

text \<open>The initialisation vector a sealed buffer carries.\<close>

definition sealed_iv :: "bytes \<Rightarrow> bytes" where
  "sealed_iv x = take IV_BYTES (drop 4 x)"

lemma sealed_ivs:
  "seal_all C ps s = Some xs \<Longrightarrow> map sealed_iv xs = map (\<lambda>i. session_iv (encIvBase s) (sendSeq s + i)) [0..<length ps]"
proof (induction ps arbitrary: s xs)
  case (Cons p ps)
  from Cons.prems obtain x ys where x: "seal C p s = (s\<lparr>sendSeq := sendSeq s + 1\<rparr>, Inr x)" "xs = x # ys"
    "seal_all C ps (s\<lparr>sendSeq := sendSeq s + 1\<rparr>) = Some ys" by (auto split: prod.splits sum.splits dest: seal_advances)
  then have "sealed_iv x = session_iv (encIvBase s) (sendSeq s)" by (auto simp: seal_eq sealed_iv_def sealed_bytes_def u32_bytes_def)
  with x(2) Cons.IH [OF x(3)] show ?case
    by (simp add: upt_conv_Cons map_Suc_upt [symmetric] del: upt_Suc)
qed simp

lemma seal_all_bound: "seal_all C ps s = Some xs \<Longrightarrow> ps \<noteq> [] \<Longrightarrow> sendSeq s + length ps \<le> MAX_SEQ"
proof (induction ps arbitrary: s xs)
  case (Cons p ps)
  from Cons.prems obtain x ys where "seal C p s = (s\<lparr>sendSeq := sendSeq s + 1\<rparr>, Inr x)"
    "seal_all C ps (s\<lparr>sendSeq := sendSeq s + 1\<rparr>) = Some ys" by (auto split: prod.splits sum.splits dest: seal_advances)
  with Cons.IH [of "s\<lparr>sendSeq := sendSeq s + 1\<rparr>" ys] show ?case by (cases "ps = []") (auto simp: seal_eq)
qed simp

text \<open>C39: No initialisation vector is used twice under one key: whatever one end of a session seals, its buffers carry
  pairwise different vectors, and after 4294967295 buffers sealing is refused before the counter wraps.\<close>

theorem nonces_never_reused:
  "(\<forall>ps xs. seal_all C ps (new_SecureSession keys connId role) = Some xs \<longrightarrow> distinct (map sealed_iv xs) \<and> length xs \<le> 4294967295) \<and>
   (\<forall>s p. 4294967295 \<le> sendSeq s \<longrightarrow> length p \<le> MAX_PLAINTEXT \<longrightarrow> seal C p s = (s, Inl Seq_Overflow))"
proof (intro conjI allI impI)
  fix ps xs
  let ?s = "new_SecureSession keys connId role"
  assume sealed: "seal_all C ps ?s = Some xs"
  have z: "sendSeq ?s = 0" by (simp add: new_SecureSession_def split: session_role.splits)
  have len: "length xs = length ps" using arg_cong [OF sealed_ivs [OF sealed], of length] by simp
  have bound: "length ps \<le> MAX_SEQ" using seal_all_bound [OF sealed] z by (cases "ps = []") auto
  then have "inj_on (\<lambda>i. session_iv (encIvBase ?s) (sendSeq ?s + i)) {0..<length ps}"
    by (auto simp: inj_on_def z MAX_SEQ_def intro: session_iv_inj)
  then show "distinct (map sealed_iv xs)" unfolding sealed_ivs [OF sealed] by (simp add: distinct_map)
  show "length xs \<le> 4294967295" using bound len by (simp add: MAX_SEQ_def)
qed (simp add: seal_def MAX_SEQ_def)

lemma sealed_stream_exact:
  assumes "crypto_ok C" "list_all (\<lambda>p. length p \<le> MAX_PLAINTEXT) ps" "length ps < 2 ^ 32 - 1"
    and "s = new_SecureSession keys connId role"
    and "r = new_SecureSession keys connId (if role = Client_Role then Server_Role else Client_Role)"
  shows "(open_all C xs r = Some ps \<longleftrightarrow> seal_all C ps s = Some xs) \<and> (\<exists>ys. seal_all C ps s = Some ys \<and> open_all C ys r = Some ps)"
proof -
  have step: "in_step s r" unfolding assms(4,5) by (cases role) (simp_all add: new_sessions_in_step)
  have "sendSeq s = 0" unfolding assms(4) by (simp add: new_SecureSession_def split: session_role.splits)
  then have bound: "sendSeq s + length ps \<le> MAX_SEQ" using assms(3) by (simp add: MAX_SEQ_def)
  from open_all_iff [OF assms(1) step assms(2) bound] seal_all_total [OF assms(2) bound, of C] show ?thesis by blast
qed

section \<open>Integrity of the stream\<close>

text \<open>
  What the authenticated encryption of the runtime promises to whoever does not hold the key: a ciphertext and tag that
  decrypt at some vector and associated data were made by encrypting that plaintext there. \<open>encrypted_by s ps\<close> are the
  encryptions the sender performs while sealing \<open>ps\<close>; a buffer is unforged when its ciphertext and tag decrypt, at any
  sequence number the receiver may expect, only as one of them.
\<close>

definition encrypted_by :: "secure_session \<Rightarrow> bytes list \<Rightarrow> (bytes \<times> bytes \<times> bytes) set" where
  "encrypted_by s ps =
     (\<lambda>i. (session_iv (encIvBase s) i, aad s (sendDir s) i (length (ps ! i)), ps ! i)) ` {..<length ps}"

definition unforged :: "crypto \<Rightarrow> secure_session \<Rightarrow> (bytes \<times> bytes \<times> bytes) set \<Rightarrow> bytes \<Rightarrow> bool" where
  "unforged C r made x \<longleftrightarrow> (\<forall>n p. n < 2 ^ 32 \<longrightarrow>
     (let iv = session_iv (decIvBase r) n; a = aad r (recvDir r) n (length (drop 32 x)) in
      cr_decrypt C (decKey r) iv a (drop 32 x) (take TAG_BYTES (drop 16 x)) = Some p \<longrightarrow> (iv, a, p) \<in> made))"

lemma unforged_seq [simp]: "unforged C (r\<lparr>recvSeq := n\<rparr>) made x = unforged C r made x"
  by (simp add: unforged_def aad_def)

lemma opened_unforged:
  assumes "open_sealed C x r = (r', Inr p)" "unforged C r (encrypted_by s ps) x" "encIvBase s = decIvBase r"
    and "recvSeq r < 2 ^ 32" "length ps \<le> MAX_SEQ"
  shows "recvSeq r < length ps \<and> p = ps ! recvSeq r"
proof -
  let ?iv = "session_iv (decIvBase r) (recvSeq r)"
  obtain a where "(?iv, a, p) \<in> encrypted_by s ps"
    using assms(1,2,4) unfolding open_eq unforged_def Let_def by blast
  then obtain i where i: "i < length ps" "session_iv (decIvBase r) i = ?iv" "p = ps ! i"
    by (auto simp: encrypted_by_def assms(3))
  then have "i = recvSeq r" using assms(4,5) by (intro session_iv_inj [OF i(2)]) (simp_all add: MAX_SEQ_def)
  with i show ?thesis by simp
qed

lemma open_all_unforged:
  assumes "open_all C xs r = Some qs" "\<forall>x\<in>set xs. unforged C r (encrypted_by s ps) x" "encIvBase s = decIvBase r"
    and "recvSeq r \<le> length ps" "length ps \<le> MAX_SEQ"
  shows "qs = take (length xs) (drop (recvSeq r) ps)"
  using assms
proof (induction xs arbitrary: r qs)
  case (Cons x xs)
  from Cons.prems(1) obtain r' p ps' where o: "open_sealed C x r = (r', Inr p)" "open_all C xs r' = Some ps'" "qs = p # ps'"
    by (auto split: prod.splits sum.splits)
  have r': "r' = r\<lparr>recvSeq := recvSeq r + 1\<rparr>" using o(1) by (rule open_advances)
  have "recvSeq r < 2 ^ 32" using Cons.prems(4,5) by (simp add: MAX_SEQ_def)
  then have p: "recvSeq r < length ps" "p = ps ! recvSeq r"
    using opened_unforged [OF o(1)] Cons.prems by auto
  have "ps' = take (length xs) (drop (recvSeq r + 1) ps)"
    using Cons.IH [OF o(2)] Cons.prems p by (simp add: r')
  with o(3) p show ?case by (simp add: Cons_nth_drop_Suc [symmetric])
qed simp

lemma seal_all_take: "seal_all C ps s = Some ys \<Longrightarrow> seal_all C (take n ps) s = Some (take n ys)"
proof (induction ps arbitrary: n s ys)
  case (Cons p ps)
  then show ?case by (cases n) (auto split: prod.splits sum.splits)
qed simp

lemma seal_all_sizes: "seal_all C ps s = Some ys \<Longrightarrow> list_all (\<lambda>p. length p \<le> MAX_PLAINTEXT) ps"
  by (induction ps arbitrary: s ys) (auto simp: seal_eq split: prod.splits sum.splits)

lemma unforged_prefix:
  assumes "crypto_ok C" "in_step s r" "sendSeq s = 0" "seal_all C ps s = Some ys"
    and "\<forall>x\<in>set xs. unforged C r (encrypted_by s ps) x" "open_all C xs r = Some qs"
  shows "length xs \<le> length ys \<and> xs = take (length xs) ys \<and> qs = take (length xs) ps \<and> open_all C ys r = Some ps"
proof -
  have z: "recvSeq r = 0" "encIvBase s = decIvBase r" using assms(2,3) by (simp_all add: in_step_def)
  have bound: "length ps \<le> MAX_SEQ" using seal_all_bound [OF assms(4)] assms(3) by (cases "ps = []") auto
  note sizes = seal_all_sizes [OF assms(4)]
  have qs: "qs = take (length xs) ps" using open_all_unforged [OF assms(6,5)] z bound by simp
  have "list_all (\<lambda>p. length p \<le> MAX_PLAINTEXT) qs" using sizes unfolding qs by (auto simp: list_all_iff dest: in_set_takeD)
  then have "seal_all C qs s = Some xs"
    using open_all_iff [OF assms(1,2), of qs xs] assms(3,6) bound by (simp add: qs)
  then have xs: "xs = take (length xs) ys" using seal_all_take [OF assms(4), of "length xs"] by (simp add: qs)
  have "open_all C ys r = Some ps" using open_all_iff [OF assms(1,2) sizes, of ys] assms(3,4) bound by simp
  moreover have "length xs \<le> length ys" using arg_cong [OF xs, of length] by simp
  ultimately show ?thesis using xs qs by simp
qed

text \<open>C33: Integrity of a sealed session. The sender seals \<open>ps\<close> into \<open>ys\<close>. Whatever buffers reach the other end, as long as no
  ciphertext is a forgery against the authenticated encryption, the ones it accepts are an initial part of \<open>ys\<close> in the
  sender's order, and they open to the corresponding initial part of \<open>ps\<close>: a buffer that is repeated, left out, moved or
  given another header is refused. And the sender's own buffers are all accepted.\<close>

theorem sealed_stream_integrity:
  assumes "crypto_ok C" "s = new_SecureSession keys connId role"
    and "r = new_SecureSession keys connId (if role = Client_Role then Server_Role else Client_Role)"
    and "seal_all C ps s = Some ys" "\<forall>x\<in>set xs. unforged C r (encrypted_by s ps) x" "open_all C xs r = Some qs"
  shows "length xs \<le> length ys \<and> xs = take (length xs) ys \<and> qs = take (length xs) ps \<and> open_all C ys r = Some ps"
proof (rule unforged_prefix [OF assms(1) _ _ assms(4-6)])
  show "in_step s r" unfolding assms(2,3) by (cases role) (simp_all add: new_sessions_in_step)
  show "sendSeq s = 0" unfolding assms(2) by (simp add: new_SecureSession_def split: session_role.splits)
qed

section \<open>What a finished handshake proves\<close>

lemma parsed_hello_ok:
  assumes "parseClientHello b = Inr h" "3 * length b < 65536"
  shows "hello_ok h"
proof -
  from assms(1) obtain r' where "read_client_hello (new_ByteReader b) = (r', Inr h)" by (auto simp: parseClientHello_def) (metis prod.collapse)
  moreover have "rd_buf (new_ByteReader b) = b" by (simp add: new_ByteReader_def)
  ultimately show ?thesis using assms(2) unfolding read_client_hello_def
    by (auto simp: andThen_eq_Inr hello_ok_def short_str_def split: if_splits dest!: reader_results)
qed

lemma encoded_hello_inj:
  assumes "hello_ok h1" "hello_ok h2" "encodeClientHello h1 @ x = encodeClientHello h2 @ y"
  shows "h1 = h2 \<and> x = y"
proof -
  obtain r1 where 1: "read_client_hello (new_ByteReader (encodeClientHello h1 @ x)) = (r1, Inr h1)" "before r1 x"
    using yieldsD [OF yields_client_hello [OF assms(1)] before_new] by blast
  obtain r2 where 2: "read_client_hello (new_ByteReader (encodeClientHello h2 @ y)) = (r2, Inr h2)" "before r2 y"
    using yieldsD [OF yields_client_hello [OF assms(2)] before_new] by blast
  from 1 2 assms(3) show ?thesis by (auto simp: before_def)
qed

definition server_hello_ok :: "server_hello \<Rightarrow> bool" where
  "server_hello_ok sh \<longleftrightarrow> sh_stpVersion sh < 256 \<and> sh_keyVersion sh < 2 ^ 32 \<and> sh_selectedSuite sh < 2 ^ 16
     \<and> length (sh_serverNonce sh) = NONCE_BYTES \<and> short_str (sh_brokerInstanceId sh)"

lemma parsed_server_hello_ok:
  assumes "parseServerHello b = Inr sh" "3 * length b < 65536"
  shows "server_hello_ok sh"
proof -
  from assms(1) obtain r' where "read_server_hello (new_ByteReader b) = (r', Inr sh)" by (auto simp: parseServerHello_def) (metis prod.collapse)
  moreover have "rd_buf (new_ByteReader b) = b" by (simp add: new_ByteReader_def)
  ultimately show ?thesis using assms(2) unfolding read_server_hello_def
    by (auto simp: andThen_eq_Inr server_hello_ok_def short_str_def split: if_splits dest!: reader_results)
qed

lemma server_core_inj:
  assumes "v < 256" "k < 2 ^ 32" "su < 2 ^ 16" "length n = NONCE_BYTES" "short_str i"
    and "v' < 256" "k' < 2 ^ 32" "su' < 2 ^ 16" "length n' = NONCE_BYTES" "short_str i'"
    and "encodeServerHelloCore v k su n i = encodeServerHelloCore v' k' su' n' i'"
  shows "v = v' \<and> k = k' \<and> su = su' \<and> n = n' \<and> i = i'"
proof -
  have z: "length (replicate 32 0 :: bytes) = PROOF_BYTES" by (simp add: PROOF_BYTES_def)
  from trans [OF parse_encoded_server_hello [OF assms(1-5) z, unfolded assms(11), symmetric] parse_encoded_server_hello [OF assms(6-10) z]]
  show ?thesis by simp
qed

section \<open>A sample run\<close>

text \<open>Primitives that satisfy the laws, without any secrecy, and the parameters of a sample handshake.\<close>

definition sample_crypto :: crypto where
  "sample_crypto =
     \<lparr>cr_sha256 = (\<lambda>m. m), cr_hmac = (\<lambda>k m. take PROOF_BYTES (m @ replicate PROOF_BYTES 0)),
      cr_hkdf = (\<lambda>ikm salt info n. take n (ikm @ salt @ info @ replicate n 0)),
      cr_encrypt = (\<lambda>k iv a p. (p, take TAG_BYTES (iv @ replicate TAG_BYTES 0))),
      cr_decrypt = (\<lambda>k iv a ct t. if t = take TAG_BYTES (iv @ replicate TAG_BYTES 0) then Some ct else None)\<rparr>"

lemma sample_crypto_ok: "crypto_ok sample_crypto"
  by (auto simp: crypto_ok_def sample_crypto_def)

definition sample_identity :: hello_identity where
  "sample_identity = \<lparr>hi_buildId = js ''dev'', hi_appProtoRange = js ''1-1'', hi_claimedRole = js ''mcp'', hi_claimedSessionId = [],
     hi_claimedEpoch = 0, hi_capabilities = []\<rparr>"

definition sample_start :: "client_handshake_state \<times> bytes" where
  "sample_start = startClientHandshake 1 sample_identity (replicate 32 2) (replicate 16 3)"

lemma sample_hello_ok: "hello_ok (hs_hello (fst sample_start))"
  by (simp add: hello_ok_def sample_start_def startClientHandshake_def sample_identity_def Let_def short_str_def stp_constants
      high_surrogate_def low_surrogate_def)

lemma sample_broker_short: "short_str (js ''broker'')"
  by (simp add: short_str_def high_surrogate_def low_surrogate_def)

definition finish_input :: "crypto \<Rightarrow> derived_keys \<Rightarrow> bytes \<Rightarrow> bytes \<times> bytes" where
  "finish_input C keys transcript = (mk_client keys, utf8_encode (js ''client-finished'') @ cr_sha256 C transcript)"

lemma clientFinish_result:
  assumes "clientFinish C root state sh = Inr fin"
  shows "sh_stpVersion sh = STP_VERSION" "sh_selectedSuite sh = SUITE_AES256_GCM"
    "cf_keys fin = deriveAll C root (ch_clientNonce (hs_hello state)) (sh_serverNonce sh)
       (buildContext (cr_sha256 C (client_transcript state sh)) (sh_brokerInstanceId sh) (hs_hello state) SUITE_AES256_GCM)"
    "cf_clientProof fin = case_prod (cr_hmac C) (finish_input C (cf_keys fin) (client_transcript state sh))"
    "cf_connId fin = ch_connId (hs_hello state)"
  using assms by (auto simp: clientFinish_def Let_def client_transcript_def finish_input_def proof_of_def split: if_splits)

lemma serverHandshake_result:
  assumes "serverHandshake C root broker hello nonce = Inr sv"
  shows "sv_keys sv = deriveAll C root (ch_clientNonce hello) nonce
       (buildContext (cr_sha256 C (server_transcript hello broker nonce)) broker hello SUITE_AES256_GCM)"
    "serverVerifyFinish C (sv_keys sv) (sv_th sv) pr = None \<longleftrightarrow>
       pr = case_prod (cr_hmac C) (finish_input C (sv_keys sv) (server_transcript hello broker nonce))"
  using assms by (auto simp: serverHandshake_def Let_def server_transcript_def finish_input_def proof_of_def serverVerifyFinish_def split: if_splits)

text \<open>C38: Two honest ends with the same root secret complete the handshake and agree: the server parses the hello the
  client sent, the client accepts the server hello, the server accepts the client's proof, and both hold the same
  keys and connection id.\<close>

theorem handshake_agreement:
  assumes "crypto_ok C"
    and "startClientHandshake keyVersion identity clientNonce connId = (state, helloBytes)"
    and "hello_ok (hs_hello state)" "length serverNonce = NONCE_BYTES" "short_str brokerInstanceId"
  shows "\<exists>hello sv sh fin. parseClientHello helloBytes = Inr hello
    \<and> serverHandshake C root brokerInstanceId hello serverNonce = Inr sv
    \<and> parseServerHello (sv_serverHelloBytes sv) = Inr sh
    \<and> clientFinish C root state sh = Inr fin
    \<and> serverVerifyFinish C (sv_keys sv) (sv_th sv) (cf_clientProof fin) = None
    \<and> cf_keys fin = sv_keys sv \<and> cf_connId fin = ch_connId hello"
  using honest_handshake [OF assms] by blast

theorem handshake_agreement_witness:
  "\<exists>hello sv sh fin. parseClientHello (snd sample_start) = Inr hello
    \<and> serverHandshake sample_crypto (replicate 32 1) (js ''broker'') hello (replicate 32 4) = Inr sv
    \<and> parseServerHello (sv_serverHelloBytes sv) = Inr sh
    \<and> clientFinish sample_crypto (replicate 32 1) (fst sample_start) sh = Inr fin
    \<and> serverVerifyFinish sample_crypto (sv_keys sv) (sv_th sv) (cf_clientProof fin) = None
    \<and> cf_keys fin = sv_keys sv \<and> cf_connId fin = ch_connId hello"
  by (rule handshake_agreement [OF sample_crypto_ok _ sample_hello_ok _ sample_broker_short])
    (simp_all add: sample_start_def NONCE_BYTES_def)

text \<open>C37: A finished handshake binds both ends to one transcript, whatever happened to the messages on the way: if the
  client accepted some server hello and the server accepted the client's proof, and the hash and the proof
  function do not collide on the two transcripts, then the server parsed exactly the hello the client sent (role,
  session, epoch, build, suites, nonce and connection id), the client saw the server's nonce and instance id, and
  both derived the same keys. A downgraded or substituted hello cannot finish.\<close>

theorem finished_handshake_binds:
  assumes "startClientHandshake keyVersion identity clientNonce connId = (state, sent)" "hello_ok (hs_hello state)"
    and "parseClientHello received = Inr hello" "3 * length received < 2 ^ 16"
    and "serverHandshake C root broker hello serverNonce = Inr sv" "length serverNonce = NONCE_BYTES" "short_str broker"
    and "parseServerHello answer = Inr sh" "3 * length answer < 2 ^ 16"
    and "clientFinish C root state sh = Inr fin"
    and "serverVerifyFinish C (sv_keys sv) (sv_th sv) (cf_clientProof fin) = None"
    and "inj_on (cr_sha256 C) {client_transcript state sh, server_transcript hello broker serverNonce}"
    and "inj_on (case_prod (cr_hmac C)) {finish_input C (cf_keys fin) (client_transcript state sh),
           finish_input C (sv_keys sv) (server_transcript hello broker serverNonce)}"
  shows "hello = hs_hello state \<and> sh_serverNonce sh = serverNonce \<and> sh_brokerInstanceId sh = broker
    \<and> cf_keys fin = sv_keys sv \<and> cf_connId fin = ch_connId hello"
proof -
  have ok: "hello_ok hello" "server_hello_ok sh"
    using parsed_hello_ok [OF assms(3)] parsed_server_hello_ok [OF assms(8)] assms(4,9) by simp_all
  note c = clientFinish_result [OF assms(10)] and v = serverHandshake_result [OF assms(5)]
  have "finish_input C (cf_keys fin) (client_transcript state sh) = finish_input C (sv_keys sv) (server_transcript hello broker serverNonce)"
    using trans [OF c(4) [symmetric] iffD1 [OF v(2) assms(11)]] by (rule inj_onD [OF assms(13)]) simp_all
  then have "cr_sha256 C (client_transcript state sh) = cr_sha256 C (server_transcript hello broker serverNonce)"
    by (simp only: finish_input_def prod.inject same_append_eq)
  then have t: "client_transcript state sh = server_transcript hello broker serverNonce" by (rule inj_onD [OF assms(12)]) simp_all
  have "hs_helloBytes state = encodeClientHello (hs_hello state)" using assms(1) by (auto simp: startClientHandshake_def Let_def)
  with t encoded_hello_inj [OF assms(2) ok(1)] have h: "hs_hello state = hello" and core:
    "encodeServerHelloCore (sh_stpVersion sh) (sh_keyVersion sh) (sh_selectedSuite sh) (sh_serverNonce sh) (sh_brokerInstanceId sh)
      = encodeServerHelloCore STP_VERSION (ch_keyVersion hello) SUITE_AES256_GCM serverNonce broker"
    by (auto simp: client_transcript_def server_transcript_def)
  have "STP_VERSION < 256" "ch_keyVersion hello < 2 ^ 32" "SUITE_AES256_GCM < 2 ^ 16" using ok(1) by (simp_all add: stp_constants hello_ok_def)
  from server_core_inj [OF _ _ _ _ _ this assms(6,7) core] ok(2)
  have "sh_serverNonce sh = serverNonce" "sh_brokerInstanceId sh = broker" by (auto simp: server_hello_ok_def)
  with h c v(1) t show ?thesis by simp
qed

theorem finished_handshake_binds_witness:
  "\<exists>hello sh sv fin. serverHandshake sample_crypto (replicate 32 1) (js ''broker'') hello (replicate 32 4) = Inr sv
    \<and> clientFinish sample_crypto (replicate 32 1) (fst sample_start) sh = Inr fin
    \<and> hello = hs_hello (fst sample_start) \<and> sh_serverNonce sh = replicate 32 4 \<and> sh_brokerInstanceId sh = js ''broker''
    \<and> cf_keys fin = sv_keys sv \<and> cf_connId fin = ch_connId hello"
proof -
  have start: "startClientHandshake 1 sample_identity (replicate 32 2) (replicate 16 3) = (fst sample_start, snd sample_start)"
    by (simp add: sample_start_def)
  have n: "length (replicate 32 4 :: bytes) = NONCE_BYTES" by (simp add: NONCE_BYTES_def)
  obtain hello sv sh fin where run: "parseClientHello (snd sample_start) = Inr hello"
    "serverHandshake sample_crypto (replicate 32 1) (js ''broker'') hello (replicate 32 4) = Inr sv"
    "parseServerHello (sv_serverHelloBytes sv) = Inr sh"
    "clientFinish sample_crypto (replicate 32 1) (fst sample_start) sh = Inr fin"
    "serverVerifyFinish sample_crypto (sv_keys sv) (sv_th sv) (cf_clientProof fin) = None"
    and eq: "cf_keys fin = sv_keys sv" "client_transcript (fst sample_start) sh = server_transcript hello (js ''broker'') (replicate 32 4)"
    and len: "length (sv_serverHelloBytes sv) = 73 + length (utf8_encode (js ''broker''))"
    using honest_handshake [OF sample_crypto_ok start sample_hello_ok n sample_broker_short, of "replicate 32 1"] by blast
  have "3 * length (snd sample_start) < 2 ^ 16"
    by (simp add: sample_start_def startClientHandshake_def sample_identity_def Let_def encodeClientHello_def write_simps
        prefixed_def u16_bytes_def u32_bytes_def STP_MAGIC_def stp_constants)
  moreover have "3 * length (sv_serverHelloBytes sv) < 2 ^ 16" using len by simp
  ultimately have "hello = hs_hello (fst sample_start) \<and> sh_serverNonce sh = replicate 32 4 \<and> sh_brokerInstanceId sh = js ''broker''
      \<and> cf_keys fin = sv_keys sv \<and> cf_connId fin = ch_connId hello"
    by (rule_tac finished_handshake_binds [OF start sample_hello_ok run(1) _ run(2) n sample_broker_short run(3) _ run(4,5)])
      (simp_all only: eq insert_absorb2 inj_on_empty inj_on_insert Diff_cancel empty_Diff image_empty empty_iff not_False_eq_True simp_thms)
  with run(2,4) show ?thesis by blast
qed

text \<open>The buffers of an honest sender are no forgeries, even with the sample primitives.\<close>

lemma sealed_nth:
  "seal_all C ps s = Some ys \<Longrightarrow> i < length ps \<Longrightarrow> \<exists>ct tag.
     cr_encrypt C (encKey s) (session_iv (encIvBase s) (sendSeq s + i)) (aad s (sendDir s) (sendSeq s + i) (length (ps ! i))) (ps ! i) = (ct, tag) \<and>
     ys ! i = sealed_bytes (sendSeq s + i) (session_iv (encIvBase s) (sendSeq s + i)) tag ct"
proof (induction ps arbitrary: s ys i)
  case (Cons p ps)
  from Cons.prems(1) obtain x zs where x: "seal C p s = (s\<lparr>sendSeq := sendSeq s + 1\<rparr>, Inr x)" "ys = x # zs"
    "seal_all C ps (s\<lparr>sendSeq := sendSeq s + 1\<rparr>) = Some zs" by (auto split: prod.splits sum.splits dest: seal_advances)
  have aad: "aad (s\<lparr>sendSeq := n\<rparr>) = aad s" for n by (intro ext) (simp add: aad_def)
  show ?case
  proof (cases i)
    case 0
    with x(1,2) show ?thesis by (auto simp: seal_eq)
  next
    case (Suc k)
    with Cons.IH [OF x(3), of k] Cons.prems(2) x(2) show ?thesis by (simp add: aad)
  qed
qed simp

lemma sample_unforged:
  assumes "seal_all sample_crypto ps (new_SecureSession ks cid Client_Role) = Some ys" "x \<in> set ys"
  shows "unforged sample_crypto (new_SecureSession ks cid Server_Role) (encrypted_by (new_SecureSession ks cid Client_Role) ps) x"
proof -
  let ?s = "new_SecureSession ks cid Client_Role" and ?r = "new_SecureSession ks cid Server_Role"
  let ?tag = "\<lambda>i. take TAG_BYTES (session_iv (encIvBase ?s) i @ replicate TAG_BYTES 0)"
  have z: "sendSeq ?s = 0" by (simp add: new_SecureSession_def)
  have fields: "decIvBase ?r = encIvBase ?s" "sendDir ?s = recvDir ?r" "aad ?s = aad ?r"
    using new_sessions_in_step(1) [of ks cid] aad_in_step by (simp_all add: in_step_def)
  have len: "length ys = length ps" using arg_cong [OF sealed_ivs [OF assms(1)], of length] by simp
  have bound: "length ps \<le> MAX_SEQ" using seal_all_bound [OF assms(1)] z by (cases "ps = []") auto
  obtain i where i: "i < length ps" "x = ys ! i" using assms(2) len by (auto simp: in_set_conv_nth)
  then have "x = sealed_bytes i (session_iv (encIvBase ?s) i) (?tag i) (ps ! i)"
    using sealed_nth [OF assms(1) i(1)] by (simp add: z sample_crypto_def)
  then have x: "drop 32 x = ps ! i" "take TAG_BYTES (drop 16 x) = ?tag i"
    by (simp_all add: sealed_bytes_def u32_bytes_def stp_constants)
  have "n = i" if "n < 2 ^ 32" "?tag i = ?tag n" for n
    using that i(1) bound by (intro session_iv_inj [of "encIvBase ?s"]) (simp_all add: stp_constants MAX_SEQ_def)
  then show ?thesis using i(1) x
    by (auto simp: unforged_def encrypted_by_def Let_def fields sample_crypto_def split: if_splits)
qed

text \<open>Two buffers sealed with the sample primitives, and the first of them played twice.\<close>

definition sample_keys :: derived_keys where
  "sample_keys = deriveAll sample_crypto [7] [8] [9] []"

theorem sealed_stream_integrity_witness:
  "\<exists>y1 y2. seal_all sample_crypto [[1, 2], [3]] (new_SecureSession sample_keys [1] Client_Role) = Some [y1, y2] \<and>
     open_all sample_crypto [y1, y2] (new_SecureSession sample_keys [1] Server_Role) = Some [[1, 2], [3]] \<and>
     open_all sample_crypto [y1, y1] (new_SecureSession sample_keys [1] Server_Role) = None"
proof -
  let ?s = "new_SecureSession sample_keys [1] Client_Role" and ?r = "new_SecureSession sample_keys [1] Server_Role"
  obtain ys where ys: "seal_all sample_crypto [[1, 2], [3]] ?s = Some ys"
    using seal_all_total [of "[[1, 2], [3]]" ?s sample_crypto] by (auto simp: MAX_PLAINTEXT_def MAX_SEQ_def new_SecureSession_def)
  have ivs: "map sealed_iv ys = [session_iv (encIvBase ?s) 0, session_iv (encIvBase ?s) 1]"
    using sealed_ivs [OF ys] by (simp add: new_SecureSession_def upt_rec)
  then obtain y1 y2 where y: "ys = [y1, y2]" "sealed_iv y1 = session_iv (encIvBase ?s) 0" "sealed_iv y2 = session_iv (encIvBase ?s) 1"
    by (auto simp: map_eq_Cons_conv)
  then have differ: "y1 \<noteq> y2" using session_iv_inj [of "encIvBase ?s" 0 1] by auto
  note int = sealed_stream_integrity [OF sample_crypto_ok refl refl, where keys = sample_keys and connId = "[1]" and role = Client_Role, simplified, OF ys]
  have all: "open_all sample_crypto ys ?r = Some [[1, 2], [3]]" using int [of "[]" "[]"] by simp
  have "open_all sample_crypto [y1, y1] ?r \<noteq> Some qs" for qs
  proof
    assume "open_all sample_crypto [y1, y1] ?r = Some qs"
    then have "[y1, y1] = take 2 ys" using int [of "[y1, y1]" qs] sample_unforged [OF ys, of y1] y(1) by simp
    then show False using y(1) differ by simp
  qed
  then have "open_all sample_crypto [y1, y1] ?r = None" by blast
  with ys all y(1) show ?thesis by blast
qed

theorem nonces_never_reused_witness:
  "\<exists>xs. seal_all sample_crypto [[1], [1]] (new_SecureSession (deriveAll sample_crypto [7] [8] [9] []) [1] Server_Role) = Some xs
    \<and> distinct (map sealed_iv xs) \<and> length xs \<le> 4294967295"
proof -
  let ?s = "new_SecureSession (deriveAll sample_crypto [7] [8] [9] []) [1] Server_Role"
  obtain xs where xs: "seal_all sample_crypto [[1], [1]] ?s = Some xs"
    using seal_all_total [of "[[1], [1]]" ?s sample_crypto] by (auto simp: MAX_PLAINTEXT_def MAX_SEQ_def new_SecureSession_def)
  with nonces_never_reused [of sample_crypto "deriveAll sample_crypto [7] [8] [9] []" "[1]" Server_Role] show ?thesis by blast
qed

end
