(* ===== verification/Ipc_Client.thy ===== *)
theory Ipc_Client
  imports Base64 Framing Secure_Channel
begin

text \<open>
  The IPC client of \<^verbatim>\<open>src/ipc/client.ts\<close>: the client's side of the handshake, sealed frames in both directions, and requests
  matched to answers by their id. A promise is modelled by the log of what it settled with; the close handlers, which
  belong to the caller, are left out, and frames given to the push handlers are logged.
\<close>

section \<open>State\<close>

record partial_identity =
  pi_buildId :: "js_string option"
  pi_appProtoRange :: "js_string option"
  pi_claimedRole :: "js_string option"
  pi_claimedSessionId :: "js_string option"
  pi_claimedEpoch :: "nat option"
  pi_capabilities :: "js_string option"

text \<open>The options, with the build id of the program and what is taken from the runtime.\<close>

record client_options =
  co_rootSecret :: "bytes option"
  co_keyVersion :: "nat option"
  co_helloIdentity :: partial_identity
  co_buildId :: js_string
  co_crypto :: crypto
  co_number :: "js_string \<Rightarrow> jval"
  co_buffer :: "jval \<Rightarrow> bytes option"

datatype client_error = Client_XBus xerror | Client_Stp stp_error | Client_Throw

datatype socket_state = No_Socket | Socket_Open | Socket_Destroyed

datatype listener = No_Listener | Handshake_Listener client_handshake_state frame_decoder | Frame_Listener

text \<open>
  \<open>cl_handshake\<close> is how the promise of the handshake settled, \<open>cl_settled\<close> how the requests did, \<open>cl_written\<close> what has been
  written to the socket. \<open>cl_uncaught\<close> is set when a handler of the socket throws.
\<close>

record ipc_client =
  cl_socket :: socket_state
  cl_listener :: listener
  cl_decoder :: frame_decoder
  cl_secure :: "secure_session option"
  cl_pending :: "js_string list"
  cl_handshake :: "(client_error + unit) option"
  cl_settled :: "(js_string \<times> (client_error + jval)) list"
  cl_pushed :: "jval list"
  cl_written :: "bytes list"
  cl_uncaught :: bool

definition new_IpcClient :: ipc_client where
  "new_IpcClient =
     \<lparr>cl_socket = No_Socket, cl_listener = No_Listener, cl_decoder = new_FrameDecoder None None, cl_secure = None, cl_pending = [],
      cl_handshake = None, cl_settled = [], cl_pushed = [], cl_written = [], cl_uncaught = False\<rparr>"

definition destroy :: "ipc_client \<Rightarrow> ipc_client" where
  "destroy c = c\<lparr>cl_socket := (if cl_socket c = No_Socket then No_Socket else Socket_Destroyed)\<rparr>"

definition client_write :: "bytes \<Rightarrow> ipc_client \<Rightarrow> ipc_client" where
  "client_write bs c = (if cl_socket c = Socket_Open then c\<lparr>cl_written := cl_written c @ [bs]\<rparr> else c)"

definition settle :: "js_string \<Rightarrow> client_error + jval \<Rightarrow> ipc_client \<Rightarrow> ipc_client" where
  "settle i r c = c\<lparr>cl_pending := filter (\<lambda>j. j \<noteq> i) (cl_pending c), cl_settled := cl_settled c @ [(i, r)]\<rparr>"

section \<open>The handshake\<close>

definition hello_identity_of :: "client_options \<Rightarrow> hello_identity" where
  "hello_identity_of K =
     (let h = co_helloIdentity K; default = (\<lambda>v d. case v of None \<Rightarrow> d | Some x \<Rightarrow> x) in
      \<lparr>hi_buildId = default (pi_buildId h) (co_buildId K),
       hi_appProtoRange = default (pi_appProtoRange h) (js ''1-1''),
       hi_claimedRole = default (pi_claimedRole h) (js ''mcp''),
       hi_claimedSessionId = default (pi_claimedSessionId h) [],
       hi_claimedEpoch = (case pi_claimedEpoch h of None \<Rightarrow> 0 | Some n \<Rightarrow> n),
       hi_capabilities = default (pi_capabilities h) []\<rparr>)"

definition hello_message :: "string \<Rightarrow> bytes \<Rightarrow> jval" where
  "hello_message h d = JObj [(js ''h'', JStr (js h)), (js ''d'', JStr (base64_encode d))]"

text \<open>The promise of the handshake settles once; when it resolves, \<open>connect\<close> installs the frame reader.\<close>

definition settle_handshake :: "client_error + unit \<Rightarrow> ipc_client \<Rightarrow> ipc_client" where
  "settle_handshake r c =
     (if cl_handshake c \<noteq> None then c
      else c\<lparr>cl_handshake := Some r, cl_listener := (case r of Inl _ \<Rightarrow> cl_listener c | Inr _ \<Rightarrow> Frame_Listener)\<rparr>)"

definition performHandshake :: "client_options \<Rightarrow> bytes \<Rightarrow> bytes \<Rightarrow> ipc_client \<Rightarrow> ipc_client" where
  "performHandshake K nonce connId c =
     (case startClientHandshake (case co_keyVersion K of None \<Rightarrow> 1 | Some v \<Rightarrow> v) (hello_identity_of K) nonce connId of
        (state, helloBytes) \<Rightarrow>
          let c = c\<lparr>cl_listener := Handshake_Listener state (new_FrameDecoder None None)\<rparr> in
          (case encodeFrame (hello_message ''ch'' helloBytes) FRAME_BYTES of
             Inl e \<Rightarrow> settle_handshake (Inl (Client_XBus e)) c
           | Inr bs \<Rightarrow> client_write bs c))"

text \<open>\<open>connect\<close> once the socket is there; without a secret the frame reader is wired at once.\<close>

definition connect :: "client_options \<Rightarrow> bytes \<Rightarrow> bytes \<Rightarrow> ipc_client \<Rightarrow> ipc_client" where
  "connect K nonce connId c =
     (let c = c\<lparr>cl_socket := Socket_Open\<rparr> in
      if co_rootSecret K = None then c\<lparr>cl_listener := Frame_Listener\<rparr> else performHandshake K nonce connId c)"

fun rejection :: "stp_error \<Rightarrow> client_error" where
  "rejection Auth_Failed = Client_XBus (xerr AUTH_FAILED)"
| "rejection Protocol_Mismatch = Client_XBus (xerr PROTOCOL_MISMATCH)"
| "rejection e = Client_Stp e"

definition finish_handshake :: "client_options \<Rightarrow> bytes \<Rightarrow> client_handshake_state \<Rightarrow> jval \<Rightarrow> ipc_client \<Rightarrow> ipc_client" where
  "finish_handshake K secret state first c =
     (case sealed_of (co_buffer K) first of
        None \<Rightarrow> settle_handshake (Inl Client_Throw) c
      | Some shBytes \<Rightarrow>
          (case parseServerHello shBytes of
             Inl e \<Rightarrow> settle_handshake (Inl (rejection e)) c
           | Inr sh \<Rightarrow>
               (case clientFinish (co_crypto K) secret state sh of
                  Inl e \<Rightarrow> settle_handshake (Inl (rejection e)) c
                | Inr fin \<Rightarrow>
                    let c = c\<lparr>cl_secure := Some (new_SecureSession (cf_keys fin) (cf_connId fin) Client_Role)\<rparr> in
                    (case encodeFrame (hello_message ''cf'' (cf_clientProof fin)) FRAME_BYTES of
                       Inl e \<Rightarrow> settle_handshake (Inl (Client_XBus e)) c
                     | Inr bs \<Rightarrow> settle_handshake (Inr ()) (client_write bs c)))))"

definition onHsData :: "client_options \<Rightarrow> bytes \<Rightarrow> client_handshake_state \<Rightarrow> frame_decoder \<Rightarrow> bytes \<Rightarrow> ipc_client \<Rightarrow> ipc_client" where
  "onHsData K secret state hsDecoder chunk c =
     (case push (co_number K) chunk hsDecoder of
        (_, Inl e) \<Rightarrow> settle_handshake (Inl (Client_XBus e)) (c\<lparr>cl_listener := No_Listener\<rparr>)
      | (dec, Inr r) \<Rightarrow>
          (case frames r of
             [] \<Rightarrow> c\<lparr>cl_listener := Handshake_Listener state dec\<rparr>
           | first # _ \<Rightarrow> finish_handshake K secret state first (c\<lparr>cl_listener := No_Listener\<rparr>)))"

definition onHandshakeTimer :: "ipc_client \<Rightarrow> ipc_client" where
  "onHandshakeTimer c = settle_handshake (Inl (Client_XBus (xerr AUTH_FAILED))) c"

section \<open>Frames\<close>

text \<open>\<open>onFrame\<close>: nothing when reading the frame throws.\<close>

definition client_onFrame :: "jval \<Rightarrow> ipc_client \<Rightarrow> ipc_client option" where
  "client_onFrame frame c =
     (if frame = JNull then None
      else case get_prop frame ''requestId'' of
             Some (JStr i) \<Rightarrow> if i \<noteq> [] \<and> i \<in> set (cl_pending c) then Some (settle i (Inr frame) c)
                              else Some (c\<lparr>cl_pushed := cl_pushed c @ [frame]\<rparr>)
           | _ \<Rightarrow> Some (c\<lparr>cl_pushed := cl_pushed c @ [frame]\<rparr>))"

text \<open>Opening one sealed frame, and whether that failed.\<close>

definition open_frame :: "client_options \<Rightarrow> jval \<Rightarrow> secure_session \<Rightarrow> ipc_client \<Rightarrow> ipc_client \<times> bool" where
  "open_frame K payload ss c =
     (case sealed_of (co_buffer K) payload of
        None \<Rightarrow> (c, True)
      | Some sealed \<Rightarrow>
          (case open_sealed (co_crypto K) sealed ss of
             (ss, Inl _) \<Rightarrow> (c\<lparr>cl_secure := Some ss\<rparr>, True)
           | (ss, Inr pt) \<Rightarrow>
               let c = c\<lparr>cl_secure := Some ss\<rparr> in
               (case json_parse (co_number K) (utf8_decode pt) of
                  None \<Rightarrow> (c, True)
                | Some frame \<Rightarrow> (case client_onFrame frame c of None \<Rightarrow> (c, True) | Some c \<Rightarrow> (c, False)))))"

text \<open>The frames of one drain, and whether the handler ended there.\<close>

fun read_frames :: "client_options \<Rightarrow> jval list \<Rightarrow> ipc_client \<Rightarrow> ipc_client \<times> bool" where
  "read_frames K [] c = (c, False)"
| "read_frames K (p # ps) c =
     (case cl_secure c of
        Some ss \<Rightarrow> (case open_frame K p ss c of (c, True) \<Rightarrow> (destroy c, True) | (c, False) \<Rightarrow> read_frames K ps c)
      | None \<Rightarrow> (case client_onFrame p c of None \<Rightarrow> (c\<lparr>cl_uncaught := True\<rparr>, True) | Some c \<Rightarrow> read_frames K ps c))"

function client_loop :: "client_options \<Rightarrow> frame_decoder \<Rightarrow> decode_result \<Rightarrow> ipc_client \<Rightarrow> ipc_client" where
  "client_loop K dec r c =
     (case read_frames K (frames r) c of
        (c, True) \<Rightarrow> c\<lparr>cl_decoder := dec\<rparr>
      | (c, False) \<Rightarrow>
          if \<not> hasMore r then c\<lparr>cl_decoder := dec\<rparr>
          else case continueDrain (co_number K) dec of
                 (dec, Inl _) \<Rightarrow> c\<lparr>cl_decoder := dec, cl_uncaught := True\<rparr>
               | (dec, Inr r) \<Rightarrow> client_loop K dec r c)"
  by pat_completeness auto
termination
  by (relation "measure (\<lambda>(K, dec, r, c). if hasMore r then Suc (length (buf dec)) else 0)")
    (auto simp: continueDrain_def drain_def dest: drain_loop_more [OF sym])

declare client_loop.simps [simp del]

definition client_onData :: "client_options \<Rightarrow> bytes \<Rightarrow> ipc_client \<Rightarrow> ipc_client" where
  "client_onData K chunk c =
     (case push (co_number K) chunk (cl_decoder c) of
        (dec, Inl _) \<Rightarrow> destroy (c\<lparr>cl_decoder := dec\<rparr>)
      | (dec, Inr r) \<Rightarrow> client_loop K dec r c)"

text \<open>A chunk goes to the listener that is installed; a destroyed socket delivers nothing.\<close>

definition receive :: "client_options \<Rightarrow> bytes \<Rightarrow> ipc_client \<Rightarrow> ipc_client" where
  "receive K chunk c =
     (if cl_socket c \<noteq> Socket_Open then c
      else case (cl_listener c, co_rootSecret K) of
             (Handshake_Listener state dec, Some secret) \<Rightarrow> onHsData K secret state dec chunk c
           | (Frame_Listener, _) \<Rightarrow> client_onData K chunk c
           | _ \<Rightarrow> c)"

definition writeFrame :: "client_options \<Rightarrow> jval \<Rightarrow> ipc_client \<Rightarrow> ipc_client \<times> client_error option" where
  "writeFrame K frame c =
     (if cl_socket c = No_Socket then (c, Some (Client_XBus (xerr BROKER_UNAVAILABLE)))
      else case cl_secure c of
             Some ss \<Rightarrow>
               (case seal (co_crypto K) (utf8_encode (json_stringify frame)) ss of
                  (ss, Inl e) \<Rightarrow> (c\<lparr>cl_secure := Some ss\<rparr>, Some (Client_Stp e))
                | (ss, Inr sealed) \<Rightarrow>
                    (case encodeFrame (JObj [(js ''d'', JStr (base64_encode sealed))]) FRAME_BYTES of
                       Inl e \<Rightarrow> (c\<lparr>cl_secure := Some ss\<rparr>, Some (Client_XBus e))
                     | Inr bs \<Rightarrow> (client_write bs (c\<lparr>cl_secure := Some ss\<rparr>), None)))
           | None \<Rightarrow>
               (case encodeFrame frame FRAME_BYTES of
                  Inl e \<Rightarrow> (c, Some (Client_XBus e))
                | Inr bs \<Rightarrow> (client_write bs c, None)))"

definition makeFrame :: "js_string \<Rightarrow> jval \<Rightarrow> js_string option \<Rightarrow> js_string \<Rightarrow> jval" where
  "makeFrame frameType payload requestId nowIso =
     JObj ([(js ''protocolVersion'', JNum PROTOCOL_VERSION), (js ''frameType'', JStr frameType), (js ''timestamp'', JStr nowIso),
            (js ''payload'', payload)] @ (case requestId of None \<Rightarrow> [] | Some i \<Rightarrow> [(js ''requestId'', JStr i)]))"

definition request :: "client_options \<Rightarrow> js_string \<Rightarrow> js_string \<Rightarrow> js_string \<Rightarrow> jval \<Rightarrow> ipc_client \<Rightarrow> ipc_client" where
  "request K requestId nowIso frameType payload c =
     (if cl_socket c = No_Socket
      then c\<lparr>cl_settled := cl_settled c @ [(requestId, Inl (Client_XBus (xerr BROKER_UNAVAILABLE)))]\<rparr>
      else
        let c = c\<lparr>cl_pending := (if requestId \<in> set (cl_pending c) then cl_pending c else cl_pending c @ [requestId])\<rparr> in
        (case writeFrame K (makeFrame frameType payload (Some requestId) nowIso) c of
           (c, Some e) \<Rightarrow> settle requestId (Inl e) c
         | (c, None) \<Rightarrow> c))"

definition onRequestTimer :: "js_string \<Rightarrow> ipc_client \<Rightarrow> ipc_client" where
  "onRequestTimer requestId c =
     (if requestId \<in> set (cl_pending c) then settle requestId (Inl (Client_XBus (xerr BROKER_UNAVAILABLE))) c else c)"

definition onSocketClose :: "ipc_client \<Rightarrow> ipc_client" where
  "onSocketClose c =
     c\<lparr>cl_settled := cl_settled c @ map (\<lambda>i. (i, Inl (Client_XBus (xerr BROKER_UNAVAILABLE)))) (cl_pending c), cl_pending := []\<rparr>"

end
