(* ===== verification/Ipc_Server.thy ===== *)
theory Ipc_Server
  imports Base64 Framing Secure_Channel
begin

text \<open>
  The IPC server of \<^verbatim>\<open>src/ipc/server.ts\<close>: the table of connections with their decoders and secure sessions, the admission
  of connections, the handshake gate, the sealed frames in both directions and the accounting of buffered bytes. The
  consumer of frames is an argument: it maps its state and a frame to its state and what it does with the connection.
  Logging and metrics are left out.
\<close>

section \<open>State\<close>

record conn_entry =
  ce_decoder :: frame_decoder
  ce_secure :: "secure_session option"
  ce_pendingTh :: "bytes option"
  ce_pendingKeys :: "derived_keys option"
  ce_connIdForSession :: "bytes option"
  ce_handshakeTimer :: bool

text \<open>
  The options of the server and what it takes from the runtime: the cryptographic functions, the reader of JSON numbers,
  the nonces it draws, \<open>Buffer.from\<close> on a JSON value that is no string (nothing when it throws), and the timestamp of its own
  error frames.
\<close>

record server_options =
  so_maxConnections :: nat
  so_globalBudget :: int
  so_connectRatePerSec :: nat
  so_rootSecret :: "bytes option"
  so_brokerInstanceId :: js_string
  so_crypto :: crypto
  so_number :: "js_string \<Rightarrow> jval"
  so_nonce :: "nat \<Rightarrow> bytes"
  so_buffer :: "jval \<Rightarrow> bytes option"
  so_timestamp :: js_string

datatype conn_action = Act_Send jval | Act_Close

record 'h consumer =
  onFrame :: "js_string \<Rightarrow> jval \<Rightarrow> 'h \<Rightarrow> 'h \<times> conn_action list"
  onCloseConn :: "js_string \<Rightarrow> 'h \<Rightarrow> 'h"

text \<open>
  \<open>ipc_written\<close> is what has been written to the sockets. \<open>ipc_opened\<close> records the sealed buffers that were opened with their
  plaintexts and \<open>ipc_delivered\<close> the frames handed to the consumer; the code keeps neither.
\<close>

record 'h ipc_server =
  ipc_conns :: "(js_string \<times> conn_entry) list"
  ipc_totalBuffered :: int
  ipc_seq :: nat
  ipc_connectTimestamps :: "int list"
  ipc_nonces :: nat
  ipc_written :: "(js_string \<times> bytes) list"
  ipc_opened :: "(js_string \<times> bytes \<times> bytes) list"
  ipc_delivered :: "(js_string \<times> jval) list"
  ipc_consumer :: 'h

definition new_IpcServer :: "'h \<Rightarrow> 'h ipc_server" where
  "new_IpcServer h =
     \<lparr>ipc_conns = [], ipc_totalBuffered = 0, ipc_seq = 0, ipc_connectTimestamps = [], ipc_nonces = 0, ipc_written = [],
      ipc_opened = [], ipc_delivered = [], ipc_consumer = h\<rparr>"

definition conn_of :: "'h ipc_server \<Rightarrow> js_string \<Rightarrow> conn_entry option" where
  "conn_of s i = map_of (ipc_conns s) i"

definition set_conn :: "js_string \<Rightarrow> (conn_entry \<Rightarrow> conn_entry) \<Rightarrow> 'h ipc_server \<Rightarrow> 'h ipc_server" where
  "set_conn i f s = s\<lparr>ipc_conns := map (\<lambda>(j, c). (j, if j = i then f c else c)) (ipc_conns s)\<rparr>"

definition write_socket :: "js_string \<Rightarrow> bytes \<Rightarrow> 'h ipc_server \<Rightarrow> 'h ipc_server" where
  "write_socket i bs s = s\<lparr>ipc_written := ipc_written s @ [(i, bs)]\<rparr>"

section \<open>Closing and sending\<close>

definition closeConn :: "'h consumer \<Rightarrow> js_string \<Rightarrow> 'h ipc_server \<Rightarrow> 'h ipc_server" where
  "closeConn H i s =
     (case conn_of s i of
        None \<Rightarrow> s
      | Some c \<Rightarrow>
          let t = ipc_totalBuffered s - int (bufferedBytes (ce_decoder c)) in
          s\<lparr>ipc_totalBuffered := (if t < 0 then 0 else t),
            ipc_conns := del_where (\<lambda>(j, c). j = i) (ipc_conns s),
            ipc_consumer := onCloseConn H i (ipc_consumer s)\<rparr>)"

definition write_frame :: "js_string \<Rightarrow> jval \<Rightarrow> 'h ipc_server \<Rightarrow> 'h ipc_server" where
  "write_frame i v s = (case encodeFrame v FRAME_BYTES of Inl _ \<Rightarrow> s | Inr bs \<Rightarrow> write_socket i bs s)"

text \<open>\<open>conn.send\<close>: a failed seal or encoding is only logged.\<close>

definition send_frame :: "server_options \<Rightarrow> js_string \<Rightarrow> jval \<Rightarrow> 'h ipc_server \<Rightarrow> 'h ipc_server" where
  "send_frame S i frame s =
     (case conn_of s i of
        None \<Rightarrow> s
      | Some c \<Rightarrow>
          (case ce_secure c of
             Some ss \<Rightarrow>
               (case seal (so_crypto S) (utf8_encode (json_stringify frame)) ss of
                  (ss, Inl _) \<Rightarrow> set_conn i (\<lambda>c. c\<lparr>ce_secure := Some ss\<rparr>) s
                | (ss, Inr sealed) \<Rightarrow>
                    write_frame i (JObj [(js ''d'', JStr (base64_encode sealed))]) (set_conn i (\<lambda>c. c\<lparr>ce_secure := Some ss\<rparr>) s))
           | None \<Rightarrow> write_frame i frame s))"

definition errorFrame :: "server_options \<Rightarrow> string \<Rightarrow> string \<Rightarrow> jval" where
  "errorFrame S code message =
     JObj [(js ''protocolVersion'', JNum 1), (js ''frameType'', JStr (js ''error'')), (js ''timestamp'', JStr (so_timestamp S)),
           (js ''payload'', JObj [(js ''code'', JStr (js code)), (js ''message'', JStr (js message))])]"

fun act :: "server_options \<Rightarrow> 'h consumer \<Rightarrow> js_string \<Rightarrow> conn_action \<Rightarrow> 'h ipc_server \<Rightarrow> 'h ipc_server" where
  "act S H i (Act_Send frame) s = send_frame S i frame s"
| "act S H i Act_Close s = closeConn H i s"

definition well_typed :: "jval \<Rightarrow> bool" where
  "well_typed frame \<longleftrightarrow> string_prop (get_prop frame ''frameType'') \<noteq> None"

definition deliverFrame :: "server_options \<Rightarrow> 'h consumer \<Rightarrow> js_string \<Rightarrow> jval \<Rightarrow> 'h ipc_server \<Rightarrow> 'h ipc_server" where
  "deliverFrame S H i frame s =
     (if \<not> well_typed frame then send_frame S i (errorFrame S ''XBUS_PROTOCOL_VIOLATION'' ''malformed frame'') s
      else case onFrame H i frame (ipc_consumer s) of (h, acts) \<Rightarrow>
        fold (act S H i) acts (s\<lparr>ipc_consumer := h, ipc_delivered := ipc_delivered s @ [(i, frame)]\<rparr>))"

section \<open>The handshake\<close>

definition onClientHello :: "server_options \<Rightarrow> 'h consumer \<Rightarrow> bytes \<Rightarrow> js_string \<Rightarrow> js_string \<Rightarrow> 'h ipc_server \<Rightarrow> 'h ipc_server" where
  "onClientHello S H secret i b64 s =
     (case conn_of s i of
        None \<Rightarrow> s
      | Some _ \<Rightarrow>
          (case parseClientHello (base64_decode b64) of
             Inl _ \<Rightarrow> closeConn H i s
           | Inr hello \<Rightarrow>
               let n = ipc_nonces s; s = s\<lparr>ipc_nonces := n + 1\<rparr> in
               (case serverHandshake (so_crypto S) secret (so_brokerInstanceId S) hello (so_nonce S n) of
                  Inl _ \<Rightarrow> closeConn H i s
                | Inr srv \<Rightarrow>
                    let s = set_conn i (\<lambda>c. c\<lparr>ce_pendingTh := Some (sv_th srv), ce_pendingKeys := Some (sv_keys srv),
                                              ce_connIdForSession := Some (ch_connId hello)\<rparr>) s in
                    (case encodeFrame (JObj [(js ''h'', JStr (js ''sh'')), (js ''d'', JStr (base64_encode (sv_serverHelloBytes srv)))]) FRAME_BYTES of
                       Inl _ \<Rightarrow> closeConn H i s
                     | Inr bs \<Rightarrow> write_socket i bs s))))"

definition onClientFinish :: "server_options \<Rightarrow> 'h consumer \<Rightarrow> js_string \<Rightarrow> js_string \<Rightarrow> 'h ipc_server \<Rightarrow> 'h ipc_server" where
  "onClientFinish S H i b64 s =
     (case conn_of s i of
        None \<Rightarrow> s
      | Some c \<Rightarrow>
          (case (ce_pendingTh c, ce_pendingKeys c, ce_connIdForSession c) of
             (Some th, Some keys, Some cid) \<Rightarrow>
               (case serverVerifyFinish (so_crypto S) keys th (base64_decode b64) of
                  Some _ \<Rightarrow> closeConn H i s
                | None \<Rightarrow> set_conn i (\<lambda>c. c\<lparr>ce_secure := Some (new_SecureSession keys cid Server_Role),
                                            ce_pendingTh := None, ce_pendingKeys := None, ce_handshakeTimer := False\<rparr>) s)
           | _ \<Rightarrow> closeConn H i s))"

section \<open>Dispatch\<close>

text \<open>A frame before the secure session must be a handshake message.\<close>

definition onHandshakeFrame :: "server_options \<Rightarrow> 'h consumer \<Rightarrow> bytes \<Rightarrow> js_string \<Rightarrow> jval \<Rightarrow> 'h ipc_server \<Rightarrow> 'h ipc_server" where
  "onHandshakeFrame S H secret i p s =
     (case (get_prop p ''h'', get_prop p ''d'') of
        (Some (JStr h), Some (JStr d)) \<Rightarrow>
          if h = js ''ch'' then onClientHello S H secret i d s
          else if h = js ''cf'' then onClientFinish S H i d s
          else closeConn H i s
      | _ \<Rightarrow> closeConn H i s)"

definition onSealedFrame :: "server_options \<Rightarrow> 'h consumer \<Rightarrow> secure_session \<Rightarrow> js_string \<Rightarrow> jval \<Rightarrow> 'h ipc_server \<Rightarrow> 'h ipc_server" where
  "onSealedFrame S H ss i p s =
     (case sealed_of (so_buffer S) p of
        None \<Rightarrow> closeConn H i s
      | Some sealed \<Rightarrow>
          (case open_sealed (so_crypto S) sealed ss of
             (ss, Inl _) \<Rightarrow> closeConn H i (set_conn i (\<lambda>c. c\<lparr>ce_secure := Some ss\<rparr>) s)
           | (ss, Inr pt) \<Rightarrow>
               let s = (set_conn i (\<lambda>c. c\<lparr>ce_secure := Some ss\<rparr>) s)\<lparr>ipc_opened := ipc_opened s @ [(i, sealed, pt)]\<rparr> in
               (case json_parse (so_number S) (utf8_decode pt) of
                  None \<Rightarrow> closeConn H i s
                | Some frame \<Rightarrow> deliverFrame S H i frame s)))"

definition dispatch_frame :: "server_options \<Rightarrow> 'h consumer \<Rightarrow> js_string \<Rightarrow> jval \<Rightarrow> 'h ipc_server \<Rightarrow> 'h ipc_server" where
  "dispatch_frame S H i p s =
     (case conn_of s i of
        None \<Rightarrow> s
      | Some c \<Rightarrow>
          (case so_rootSecret S of
             None \<Rightarrow> deliverFrame S H i p s
           | Some secret \<Rightarrow>
               (case ce_secure c of
                  None \<Rightarrow> onHandshakeFrame S H secret i p s
                | Some ss \<Rightarrow> onSealedFrame S H ss i p s)))"

section \<open>Events of the socket\<close>

definition accept :: "server_options \<Rightarrow> int \<Rightarrow> 'h ipc_server \<Rightarrow> 'h ipc_server" where
  "accept S nowMs s =
     (if so_maxConnections S \<le> length (ipc_conns s) then s
      else
        let s = s\<lparr>ipc_connectTimestamps := filter (\<lambda>t. nowMs - t < 1000) (ipc_connectTimestamps s)\<rparr> in
        if so_connectRatePerSec S \<le> length (ipc_connectTimestamps s) then s
        else
          let n = ipc_seq s + 1;
              entry = \<lparr>ce_decoder = new_FrameDecoder None None, ce_secure = None, ce_pendingTh = None, ce_pendingKeys = None,
                       ce_connIdForSession = None, ce_handshakeTimer = (so_rootSecret S \<noteq> None)\<rparr>
          in s\<lparr>ipc_connectTimestamps := ipc_connectTimestamps s @ [nowMs], ipc_seq := n,
               ipc_conns := ipc_conns s @ [(js ''conn-'' @ dec_str n, entry)]\<rparr>)"

text \<open>The loop of the data handler: dispatch the drained frames, drain again while complete frames remain.\<close>

function serve ::
  "server_options \<Rightarrow> 'h consumer \<Rightarrow> js_string \<Rightarrow> frame_decoder \<Rightarrow> decode_result \<Rightarrow> 'h ipc_server \<Rightarrow> 'h ipc_server" where
  "serve S H i dec r s =
     (let s = fold (dispatch_frame S H i) (frames r) s in
      if \<not> hasMore r then s
      else case continueDrain (so_number S) dec of
             (dec, Inl _) \<Rightarrow> closeConn H i (set_conn i (\<lambda>c. c\<lparr>ce_decoder := dec\<rparr>) s)
           | (dec, Inr r) \<Rightarrow> serve S H i dec r (set_conn i (\<lambda>c. c\<lparr>ce_decoder := dec\<rparr>) s))"
  by pat_completeness auto
termination
  by (relation "measure (\<lambda>(S, H, i, dec, r, s). if hasMore r then Suc (length (buf dec)) else 0)")
    (auto simp: continueDrain_def drain_def dest: drain_loop_more [OF sym])

declare serve.simps [simp del]

definition onData :: "server_options \<Rightarrow> 'h consumer \<Rightarrow> js_string \<Rightarrow> bytes \<Rightarrow> 'h ipc_server \<Rightarrow> 'h ipc_server" where
  "onData S H i chunk s =
     (case conn_of s i of
        None \<Rightarrow> s
      | Some c \<Rightarrow>
          let before = bufferedBytes (ce_decoder c) in
          (case push (so_number S) chunk (ce_decoder c) of
             (dec, Inl _) \<Rightarrow> closeConn H i (set_conn i (\<lambda>c. c\<lparr>ce_decoder := dec\<rparr>) s)
           | (dec, Inr r) \<Rightarrow>
               let s = set_conn i (\<lambda>c. c\<lparr>ce_decoder := dec\<rparr>) s;
                   s = s\<lparr>ipc_totalBuffered := ipc_totalBuffered s + (int (bufferedBytes dec) - int before)\<rparr>
               in if so_globalBudget S < ipc_totalBuffered s then closeConn H i s
                  else serve S H i dec r s))"

definition onHandshakeTimeout :: "'h consumer \<Rightarrow> js_string \<Rightarrow> 'h ipc_server \<Rightarrow> 'h ipc_server" where
  "onHandshakeTimeout H i s =
     (case conn_of s i of
        None \<Rightarrow> s
      | Some c \<Rightarrow> if ce_handshakeTimer c \<and> ce_secure c = None then closeConn H i s else s)"

definition close_all :: "'h consumer \<Rightarrow> 'h ipc_server \<Rightarrow> 'h ipc_server" where
  "close_all H s = fold (closeConn H) (map fst (ipc_conns s)) s"

datatype socket_event =
    Socket_Accept int
  | Socket_Data js_string bytes
  | Socket_Closed js_string
  | Socket_Idle js_string
  | Handshake_Timeout js_string
  | Server_Close

fun socket_step :: "server_options \<Rightarrow> 'h consumer \<Rightarrow> socket_event \<Rightarrow> 'h ipc_server \<Rightarrow> 'h ipc_server" where
  "socket_step S H (Socket_Accept nowMs) s = accept S nowMs s"
| "socket_step S H (Socket_Data i chunk) s = onData S H i chunk s"
| "socket_step S H (Socket_Closed i) s = closeConn H i s"
| "socket_step S H (Socket_Idle i) s = closeConn H i s"
| "socket_step S H (Handshake_Timeout i) s = onHandshakeTimeout H i s"
| "socket_step S H Server_Close s = close_all H s"

end
