(* ===== verification/Adapter.thy ===== *)
theory Adapter
  imports Payload Registration
begin

text \<open>
  Adapter-aware registration: the capability model of \<^verbatim>\<open>src/adapter/capabilities.ts\<close>, the tier ladder of
  \<^verbatim>\<open>src/adapter/tier.ts\<close>, evidence levels of \<^verbatim>\<open>src/adapter/evidence.ts\<close>, the broker-owned evidence registry of
  \<^verbatim>\<open>src/adapter-broker/trusted-evidence.ts\<close> and the enforcement of \<^verbatim>\<open>src/adapter-broker/enforce.ts\<close>. What an
  adapter declares is an untrusted JSON value.
\<close>

section \<open>Capabilities\<close>

datatype capability_state = Cap_Unsupported | Cap_Declared | Cap_Detected | Cap_Verified

definition CAPABILITY_STATES :: "capability_state list" where
  "CAPABILITY_STATES = [Cap_Unsupported, Cap_Declared, Cap_Detected, Cap_Verified]"

fun capability_name :: "capability_state \<Rightarrow> string" where
  "capability_name Cap_Unsupported = ''unsupported''"
| "capability_name Cap_Declared = ''declared''"
| "capability_name Cap_Detected = ''detected''"
| "capability_name Cap_Verified = ''verified''"

definition capability_of_json :: "jval option \<Rightarrow> capability_state option" where
  "capability_of_json v =
     (case v of Some (JStr s) \<Rightarrow> List.find (\<lambda>c. js (capability_name c) = s) CAPABILITY_STATES | _ \<Rightarrow> None)"

definition isCapabilityState :: "jval option \<Rightarrow> bool" where
  "isCapabilityState v \<longleftrightarrow> capability_of_json v \<noteq> None"

record receive_capabilities =
  rc_manualPull :: capability_state
  rc_lifecycleCheckpoint :: capability_state
  rc_livePush :: capability_state
  rc_backgroundWake :: capability_state
  rc_idleWake :: capability_state

record messaging_capabilities =
  mc_acknowledgements :: capability_state
  mc_correlatedReplies :: capability_state
  mc_progressEvents :: capability_state
  mc_cancellation :: capability_state
  mc_streaming :: capability_state
  mc_structuredPayloads :: capability_state
  mc_attachments :: capability_state

text \<open>The lifecycle and execution groups are copied and never read.\<close>

record agent_capabilities =
  ac_receive :: receive_capabilities
  ac_messaging :: messaging_capabilities
  ac_lifecycle :: "(js_string \<times> jval) list"
  ac_execution :: "(js_string \<times> jval) list"

definition isVerified :: "capability_state \<Rightarrow> bool" where
  "isVerified s \<longleftrightarrow> s = Cap_Verified"

fun capability_rank :: "capability_state \<Rightarrow> nat" where
  "capability_rank Cap_Unsupported = 0"
| "capability_rank Cap_Declared = 1"
| "capability_rank Cap_Detected = 2"
| "capability_rank Cap_Verified = 3"

definition isClaimed :: "capability_state \<Rightarrow> bool" where
  "isClaimed s \<longleftrightarrow> capability_rank Cap_Declared \<le> capability_rank s"

record verified_capabilities =
  vc_role :: component_role
  vc_manualPull :: bool
  vc_lifecycleCheckpoint :: bool
  vc_livePush :: bool
  vc_acknowledgements :: bool
  vc_correlatedReplies :: bool

definition toVerified :: "component_role \<Rightarrow> agent_capabilities \<Rightarrow> verified_capabilities" where
  "toVerified role caps =
     \<lparr>vc_role = role,
      vc_manualPull = isVerified (rc_manualPull (ac_receive caps)),
      vc_lifecycleCheckpoint = isVerified (rc_lifecycleCheckpoint (ac_receive caps)),
      vc_livePush = isVerified (rc_livePush (ac_receive caps)),
      vc_acknowledgements = isVerified (mc_acknowledgements (ac_messaging caps)),
      vc_correlatedReplies = isVerified (mc_correlatedReplies (ac_messaging caps))\<rparr>"

section \<open>Tiers and evidence\<close>

datatype support_tier = T0 | T1 | T2 | T3 | T4 | T5

definition TIER_ORDER :: "support_tier list" where
  "TIER_ORDER = [T0, T1, T2, T3, T4, T5]"

record validation_evidence =
  ev_bootedAndRegistered :: bool
  ev_sendVerified :: bool
  ev_manualReceiveVerified :: bool
  ev_checkpointReceiveVerified :: bool
  ev_ackReplyVerified :: bool
  ev_liveReceiveVerified :: bool
  ev_fullRuntimeValidation :: bool

definition calculateMaximumTier :: "verified_capabilities \<Rightarrow> validation_evidence \<Rightarrow> support_tier" where
  "calculateMaximumTier caps ev =
     (if \<not> ev_bootedAndRegistered ev then T0
      else if \<not> ev_sendVerified ev then T0
      else if \<not> (vc_manualPull caps \<and> ev_manualReceiveVerified ev) then T1
      else if \<not> (vc_lifecycleCheckpoint caps \<and> vc_acknowledgements caps \<and> vc_correlatedReplies caps
                 \<and> ev_checkpointReceiveVerified ev \<and> ev_ackReplyVerified ev) then T2
      else if \<not> (vc_livePush caps \<and> ev_liveReceiveVerified ev) then T3
      else if ev_fullRuntimeValidation ev then T5 else T4)"

fun tier_rank :: "support_tier \<Rightarrow> nat" where
  "tier_rank T0 = 0"
| "tier_rank T1 = 1"
| "tier_rank T2 = 2"
| "tier_rank T3 = 3"
| "tier_rank T4 = 4"
| "tier_rank T5 = 5"

definition isWithinCeiling :: "support_tier \<Rightarrow> support_tier \<Rightarrow> bool" where
  "isWithinCeiling advertised maxTier \<longleftrightarrow> tier_rank advertised \<le> tier_rank maxTier"

definition awardedTier :: "support_tier \<Rightarrow> support_tier \<Rightarrow> support_tier" where
  "awardedTier maxTier policyMax = (if tier_rank policyMax < tier_rank maxTier then policyMax else maxTier)"

definition clamp :: "capability_state \<Rightarrow> capability_state" where
  "clamp s = (if s = Cap_Verified then Cap_Declared else s)"

definition raise_cap :: "capability_state \<Rightarrow> bool \<Rightarrow> capability_state" where
  "raise_cap s proven = (if proven then Cap_Verified else clamp s)"

definition confirmCapabilities :: "agent_capabilities \<Rightarrow> validation_evidence \<Rightarrow> agent_capabilities" where
  "confirmCapabilities declared ev =
     (let r = ac_receive declared; m = ac_messaging declared in
      \<lparr>ac_receive =
         \<lparr>rc_manualPull = raise_cap (rc_manualPull r) (ev_manualReceiveVerified ev),
          rc_lifecycleCheckpoint = raise_cap (rc_lifecycleCheckpoint r) (ev_checkpointReceiveVerified ev),
          rc_livePush = raise_cap (rc_livePush r) (ev_liveReceiveVerified ev),
          rc_backgroundWake = clamp (rc_backgroundWake r),
          rc_idleWake = clamp (rc_idleWake r)\<rparr>,
       ac_messaging =
         \<lparr>mc_acknowledgements = raise_cap (mc_acknowledgements m) (ev_ackReplyVerified ev),
          mc_correlatedReplies = raise_cap (mc_correlatedReplies m) (ev_ackReplyVerified ev),
          mc_progressEvents = clamp (mc_progressEvents m),
          mc_cancellation = clamp (mc_cancellation m),
          mc_streaming = clamp (mc_streaming m),
          mc_structuredPayloads = clamp (mc_structuredPayloads m),
          mc_attachments = clamp (mc_attachments m)\<rparr>,
       ac_lifecycle = ac_lifecycle declared,
       ac_execution = ac_execution declared\<rparr>)"

datatype validation_level = Unvalidated | Conformance_Tested | Real_Runtime_Validated | Supported

definition VALIDATION_LEVELS :: "validation_level list" where
  "VALIDATION_LEVELS = [Unvalidated, Conformance_Tested, Real_Runtime_Validated, Supported]"

datatype evidence_source = Src_None | Src_Fake_Runtime | Src_Real_Runtime | Src_Signed_Off

fun maxLevelForSource :: "evidence_source \<Rightarrow> validation_level" where
  "maxLevelForSource Src_None = Unvalidated"
| "maxLevelForSource Src_Fake_Runtime = Conformance_Tested"
| "maxLevelForSource Src_Real_Runtime = Real_Runtime_Validated"
| "maxLevelForSource Src_Signed_Off = Supported"

fun levelRank :: "validation_level \<Rightarrow> nat" where
  "levelRank Unvalidated = 0"
| "levelRank Conformance_Tested = 1"
| "levelRank Real_Runtime_Validated = 2"
| "levelRank Supported = 3"

definition deriveValidationLevel :: "evidence_source \<Rightarrow> bool \<Rightarrow> validation_level" where
  "deriveValidationLevel source fullConformancePassed =
     (let ceil = maxLevelForSource source;
          claimed = (if source = Src_None then Unvalidated else if \<not> fullConformancePassed then Unvalidated else ceil)
      in if levelRank claimed \<le> levelRank ceil then claimed else ceil)"

record awarded_support =
  aw_tier :: support_tier
  aw_level :: validation_level

definition computeAwardedSupport :: "verified_capabilities \<Rightarrow> validation_evidence \<Rightarrow> evidence_source \<Rightarrow> bool \<Rightarrow> awarded_support" where
  "computeAwardedSupport verified ev source fullConformancePassed =
     \<lparr>aw_tier = calculateMaximumTier verified ev, aw_level = deriveValidationLevel source fullConformancePassed\<rparr>"

text \<open>The live and full flags count only when the evidence comes from a real runtime.\<close>

definition buildValidationEvidence :: "evidence_source \<Rightarrow> validation_evidence \<Rightarrow> validation_evidence" where
  "buildValidationEvidence source flags =
     (let realOnly = (source = Src_Real_Runtime \<or> source = Src_Signed_Off) in
      flags\<lparr>ev_liveReceiveVerified := (if realOnly then ev_liveReceiveVerified flags else False),
            ev_fullRuntimeValidation := (if realOnly then ev_fullRuntimeValidation flags else False)\<rparr>)"

definition emptyEvidence :: validation_evidence where
  "emptyEvidence =
     \<lparr>ev_bootedAndRegistered = False, ev_sendVerified = False, ev_manualReceiveVerified = False,
      ev_checkpointReceiveVerified = False, ev_ackReplyVerified = False, ev_liveReceiveVerified = False,
      ev_fullRuntimeValidation = False\<rparr>"

section \<open>Broker-owned evidence\<close>

datatype trusted_source = Trust_None | Trust_Conformance | Trust_Real_Runtime | Trust_Signed_Off

record broker_evidence =
  te_source :: trusted_source
  te_adapterId :: js_string
  te_adapterVersion :: js_string
  te_role :: component_role
  te_buildId :: "js_string option"
  te_sendVerified :: bool
  te_manualReceiveVerified :: bool
  te_checkpointReceiveVerified :: bool
  te_liveReceiveVerified :: bool
  te_ackReplyVerified :: bool
  te_brokerRestartVerified :: bool
  te_reconnectVerified :: bool
  te_queuedDeliveryVerified :: bool
  te_fencingVerified :: bool
  te_redactionVerified :: "bool option"
  te_secretRedactionVerified :: "bool option"
  te_telemetryRedactionVerified :: "bool option"
  te_packagedRuntimeVerified :: bool
  te_conformanceVersion :: "int option"

definition SUPPORTED_CONFORMANCE_VERSION :: int where
  "SUPPORTED_CONFORMANCE_VERSION = 1"

type_synonym evidence_registry = "(js_string \<times> broker_evidence) list"

definition evidence_key :: "js_string \<Rightarrow> js_string \<Rightarrow> js_string \<Rightarrow> js_string" where
  "evidence_key adapterId adapterVersion role = adapterId @ js '' :: '' @ adapterVersion @ js '' :: '' @ role"

definition record_evidence :: "broker_evidence \<Rightarrow> evidence_registry \<Rightarrow> evidence_registry" where
  "record_evidence ev reg =
     (if te_source ev = Trust_None then reg
      else obj_put (evidence_key (te_adapterId ev) (te_adapterVersion ev) (js (role_name (te_role ev)))) ev reg)"

datatype reject_reason =
    Ev_Absent | Ev_Adapter_Id_Mismatch | Ev_Adapter_Version_Mismatch | Ev_Role_Mismatch | Ev_Build_Mismatch
  | Ev_Unsupported_Conformance_Version

text \<open>The query holds untrusted fields; building its key may throw, then the result is the error.\<close>

record evidence_query =
  eq_adapterId :: "jval option"
  eq_adapterVersion :: "jval option"
  eq_role :: "jval option"
  eq_buildId :: "jval option"

definition query_key :: "evidence_query \<Rightarrow> js_string option" where
  "query_key q =
     (case (prop_text (eq_adapterId q), prop_text (eq_adapterVersion q), prop_text (eq_role q)) of
        (Some a, Some v, Some r) \<Rightarrow> Some (evidence_key a v r)
      | _ \<Rightarrow> None)"

definition resolve :: "evidence_registry \<Rightarrow> evidence_query \<Rightarrow> xerror + (reject_reason + broker_evidence)" where
  "resolve reg q =
     (case query_key q of
        None \<Rightarrow> Inl JsTypeError
      | Some k \<Rightarrow> Inr
         (case map_of reg k of
            None \<Rightarrow> Inl Ev_Absent
          | Some ev \<Rightarrow>
              if Some (JStr (te_adapterId ev)) \<noteq> eq_adapterId q then Inl Ev_Adapter_Id_Mismatch
              else if Some (JStr (te_adapterVersion ev)) \<noteq> eq_adapterVersion q then Inl Ev_Adapter_Version_Mismatch
              else if Some (JStr (js (role_name (te_role ev)))) \<noteq> eq_role q then Inl Ev_Role_Mismatch
              else if or_null (eq_buildId q) \<noteq> or_null (map_option JStr (te_buildId ev)) then Inl Ev_Build_Mismatch
              else if te_conformanceVersion ev \<noteq> None \<and> te_conformanceVersion ev \<noteq> Some SUPPORTED_CONFORMANCE_VERSION
              then Inl Ev_Unsupported_Conformance_Version
              else Inr ev))"

section \<open>Enforcement\<close>

text \<open>A spread \<open>{...v}\<close> of an arbitrary value.\<close>

definition spread :: "jval option \<Rightarrow> (js_string \<times> jval) list" where
  "spread v =
     (case v of
        Some (JObj kvs) \<Rightarrow> kvs
      | Some (JArr vs) \<Rightarrow> zip (map dec_str [0..<length vs]) vs
      | Some (JStr s) \<Rightarrow> zip (map dec_str [0..<length s]) (map (\<lambda>c. JStr [c]) s)
      | _ \<Rightarrow> [])"

definition is_object :: "jval option \<Rightarrow> bool" where
  "is_object v \<longleftrightarrow> (case v of Some (JObj kvs) \<Rightarrow> True | Some (JArr vs) \<Rightarrow> True | _ \<Rightarrow> False)"

definition receive_leaves :: "string list" where
  "receive_leaves = [''manualPull'', ''lifecycleCheckpoint'', ''livePush'', ''backgroundWake'', ''idleWake'']"

definition messaging_leaves :: "string list" where
  "messaging_leaves = [''acknowledgements'', ''correlatedReplies'', ''progressEvents'', ''cancellation'', ''streaming'',
     ''structuredPayloads'', ''attachments'']"

fun check_leaves :: "string \<Rightarrow> jval \<Rightarrow> string list \<Rightarrow> xerror option" where
  "check_leaves grp g [] = None"
| "check_leaves grp g (leaf # leaves) =
     (if \<not> isCapabilityState (get_prop g leaf)
      then Some (XBusError PROTOCOL_VIOLATION [(js ''group'', JStr (js grp)), (js ''leaf'', JStr (js leaf))])
      else check_leaves grp g leaves)"

definition check_group :: "jval \<Rightarrow> string \<Rightarrow> string list \<Rightarrow> xerror option" where
  "check_group caps grp leaves =
     (if \<not> is_object (get_prop caps grp) then Some (XBusError PROTOCOL_VIOLATION [(js ''group'', JStr (js grp))])
      else check_leaves grp (the (get_prop caps grp)) leaves)"

definition assertDeclaredCapabilitiesShape :: "jval option \<Rightarrow> xerror option" where
  "assertDeclaredCapabilitiesShape caps =
     (if \<not> is_object caps then Some (xerr PROTOCOL_VIOLATION)
      else case check_group (the caps) ''receive'' receive_leaves of
             Some e \<Rightarrow> Some e
           | None \<Rightarrow> check_group (the caps) ''messaging'' messaging_leaves)"

text \<open>The declaration as \<open>AgentCapabilities\<close>, once its shape has been asserted.\<close>

definition leaf_of :: "jval \<Rightarrow> string \<Rightarrow> string \<Rightarrow> capability_state" where
  "leaf_of caps grp leaf =
     (case get_prop caps grp of
        None \<Rightarrow> Cap_Unsupported
      | Some g \<Rightarrow> (case capability_of_json (get_prop g leaf) of None \<Rightarrow> Cap_Unsupported | Some c \<Rightarrow> c))"

definition declared_capabilities :: "jval \<Rightarrow> agent_capabilities" where
  "declared_capabilities caps =
     (let r = leaf_of caps ''receive''; m = leaf_of caps ''messaging'' in
      \<lparr>ac_receive =
         \<lparr>rc_manualPull = r ''manualPull'', rc_lifecycleCheckpoint = r ''lifecycleCheckpoint'', rc_livePush = r ''livePush'',
          rc_backgroundWake = r ''backgroundWake'', rc_idleWake = r ''idleWake''\<rparr>,
       ac_messaging =
         \<lparr>mc_acknowledgements = m ''acknowledgements'', mc_correlatedReplies = m ''correlatedReplies'',
          mc_progressEvents = m ''progressEvents'', mc_cancellation = m ''cancellation'', mc_streaming = m ''streaming'',
          mc_structuredPayloads = m ''structuredPayloads'', mc_attachments = m ''attachments''\<rparr>,
       ac_lifecycle = spread (get_prop caps ''lifecycle''),
       ac_execution = spread (get_prop caps ''execution'')\<rparr>)"

datatype mode_capability = Needs_ManualPull | Needs_LifecycleCheckpoint | Needs_LivePush | Needs_None

definition modeRequires :: "js_string \<Rightarrow> mode_capability" where
  "modeRequires receiveMode =
     (if receiveMode = js ''manual_pull'' then Needs_ManualPull
      else if receiveMode = js ''hook_checkpoint'' then Needs_LifecycleCheckpoint
      else if receiveMode = js ''live'' \<or> receiveMode = js ''live_push'' then Needs_LivePush
      else Needs_None)"

fun verified_receive :: "verified_capabilities \<Rightarrow> mode_capability \<Rightarrow> bool" where
  "verified_receive v Needs_ManualPull = vc_manualPull v"
| "verified_receive v Needs_LifecycleCheckpoint = vc_lifecycleCheckpoint v"
| "verified_receive v Needs_LivePush = vc_livePush v"
| "verified_receive v Needs_None = True"

fun mode_capability_name :: "mode_capability \<Rightarrow> string" where
  "mode_capability_name Needs_ManualPull = ''manualPull''"
| "mode_capability_name Needs_LifecycleCheckpoint = ''lifecycleCheckpoint''"
| "mode_capability_name Needs_LivePush = ''livePush''"
| "mode_capability_name Needs_None = ''none''"

fun toEvidenceSource :: "trusted_source \<Rightarrow> evidence_source" where
  "toEvidenceSource Trust_None = Src_None"
| "toEvidenceSource Trust_Conformance = Src_Fake_Runtime"
| "toEvidenceSource Trust_Real_Runtime = Src_Real_Runtime"
| "toEvidenceSource Trust_Signed_Off = Src_Signed_Off"

definition flag_or :: "bool option \<Rightarrow> bool option \<Rightarrow> bool" where
  "flag_or a b = (case a of Some x \<Rightarrow> x | None \<Rightarrow> (case b of Some y \<Rightarrow> y | None \<Rightarrow> False))"

definition secretRedactionOf :: "broker_evidence \<Rightarrow> bool" where
  "secretRedactionOf ev = flag_or (te_secretRedactionVerified ev) (te_redactionVerified ev)"

definition telemetryRedactionOf :: "broker_evidence \<Rightarrow> bool" where
  "telemetryRedactionOf ev = flag_or (te_telemetryRedactionVerified ev) (te_redactionVerified ev)"

definition trustedToValidationEvidence :: "broker_evidence \<Rightarrow> validation_evidence" where
  "trustedToValidationEvidence ev =
     (let fullRuntime = (te_brokerRestartVerified ev \<and> te_reconnectVerified ev \<and> te_queuedDeliveryVerified ev \<and>
            te_fencingVerified ev \<and> secretRedactionOf ev \<and> telemetryRedactionOf ev \<and> te_packagedRuntimeVerified ev)
      in buildValidationEvidence (toEvidenceSource (te_source ev))
           \<lparr>ev_bootedAndRegistered = te_sendVerified ev \<or> te_checkpointReceiveVerified ev \<or> te_manualReceiveVerified ev,
            ev_sendVerified = te_sendVerified ev,
            ev_manualReceiveVerified = te_manualReceiveVerified ev,
            ev_checkpointReceiveVerified = te_checkpointReceiveVerified ev,
            ev_ackReplyVerified = te_ackReplyVerified ev,
            ev_liveReceiveVerified = te_liveReceiveVerified ev,
            ev_fullRuntimeValidation = fullRuntime\<rparr>)"

definition role_of_json :: "jval option \<Rightarrow> component_role option" where
  "role_of_json v =
     (case v of Some (JStr s) \<Rightarrow> List.find (\<lambda>r. js (role_name r) = s) [MCP, HOOK, TRANSPORT, CLI, ADMIN] | _ \<Rightarrow> None)"

record enforcement_result =
  en_awarded :: awarded_support
  en_verified :: verified_capabilities

definition award :: "js_string \<Rightarrow> component_role \<Rightarrow> agent_capabilities \<Rightarrow> broker_evidence option \<Rightarrow> xerror + enforcement_result" where
  "award receiveMode role declared trusted =
     (let evidence = (case trusted of None \<Rightarrow> buildValidationEvidence Src_None emptyEvidence | Some t \<Rightarrow> trustedToValidationEvidence t);
          source = (case trusted of None \<Rightarrow> Src_None | Some t \<Rightarrow> toEvidenceSource (te_source t));
          verified = toVerified role (confirmCapabilities declared evidence);
          required = modeRequires receiveMode
      in if required \<noteq> Needs_None \<and> \<not> verified_receive verified required
         then Inl (XBusError PROTOCOL_VIOLATION
                [(js ''receiveMode'', JStr receiveMode), (js ''required'', JStr (js (mode_capability_name required))),
                 (js ''hasEvidence'', JBool (trusted \<noteq> None))])
         else
           let fullConformancePassed = (trusted \<noteq> None \<and> source \<noteq> Src_None \<and>
                 (ev_fullRuntimeValidation evidence \<or> ev_checkpointReceiveVerified evidence \<or>
                  ev_manualReceiveVerified evidence \<or> ev_sendVerified evidence));
               awarded = computeAwardedSupport verified evidence source fullConformancePassed
           in if aw_tier awarded \<noteq> calculateMaximumTier verified evidence then Inl (xerr PROTOCOL_VIOLATION)
              else Inr \<lparr>en_awarded = awarded, en_verified = verified\<rparr>)"

text \<open>\<open>None\<close> is the legacy path without a declaration.\<close>

definition evaluateRegistration ::
  "js_string \<Rightarrow> jval option \<Rightarrow> component_role \<Rightarrow> broker_evidence option \<Rightarrow> xerror + enforcement_result option" where
  "evaluateRegistration receiveMode declaration authorityRole trusted =
     (if \<not> truthy_prop declaration then Inr None
      else
        let decl = the declaration in
        case role_of_json (get_prop decl ''role'') of
          None \<Rightarrow> Inl (xerr PROTOCOL_VIOLATION)
        | Some role \<Rightarrow>
            if role \<noteq> authorityRole
            then Inl (XBusError FORBIDDEN_ROLE [(js ''authenticated'', JStr (js (role_name authorityRole))),
                   (js ''declared'', JStr (js (role_name role)))])
            else case assertDeclaredCapabilitiesShape (get_prop decl ''declaredCapabilities'') of
                   Some e \<Rightarrow> Inl e
                 | None \<Rightarrow>
                     map_sum id Some (award receiveMode role
                       (declared_capabilities (the (get_prop decl ''declaredCapabilities''))) trusted))"

section \<open>An award rests on broker-owned evidence only\<close>

lemma raise_verified [simp]: "isVerified (raise_cap s proven) \<longleftrightarrow> proven"
  by (simp add: raise_cap_def clamp_def isVerified_def)

lemma verified_from_evidence:
  "toVerified role (confirmCapabilities declared ev) =
     \<lparr>vc_role = role, vc_manualPull = ev_manualReceiveVerified ev, vc_lifecycleCheckpoint = ev_checkpointReceiveVerified ev,
      vc_livePush = ev_liveReceiveVerified ev, vc_acknowledgements = ev_ackReplyVerified ev,
      vc_correlatedReplies = ev_ackReplyVerified ev\<rparr>"
  by (simp add: toVerified_def confirmCapabilities_def Let_def)

text \<open>A policy lowers an award and never raises it above the ceiling; a clamped claim stays a claim.\<close>

lemma awardedTier_bounds:
  "isWithinCeiling (awardedTier c p) c" "isWithinCeiling (awardedTier c p) p" "isWithinCeiling c p \<Longrightarrow> awardedTier c p = c"
  by (simp_all add: isWithinCeiling_def awardedTier_def)

lemma clamp_claimed: "isClaimed (clamp s) \<longleftrightarrow> isClaimed s"
  by (cases s) (simp_all add: isClaimed_def clamp_def)

text \<open>The ladder: one rung per property the broker has verified, in order, none skipped.\<close>

definition from_real_host :: "broker_evidence \<Rightarrow> bool" where
  "from_real_host t \<longleftrightarrow> te_source t = Trust_Real_Runtime \<or> te_source t = Trust_Signed_Off"

definition rungs :: "broker_evidence \<Rightarrow> bool list" where
  "rungs t =
     [te_sendVerified t, te_manualReceiveVerified t, te_checkpointReceiveVerified t \<and> te_ackReplyVerified t,
      from_real_host t \<and> te_liveReceiveVerified t, from_real_host t \<and> ev_fullRuntimeValidation (trustedToValidationEvidence t)]"

definition ladder :: "broker_evidence option \<Rightarrow> support_tier" where
  "ladder trusted = (case trusted of None \<Rightarrow> T0 | Some t \<Rightarrow> TIER_ORDER ! length (takeWhile (\<lambda>b. b) (rungs t)))"

lemma source_real: "toEvidenceSource s = Src_Real_Runtime \<longleftrightarrow> s = Trust_Real_Runtime"
  "toEvidenceSource s = Src_Signed_Off \<longleftrightarrow> s = Trust_Signed_Off" "toEvidenceSource s = Src_None \<longleftrightarrow> s = Trust_None"
  by (cases s; simp)+

lemma tier_ladder:
  "calculateMaximumTier (toVerified role (confirmCapabilities declared (trustedToValidationEvidence t))) (trustedToValidationEvidence t)
     = ladder (Some t)"
  unfolding verified_from_evidence
  by (simp add: calculateMaximumTier_def ladder_def rungs_def TIER_ORDER_def from_real_host_def trustedToValidationEvidence_def
      buildValidationEvidence_def Let_def source_real)

lemma tier_none:
  "calculateMaximumTier (toVerified role (confirmCapabilities declared (buildValidationEvidence Src_None emptyEvidence)))
     (buildValidationEvidence Src_None emptyEvidence) = ladder None"
  by (simp add: calculateMaximumTier_def ladder_def buildValidationEvidence_def emptyEvidence_def)

lemma award_tier: "award mode role declared trusted = Inr r \<Longrightarrow> aw_tier (en_awarded r) = ladder trusted"
  by (cases trusted) (auto simp: award_def Let_def computeAwardedSupport_def tier_ladder tier_none split: if_splits)

lemma award_independent: "award mode role declared trusted = award mode role declared' trusted"
  by (simp add: award_def verified_from_evidence)

lemma award_level: "award mode role declared trusted = Inr r \<Longrightarrow>
    aw_level (en_awarded r) \<in> {Unvalidated, maxLevelForSource (case trusted of None \<Rightarrow> Src_None | Some t \<Rightarrow> toEvidenceSource (te_source t))}"
  by (auto simp: award_def Let_def computeAwardedSupport_def deriveValidationLevel_def split: if_splits)

lemma conformance_ladder: "te_source t = Trust_Conformance \<Longrightarrow> ladder (Some t) \<in> {T0, T1, T2, T3}"
  by (auto simp: ladder_def rungs_def TIER_ORDER_def from_real_host_def)

lemma award_live:
  assumes "award mode role declared trusted = Inr r" "modeRequires mode = Needs_LivePush"
  shows "\<exists>t. trusted = Some t \<and> from_real_host t \<and> te_liveReceiveVerified t"
  using assms
  by (cases trusted) (auto simp: award_def verified_from_evidence Let_def trustedToValidationEvidence_def buildValidationEvidence_def
      emptyEvidence_def from_real_host_def source_real split: if_splits)

lemma evaluate_award:
  assumes "evaluateRegistration mode (Some decl) role trusted = Inr (Some r)"
  obtains declared where "role_of_json (get_prop decl ''role'') = Some role" "award mode role declared trusted = Inr r"
proof -
  let ?aw = "award mode role (declared_capabilities (the (get_prop decl ''declaredCapabilities''))) trusted"
  have "role_of_json (get_prop decl ''role'') = Some role \<and> map_sum id Some ?aw = Inr (Some r)"
    using assms by (auto simp: evaluateRegistration_def Let_def split: if_splits option.splits)
  then show thesis using that by (cases ?aw) auto
qed

text \<open>C28: An adapter cannot raise its own support. Whatever it declares, the award of an adapter-aware registration is
  the same for every declaration that is admitted in its place, and the delivery tier is the ladder of what the broker
  itself has verified for that adapter: without evidence it is T0 and unvalidated, evidence from the deterministic
  conformance run never lifts it above T3 or conformance-tested, a live receive mode needs a live receive
  verified on a real host, and the declared role is the role of the connection.\<close>

theorem award_rests_on_evidence:
  assumes "evaluateRegistration mode (Some decl) role trusted = Inr (Some r)"
  shows "aw_tier (en_awarded r) = ladder trusted
    \<and> (\<forall>decl' r'. evaluateRegistration mode (Some decl') role trusted = Inr (Some r') \<longrightarrow> r' = r)
    \<and> (trusted = None \<longrightarrow> aw_tier (en_awarded r) = T0 \<and> aw_level (en_awarded r) = Unvalidated)
    \<and> (\<forall>t. trusted = Some t \<and> te_source t = Trust_Conformance \<longrightarrow>
         aw_tier (en_awarded r) \<in> {T0, T1, T2, T3} \<and> aw_level (en_awarded r) \<in> {Unvalidated, Conformance_Tested})
    \<and> (modeRequires mode = Needs_LivePush \<longrightarrow> (\<exists>t. trusted = Some t \<and> from_real_host t \<and> te_liveReceiveVerified t))
    \<and> role_of_json (get_prop decl ''role'') = Some role"
proof (intro conjI allI impI)
  obtain declared where role: "role_of_json (get_prop decl ''role'') = Some role" and aw: "award mode role declared trusted = Inr r"
    using evaluate_award [OF assms] .
  note tier = award_tier [OF aw] and level = award_level [OF aw]
  show "aw_tier (en_awarded r) = ladder trusted" by (rule tier)
  show "role_of_json (get_prop decl ''role'') = Some role" by (rule role)
  show "r' = r" if "evaluateRegistration mode (Some decl') role trusted = Inr (Some r')" for decl' r'
    using evaluate_award [OF that] aw award_independent [of mode role declared trusted] by (metis sum.inject(2))
  show "aw_tier (en_awarded r) = T0" "aw_level (en_awarded r) = Unvalidated" if "trusted = None"
    using tier level that by (simp_all add: ladder_def)
  fix t assume t: "trusted = Some t \<and> te_source t = Trust_Conformance"
  show "aw_tier (en_awarded r) \<in> {T0, T1, T2, T3}" using tier conformance_ladder t by simp
  show "aw_level (en_awarded r) \<in> {Unvalidated, Conformance_Tested}" using level t by simp
next
  obtain declared where "award mode role declared trusted = Inr r" using evaluate_award [OF assms] .
  then show "\<exists>t. trusted = Some t \<and> from_real_host t \<and> te_liveReceiveVerified t" if "modeRequires mode = Needs_LivePush"
    using award_live that by blast
qed

text \<open>An adapter that declares every capability as verified, and conformance evidence for it.\<close>

definition boastful :: jval where
  "boastful = JObj
     [(js ''adapterId'', JStr (js ''a'')), (js ''adapterVersion'', JStr (js ''1'')), (js ''role'', JStr (js ''mcp'')),
      (js ''declaredCapabilities'', JObj
         [(js ''receive'', JObj (map (\<lambda>l. (js l, JStr (js ''verified''))) receive_leaves)),
          (js ''messaging'', JObj (map (\<lambda>l. (js l, JStr (js ''verified''))) messaging_leaves))])]"

definition conformance_evidence :: broker_evidence where
  "conformance_evidence = \<lparr>te_source = Trust_Conformance, te_adapterId = js ''a'', te_adapterVersion = js ''1'', te_role = MCP,
     te_buildId = None, te_sendVerified = True, te_manualReceiveVerified = True, te_checkpointReceiveVerified = True,
     te_liveReceiveVerified = True, te_ackReplyVerified = True, te_brokerRestartVerified = True, te_reconnectVerified = True,
     te_queuedDeliveryVerified = True, te_fencingVerified = True, te_redactionVerified = Some True,
     te_secretRedactionVerified = None, te_telemetryRedactionVerified = None, te_packagedRuntimeVerified = True,
     te_conformanceVersion = Some 1\<rparr>"

theorem award_rests_on_evidence_witness:
  "\<exists>r. evaluateRegistration (js ''hook_checkpoint'') (Some boastful) MCP (Some conformance_evidence) = Inr (Some r)
    \<and> aw_tier (en_awarded r) = T3 \<and> aw_level (en_awarded r) \<in> {Unvalidated, Conformance_Tested}"
proof -
  let ?v = "\<lparr>vc_role = MCP, vc_manualPull = True, vc_lifecycleCheckpoint = True, vc_livePush = False, vc_acknowledgements = True,
     vc_correlatedReplies = True\<rparr>"
  let ?r = "\<lparr>en_awarded = \<lparr>aw_tier = T3, aw_level = Conformance_Tested\<rparr>, en_verified = ?v\<rparr>"
  have shape: "assertDeclaredCapabilitiesShape (get_prop boastful ''declaredCapabilities'') = None"
    and role: "role_of_json (get_prop boastful ''role'') = Some MCP" and mode: "modeRequires (js ''hook_checkpoint'') = Needs_LifecycleCheckpoint"
    and decl: "truthy_prop (Some boastful)"
    by code_simp+
  have "trustedToValidationEvidence conformance_evidence =
      \<lparr>ev_bootedAndRegistered = True, ev_sendVerified = True, ev_manualReceiveVerified = True, ev_checkpointReceiveVerified = True,
       ev_ackReplyVerified = True, ev_liveReceiveVerified = False, ev_fullRuntimeValidation = False\<rparr>"
    by (simp add: trustedToValidationEvidence_def conformance_evidence_def buildValidationEvidence_def)
  then have "award (js ''hook_checkpoint'') MCP declared (Some conformance_evidence) = Inr ?r" for declared
    unfolding award_def verified_from_evidence
    by (simp add: mode conformance_evidence_def computeAwardedSupport_def calculateMaximumTier_def deriveValidationLevel_def del: js_Cons)
  with shape role decl
  have ev: "evaluateRegistration (js ''hook_checkpoint'') (Some boastful) MCP (Some conformance_evidence) = Inr (Some ?r)"
    by (simp add: evaluateRegistration_def del: js_Cons)
  have lad: "ladder (Some conformance_evidence) = T3" and src: "te_source conformance_evidence = Trust_Conformance"
    by (simp_all add: ladder_def rungs_def conformance_evidence_def from_real_host_def TIER_ORDER_def)
  from award_rests_on_evidence [OF ev] src have "aw_tier (en_awarded ?r) = ladder (Some conformance_evidence)"
    "aw_level (en_awarded ?r) \<in> {Unvalidated, Conformance_Tested}"
    by blast+
  with ev lad show ?thesis by metis
qed

section \<open>Evidence is bound to an adapter identity\<close>

definition identity_of :: "broker_evidence \<Rightarrow> evidence_query" where
  "identity_of ev = \<lparr>eq_adapterId = Some (JStr (te_adapterId ev)), eq_adapterVersion = Some (JStr (te_adapterVersion ev)),
     eq_role = Some (JStr (js (role_name (te_role ev)))), eq_buildId = map_option JStr (te_buildId ev)\<rparr>"

lemma resolve_bound:
  assumes "resolve reg q = Inr (Inr ev)"
  shows "ev \<in> snd ` set reg" "eq_adapterId q = Some (JStr (te_adapterId ev))"
    "eq_adapterVersion q = Some (JStr (te_adapterVersion ev))" "eq_role q = Some (JStr (js (role_name (te_role ev))))"
    "or_null (eq_buildId q) = or_null (map_option JStr (te_buildId ev))"
proof -
  obtain k where "map_of reg k = Some ev" using assms by (auto simp: resolve_def split: option.splits if_splits)
  then show "ev \<in> snd ` set reg" by (force dest: map_of_SomeD)
qed (use assms in \<open>auto simp: resolve_def split: option.splits if_splits\<close>)

lemma resolve_recorded:
  assumes "te_source ev \<noteq> Trust_None" "te_conformanceVersion ev \<in> {None, Some SUPPORTED_CONFORMANCE_VERSION}"
  shows "resolve (record_evidence ev reg) (identity_of ev) = Inr (Inr ev)"
  using assms by (auto simp: resolve_def record_evidence_def identity_of_def query_key_def prop_text_def)

end
