(* ===== verification/Routing.thy ===== *)
theory Routing
  imports Operator_Console Delivery_Correct
begin

text \<open>
  The outward routing class and the sender-facing delivery signal of \<^verbatim>\<open>src/broker/routing-class.ts\<close>, the
  host wake probe of \<^verbatim>\<open>src/broker/wake-probe.ts\<close>, and the read paths of the daemon that report them. The
  class is compared with the gates of a checkpoint pull.
\<close>

section \<open>Wake probe\<close>

record wake_probe =
  wp_proven :: bool
  wp_detail :: "js_string option"
  wp_claudeVersion :: "js_string option"

record wake_probe_store =
  ws_probe :: wake_probe
  ws_runningVersion :: "js_string option"

definition new_WakeProbeStore :: "wake_probe option \<Rightarrow> js_string option \<Rightarrow> wake_probe_store" where
  "new_WakeProbeStore initial runningVersion =
     \<lparr>ws_probe = (case initial of
          None \<Rightarrow> \<lparr>wp_proven = False, wp_detail = Some (js ''wake capability not yet probed on this host''), wp_claudeVersion = None\<rparr>
        | Some p \<Rightarrow> p),
      ws_runningVersion = runningVersion\<rparr>"

text \<open>A proof observed on another version counts as unproven; an empty version string is falsy.\<close>

definition probe_stale :: "wake_probe_store \<Rightarrow> bool" where
  "probe_stale w \<longleftrightarrow> wp_proven (ws_probe w) \<and> truthy (ws_runningVersion w) \<and> truthy (wp_claudeVersion (ws_probe w))
     \<and> wp_claudeVersion (ws_probe w) \<noteq> ws_runningVersion w"

definition get_probe :: "wake_probe_store \<Rightarrow> wake_probe" where
  "get_probe w =
     (if probe_stale w
      then \<lparr>wp_proven = False,
            wp_detail = Some (js ''wake proof stale: probed on '' @ the (wp_claudeVersion (ws_probe w)) @ js '', running ''
              @ the (ws_runningVersion w) @ [32, 8212, 32] @ js ''re-probe required''),
            wp_claudeVersion = None\<rparr>
      else ws_probe w)"

definition record_probe :: "wake_probe \<Rightarrow> wake_probe_store \<Rightarrow> wake_probe_store" where
  "record_probe p w =
     w\<lparr>ws_probe := \<lparr>wp_proven = wp_proven p, wp_detail = wp_detail p, wp_claudeVersion = wp_claudeVersion p\<rparr>\<rparr>"

section \<open>Routing class\<close>

datatype routing_class = Routes_Live | Routes_Wakeable | Routes_Checkpoint_Only | Routes_Unavailable | Routes_Pending

record routing_inputs =
  ro_readiness :: readiness
  ro_receiveMode :: js_string
  ro_connection :: connection_state
  ro_expired :: bool
  ro_wakeProbe :: "wake_probe option"
  ro_autoDelivery :: "bool option"
  ro_control :: "receive_control option"

definition deriveRoutingClass :: "routing_inputs \<Rightarrow> routing_class" where
  "deriveRoutingClass i =
     (if ro_expired i then Routes_Unavailable
      else if ro_readiness i = Incompatible \<or> ro_readiness i = Disconnected then Routes_Unavailable
      else if ro_connection i = Conn_Disconnected then Routes_Unavailable
      else if ro_readiness i = Initializing then Routes_Pending
      else if ro_readiness i = Degraded_Ack_Unavailable \<or> ro_readiness i = Degraded_Hook_Unavailable then Routes_Unavailable
      else if ro_autoDelivery i = Some False
      then (if ro_control i = Some RC_Manual_Checkpoint then Routes_Checkpoint_Only else Routes_Unavailable)
      else if ro_readiness i = Ready_Live then Routes_Live
      else if ro_readiness i = Ready_Checkpoint
      then (if (case ro_wakeProbe i of None \<Rightarrow> False | Some p \<Rightarrow> wp_proven p) then Routes_Wakeable else Routes_Checkpoint_Only)
      else Routes_Unavailable)"

definition isAutonomouslyRoutable :: "routing_class \<Rightarrow> bool" where
  "isAutonomouslyRoutable rc \<longleftrightarrow> rc = Routes_Live \<or> rc = Routes_Wakeable"

definition hasConsumptionPath :: "routing_class \<Rightarrow> bool" where
  "hasConsumptionPath rc \<longleftrightarrow> rc = Routes_Live \<or> rc = Routes_Wakeable \<or> rc = Routes_Checkpoint_Only"

section \<open>Delivery signal\<close>

datatype delivery_signal =
    Sig_Queued | Sig_Wake_Requested | Sig_Wake_Failed | Sig_Injected | Sig_Acknowledged | Sig_Replied | Sig_Failed | Sig_Expired

fun deriveDeliverySignal :: "delivery_state \<Rightarrow> wake_outcome \<Rightarrow> delivery_signal" where
  "deriveDeliverySignal Transport_Written wake = Sig_Injected"
| "deriveDeliverySignal Accepted wake = Sig_Acknowledged"
| "deriveDeliverySignal Completed wake = Sig_Replied"
| "deriveDeliverySignal Rejected wake = Sig_Failed"
| "deriveDeliverySignal Dead_Letter wake = Sig_Failed"
| "deriveDeliverySignal Cancelled wake = Sig_Failed"
| "deriveDeliverySignal Expired wake = Sig_Expired"
| "deriveDeliverySignal state wake =
     (if wake = Wake_Failed then Sig_Wake_Failed
      else if wake = Wake_Requested \<or> wake = Wake_Accepted then Sig_Wake_Requested
      else Sig_Queued)"

section \<open>Read paths of the daemon\<close>

definition receiveModeOf :: "db \<Rightarrow> js_string \<Rightarrow> js_string" where
  "receiveModeOf d sid = (case session_row d sid of None \<Rightarrow> js ''disconnected'' | Some s \<Rightarrow> s_receiveMode s)"

definition routingClassOf :: "wake_probe_store \<Rightarrow> db \<Rightarrow> js_string \<Rightarrow> readiness \<Rightarrow> connection_state \<Rightarrow> bool \<Rightarrow> routing_class" where
  "routingClassOf w d sid r conn expired =
     (let receiveControl = getControl d sid in
      deriveRoutingClass
        \<lparr>ro_readiness = r, ro_receiveMode = [], ro_connection = conn, ro_expired = expired, ro_wakeProbe = Some (get_probe w),
         ro_autoDelivery = Some (receiveControl = RC_Active), ro_control = Some receiveControl\<rparr>)"

text \<open>What \<open>onSend\<close> and \<open>onListSessions\<close> report of a stored session.\<close>

definition reportedClass :: "wake_probe_store \<Rightarrow> db \<Rightarrow> js_string \<Rightarrow> routing_class" where
  "reportedClass w d sid =
     (let expired = (case session_row d sid of None \<Rightarrow> False | Some s \<Rightarrow> s_expiredAt s \<noteq> None);
          conn = (case session_row d sid of None \<Rightarrow> Conn_Disconnected | Some s \<Rightarrow> s_state s)
      in routingClassOf w d sid (readinessOf d sid) conn expired)"

section \<open>The reported class and the gates of a pull\<close>

definition connected :: "db \<Rightarrow> js_string \<Rightarrow> bool" where
  "connected d sid \<longleftrightarrow> (case session_row d sid of None \<Rightarrow> False | Some s \<Rightarrow> s_state s = Conn_Connected \<and> s_expiredAt s = None)"

lemma accepts_iff: "acceptsInjection r \<longleftrightarrow> r = Ready_Checkpoint \<or> r = Ready_Live"
  by (simp add: acceptsInjection_def READY_STATES_def)

lemma reported_cases:
  "reportedClass w d sid =
     (if \<not> connected d sid then Routes_Unavailable
      else if readinessOf d sid = Initializing then Routes_Pending
      else if \<not> sessionAcceptsInjection d sid then Routes_Unavailable
      else if \<not> autoDeliveryEnabled d sid
      then (if getControl d sid = RC_Manual_Checkpoint then Routes_Checkpoint_Only else Routes_Unavailable)
      else if readinessOf d sid = Ready_Live then Routes_Live
      else if wp_proven (get_probe w) then Routes_Wakeable else Routes_Checkpoint_Only)"
proof (cases "session_row d sid")
  case None
  then show ?thesis
    by (simp add: reportedClass_def routingClassOf_def deriveRoutingClass_def connected_def Let_def)
next
  case (Some s)
  then show ?thesis
    by (cases "s_readiness s"; cases "s_state s"; cases "s_expiredAt s")
      (simp_all add: reportedClass_def routingClassOf_def deriveRoutingClass_def connected_def Let_def readinessOf_def
        sessionAcceptsInjection_def autoDeliveryEnabled_def accepts_iff)
qed

lemma pull_gated:
  assumes "\<not> (sessionAcceptsInjection d (a_session auth) \<and> autoDeliveryEnabled d (a_session auth))"
  shows "checkpointPull C E auth cp n d = (d', Inr out) \<Longrightarrow> out = []"
  using assms by (auto simp: checkpointPull_def res_simps split: option.splits if_splits)

lemma routable_iff:
  "isAutonomouslyRoutable (reportedClass w d sid) \<longleftrightarrow>
     connected d sid \<and> sessionAcceptsInjection d sid \<and> autoDeliveryEnabled d sid \<and>
     (readinessOf d sid = Ready_Live \<or> wp_proven (get_probe w))"
  by (auto simp: reported_cases isAutonomouslyRoutable_def sessionAcceptsInjection_def accepts_iff)

lemma path_iff:
  "hasConsumptionPath (reportedClass w d sid) \<longleftrightarrow>
     connected d sid \<and> sessionAcceptsInjection d sid \<and> getControl d sid \<in> {RC_Active, RC_Manual_Checkpoint}"
  by (auto simp: reported_cases hasConsumptionPath_def sessionAcceptsInjection_def accepts_iff autoDeliveryEnabled_def)

text \<open>C27: The routing class the broker reports for a session is honest about the gates of delivery. A session is reported
  as autonomously routable exactly when it is connected and unexpired, its readiness accepts injection, automatic
  delivery is on, and it is live or the host's wake path is proven for the running version. It is reported as having a
  consumption path exactly when it is connected and unexpired, accepts injection and its control is active or manual.
  For a connected session that is reported to have no path, a checkpoint pull presents nothing.\<close>

theorem routing_honest:
  shows "(isAutonomouslyRoutable (reportedClass w d sid) \<longleftrightarrow>
      connected d sid \<and> sessionAcceptsInjection d sid \<and> autoDeliveryEnabled d sid \<and>
      (readinessOf d sid = Ready_Live \<or> wp_proven (ws_probe w) \<and> \<not> probe_stale w))
    \<and> (hasConsumptionPath (reportedClass w d sid) \<longleftrightarrow>
      connected d sid \<and> sessionAcceptsInjection d sid \<and> getControl d sid \<in> {RC_Active, RC_Manual_Checkpoint})
    \<and> (connected d sid \<and> \<not> hasConsumptionPath (reportedClass w d sid) \<and> a_session auth = sid \<longrightarrow>
      (\<forall>d' out. checkpointPull C E auth cp n d = (d', Inr out) \<longrightarrow> out = []))"
proof (intro conjI)
  have "wp_proven (get_probe w) \<longleftrightarrow> wp_proven (ws_probe w) \<and> \<not> probe_stale w" by (simp add: get_probe_def)
  then show "isAutonomouslyRoutable (reportedClass w d sid) \<longleftrightarrow>
      connected d sid \<and> sessionAcceptsInjection d sid \<and> autoDeliveryEnabled d sid \<and>
      (readinessOf d sid = Ready_Live \<or> wp_proven (ws_probe w) \<and> \<not> probe_stale w)"
    by (simp add: routable_iff)
  show "connected d sid \<and> \<not> hasConsumptionPath (reportedClass w d sid) \<and> a_session auth = sid \<longrightarrow>
      (\<forall>d' out. checkpointPull C E auth cp n d = (d', Inr out) \<longrightarrow> out = [])"
    unfolding path_iff using pull_gated [of d auth C E cp n] by (auto simp: autoDeliveryEnabled_def)
qed (rule path_iff)

definition paused_db :: db where
  "paused_db = setControl sample_env (js ''b'') RC_Paused queued_db"

theorem routing_honest_witness:
  "isAutonomouslyRoutable (reportedClass (new_WakeProbeStore (Some \<lparr>wp_proven = True, wp_detail = None, wp_claudeVersion = None\<rparr>) None) queued_db (js ''b''))
    \<and> \<not> hasConsumptionPath (reportedClass (new_WakeProbeStore None None) paused_db (js ''b''))
    \<and> checkpointPull daemon_config sample_env (sample_auth HOOK) (js ''cp'') 10 paused_db = (paused_db, Inr [])"
proof -
  let ?w = "new_WakeProbeStore None None"
  have pull: "checkpointPull daemon_config sample_env (sample_auth HOOK) (js ''cp'') 10 paused_db = (paused_db, Inr [])"
    by (simp add: checkpointPull_def paused_db_def sample_auth_def assertAllowed_def isAllowed_iff assertCurrentEpoch_def session_row_def
        sample_session_def sessionAcceptsInjection_def readinessOf_def accepts_iff autoDeliveryEnabled_def getControl_setControl)
  have "isAutonomouslyRoutable (reportedClass (new_WakeProbeStore (Some \<lparr>wp_proven = True, wp_detail = None, wp_claudeVersion = None\<rparr>) None) queued_db (js ''b''))"
    using routing_honest [of "new_WakeProbeStore (Some \<lparr>wp_proven = True, wp_detail = None, wp_claudeVersion = None\<rparr>) None" queued_db "js ''b''"]
    by (simp add: connected_def session_row_def sample_session_def sessionAcceptsInjection_def readinessOf_def accepts_iff
        autoDeliveryEnabled_def getControl_def control_row_of_def new_WakeProbeStore_def probe_stale_def truthy_def)
  moreover have "\<not> hasConsumptionPath (reportedClass ?w paused_db (js ''b''))"
    using routing_honest [of ?w paused_db "js ''b''"] by (simp add: paused_db_def getControl_setControl)
  ultimately show ?thesis using pull by simp
qed

end
