(* ===== verification/Daemon.thy ===== *)
theory Daemon
  imports Broker Adapter Routing
begin

text \<open>
  The broker daemon of \<^verbatim>\<open>src/broker/daemon.ts\<close>: the state it keeps per connection, one handler per frame type with its
  validation of the untrusted payload, the operator callbacks of the dashboard, managed children, and the timers. A
  handler maps the daemon to the daemon and either the thrown error or the answer; \<open>handle\<close> turns a throw into an
  error answer.
\<close>

section \<open>State\<close>

text \<open>
  What the daemon is constructed with. \<open>dc_parseSend\<close> is the schema parser of a send input, \<open>dc_parseDate\<close> is
  \<open>Date.parse\<close>, \<open>dc_dashboard\<close> is what the dashboard's URL minter
  returns.
\<close>

record daemon_setup =
  dc_authSecret :: "js_string option"
  dc_instanceId :: js_string
  dc_config :: config
  dc_reaper :: reaper_options
  dc_cap :: int
  dc_parseSend :: "jval \<Rightarrow> nat + send_input"
  dc_parseDate :: "js_string \<Rightarrow> int option"
  dc_dashboard :: "(js_string \<times> js_string) option"

record child_handle =
  ch_pid :: int
  ch_launchKey :: js_string

text \<open>\<open>dm_signalled\<close> lists the processes the daemon has sent SIGTERM to, \<open>dm_stopping\<close> tells that the deferred stop is scheduled.\<close>

record daemon =
  dm_db :: db
  connAuth :: "(js_string \<times> authority) list"
  connHello :: "js_string list"
  connAwarded :: "(js_string \<times> awarded_support) list"
  managedChildren :: "(js_string \<times> child_handle) list"
  trustedEvidence :: evidence_registry
  wakeProbe :: wake_probe_store
  dm_signalled :: "int list"
  dm_stopping :: bool

definition map_delete :: "'k \<Rightarrow> ('k \<times> 'v) list \<Rightarrow> ('k \<times> 'v) list" where
  "map_delete k es = filter (\<lambda>(k', v). k' \<noteq> k) es"

lemma map_of_map_delete [simp]: "map_of (map_delete k es) = (map_of es)(k := None)"
  by (induction es) (auto simp: map_delete_def)

type_synonym 'a handled = "(daemon, xerror, 'a) outcome"

definition on_db :: "(db \<Rightarrow> 'a result) \<Rightarrow> daemon \<Rightarrow> 'a handled" where
  "on_db f m = (case f (dm_db m) of (d, r) \<Rightarrow> (m\<lparr>dm_db := d\<rparr>, r))"

definition upd_db :: "(db \<Rightarrow> db) \<Rightarrow> daemon \<Rightarrow> daemon" where
  "upd_db f m = m\<lparr>dm_db := f (dm_db m)\<rparr>"

definition fresh_id :: "env \<Rightarrow> daemon \<Rightarrow> js_string handled" where
  "fresh_id E m = on_db (\<lambda>d. case next_id E d of (i, d) \<Rightarrow> (d, Inr i)) m"

text \<open>\<open>x ?? this.ids.next()\<close>\<close>

definition id_or_fresh :: "env \<Rightarrow> js_string option \<Rightarrow> daemon \<Rightarrow> js_string handled" where
  "id_or_fresh E x m = (case x of None \<Rightarrow> fresh_id E m | Some i \<Rightarrow> (m, Inr i))"

section \<open>Answers\<close>

record session_info =
  li_name :: "js_string option"
  li_nameState :: name_state
  li_expired :: bool
  li_alias :: js_string
  li_project :: js_string
  li_connection :: connection_state
  li_receiveMode :: js_string
  li_readiness :: readiness
  li_readinessAt :: "int option"
  li_class :: routing_class
  li_autonomous :: bool
  li_lastCheckpoint :: "int option"
  li_queued :: nat
  li_unacknowledged :: nat
  li_session :: js_string

record own_status =
  os_auth :: authority
  os_name :: "js_string option"
  os_nameState :: name_state
  os_agentType :: "js_string option"
  os_cwd :: "js_string option"
  os_readiness :: "readiness option"
  os_class :: routing_class
  os_lastActivity :: "int option"
  os_expiresAt :: "int option"
  os_expired :: bool

record metrics_gauges =
  mg_deliveries :: "delivery_state \<Rightarrow> nat"
  mg_sessions :: "readiness \<Rightarrow> nat"
  mg_injections :: nat
  mg_redeliveries :: nat

datatype answer =
    Error_Answer error_code "(js_string \<times> jval) list"
  | Hello_Ack compatibility_result js_string
  | Register_Ack registered "awarded_support option"
  | Announce_Ack js_string announce_result
  | Dashboard_Ack "(js_string \<times> js_string) option"
  | Alias_Ack js_string
  | Rename_Ack rename_result
  | Send_Ack send_result string js_string readiness routing_class bool delivery_signal
  | Pull_Ack "pending_message list"
  | Hook_Pull_Ack "pending_message list"
  | Ack_Ack delivery_state bool
  | Reply_Ack send_result js_string
  | Peek_Ack "pending_message list"
  | Inbox_Ack "inbox_entry list"
  | Redeliver_Ack inbox_entry
  | Readiness_Ack readiness
  | Sessions_Ack "session_info list"
  | Metrics_Ack metrics_gauges
  | Status_Ack js_string "own_status option"
  | Diagnose_Ack "(js_string \<times> activation_diagnosis) option"
  | Heartbeat_Ack
  | Shutdown_Ack js_string
  | Control_Ack js_string receive_control
  | Process_Ack "pending_message list"
  | Wake_Ack bool
  | Dead_Letter_Ack "dead_letter_record option"
  | Dead_Letters_Ack "dead_letter_record list"
  | Block_Ack js_string bool

section \<open>Hello\<close>

text \<open>A JavaScript number. Every comparison with \<open>NaN\<close> is false.\<close>

datatype js_num = NaN | NegInf | Fin rat | PosInf

fun num_less :: "js_num \<Rightarrow> js_num \<Rightarrow> bool" where
  "num_less NaN y = False"
| "num_less x NaN = False"
| "num_less x NegInf = False"
| "num_less NegInf y = True"
| "num_less PosInf y = False"
| "num_less x PosInf = True"
| "num_less (Fin a) (Fin b) = (a < b)"

definition num_max :: "js_num \<Rightarrow> js_num \<Rightarrow> js_num" where
  "num_max x y = (if x = NaN \<or> y = NaN then NaN else if num_less x y then y else x)"

definition num_min :: "js_num \<Rightarrow> js_num \<Rightarrow> js_num" where
  "num_min x y = (if x = NaN \<or> y = NaN then NaN else if num_less x y then x else y)"

definition text_number :: "js_string \<Rightarrow> js_num" where
  "text_number s =
     (if js_trim s \<in> {js ''Infinity'', js ''+Infinity''} then PosInf
      else if js_trim s = js ''-Infinity'' then NegInf
      else case numeric_text s of None \<Rightarrow> NaN | Some r \<Rightarrow> Fin r)"

definition to_number :: "jval \<Rightarrow> xerror + js_num" where
  "to_number v =
     (case v of
        JNull \<Rightarrow> Inr (Fin 0)
      | JBool b \<Rightarrow> Inr (Fin (if b then 1 else 0))
      | JNum n \<Rightarrow> Inr (Fin (of_int n))
      | JStr s \<Rightarrow> Inr (text_number s)
      | _ \<Rightarrow> (case to_text v of None \<Rightarrow> Inl JsTypeError | Some t \<Rightarrow> Inr (text_number t)))"

text \<open>\<open>checkCompatibility\<close> on the numbers of an untrusted hello.\<close>

definition hello_verdict :: "js_num \<Rightarrow> js_num \<Rightarrow> xerror + js_num \<Rightarrow> hello_info \<Rightarrow> xerror + compatibility_verdict" where
  "hello_verdict cmin cmax clientSchema broker =
     (let bmin = Fin (of_int (h_minimumProtocolVersion broker));
          bmax = Fin (of_int (h_maximumProtocolVersion broker));
          bschema = Fin (of_int (h_schemaVersion broker));
          lo = num_max cmin bmin;
          hi = num_min cmax bmax
      in if num_less hi lo then
           (if num_less cmax bmin
            then Inr \<lparr>cv_result = Upgrade_Component, cv_ok = False\<rparr>
            else Inr \<lparr>cv_result = Upgrade_Broker, cv_ok = False\<rparr>)
         else checked clientSchema (\<lambda>cschema.
           if num_less bschema cschema then Inr \<lparr>cv_result = Restart_Broker, cv_ok = False\<rparr>
           else if num_less cschema bschema then Inr \<lparr>cv_result = Upgrade_Component, cv_ok = False\<rparr>
           else Inr \<lparr>cv_result = Compatible, cv_ok = True\<rparr>))"

definition or_else :: "jval option \<Rightarrow> jval \<Rightarrow> jval" where
  "or_else v w = (case v of None \<Rightarrow> w | Some JNull \<Rightarrow> w | Some u \<Rightarrow> u)"

fun result_name :: "compatibility_result \<Rightarrow> string" where
  "result_name Compatible = ''compatible''"
| "result_name Upgrade_Component = ''upgrade_component''"
| "result_name Restart_Broker = ''restart_broker''"
| "result_name Upgrade_Broker = ''upgrade_broker''"
| "result_name Migration_Required = ''migration_required''"
| "result_name Unsupported = ''unsupported''"

definition onHello :: "daemon_setup \<Rightarrow> env \<Rightarrow> js_string \<Rightarrow> jval \<Rightarrow> daemon \<Rightarrow> answer handled" where
  "onHello S E conn p m =
     (if dc_authSecret S \<noteq> None \<and> get_prop p ''auth'' \<noteq> map_option JStr (dc_authSecret S) then (m, Inl (xerr AUTH_FAILED))
      else
        let pv = or_else (get_prop p ''protocolVersion'') (JNum 0) in
        case checked (to_number (or_else (get_prop p ''minimumProtocolVersion'') pv)) (\<lambda>cmin.
             checked (to_number (or_else (get_prop p ''maximumProtocolVersion'') pv)) (\<lambda>cmax.
             hello_verdict cmin cmax (to_number (or_else (get_prop p ''schemaVersion'') (JNum SCHEMA_VERSION))) brokerHelloInfo)) of
          Inl e \<Rightarrow> (m, Inl e)
        | Inr verdict \<Rightarrow>
            if \<not> cv_ok verdict
            then (upd_db (daemon_audit E ''VERSION_INCOMPATIBLE''
                    [(''result'', JStr (js (result_name (cv_result verdict)))),
                     (''clientBuild'', or_else (get_prop p ''buildId'') (JStr (js ''legacy'')))]) m,
                  Inl (XBusError VERSION_INCOMPATIBLE [(js ''result'', JStr (js (result_name (cv_result verdict))))]))
            else (m\<lparr>connHello := (if conn \<in> set (connHello m) then connHello m else connHello m @ [conn])\<rparr>,
                  Inr (Hello_Ack (cv_result verdict) (dc_instanceId S))))"

section \<open>Registration\<close>

definition requireAuth :: "js_string \<Rightarrow> daemon \<Rightarrow> xerror + authority" where
  "requireAuth conn m = (case map_of (connAuth m) conn of None \<Rightarrow> Inl (xerr SESSION_NOT_REGISTERED) | Some a \<Rightarrow> Inr a)"

definition with_auth :: "js_string \<Rightarrow> (authority \<Rightarrow> daemon \<Rightarrow> 'a handled) \<Rightarrow> daemon \<Rightarrow> 'a handled" where
  "with_auth conn k m = (case requireAuth conn m of Inl e \<Rightarrow> (m, Inl e) | Inr auth \<Rightarrow> k auth m)"

fun require_strings :: "jval \<Rightarrow> string list \<Rightarrow> xerror + unit" where
  "require_strings p [] = Inr ()"
| "require_strings p (f # fs) =
     (if nonempty_string (get_prop p f) = None then Inl (XBusError PROTOCOL_VIOLATION [(js ''field'', JStr (js f))])
      else require_strings p fs)"

fun optional_strings :: "jval \<Rightarrow> string list \<Rightarrow> xerror + unit" where
  "optional_strings p [] = Inr ()"
| "optional_strings p (f # fs) =
     (if get_prop p f \<noteq> None \<and> string_prop (get_prop p f) = None
      then Inl (XBusError PROTOCOL_VIOLATION [(js ''field'', JStr (js f))])
      else optional_strings p fs)"

definition the_string :: "jval \<Rightarrow> string \<Rightarrow> js_string" where
  "the_string p f = (case get_prop p f of Some (JStr s) \<Rightarrow> s | _ \<Rightarrow> [])"

text \<open>Entries of other types are never matched by \<open>capabilities.includes\<close>.\<close>

definition string_entries :: "jval option \<Rightarrow> js_string list" where
  "string_entries v = (case v of Some (JArr vs) \<Rightarrow> concat (map (\<lambda>w. case w of JStr s \<Rightarrow> [s] | _ \<Rightarrow> []) vs) | _ \<Rightarrow> [])"

definition process_id :: "jval \<Rightarrow> xerror + int" where
  "process_id p = (case get_prop p ''processId'' of Some (JNum n) \<Rightarrow> Inr n | _ \<Rightarrow> Inl (xerr PROTOCOL_VIOLATION))"

definition capabilities_array :: "jval \<Rightarrow> xerror + unit" where
  "capabilities_array p =
     (case get_prop p ''capabilities'' of
        None \<Rightarrow> Inr ()
      | Some (JArr vs) \<Rightarrow> Inr ()
      | Some _ \<Rightarrow> Inl (XBusError PROTOCOL_VIOLATION [(js ''field'', JStr (js ''capabilities''))]))"

definition register_role :: "jval \<Rightarrow> component_role" where
  "register_role p = (case role_of_json (get_prop p ''role'') of None \<Rightarrow> MCP | Some r \<Rightarrow> r)"

text \<open>A requested name that is not a string fails the validation of names like the empty one.\<close>

definition register_input_of :: "js_string \<Rightarrow> jval \<Rightarrow> int \<Rightarrow> register_input" where
  "register_input_of conn p pid =
     \<lparr>rg_session = the_string p ''sessionId'', rg_conn = conn, rg_pid = pid, rg_projectId = the_string p ''projectId'',
      rg_cwd = the_string p ''cwd'', rg_receiveMode = the_string p ''receiveMode'',
      rg_capabilities = string_entries (get_prop p ''capabilities''), rg_role = Some (register_role p), rg_buildId = None,
      rg_repoRoot = string_prop (get_prop p ''repositoryRoot''), rg_ccVersion = string_prop (get_prop p ''claudeCodeVersion''),
      rg_name = map_option (\<lambda>_. the_string p ''requestedSessionName'') (get_prop p ''requestedSessionName''),
      rg_agentType = string_prop (get_prop p ''agentType''), rg_secret = string_prop (get_prop p ''ownerSecret''),
      rg_supersede = (get_prop p ''supersede'' = Some (JBool True))\<rparr>"

text \<open>The broker's own evidence for the adapter a registration declares; a refused resolution counts as none.\<close>

definition resolved_evidence :: "evidence_registry \<Rightarrow> jval option \<Rightarrow> xerror + broker_evidence option" where
  "resolved_evidence reg declaration =
     (if \<not> truthy_prop declaration then Inr None
      else
        let decl = the declaration in
        checked (resolve reg \<lparr>eq_adapterId = get_prop decl ''adapterId'', eq_adapterVersion = get_prop decl ''adapterVersion'',
                              eq_role = get_prop decl ''role'', eq_buildId = get_prop decl ''buildId''\<rparr>)
          (\<lambda>r. Inr (case r of Inl _ \<Rightarrow> None | Inr ev \<Rightarrow> Some ev)))"

definition enforcement :: "evidence_registry \<Rightarrow> jval \<Rightarrow> xerror + enforcement_result option" where
  "enforcement reg p =
     checked (resolved_evidence reg (get_prop p ''adapterRegistration'')) (\<lambda>trusted.
       evaluateRegistration (the_string p ''receiveMode'') (get_prop p ''adapterRegistration'') (register_role p) trusted)"

definition register_checks :: "evidence_registry \<Rightarrow> jval \<Rightarrow> xerror + (int \<times> enforcement_result option)" where
  "register_checks reg p =
     checked (process_id p) (\<lambda>pid.
     checked (optional_strings p [''repositoryRoot'', ''claudeCodeVersion'', ''agentType'']) (\<lambda>_.
     checked (capabilities_array p) (\<lambda>_.
     checked (enforcement reg p) (\<lambda>en. Inr (pid, en)))))"

definition onRegister :: "env \<Rightarrow> js_string \<Rightarrow> jval \<Rightarrow> daemon \<Rightarrow> answer handled" where
  "onRegister E conn p m =
     (if conn \<notin> set (connHello m) then (m, Inl (xerr AUTH_FAILED))
      else
        let m = m\<lparr>connAwarded := map_delete conn (connAwarded m)\<rparr> in
        case require_strings p [''sessionId'', ''instanceId'', ''projectId'', ''cwd'', ''receiveMode''] of
          Inl e \<Rightarrow> (m, Inl e)
        | Inr _ \<Rightarrow>
            if isOperatorSession (the_string p ''sessionId'')
            then (upd_db (daemon_audit E ''RESERVED_SESSION_REGISTER_REJECTED'' [(''sessionId'', JStr (the_string p ''sessionId''))]) m,
                  Inl (XBusError PROTOCOL_VIOLATION [(js ''sessionId'', JStr (the_string p ''sessionId''))]))
            else case register_checks (trustedEvidence m) p of
              Inl e \<Rightarrow> (m, Inl e)
            | Inr (pid, en) \<Rightarrow>
                andThen (on_db (register E (register_input_of conn p pid)) m) (\<lambda>reg m.
                  let m = m\<lparr>connAuth := obj_put conn (rd_auth reg) (connAuth m)\<rparr> in
                  case en of
                    None \<Rightarrow> (m, Inr (Register_Ack reg None))
                  | Some r \<Rightarrow> (m\<lparr>connAwarded := obj_put conn (en_awarded r) (connAwarded m)\<rparr>,
                              Inr (Register_Ack reg (Some (en_awarded r))))))"

section \<open>Session handlers\<close>

definition announce_input_of :: "jval \<Rightarrow> xerror + announce_input" where
  "announce_input_of p =
     checked (require (nonempty_string (get_prop p ''source'') \<noteq> None) (xerr PROTOCOL_VIOLATION)) (\<lambda>_.
     checked (optString (get_prop p ''cwd'') ''cwd'') (\<lambda>cwd.
     checked (optString (get_prop p ''transcriptPath'') ''transcriptPath'') (\<lambda>transcriptPath.
     checked (optString (get_prop p ''agentType'') ''agentType'') (\<lambda>agentType.
     checked (optString (get_prop p ''sessionTitle'') ''sessionTitle'') (\<lambda>sessionTitle.
       Inr \<lparr>an_source = the_string p ''source'', an_cwd = cwd, an_transcript = transcriptPath, an_agentType = agentType,
            an_title = sessionTitle\<rparr>)))))"

definition onAnnounceSession :: "env \<Rightarrow> js_string \<Rightarrow> jval \<Rightarrow> daemon \<Rightarrow> answer handled" where
  "onAnnounceSession E conn p =
     with_auth conn (\<lambda>auth m.
       case announce_input_of p of
         Inl e \<Rightarrow> (m, Inl e)
       | Inr inp \<Rightarrow> andThen (on_db (announceSession E auth inp) m) (\<lambda>r m. (m, Inr (Announce_Ack (a_session auth) r))))"

definition onRenameSession :: "env \<Rightarrow> js_string \<Rightarrow> jval \<Rightarrow> daemon \<Rightarrow> answer handled" where
  "onRenameSession E conn p =
     with_auth conn (\<lambda>auth m.
       andThen (on_db (renameSession E auth (the_string p ''name'') (string_prop (get_prop p ''ownerSecret''))) m)
         (\<lambda>r m. (m, Inr (Rename_Ack r))))"

definition onRegisterAlias :: "env \<Rightarrow> js_string \<Rightarrow> jval \<Rightarrow> daemon \<Rightarrow> answer handled" where
  "onRegisterAlias E conn p =
     with_auth conn (\<lambda>auth m.
       andThen (on_db (registerAlias E auth (the_string p ''alias'')) m) (\<lambda>r m. (m, Inr (Alias_Ack r))))"

definition bool_hint :: "jval option \<Rightarrow> bool option" where
  "bool_hint v = (case v of Some (JBool b) \<Rightarrow> Some b | _ \<Rightarrow> None)"

text \<open>
  \<open>hookAvailable === false\<close>, \<open>live === true\<close> and \<open>versionOk === false\<close> hold of booleans only; \<open>ackAvailable ?? ...\<close> takes
  every value but null and undefined and reads its truth.
\<close>

definition hints_of :: "jval \<Rightarrow> readiness_hints" where
  "hints_of p =
     \<lparr>rh_ackAvailable = (case get_prop p ''ackAvailable'' of None \<Rightarrow> None | Some JNull \<Rightarrow> None | Some v \<Rightarrow> Some (truthy_val v)),
      rh_hookAvailable = bool_hint (get_prop p ''hookAvailable''),
      rh_live = bool_hint (get_prop p ''live''),
      rh_versionOk = bool_hint (get_prop p ''versionOk'')\<rparr>"

definition onSignalReadiness :: "env \<Rightarrow> js_string \<Rightarrow> jval \<Rightarrow> daemon \<Rightarrow> answer handled" where
  "onSignalReadiness E conn p =
     with_auth conn (\<lambda>auth m. andThen (on_db (signalReadiness E auth (hints_of p)) m) (\<lambda>r m. (m, Inr (Readiness_Ack r))))"

definition control_of :: "jval option \<Rightarrow> receive_control option" where
  "control_of v =
     (case v of
        Some (JStr s) \<Rightarrow>
          List.find (\<lambda>c. js (control_name c) = s) [RC_Active, RC_Paused, RC_Do_Not_Disturb, RC_Manual_Checkpoint]
      | _ \<Rightarrow> None)"

definition onSetControl :: "env \<Rightarrow> js_string \<Rightarrow> jval \<Rightarrow> daemon \<Rightarrow> answer handled" where
  "onSetControl E conn p =
     with_auth conn (\<lambda>auth m.
       let mode = (case control_of (get_prop p ''mode'') of None \<Rightarrow> RC_Active | Some c \<Rightarrow> c);
           m = upd_db (setControl E (a_session auth) mode) m;
           m = upd_db (refreshMeaningfulActivity E (a_session auth)) m;
           m = upd_db (daemon_audit E ''CONTROL_SET''
                 [(''sessionId'', JStr (a_session auth)), (''mode'', JStr (js (control_name mode)))]) m
       in (m, Inr (Control_Ack (a_session auth) mode)))"

definition onBlockPeer :: "env \<Rightarrow> js_string \<Rightarrow> jval \<Rightarrow> daemon \<Rightarrow> answer handled" where
  "onBlockPeer E conn p =
     with_auth conn (\<lambda>auth m.
       case nonempty_string (get_prop p ''alias'') of
         None \<Rightarrow> (m, Inl (xerr INVALID_ALIAS))
       | Some alias \<Rightarrow>
           if truthy_prop (get_prop p ''unblock'')
           then (upd_db (unblockPeer E (a_session auth) alias) m, Inr (Block_Ack alias False))
           else (upd_db (blockPeer E (a_session auth) alias) m, Inr (Block_Ack alias True)))"

definition onActivationDiagnose :: "env \<Rightarrow> js_string \<Rightarrow> daemon \<Rightarrow> answer handled" where
  "onActivationDiagnose E conn m =
     (case map_of (connAuth m) conn of
        None \<Rightarrow> (m, Inr (Diagnose_Ack None))
      | Some auth \<Rightarrow>
          andThen (on_db (diagnoseActivationOnce E (a_session auth)) m) (\<lambda>r m. (m, Inr (Diagnose_Ack (Some (a_session auth, r))))))"

section \<open>Message handlers\<close>

text \<open>The lifecycle word a sender is told.\<close>

definition send_word :: "delivery_state \<Rightarrow> readiness \<Rightarrow> js_string \<Rightarrow> string" where
  "send_word state r recvMode =
     (if r = Initializing then ''queued_receiver_initializing''
      else if r = Degraded_Ack_Unavailable \<or> r = Degraded_Hook_Unavailable then ''queued_receiver_degraded''
      else if recvMode = js ''hook_checkpoint'' then ''queued_until_checkpoint''
      else state_name state)"

definition send_answer :: "daemon \<Rightarrow> send_result \<Rightarrow> answer" where
  "send_answer m r =
     (let d = dm_db m;
          recipient = sr_recipient r;
          recvMode = receiveModeOf d recipient;
          readiness = readinessOf d recipient;
          rc = reportedClass (wakeProbe m) d recipient
      in Send_Ack r (send_word (sr_sendState r) readiness recvMode) recvMode readiness rc (isAutonomouslyRoutable rc)
           (deriveDeliverySignal (sr_sendState r) (latestWakeOutcome d (sr_messageId r))))"

definition onSend :: "daemon_setup \<Rightarrow> env \<Rightarrow> js_string \<Rightarrow> jval option \<Rightarrow> daemon \<Rightarrow> answer handled" where
  "onSend S E conn payload =
     with_auth conn (\<lambda>auth m.
       case assertAllowed (a_role auth) Op_Send of
         Some e \<Rightarrow> (m, Inl e)
       | None \<Rightarrow>
           (case validateSendInput (uni E) (dc_parseSend S) (or_null payload) of
              Inl e \<Rightarrow> (m, Inl e)
            | Inr input \<Rightarrow> andThen (on_db (send E auth input) m) (\<lambda>r m. (m, Inr (send_answer m r)))))"

text \<open>The MCP checkpoint pull: select, mark injected, stamp the session, and return each newly marked body with its reference.\<close>

fun referenced :: "env \<Rightarrow> authority \<Rightarrow> pending_message list \<Rightarrow> daemon \<Rightarrow> pending_message list \<times> daemon" where
  "referenced E auth [] m = ([], m)"
| "referenced E auth (p # ps) m =
     (case injectionIdFor (dm_db m) (pn_id p) (a_epoch auth) of
        Some i \<Rightarrow>
          if i \<noteq> []
          then (case referenced E auth ps m of (out, m) \<Rightarrow>
                 (p\<lparr>pn_metadata := Some (obj_put INJECTION_METADATA_KEY i
                     (case pn_metadata p of None \<Rightarrow> [] | Some es \<Rightarrow> es))\<rparr> # out, m))
          else referenced E auth ps (upd_db (daemon_audit E ''INJECTION_ID_MISSING_BODY_SUPPRESSED''
                 [(''sessionId'', JStr (a_session auth)), (''messageId'', JStr (pn_id p))]) m)
      | None \<Rightarrow> referenced E auth ps (upd_db (daemon_audit E ''INJECTION_ID_MISSING_BODY_SUPPRESSED''
                 [(''sessionId'', JStr (a_session auth)), (''messageId'', JStr (pn_id p))]) m))"

definition onCheckpointPull :: "daemon_setup \<Rightarrow> env \<Rightarrow> js_string \<Rightarrow> jval \<Rightarrow> daemon \<Rightarrow> answer handled" where
  "onCheckpointPull S E conn p =
     with_auth conn (\<lambda>auth m.
       case validatedLimit (get_prop p ''limit'') of
         Inl e \<Rightarrow> (m, Inl e)
       | Inr limit \<Rightarrow>
           andThen (on_db (pendingForSession E auth limit) m) (\<lambda>pending m.
           andThen (on_db (markInjected (dc_config S) E auth (map pn_id pending)) m) (\<lambda>marked m.
             let m = upd_db (touchCheckpoint E (a_session auth)) m;
                 m = (if marked \<noteq> [] then upd_db (refreshMeaningfulActivity E (a_session auth)) m else m);
                 (out, m) = referenced E auth (filter (\<lambda>q. pn_id q \<in> set marked) pending) m
             in (m, Inr (Pull_Ack out)))))"

definition onCheckpointPullHook :: "daemon_setup \<Rightarrow> env \<Rightarrow> js_string \<Rightarrow> jval \<Rightarrow> daemon \<Rightarrow> answer handled" where
  "onCheckpointPullHook S E conn p =
     with_auth conn (\<lambda>auth m.
       case checked (validatedLimit (get_prop p ''limit'')) (\<lambda>limit.
            checked (optString (get_prop p ''checkpointId'') ''checkpointId'') (\<lambda>cp. Inr (limit, cp))) of
         Inl e \<Rightarrow> (m, Inl e)
       | Inr (limit, cp) \<Rightarrow>
           andThen (id_or_fresh E cp m) (\<lambda>checkpointId m.
           andThen (on_db (checkpointPull (dc_config S) E auth checkpointId (default 10 limit)) m) (\<lambda>out m.
             (if out \<noteq> [] then upd_db (touchCheckpoint E (a_session auth)) m else m, Inr (Hook_Pull_Ack out)))))"

definition onProcessNext :: "daemon_setup \<Rightarrow> env \<Rightarrow> js_string \<Rightarrow> daemon \<Rightarrow> answer handled" where
  "onProcessNext S E conn =
     with_auth conn (\<lambda>auth m.
       andThen (fresh_id E m) (\<lambda>cp m.
       andThen (on_db (processNext (dc_config S) E auth cp) m) (\<lambda>out m. (m, Inr (Process_Ack out)))))"

definition onWakePoll :: "env \<Rightarrow> js_string \<Rightarrow> daemon \<Rightarrow> answer handled" where
  "onWakePoll E conn = with_auth conn (\<lambda>auth m. (m, Inr (Wake_Ack (hasEligibleDelivery E (dm_db m) (a_session auth)))))"

definition ack_input_of :: "jval \<Rightarrow> xerror + ack_input" where
  "ack_input_of p =
     checked (require (nonempty_string (get_prop p ''messageId'') \<noteq> None) (xerr PROTOCOL_VIOLATION)) (\<lambda>_.
     checked (case get_prop p ''status'' of
                Some (JStr s) \<Rightarrow> if s = js ''accepted'' then Inr Ack_Accepted
                                 else if s = js ''rejected'' then Inr Ack_Rejected else Inl (xerr PROTOCOL_VIOLATION)
              | _ \<Rightarrow> Inl (xerr PROTOCOL_VIOLATION)) (\<lambda>status.
     checked (optString (get_prop p ''note'') ''note'') (\<lambda>note.
     checked (optString (get_prop p ''injectionId'') ''injectionId'') (\<lambda>injectionId.
       Inr \<lparr>ai_message = the_string p ''messageId'', ai_status = status, ai_note = note, ai_injection = injectionId\<rparr>))))"

definition onAck :: "daemon_setup \<Rightarrow> env \<Rightarrow> js_string \<Rightarrow> jval \<Rightarrow> daemon \<Rightarrow> answer handled" where
  "onAck S E conn p =
     with_auth conn (\<lambda>auth m.
       case ack_input_of p of
         Inl e \<Rightarrow> (m, Inl e)
       | Inr inp \<Rightarrow> andThen (on_db (ack (dc_config S) E auth inp) m) (\<lambda>r m. (m, Inr (Ack_Ack (fst r) (snd r)))))"

text \<open>
  The metadata of a reply is stored as it comes: entries whose value is no string are kept as their JSON text, a falsy
  value is dropped.
\<close>

definition reply_metadata :: "jval option \<Rightarrow> (js_string \<times> js_string) list option" where
  "reply_metadata v =
     (if truthy_prop v then Some (map (\<lambda>(k, w). (k, case w of JStr s \<Rightarrow> s | _ \<Rightarrow> json_stringify w)) (spread v)) else None)"

definition reply_outcome :: "jval option \<Rightarrow> string option" where
  "reply_outcome v =
     (case v of Some (JStr s) \<Rightarrow> List.find (\<lambda>t. js t = s) [''completed'', ''failed'', ''partial''] | _ \<Rightarrow> None)"

definition reply_input_of :: "jval \<Rightarrow> xerror + reply_input" where
  "reply_input_of p =
     checked (require (nonempty_string (get_prop p ''messageId'') \<noteq> None) (xerr PROTOCOL_VIOLATION)) (\<lambda>_.
     checked (require (string_prop (get_prop p ''text'') \<noteq> None) (xerr PROTOCOL_VIOLATION)) (\<lambda>_.
     checked (case reply_outcome (get_prop p ''outcome'') of None \<Rightarrow> Inl (xerr PROTOCOL_VIOLATION) | Some t \<Rightarrow> Inr t) (\<lambda>outcome.
     checked (optString (get_prop p ''idempotencyKey'') ''idempotencyKey'') (\<lambda>idempotencyKey.
     checked (optString (get_prop p ''injectionId'') ''injectionId'') (\<lambda>injectionId.
       Inr \<lparr>ri_message = the_string p ''messageId'', ri_text = the_string p ''text'', ri_outcome = outcome,
            ri_idempotency = idempotencyKey, ri_metadata = reply_metadata (get_prop p ''metadata''),
            ri_injection = injectionId\<rparr>)))))"

definition onReply :: "daemon_setup \<Rightarrow> env \<Rightarrow> js_string \<Rightarrow> jval \<Rightarrow> daemon \<Rightarrow> answer handled" where
  "onReply S E conn p =
     with_auth conn (\<lambda>auth m.
       case reply_input_of p of
         Inl e \<Rightarrow> (m, Inl e)
       | Inr inp \<Rightarrow>
           andThen (on_db (reply (dc_config S) E auth inp allocSequence) m) (\<lambda>r m. (m, Inr (Reply_Ack (fst r) (snd r)))))"

definition onInbox :: "daemon_setup \<Rightarrow> env \<Rightarrow> js_string \<Rightarrow> jval \<Rightarrow> daemon \<Rightarrow> answer handled" where
  "onInbox S E conn p =
     with_auth conn (\<lambda>auth m.
       case checked (validatedLimit (get_prop p ''limit'')) (\<lambda>limit.
            checked (optString (get_prop p ''checkpointId'') ''checkpointId'') (\<lambda>cp. Inr (limit, cp))) of
         Inl e \<Rightarrow> (m, Inl e)
       | Inr (limit, cp) \<Rightarrow>
           if get_prop p ''markInjected'' = Some (JBool False)
           then andThen (on_db (pendingForSession E auth limit) m) (\<lambda>out m. (m, Inr (Peek_Ack out)))
           else andThen (id_or_fresh E cp m) (\<lambda>checkpointId m.
                andThen (on_db (inboxView (dc_config S) E auth checkpointId (default 50 limit)) m) (\<lambda>out m. (m, Inr (Inbox_Ack out)))))"

definition onRedeliver :: "daemon_setup \<Rightarrow> env \<Rightarrow> js_string \<Rightarrow> jval \<Rightarrow> daemon \<Rightarrow> answer handled" where
  "onRedeliver S E conn p =
     with_auth conn (\<lambda>auth m.
       case nonempty_string (get_prop p ''messageId'') of
         None \<Rightarrow> (m, Inl (xerr MESSAGE_NOT_FOUND))
       | Some mid \<Rightarrow>
           let reason = (case string_prop (get_prop p ''reason'') of None \<Rightarrow> js ''explicit'' | Some r \<Rightarrow> r) in
           andThen (on_db (redeliver (dc_config S) E auth mid reason) m) (\<lambda>entry m.
             case entry of None \<Rightarrow> (m, Inl (xerr MESSAGE_NOT_FOUND)) | Some e \<Rightarrow> (m, Inr (Redeliver_Ack e))))"

section \<open>Administration and reads\<close>

definition onShutdown :: "daemon_setup \<Rightarrow> env \<Rightarrow> js_string \<Rightarrow> jval \<Rightarrow> daemon \<Rightarrow> answer handled" where
  "onShutdown S E conn p =
     with_auth conn (\<lambda>auth m.
       case assertAllowed (a_role auth) Op_Shutdown of
         Some e \<Rightarrow> (m, Inl e)
       | None \<Rightarrow>
           if get_prop p ''brokerInstanceId'' \<noteq> Some (JStr (dc_instanceId S)) then (m, Inl (xerr IDENTITY_MISMATCH))
           else (upd_db (daemon_audit E ''SHUTDOWN_REQUESTED'' [(''instanceId'', JStr (a_component auth))])
                   (m\<lparr>dm_stopping := True\<rparr>), Inr (Shutdown_Ack (dc_instanceId S))))"

definition onEnsureDashboard :: "daemon_setup \<Rightarrow> js_string \<Rightarrow> daemon \<Rightarrow> answer handled" where
  "onEnsureDashboard S conn = with_auth conn (\<lambda>auth m. (m, Inr (Dashboard_Ack (dc_dashboard S))))"

definition onDeadLetter :: "js_string \<Rightarrow> jval \<Rightarrow> daemon \<Rightarrow> answer handled" where
  "onDeadLetter conn p =
     with_auth conn (\<lambda>auth m.
       case assertAllowed (a_role auth) Op_Dead_Letter of
         Some e \<Rightarrow> (m, Inl e)
       | None \<Rightarrow>
           if get_prop p ''action'' = Some (JStr (js ''inspect''))
           then (case nonempty_string (get_prop p ''messageId'') of
                   None \<Rightarrow> (m, Inr (Error_Answer PROTOCOL_VIOLATION []))
                 | Some mid \<Rightarrow> (m, Inr (Dead_Letter_Ack (inspect mid (dm_db m)))))
           else (m, Inr (Dead_Letters_Ack (list_dead (dm_db m)))))"

definition visible_alias :: "db \<Rightarrow> session_row \<Rightarrow> js_string" where
  "visible_alias d s =
     (case List.find (\<lambda>a. al_session a = s_id s \<and> al_active a \<and> \<not> starts_with (ascii_lower (al_alias a)) (js ''session-'')) (aliases d) of
        None \<Rightarrow> s_autoAlias s | Some a \<Rightarrow> al_alias a)"

definition session_info_of :: "wake_probe_store \<Rightarrow> db \<Rightarrow> session_row \<Rightarrow> session_info" where
  "session_info_of w d s =
     (let rc = routingClassOf w d (s_id s) (s_readiness s) (s_state s) (s_expiredAt s \<noteq> None) in
      \<lparr>li_name = s_name s, li_nameState = s_nameState s, li_expired = (s_expiredAt s \<noteq> None), li_alias = visible_alias d s,
       li_project = (case s_projectAlias s of None \<Rightarrow> s_projectId s | Some a \<Rightarrow> a), li_connection = s_state s,
       li_receiveMode = s_receiveMode s, li_readiness = s_readiness s, li_readinessAt = s_readinessAt s, li_class = rc,
       li_autonomous = isAutonomouslyRoutable rc, li_lastCheckpoint = s_lastCheckpointAt s,
       li_queued = changes (\<lambda>x. d_recipient x = s_id s \<and> waiting x) (deliveries d),
       li_unacknowledged = changes (\<lambda>x. d_recipient x = s_id s \<and> d_state x = Transport_Written) (deliveries d),
       li_session = s_id s\<rparr>)"

definition onListSessions :: "js_string \<Rightarrow> daemon \<Rightarrow> answer handled" where
  "onListSessions conn =
     with_auth conn (\<lambda>auth m.
       (m, Inr (Sessions_Ack (map (session_info_of (wakeProbe m) (dm_db m)) (sessions (dm_db m))))))"

definition metricsSnapshot :: "db \<Rightarrow> metrics_gauges" where
  "metricsSnapshot d =
     \<lparr>mg_deliveries = (\<lambda>k. changes (\<lambda>x. d_state x = k) (deliveries d)),
      mg_sessions = (\<lambda>k. changes (\<lambda>s. s_readiness s = k) (sessions d)),
      mg_injections = length (context_injections d),
      mg_redeliveries = changes (\<lambda>a. au_event a = ''EXPLICIT_REDELIVERY'') (audit_events d)\<rparr>"

definition onGetMetrics :: "js_string \<Rightarrow> daemon \<Rightarrow> answer handled" where
  "onGetMetrics conn =
     with_auth conn (\<lambda>auth m.
       case assertAllowed (a_role auth) Op_Get_Metrics of
         Some e \<Rightarrow> (m, Inl e)
       | None \<Rightarrow> (m, Inr (Metrics_Ack (metricsSnapshot (dm_db m)))))"

definition status_of :: "daemon \<Rightarrow> authority \<Rightarrow> own_status" where
  "status_of m auth =
     (let d = dm_db m; row = session_row d (a_session auth) in
      \<lparr>os_auth = auth,
       os_name = (case row of None \<Rightarrow> None | Some s \<Rightarrow> if s_nameState s = Active then s_name s else None),
       os_nameState = (case row of None \<Rightarrow> Unnamed | Some s \<Rightarrow> s_nameState s),
       os_agentType = (case row of None \<Rightarrow> None | Some s \<Rightarrow> s_agentType s),
       os_cwd = map_option s_cwd row,
       os_readiness = map_option s_readiness row,
       os_class = routingClassOf (wakeProbe m) d (a_session auth) (case row of None \<Rightarrow> Disconnected | Some s \<Rightarrow> s_readiness s)
         Conn_Connected (case row of None \<Rightarrow> False | Some s \<Rightarrow> s_expiredAt s \<noteq> None),
       os_lastActivity = (case row of None \<Rightarrow> None | Some s \<Rightarrow> s_lastActivityAt s),
       os_expiresAt = (case row of None \<Rightarrow> None | Some s \<Rightarrow> s_expiresAt s),
       os_expired = (case row of None \<Rightarrow> False | Some s \<Rightarrow> s_expiredAt s \<noteq> None)\<rparr>)"

definition onStatus :: "daemon_setup \<Rightarrow> js_string \<Rightarrow> daemon \<Rightarrow> answer handled" where
  "onStatus S conn m = (m, Inr (Status_Ack (dc_instanceId S) (map_option (status_of m) (map_of (connAuth m) conn))))"

section \<open>Dispatch\<close>

text \<open>\<open>handle\<close>: the switch over the frame type; every throw becomes one error answer, anything but an \<open>XBusError\<close> an internal error.\<close>

definition dispatch :: "daemon_setup \<Rightarrow> env \<Rightarrow> js_string \<Rightarrow> js_string \<Rightarrow> jval option \<Rightarrow> daemon \<Rightarrow> answer handled" where
  "dispatch S E conn ft payload =
     (let p = payload_or_empty payload in
      if ft = js ''hello'' then onHello S E conn p
      else if ft = js ''register_session'' then onRegister E conn p
      else if ft = js ''announce_session'' then onAnnounceSession E conn p
      else if ft = js ''ensure_dashboard'' then onEnsureDashboard S conn
      else if ft = js ''register_alias'' then onRegisterAlias E conn p
      else if ft = js ''rename_session'' then onRenameSession E conn p
      else if ft = js ''send_message'' then onSend S E conn payload
      else if ft = js ''checkpoint_pull'' then onCheckpointPull S E conn p
      else if ft = js ''checkpoint_pull_hook'' then onCheckpointPullHook S E conn p
      else if ft = js ''ack_message'' then onAck S E conn p
      else if ft = js ''reply_message'' then onReply S E conn p
      else if ft = js ''inbox'' then onInbox S E conn p
      else if ft = js ''redeliver'' then onRedeliver S E conn p
      else if ft = js ''signal_readiness'' then onSignalReadiness E conn p
      else if ft = js ''list_sessions'' then onListSessions conn
      else if ft = js ''get_metrics'' then onGetMetrics conn
      else if ft = js ''get_status'' then onStatus S conn
      else if ft = js ''activation_diagnose'' then onActivationDiagnose E conn
      else if ft = js ''heartbeat'' then (\<lambda>m. (m, Inr Heartbeat_Ack))
      else if ft = js ''shutdown'' then onShutdown S E conn p
      else if ft = js ''set_control'' then onSetControl E conn p
      else if ft = js ''process_next'' then onProcessNext S E conn
      else if ft = js ''wake_poll'' then onWakePoll E conn
      else if ft = js ''dead_letter'' then onDeadLetter conn p
      else if ft = js ''block_peer'' then onBlockPeer E conn p
      else (\<lambda>m. (m, Inr (Error_Answer PROTOCOL_VIOLATION []))))"

definition error_answer :: "xerror \<Rightarrow> answer" where
  "error_answer e = (case e of XBusError c detail \<Rightarrow> Error_Answer c detail | _ \<Rightarrow> Error_Answer DATABASE_ERROR [])"

definition handle :: "daemon_setup \<Rightarrow> env \<Rightarrow> js_string \<Rightarrow> js_string \<Rightarrow> jval option \<Rightarrow> daemon \<Rightarrow> daemon \<times> answer" where
  "handle S E conn ft payload m =
     (case dispatch S E conn ft payload m of (m', Inl e) \<Rightarrow> (m', error_answer e) | (m', Inr a) \<Rightarrow> (m', a))"

definition daemon_onConnClose :: "env \<Rightarrow> js_string \<Rightarrow> daemon \<Rightarrow> daemon" where
  "daemon_onConnClose E conn m =
     m\<lparr>dm_db := onConnClose E conn (map_of (connAuth m) conn) (dm_db m),
       connAuth := map_delete conn (connAuth m),
       connHello := filter (\<lambda>c. c \<noteq> conn) (connHello m),
       connAwarded := map_delete conn (connAwarded m)\<rparr>"

section \<open>Operator callbacks\<close>

text \<open>The fields of an object that are present.\<close>

definition pick :: "jval \<Rightarrow> string list \<Rightarrow> jval" where
  "pick p ks = JObj (concat (map (\<lambda>k. case get_prop p k of None \<Rightarrow> [] | Some v \<Rightarrow> [(js k, v)]) ks))"

definition operator_input_of :: "daemon_setup \<Rightarrow> env \<Rightarrow> jval \<Rightarrow> xerror + operator_input" where
  "operator_input_of S E p =
     checked (validateSendInput (uni E) (dc_parseSend S)
       (pick p [''to'', ''text'', ''kind'', ''requiresAck'', ''requiresReply'', ''ttlSeconds'', ''idempotencyKey'', ''metadata''])) (\<lambda>input.
     checked (optString (get_prop p ''threadId'') ''threadId'') (\<lambda>threadId.
     checked (optString (get_prop p ''parentMessageId'') ''parentMessageId'') (\<lambda>parent.
     checked (optString (get_prop p ''subject'') ''subject'') (\<lambda>subject.
     checked (require (case subject of None \<Rightarrow> True | Some t \<Rightarrow> byteLen t \<le> 256) (xerr PAYLOAD_TOO_LARGE)) (\<lambda>_.
       Inr \<lparr>oi_to = si_to input, oi_text = si_text input, oi_kind = si_kind input, oi_requiresAck = si_requiresAck input,
            oi_requiresReply = si_requiresReply input, oi_thread = threadId, oi_parent = parent,
            oi_idempotency = si_idempotencyKey input, oi_ttlSeconds = si_ttlSeconds input, oi_subject = subject,
            oi_metadata = si_metadata input\<rparr>)))))"

datatype operator_answer =
    Operator_Sent operator_result string js_string readiness
  | Thread_Read nat
  | Renamed_Alias name_state js_string
  | Control_Changed js_string receive_control
  | Pinned js_string bool
  | Archived js_string bool
  | Removed js_string bool
  | Stopped js_string "int option" bool bool
  | Redelivery operator_redelivery
  | Collections_Replaced nat
  | Schedule_Created js_string int
  | Schedule_Changed js_string schedule_state

text \<open>Unlike \<open>onSend\<close>, the console keeps the recorded state of a repeated send.\<close>

definition daemon_operatorSend :: "daemon_setup \<Rightarrow> env \<Rightarrow> jval option \<Rightarrow> daemon \<Rightarrow> operator_answer handled" where
  "daemon_operatorSend S E raw m =
     (case operator_input_of S E (payload_or_empty raw) of
        Inl e \<Rightarrow> (m, Inl e)
      | Inr inp \<Rightarrow>
          andThen (on_db (operatorSend E inp) m) (\<lambda>r m.
            let sr = or_send r;
                recvMode = receiveModeOf (dm_db m) (sr_recipient sr);
                readiness = readinessOf (dm_db m) (sr_recipient sr);
                word = (if sr_deduplicated sr then state_name (sr_sendState sr) else send_word (sr_sendState sr) readiness recvMode)
            in (m, Inr (Operator_Sent r word recvMode readiness))))"

definition operatorMarkThreadRead :: "env \<Rightarrow> jval option \<Rightarrow> daemon \<Rightarrow> operator_answer handled" where
  "operatorMarkThreadRead E raw m =
     (let p = payload_or_empty raw in
      case checked (optString (get_prop p ''threadId'') ''threadId'') (\<lambda>t.
           checked (require (truthy t) (xerr PROTOCOL_VIOLATION)) (\<lambda>_.
           case get_prop p ''upToSequence'' of
             Some (JNum n) \<Rightarrow> if n < 0 then Inl (xerr PROTOCOL_VIOLATION) else Inr (the t, nat n)
           | _ \<Rightarrow> Inl (xerr PROTOCOL_VIOLATION))) of
        Inl e \<Rightarrow> (m, Inl e)
      | Inr (t, n) \<Rightarrow> andThen (on_db (markThreadRead E t n) m) (\<lambda>r m. (m, Inr (Thread_Read r))))"

text \<open>Only a live handle of this process whose pid and launch key match the recorded ones is signalled.\<close>

definition may_kill :: "managed_markers \<Rightarrow> child_handle option \<Rightarrow> bool" where
  "may_kill cleared h \<longleftrightarrow>
     (case h of
        None \<Rightarrow> False
      | Some c \<Rightarrow> mm_pid cleared = Some (ch_pid c) \<and> (mm_launchKey cleared = None \<or> mm_launchKey cleared = Some (ch_launchKey c)))"

definition stopManaged :: "env \<Rightarrow> js_string \<Rightarrow> daemon \<Rightarrow> operator_answer handled" where
  "stopManaged E sid m =
     andThen (on_db (clearManagedSession E sid) m) (\<lambda>cleared m.
       let h = map_of (managedChildren m) sid;
           killed = may_kill cleared h;
           m = (if killed then m\<lparr>dm_signalled := dm_signalled m @ [ch_pid (the h)]\<rparr> else m);
           m = m\<lparr>managedChildren := map_delete sid (managedChildren m)\<rparr>
       in (m, Inr (Stopped (mm_session cleared) (mm_pid cleared) killed (h \<noteq> None))))"

definition control_action :: "env \<Rightarrow> jval \<Rightarrow> js_string option \<Rightarrow> js_string \<Rightarrow> daemon \<Rightarrow> operator_answer handled" where
  "control_action E p action sid m =
     (if action = Some (js ''rename_alias'') then
        (case checked (optString (get_prop p ''name'') ''name'') (\<lambda>n.
              checked (require (truthy n) (xerr PROTOCOL_VIOLATION)) (\<lambda>_. Inr (the n))) of
           Inl e \<Rightarrow> (m, Inl e)
         | Inr name \<Rightarrow> andThen (on_db (operatorRenameAlias E sid name) m) (\<lambda>(st, nm) m. (m, Inr (Renamed_Alias st nm))))
      else if action = Some (js ''set_control'') then
        (case checked (optString (get_prop p ''mode'') ''mode'') (\<lambda>_.
              case control_of (get_prop p ''mode'') of None \<Rightarrow> Inl (xerr PROTOCOL_VIOLATION) | Some c \<Rightarrow> Inr c) of
           Inl e \<Rightarrow> (m, Inl e)
         | Inr mode \<Rightarrow> andThen (on_db (operatorSetControl E sid mode) m) (\<lambda>(i, c) m. (m, Inr (Control_Changed i c))))
      else if action = Some (js ''pin'') then
        andThen (on_db (operatorSetPinned E sid True) m) (\<lambda>(i, b) m. (m, Inr (Pinned i b)))
      else if action = Some (js ''unpin'') then
        andThen (on_db (operatorSetPinned E sid False) m) (\<lambda>(i, b) m. (m, Inr (Pinned i b)))
      else if action = Some (js ''archive'') then
        andThen (on_db (operatorSetArchived E sid True) m) (\<lambda>(i, b) m. (m, Inr (Archived i b)))
      else if action = Some (js ''unarchive'') then
        andThen (on_db (operatorSetArchived E sid False) m) (\<lambda>(i, b) m. (m, Inr (Archived i b)))
      else if action = Some (js ''remove_record'') then
        andThen (on_db (operatorRemoveRecord E sid) m) (\<lambda>(i, b) m. (m, Inr (Removed i b)))
      else if action = Some (js ''stop_managed'') then stopManaged E sid m
      else (m, Inl (xerr PROTOCOL_VIOLATION)))"

definition operatorControl :: "env \<Rightarrow> jval option \<Rightarrow> daemon \<Rightarrow> operator_answer handled" where
  "operatorControl E raw m =
     (let p = payload_or_empty raw in
      case checked (optString (get_prop p ''action'') ''action'') (\<lambda>action.
           checked (optString (get_prop p ''sessionId'') ''sessionId'') (\<lambda>sid.
           checked (require (truthy sid) (xerr PROTOCOL_VIOLATION)) (\<lambda>_. Inr (action, the sid)))) of
        Inl e \<Rightarrow> (m, Inl e)
      | Inr (action, sid) \<Rightarrow> control_action E p action sid m)"

definition daemon_operatorRedeliver :: "env \<Rightarrow> jval option \<Rightarrow> daemon \<Rightarrow> operator_answer handled" where
  "daemon_operatorRedeliver E raw m =
     (let p = payload_or_empty raw in
      case checked (optString (get_prop p ''messageId'') ''messageId'') (\<lambda>mid.
           checked (require (truthy mid) (xerr PROTOCOL_VIOLATION)) (\<lambda>_. Inr (the mid))) of
        Inl e \<Rightarrow> (m, Inl e)
      | Inr mid \<Rightarrow>
          andThen (on_db (operatorRedeliver E mid (string_prop (get_prop p ''reason''))
                     (get_prop p ''confirmReplayAccepted'' = Some (JBool True))) m) (\<lambda>r m. (m, Inr (Redelivery r))))"

definition operatorReplaceCollections ::
  "env \<Rightarrow> collection_input list \<Rightarrow> (js_string \<times> js_string list) list \<Rightarrow> daemon \<Rightarrow> operator_answer handled" where
  "operatorReplaceCollections E cols members m =
     andThen (on_db (replaceCollections E cols members) m) (\<lambda>v m. (m, Inr (Collections_Replaced v)))"

definition schedule_kind_of :: "js_string option \<Rightarrow> schedule_kind option" where
  "schedule_kind_of v = (case v of None \<Rightarrow> None | Some s \<Rightarrow> List.find (\<lambda>k. js (kind_name k) = s) [Once, Interval, Cron])"

definition numOpt :: "jval option \<Rightarrow> xerror + int option" where
  "numOpt v =
     (case v of
        None \<Rightarrow> Inr None
      | Some (JNum n) \<Rightarrow> if n < 0 then Inl (xerr PROTOCOL_VIOLATION) else Inr (Some n)
      | Some _ \<Rightarrow> Inl (xerr PROTOCOL_VIOLATION))"

definition first_run :: "daemon_setup \<Rightarrow> env \<Rightarrow> js_string option \<Rightarrow> xerror + int" where
  "first_run S E firstRunAt =
     (if truthy firstRunAt
      then (case dc_parseDate S (the firstRunAt) of None \<Rightarrow> Inl (xerr PROTOCOL_VIOLATION) | Some t \<Rightarrow> Inr t)
      else Inr (now E))"

definition schedule_input_of :: "daemon_setup \<Rightarrow> env \<Rightarrow> jval \<Rightarrow> xerror + schedule_input" where
  "schedule_input_of S E p =
     checked (optString (get_prop p ''to'') ''to'') (\<lambda>to.
     checked (optString (get_prop p ''text'') ''text'') (\<lambda>text.
     checked (optString (get_prop p ''kind'') ''kind'') (\<lambda>kind.
     checked (require (truthy to) (xerr PROTOCOL_VIOLATION)) (\<lambda>_.
     checked (require (truthy text) (xerr PROTOCOL_VIOLATION)) (\<lambda>_.
     checked (case schedule_kind_of kind of None \<Rightarrow> Inl (xerr PROTOCOL_VIOLATION) | Some k \<Rightarrow> Inr k) (\<lambda>k.
     checked (validateSendInput (uni E) (dc_parseSend S) (JObj [(js ''to'', JStr (the to)), (js ''text'', JStr (the text))])) (\<lambda>_.
     checked (optString (get_prop p ''scheduleExpr'') ''scheduleExpr'') (\<lambda>expr.
     checked (optString (get_prop p ''firstRunAt'') ''firstRunAt'') (\<lambda>firstRunAt.
     checked (first_run S E firstRunAt) (\<lambda>nextRun.
     checked (optString (get_prop p ''title'') ''title'') (\<lambda>title.
     checked (optString (get_prop p ''quietHoursJson'') ''quietHoursJson'') (\<lambda>quiet.
     checked (numOpt (get_prop p ''minIntervalMs'')) (\<lambda>minInterval.
     checked (numOpt (get_prop p ''wakeLimitPerDay'')) (\<lambda>wakeLimit.
     checked (numOpt (get_prop p ''maxFires'')) (\<lambda>maxFires.
       Inr \<lparr>ni_actor = OPERATOR_SESSION_ID, ni_title = title, ni_target = the to, ni_text = the text, ni_payloadKind = None,
            ni_requiresAck = map_option (\<lambda>v. v = JBool True) (get_prop p ''requiresAck''),
            ni_requiresReply = map_option (\<lambda>v. v = JBool True) (get_prop p ''requiresReply''),
            ni_kind = k, ni_expr = expr, ni_timezone = None,
            ni_quiet = quiet,
            ni_deliveryMode = None, ni_budget = None, ni_concurrency = None, ni_minInterval = minInterval,
            ni_wakeLimit = wakeLimit, ni_maxFires = maxFires, ni_originGuard = None, ni_nextRun = nextRun\<rparr>)))))))))))))))"

definition schedule_action :: "js_string option \<Rightarrow> schedule_state option" where
  "schedule_action a =
     (if a = Some (js ''pause'') then Some Sched_Paused
      else if a = Some (js ''resume'') then Some Sched_Active
      else if a = Some (js ''cancel'') then Some Sched_Cancelled
      else None)"

definition operatorSchedule :: "daemon_setup \<Rightarrow> env \<Rightarrow> jval option \<Rightarrow> daemon \<Rightarrow> operator_answer handled" where
  "operatorSchedule S E raw m =
     (let p = payload_or_empty raw in
      case optString (get_prop p ''action'') ''action'' of
        Inl e \<Rightarrow> (m, Inl e)
      | Inr action \<Rightarrow>
          (case schedule_action action of
             Some st \<Rightarrow>
               (case checked (optString (get_prop p ''scheduleId'') ''scheduleId'') (\<lambda>i.
                     checked (require (truthy i) (xerr PROTOCOL_VIOLATION)) (\<lambda>_. Inr (the i))) of
                  Inl e \<Rightarrow> (m, Inl e)
                | Inr i \<Rightarrow> andThen (on_db (setScheduleState E i st) m) (\<lambda>(j, s) m. (m, Inr (Schedule_Changed j s))))
           | None \<Rightarrow>
               if action \<noteq> Some (js ''create'') then (m, Inl (xerr PROTOCOL_VIOLATION))
               else case schedule_input_of S E p of
                      Inl e \<Rightarrow> (m, Inl e)
                    | Inr inp \<Rightarrow> andThen (on_db (createSchedule E inp) m) (\<lambda>(i, t) m. (m, Inr (Schedule_Created i t)))))"

section \<open>Managed children, timers and evidence\<close>

definition registerManagedChild :: "js_string \<Rightarrow> js_string \<Rightarrow> int option \<Rightarrow> daemon \<Rightarrow> daemon" where
  "registerManagedChild sid launchKey pid m =
     (case pid of
        None \<Rightarrow> m
      | Some n \<Rightarrow> m\<lparr>managedChildren := obj_put sid \<lparr>ch_pid = n, ch_launchKey = launchKey\<rparr> (managedChildren m)\<rparr>)"

definition childExited :: "env \<Rightarrow> js_string \<Rightarrow> daemon \<Rightarrow> daemon" where
  "childExited E sid m =
     fst (on_db (markManagedSessionExited E sid) (m\<lparr>managedChildren := map_delete sid (managedChildren m)\<rparr>))"

definition verifyLedgerNow :: "env \<Rightarrow> daemon \<Rightarrow> daemon \<times> ledger_verify_result" where
  "verifyLedgerNow E m =
     (let v = verifyLedger E (dm_db m);
          broken = (case lv_firstBreak v of None \<Rightarrow> [] | Some b \<Rightarrow> [(''firstBreakSeq'', JNum (int (lb_seq b)))]);
          m = upd_db (daemon_audit E ''LEDGER_VERIFIED'' ([(''ok'', JBool (lv_ok v)), (''checked'', JNum (int (lv_checked v)))] @ broken)) m;
          m = (if \<not> lv_ok v
               then upd_db (daemon_audit E ''LEDGER_CHAIN_BROKEN''
                      [(''firstBreakSeq'', case lv_firstBreak v of None \<Rightarrow> JNull | Some b \<Rightarrow> JNum (int (lb_seq b)))]) m
               else m)
      in (m, v))"

definition runReaperSweep :: "daemon_setup \<Rightarrow> env \<Rightarrow> daemon \<Rightarrow> daemon" where
  "runReaperSweep S E m = upd_db (\<lambda>d. fst (sweep (dc_reaper S) E d)) m"

definition runSchedulerTick :: "daemon_setup \<Rightarrow> env \<Rightarrow> daemon \<Rightarrow> daemon" where
  "runSchedulerTick S E m = upd_db (\<lambda>d. snd (tick (dc_cap S) E d)) m"

definition recordTrustedEvidence :: "broker_evidence \<Rightarrow> daemon \<Rightarrow> daemon" where
  "recordTrustedEvidence ev m = m\<lparr>trustedEvidence := record_evidence ev (trustedEvidence m)\<rparr>"

definition new_daemon :: "db \<Rightarrow> daemon" where
  "new_daemon d =
     \<lparr>dm_db = d, connAuth = [], connHello = [], connAwarded = [], managedChildren = [], trustedEvidence = [],
      wakeProbe = new_WakeProbeStore None None, dm_signalled = [], dm_stopping = False\<rparr>"

end
