(* ===== verification/Daemon_Steps.thy ===== *)
theory Daemon_Steps
  imports Daemon
begin

text \<open>
  The steps of the daemon: every handler and callback acts on the database by operations of the broker, and a frame only by
  operations its connection may perform.
\<close>

section \<open>Runs of operations behind a handler\<close>

definition does :: "config \<Rightarrow> env \<Rightarrow> (broker_op \<Rightarrow> bool) \<Rightarrow> daemon \<Rightarrow> daemon \<Rightarrow> bool" where
  "does C E P m m' \<longleftrightarrow> (\<exists>ops. dm_db m' = run_ops C (map (Pair E) ops) (dm_db m) \<and> list_all P ops)"

lemma run_ops_append: "run_ops C (xs @ ys) d = run_ops C ys (run_ops C xs d)"
  by (induction C xs d rule: run_ops.induct) simp_all

lemma does_refl [intro!, simp]: "does C E P m m"
  unfolding does_def by (rule exI [of _ "[]"]) simp

lemma does_fields [simp]:
  "does C E P m (m1\<lparr>connAuth := a\<rparr>) = does C E P m m1" "does C E P m (m1\<lparr>connHello := h\<rparr>) = does C E P m m1"
  "does C E P m (m1\<lparr>connAwarded := w\<rparr>) = does C E P m m1" "does C E P m (m1\<lparr>managedChildren := c\<rparr>) = does C E P m m1"
  "does C E P m (m1\<lparr>dm_signalled := g\<rparr>) = does C E P m m1" "does C E P m (m1\<lparr>dm_stopping := b\<rparr>) = does C E P m m1"
  "does C E P m (m1\<lparr>trustedEvidence := t\<rparr>) = does C E P m m1" "does C E P m (m1\<lparr>wakeProbe := v\<rparr>) = does C E P m m1"
  by (simp_all add: does_def)

lemma does_op:
  assumes "does C E P m m1" "dm_db m2 = exec C E op (dm_db m1)" "P op"
  shows "does C E P m m2"
proof -
  from assms(1) obtain ops where "dm_db m1 = run_ops C (map (Pair E) ops) (dm_db m)" "list_all P ops" by (auto simp: does_def)
  with assms(2,3) have "dm_db m2 = run_ops C (map (Pair E) (ops @ [op])) (dm_db m) \<and> list_all P (ops @ [op])"
    by (simp add: run_ops_append)
  then show ?thesis unfolding does_def by blast
qed

lemma does_andThen:
  assumes "does C E P m (fst r)" "\<And>m1 x. does C E P m m1 \<Longrightarrow> does C E P m (fst (k x m1))"
  shows "does C E P m (fst (andThen r k))"
  using assms by (cases r; cases "snd r") auto

lemma dm_db_on_db [simp]: "dm_db (fst (on_db f m)) = fst (f (dm_db m))"
  by (simp add: on_db_def split: prod.splits)

lemma dm_db_upd_db [simp]: "dm_db (upd_db f m) = f (dm_db m)"
  by (simp add: upd_db_def)

lemma does_on_db: "does C E P m m1 \<Longrightarrow> (\<And>d. fst (f d) = exec C E op d) \<Longrightarrow> P op \<Longrightarrow> does C E P m (fst (on_db f m1))"
  by (rule does_op) auto

lemma does_upd_db: "does C E P m m1 \<Longrightarrow> (\<And>d. f d = exec C E op d) \<Longrightarrow> P op \<Longrightarrow> does C E P m (upd_db f m1)"
  by (rule does_op) auto

section \<open>The authority of a connection\<close>

text \<open>An operation is performed by the holder of an authority: it carries that authority, or it names its session.\<close>

fun acts_as :: "authority \<Rightarrow> broker_op \<Rightarrow> bool" where
  "acts_as a (Do_Register_Alias b x) \<longleftrightarrow> b = a"
| "acts_as a (Do_Announce b x) \<longleftrightarrow> b = a"
| "acts_as a (Do_Rename b x y) \<longleftrightarrow> b = a"
| "acts_as a (Do_Signal_Readiness b x) \<longleftrightarrow> b = a"
| "acts_as a (Do_Send b x) \<longleftrightarrow> b = a \<and> isAllowed (a_role a) Op_Send"
| "acts_as a (Do_Pull b x y) \<longleftrightarrow> b = a"
| "acts_as a (Do_Process_Next b x) \<longleftrightarrow> b = a"
| "acts_as a (Do_Inbox b x y) \<longleftrightarrow> b = a"
| "acts_as a (Do_Redeliver b x y) \<longleftrightarrow> b = a"
| "acts_as a (Do_Mark_Injected b x) \<longleftrightarrow> b = a"
| "acts_as a (Do_Ack b x) \<longleftrightarrow> b = a"
| "acts_as a (Do_Reply b x) \<longleftrightarrow> b = a"
| "acts_as a (Do_Peek b x) \<longleftrightarrow> b = a"
| "acts_as a (Do_Diagnose sid) \<longleftrightarrow> sid = a_session a"
| "acts_as a (Do_Set_Control sid c) \<longleftrightarrow> sid = a_session a"
| "acts_as a (Do_Block sid x) \<longleftrightarrow> sid = a_session a"
| "acts_as a (Do_Unblock sid x) \<longleftrightarrow> sid = a_session a"
| "acts_as a (Do_Touch_Checkpoint sid) \<longleftrightarrow> sid = a_session a"
| "acts_as a (Do_Refresh_Activity sid) \<longleftrightarrow> sid = a_session a"
| "acts_as a op \<longleftrightarrow> False"

text \<open>What a frame on a connection may do to the database.\<close>

fun acts_for :: "js_string \<Rightarrow> daemon \<Rightarrow> broker_op \<Rightarrow> bool" where
  "acts_for conn m (Do_Register inp) \<longleftrightarrow>
     conn \<in> set (connHello m) \<and> rg_conn inp = conn \<and> \<not> isOperatorSession (rg_session inp)"
| "acts_for conn m (Do_Daemon_Audit ev fs) \<longleftrightarrow> True"
| "acts_for conn m Do_Draw_Id \<longleftrightarrow> True"
| "acts_for conn m op \<longleftrightarrow> (case map_of (connAuth m) conn of None \<Rightarrow> False | Some a \<Rightarrow> acts_as a op)"

lemma with_auth_does:
  assumes "\<And>a. map_of (connAuth m) conn = Some a \<Longrightarrow> does C E P m (fst (k a m))"
  shows "does C E P m (fst (with_auth conn k m))"
  using assms by (simp add: with_auth_def requireAuth_def split: option.splits)

lemma does_ids:
  assumes "does C E P m m1" "P Do_Draw_Id"
  shows "does C E P m (fst (fresh_id E m1))" "does C E P m (fst (id_or_fresh E x m1))"
proof -
  show *: "does C E P m (fst (fresh_id E m1))" unfolding fresh_id_def
    by (rule does_on_db [OF assms(1) _ assms(2)]) (simp split: prod.splits)
  show "does C E P m (fst (id_or_fresh E x m1))" using * assms(1) by (simp add: id_or_fresh_def split: option.splits)
qed

lemma referenced_does:
  assumes "\<And>fs. P (Do_Daemon_Audit ''INJECTION_ID_MISSING_BODY_SUPPRESSED'' fs)"
  shows "does C E P m m1 \<Longrightarrow> does C E P m (snd (referenced E auth ps m1))"
proof (induction ps arbitrary: m1)
  case (Cons p ps)
  have audited: "does C E P m (upd_db (daemon_audit E ''INJECTION_ID_MISSING_BODY_SUPPRESSED'' fs) m1)" for fs
    by (rule does_upd_db [OF Cons.prems, where op = "Do_Daemon_Audit ''INJECTION_ID_MISSING_BODY_SUPPRESSED'' fs"]) (simp_all add: assms)
  from Cons.IH [OF Cons.prems] Cons.IH [OF audited] show ?case
    by (auto simp: split_beta split: option.splits)
qed simp

text \<open>Each statement of a handler as its operation.\<close>

lemma does_calls:
  assumes "does C E P m m1"
  shows "P (Do_Register inp) \<Longrightarrow> does C E P m (fst (on_db (register E inp) m1))"
    "P (Do_Announce a ai) \<Longrightarrow> does C E P m (fst (on_db (announceSession E a ai) m1))"
    "P (Do_Rename a n sec) \<Longrightarrow> does C E P m (fst (on_db (renameSession E a n sec) m1))"
    "P (Do_Register_Alias a n) \<Longrightarrow> does C E P m (fst (on_db (registerAlias E a n) m1))"
    "P (Do_Signal_Readiness a h) \<Longrightarrow> does C E P m (fst (on_db (signalReadiness E a h) m1))"
    "P (Do_Diagnose sid) \<Longrightarrow> does C E P m (fst (on_db (diagnoseActivationOnce E sid) m1))"
    "P (Do_Send a si) \<Longrightarrow> does C E P m (fst (on_db (send E a si) m1))"
    "P (Do_Peek a lmt) \<Longrightarrow> does C E P m (fst (on_db (pendingForSession E a lmt) m1))"
    "P (Do_Mark_Injected a ms) \<Longrightarrow> does C E P m (fst (on_db (markInjected C E a ms) m1))"
    "P (Do_Pull a cp k) \<Longrightarrow> does C E P m (fst (on_db (checkpointPull C E a cp k) m1))"
    "P (Do_Process_Next a cp) \<Longrightarrow> does C E P m (fst (on_db (processNext C E a cp) m1))"
    "P (Do_Inbox a cp k) \<Longrightarrow> does C E P m (fst (on_db (inboxView C E a cp k) m1))"
    "P (Do_Redeliver a mid why) \<Longrightarrow> does C E P m (fst (on_db (redeliver C E a mid why) m1))"
    "P (Do_Ack a ki) \<Longrightarrow> does C E P m (fst (on_db (ack C E a ki) m1))"
    "P (Do_Reply a rpl) \<Longrightarrow> does C E P m (fst (on_db (reply C E a rpl allocSequence) m1))"
    "P (Do_Daemon_Audit ev fs) \<Longrightarrow> does C E P m (upd_db (daemon_audit E ev fs) m1)"
    "P (Do_Set_Control sid c) \<Longrightarrow> does C E P m (upd_db (setControl E sid c) m1)"
    "P (Do_Refresh_Activity sid) \<Longrightarrow> does C E P m (upd_db (refreshMeaningfulActivity E sid) m1)"
    "P (Do_Touch_Checkpoint sid) \<Longrightarrow> does C E P m (upd_db (touchCheckpoint E sid) m1)"
    "P (Do_Block sid x) \<Longrightarrow> does C E P m (upd_db (blockPeer E sid x) m1)"
    "P (Do_Unblock sid x) \<Longrightarrow> does C E P m (upd_db (unblockPeer E sid x) m1)"
  by (rule does_on_db [OF assms] does_upd_db [OF assms], rule exec.simps [symmetric], assumption)+

lemmas does_rules = with_auth_does does_andThen does_calls does_ids referenced_does

lemma onHello_does: "does C E (acts_for conn m) m (fst (onHello S E conn p m))"
  unfolding onHello_def Let_def by (auto intro: does_calls split: sum.splits)

lemma onRegister_does: "does C E (acts_for conn m) m (fst (onRegister E conn p m))"
  unfolding onRegister_def Let_def
  by (auto intro!: does_andThen does_calls simp: register_input_of_def split: sum.splits option.splits)

lemma session_handlers_does:
  "does C E (acts_for conn m) m (fst (onAnnounceSession E conn p m))"
  "does C E (acts_for conn m) m (fst (onRenameSession E conn p m))"
  "does C E (acts_for conn m) m (fst (onRegisterAlias E conn p m))"
  "does C E (acts_for conn m) m (fst (onSignalReadiness E conn p m))"
  "does C E (acts_for conn m) m (fst (onSetControl E conn p m))"
  "does C E (acts_for conn m) m (fst (onBlockPeer E conn p m))"
  "does C E (acts_for conn m) m (fst (onActivationDiagnose E conn m))"
  unfolding onAnnounceSession_def onRenameSession_def onRegisterAlias_def onSignalReadiness_def onSetControl_def onBlockPeer_def
    onActivationDiagnose_def Let_def
  by (auto intro!: with_auth_does does_andThen does_calls split: sum.splits option.splits)

lemma message_handlers_does:
  assumes "C = dc_config S"
  shows "does C E (acts_for conn m) m (fst (onSend S E conn v m))"
    "does C E (acts_for conn m) m (fst (onCheckpointPullHook S E conn p m))"
    "does C E (acts_for conn m) m (fst (onProcessNext S E conn m))"
    "does C E (acts_for conn m) m (fst (onAck S E conn p m))"
    "does C E (acts_for conn m) m (fst (onReply S E conn p m))"
    "does C E (acts_for conn m) m (fst (onInbox S E conn p m))"
    "does C E (acts_for conn m) m (fst (onRedeliver S E conn p m))"
  unfolding assms onSend_def onCheckpointPullHook_def onProcessNext_def onAck_def onReply_def onInbox_def onRedeliver_def Let_def
  by (auto intro!: with_auth_does does_andThen does_calls does_ids simp: assertAllowed_def split: sum.splits option.splits if_splits)

lemma onCheckpointPull_does:
  assumes "C = dc_config S"
  shows "does C E (acts_for conn m) m (fst (onCheckpointPull S E conn p m))"
  unfolding assms onCheckpointPull_def Let_def case_prod_beta
  by (auto intro!: with_auth_does does_andThen does_calls referenced_does split: sum.splits)

lemma admin_handlers_does:
  "does C E (acts_for conn m) m (fst (onShutdown S E conn p m))"
  "does C E (acts_for conn m) m (fst (onEnsureDashboard S conn m))"
  "does C E (acts_for conn m) m (fst (onDeadLetter conn p m))"
  "does C E (acts_for conn m) m (fst (onListSessions conn m))"
  "does C E (acts_for conn m) m (fst (onGetMetrics conn m))"
  "does C E (acts_for conn m) m (fst (onStatus S conn m))"
  "does C E (acts_for conn m) m (fst (onWakePoll E conn m))"
  unfolding onShutdown_def onEnsureDashboard_def onDeadLetter_def onListSessions_def onGetMetrics_def onStatus_def onWakePoll_def
  by (auto intro!: with_auth_does does_calls split: option.splits)

lemmas handlers_does = onHello_does onRegister_does session_handlers_does message_handlers_does [OF refl]
  onCheckpointPull_does [OF refl] admin_handlers_does

lemma fst_handle: "fst (handle S E conn ft payload m) = fst (dispatch S E conn ft payload m)"
  by (simp add: handle_def split: prod.splits sum.splits)

text \<open>A property of every handler is one of the dispatcher.\<close>

lemma branch: "(c \<Longrightarrow> Q (a m)) \<Longrightarrow> (\<not> c \<Longrightarrow> Q (b m)) \<Longrightarrow> Q ((if c then a else b) m)"
  by simp

lemma dispatch_cases:
  fixes payload :: "jval option"
  defines "p \<equiv> payload_or_empty payload"
  assumes "ft = js ''hello'' \<Longrightarrow> Q (onHello S E conn p m)" "ft = js ''register_session'' \<Longrightarrow> Q (onRegister E conn p m)"
    "Q (onAnnounceSession E conn p m)"
    "Q (onEnsureDashboard S conn m)" "Q (onRegisterAlias E conn p m)" "Q (onRenameSession E conn p m)"
    "Q (onSend S E conn payload m)" "Q (onCheckpointPull S E conn p m)" "Q (onCheckpointPullHook S E conn p m)"
    "Q (onAck S E conn p m)" "Q (onReply S E conn p m)"
    "ft = js ''inbox'' \<Longrightarrow> Q (onInbox S E conn p m)" "ft = js ''redeliver'' \<Longrightarrow> Q (onRedeliver S E conn p m)"
    "Q (onSignalReadiness E conn p m)" "Q (onListSessions conn m)" "Q (onGetMetrics conn m)" "Q (onStatus S conn m)"
    "Q (onActivationDiagnose E conn m)" "ft = js ''shutdown'' \<Longrightarrow> Q (onShutdown S E conn p m)"
    "Q (onSetControl E conn p m)" "Q (onProcessNext S E conn m)" "Q (onWakePoll E conn m)" "Q (onDeadLetter conn p m)"
    "Q (onBlockPeer E conn p m)" "Q (m, Inr Heartbeat_Ack)" "Q (m, Inr (Error_Answer PROTOCOL_VIOLATION []))"
  shows "Q (dispatch S E conn ft payload m)"
  unfolding dispatch_def Let_def
  by (rule branch [where Q = Q] assms [unfolded p_def] | assumption)+

lemma handle_does: "does (dc_config S) E (acts_for conn m) m (fst (handle S E conn ft payload m))"
  unfolding fst_handle by (rule dispatch_cases) (simp_all only: fst_conv handlers_does does_refl)

section \<open>What a frame leaves alone\<close>

text \<open>Only \<open>hello\<close>, \<open>register_session\<close> and \<open>shutdown\<close> change more of the daemon than its database.\<close>

definition db_only :: "daemon \<Rightarrow> daemon \<Rightarrow> bool" where
  "db_only m m' \<longleftrightarrow> m' = m\<lparr>dm_db := dm_db m'\<rparr>"

lemma db_only_refl [simp]: "db_only m m"
  by (simp add: db_only_def)

lemma db_only_db [simp]: "db_only m (m1\<lparr>dm_db := d\<rparr>) \<longleftrightarrow> db_only m m1"
  by (cases m; cases m1) (simp add: db_only_def)

lemma db_only_calls [simp]:
  "db_only m (fst (on_db f m1)) \<longleftrightarrow> db_only m m1" "db_only m (upd_db g m1) \<longleftrightarrow> db_only m m1"
  "db_only m (fst (fresh_id E m1)) \<longleftrightarrow> db_only m m1" "db_only m (fst (id_or_fresh E x m1)) \<longleftrightarrow> db_only m m1"
  by (simp_all add: on_db_def upd_db_def fresh_id_def id_or_fresh_def split: prod.splits option.splits)

lemma db_only_referenced [simp]: "db_only m (snd (referenced E auth ps m1)) \<longleftrightarrow> db_only m m1"
  by (induction ps arbitrary: m1) (auto simp: split_beta split: option.splits)

lemma db_only_andThen:
  assumes "db_only m (fst r)" "\<And>m1 x. db_only m m1 \<Longrightarrow> db_only m (fst (k x m1))"
  shows "db_only m (fst (andThen r k))"
  using assms by (cases r; cases "snd r") auto

lemma db_only_with_auth: "(\<And>a. db_only m (fst (k a m))) \<Longrightarrow> db_only m (fst (with_auth conn k m))"
  by (simp add: with_auth_def split: sum.splits)

lemma handlers_db_only:
  "db_only m (fst (onAnnounceSession E conn p m))" "db_only m (fst (onRenameSession E conn p m))"
  "db_only m (fst (onRegisterAlias E conn p m))" "db_only m (fst (onSignalReadiness E conn p m))"
  "db_only m (fst (onSetControl E conn p m))" "db_only m (fst (onBlockPeer E conn p m))"
  "db_only m (fst (onActivationDiagnose E conn m))"
  "db_only m (fst (onSend S E conn v m))" "db_only m (fst (onCheckpointPull S E conn p m))"
  "db_only m (fst (onCheckpointPullHook S E conn p m))" "db_only m (fst (onProcessNext S E conn m))"
  "db_only m (fst (onAck S E conn p m))" "db_only m (fst (onReply S E conn p m))" "db_only m (fst (onInbox S E conn p m))"
  "db_only m (fst (onRedeliver S E conn p m))"
  "db_only m (fst (onEnsureDashboard S conn m))" "db_only m (fst (onDeadLetter conn p m))"
  "db_only m (fst (onListSessions conn m))" "db_only m (fst (onGetMetrics conn m))" "db_only m (fst (onStatus S conn m))"
  "db_only m (fst (onWakePoll E conn m))"
  unfolding onAnnounceSession_def onRenameSession_def onRegisterAlias_def onSignalReadiness_def onSetControl_def onBlockPeer_def
    onActivationDiagnose_def onSend_def onCheckpointPull_def onCheckpointPullHook_def onProcessNext_def onAck_def onReply_def
    onInbox_def onRedeliver_def onEnsureDashboard_def onDeadLetter_def onListSessions_def onGetMetrics_def onStatus_def
    onWakePoll_def Let_def case_prod_beta
  by (auto intro!: db_only_with_auth db_only_andThen split: sum.splits option.splits)

section \<open>Events\<close>

text \<open>
  Everything that changes the daemon: a frame, a closed connection, an operator callback of the dashboard, a managed child
  that is launched or exits, the timers, and the evidence and wake probes the broker records itself.
\<close>

datatype daemon_event =
    Frame js_string js_string "jval option"
  | Conn_Closed js_string
  | Operator_Message "jval option"
  | Operator_Read "jval option"
  | Operator_Action "jval option"
  | Operator_Again "jval option"
  | Operator_Collections "collection_input list" "(js_string \<times> js_string list) list"
  | Operator_Plan "jval option"
  | Child_Recorded js_string int js_string
  | Child_Launched js_string js_string "int option"
  | Child_Exited js_string
  | Ledger_Check
  | Reaper_Timer
  | Scheduler_Timer
  | Evidence_Recorded broker_evidence
  | Probe_Recorded wake_probe

fun daemon_exec :: "daemon_setup \<Rightarrow> env \<Rightarrow> daemon_event \<Rightarrow> daemon \<Rightarrow> daemon" where
  "daemon_exec S E (Frame conn ft payload) m = fst (handle S E conn ft payload m)"
| "daemon_exec S E (Conn_Closed conn) m = daemon_onConnClose E conn m"
| "daemon_exec S E (Operator_Message raw) m = fst (daemon_operatorSend S E raw m)"
| "daemon_exec S E (Operator_Read raw) m = fst (operatorMarkThreadRead E raw m)"
| "daemon_exec S E (Operator_Action raw) m = fst (operatorControl E raw m)"
| "daemon_exec S E (Operator_Again raw) m = fst (daemon_operatorRedeliver E raw m)"
| "daemon_exec S E (Operator_Collections cs ms) m = fst (operatorReplaceCollections E cs ms m)"
| "daemon_exec S E (Operator_Plan raw) m = fst (operatorSchedule S E raw m)"
| "daemon_exec S E (Child_Recorded sid pid key) m = fst (on_db (recordManagedSession E sid pid key) m)"
| "daemon_exec S E (Child_Launched sid key pid) m = registerManagedChild sid key pid m"
| "daemon_exec S E (Child_Exited sid) m = childExited E sid m"
| "daemon_exec S E Ledger_Check m = fst (verifyLedgerNow E m)"
| "daemon_exec S E Reaper_Timer m = runReaperSweep S E m"
| "daemon_exec S E Scheduler_Timer m = runSchedulerTick S E m"
| "daemon_exec S E (Evidence_Recorded ev) m = recordTrustedEvidence ev m"
| "daemon_exec S E (Probe_Recorded w) m = m\<lparr>wakeProbe := record_probe w (wakeProbe m)\<rparr>"

abbreviation any_op :: "broker_op \<Rightarrow> bool" where
  "any_op \<equiv> \<lambda>_. True"

lemma does_console_calls:
  assumes "does C E any_op m m1"
  shows "does C E any_op m (fst (on_db (operatorSend E oi) m1))"
    "does C E any_op m (fst (on_db (markThreadRead E t n) m1))"
    "does C E any_op m (fst (on_db (operatorRenameAlias E sid x) m1))"
    "does C E any_op m (fst (on_db (operatorSetControl E sid c) m1))"
    "does C E any_op m (fst (on_db (operatorSetPinned E sid b) m1))"
    "does C E any_op m (fst (on_db (operatorSetArchived E sid b) m1))"
    "does C E any_op m (fst (on_db (operatorRemoveRecord E sid) m1))"
    "does C E any_op m (fst (on_db (clearManagedSession E sid) m1))"
    "does C E any_op m (fst (on_db (operatorRedeliver E mid why b) m1))"
    "does C E any_op m (fst (on_db (replaceCollections E cs ms) m1))"
    "does C E any_op m (fst (on_db (setScheduleState E i st) m1))"
    "does C E any_op m (fst (on_db (createSchedule E ni) m1))"
    "does C E any_op m (fst (on_db (recordManagedSession E sid pid key) m1))"
    "does C E any_op m (fst (on_db (markManagedSessionExited E sid) m1))"
  by (rule does_on_db [OF assms], rule exec.simps [symmetric], simp)+

lemma does_timer_calls:
  assumes "does C E any_op m m1"
  shows "does C E any_op m (upd_db (\<lambda>d. fst (sweep opts E d)) m1)"
    "does C E any_op m (upd_db (\<lambda>d. snd (tick cap E d)) m1)"
  by (rule does_upd_db [OF assms], rule exec.simps [symmetric], simp)+

lemma stopManaged_does: "does C E any_op m (fst (stopManaged E sid m))"
  unfolding stopManaged_def Let_def by (auto intro!: does_andThen does_console_calls)

lemma does_check:
  "does C E P m m1 \<Longrightarrow> (\<And>y. does C E P m (fst (k y))) \<Longrightarrow> does C E P m (fst (case r of Inl e \<Rightarrow> (m1, Inl e) | Inr y \<Rightarrow> k y))"
  by (cases r) simp_all

lemma does_return: "does C E P m m1 \<Longrightarrow> does C E P m (fst (m1, r))"
  by simp

lemma does_if: "does C E P m (fst a) \<Longrightarrow> does C E P m (fst b) \<Longrightarrow> does C E P m (fst (if c then a else b))"
  by simp

lemma control_action_does: "does C E any_op m (fst (control_action E p action sid m))"
  unfolding control_action_def case_prod_beta
  by (rule does_if does_refl does_check does_andThen does_console_calls stopManaged_does does_return | assumption)+

lemma operatorSchedule_does: "does C E any_op m (fst (operatorSchedule S E raw m))"
proof -
  have act: "does C E any_op m (fst (case r of Inl e \<Rightarrow> (m, Inl e)
      | Inr i \<Rightarrow> andThen (on_db (setScheduleState E i st) m) (\<lambda>x m. (m, Inr (Schedule_Changed (fst x) (snd x))))))" for r st
    by (intro does_check does_andThen does_console_calls does_return does_refl)
  have create: "does C E any_op m (fst (case r of Inl e \<Rightarrow> (m, Inl e)
      | Inr inp \<Rightarrow> andThen (on_db (createSchedule E inp) m) (\<lambda>x m. (m, Inr (Schedule_Created (fst x) (snd x))))))" for r
    by (intro does_check does_andThen does_console_calls does_return does_refl)
  show ?thesis unfolding operatorSchedule_def Let_def case_prod_beta
    by (rule does_check) (simp_all add: act create del: js_Cons split: option.split)
qed

lemma callbacks_do:
  "does C E any_op m (fst (daemon_operatorSend S E raw m))"
  "does C E any_op m (fst (operatorMarkThreadRead E raw m))"
  "does C E any_op m (fst (operatorControl E raw m))"
  "does C E any_op m (fst (daemon_operatorRedeliver E raw m))"
  "does C E any_op m (fst (operatorReplaceCollections E cs ms m))"
  unfolding daemon_operatorSend_def operatorMarkThreadRead_def operatorControl_def daemon_operatorRedeliver_def
    operatorReplaceCollections_def Let_def case_prod_beta
  by (rule does_refl does_check does_andThen does_console_calls control_action_does does_return | assumption)+

lemma onConnClose_does: "does C E any_op m (daemon_onConnClose E conn m)"
  by (rule does_op [where op = "Do_Conn_Close conn (map_of (connAuth m) conn)", OF does_refl])
    (simp_all add: daemon_onConnClose_def)

lemma timers_do:
  "does C E any_op m (fst (verifyLedgerNow E m))"
  "does C E any_op m (runReaperSweep S E m)"
  "does C E any_op m (runSchedulerTick S E m)"
  unfolding verifyLedgerNow_def runReaperSweep_def runSchedulerTick_def Let_def
  by (auto intro!: does_calls does_timer_calls)

lemma does_any: "does C E P m m' \<Longrightarrow> does C E any_op m m'"
  unfolding does_def by (blast intro: list.pred_mono_strong)

lemma children_do:
  "does C E any_op m (registerManagedChild sid key pid m)"
  "does C E any_op m (childExited E sid m)"
  "does C E any_op m (recordTrustedEvidence ev m)"
  unfolding registerManagedChild_def childExited_def recordTrustedEvidence_def
  by (auto intro: does_console_calls split: option.splits)

lemma daemon_exec_does: "does (dc_config S) E any_op m (daemon_exec S E ev m)"
  by (cases ev) (auto intro: does_console_calls callbacks_do operatorSchedule_does timers_do children_do onConnClose_does does_any [OF handle_does])

end
