(* ===== verification/Daemon_Correct.thy ===== *)
theory Daemon_Correct
  imports Daemon_Steps Broker_Samples
begin

text \<open>
  The daemon as one machine over its events: a frame acts only with the authority its
  connection holds, the tables of connections stay consistent, no answer shows a body twice to an epoch, and the daemon
  stops and signals processes only when it should.
\<close>

section \<open>Runs\<close>

fun run_daemon :: "daemon_setup \<Rightarrow> (env \<times> daemon_event) list \<Rightarrow> daemon \<Rightarrow> daemon" where
  "run_daemon S [] m = m"
| "run_daemon S ((E, ev) # evs) m = run_daemon S evs (daemon_exec S E ev m)"

definition same_hash :: "(js_string \<Rightarrow> js_string) \<Rightarrow> (env \<times> 'a) list \<Rightarrow> bool" where
  "same_hash H xs \<longleftrightarrow> (\<forall>(E, x)\<in>set xs. sha256 E = H)"

lemma same_hash_simps [simp]:
  "same_hash H []" "same_hash H ((E, x) # xs) \<longleftrightarrow> sha256 E = H \<and> same_hash H xs"
  "same_hash H (xs @ ys) \<longleftrightarrow> same_hash H xs \<and> same_hash H ys" "sha256 E = H \<Longrightarrow> same_hash H (map (Pair E) ops)"
  by (auto simp: same_hash_def)

lemma event_ops:
  assumes "sha256 E = H"
  obtains ops where "dm_db (daemon_exec S E ev m) = run_ops (dc_config S) ops (dm_db m)" "same_hash H ops"
  using daemon_exec_does [of S E m ev] assms unfolding does_def by (metis same_hash_simps(4))

lemma event_ok:
  assumes "broker_ok (sha256 E) (dm_db m)"
  shows "broker_ok (sha256 E) (dm_db (daemon_exec S E ev m))" "moves recovery_edge (dm_db m) (dm_db (daemon_exec S E ev m))"
proof -
  obtain ops where ops: "dm_db (daemon_exec S E ev m) = run_ops (dc_config S) ops (dm_db m)" "same_hash (sha256 E) ops"
    by (rule event_ops [OF refl])
  have run: "(broker_step (dc_config S) (sha256 E))\<^sup>*\<^sup>* (dm_db m) (dm_db (daemon_exec S E ev m))"
    using run_ops_run [of ops "sha256 E" "dc_config S" "dm_db m"] ops by (simp add: same_hash_def)
  show "broker_ok (sha256 E) (dm_db (daemon_exec S E ev m))" by (rule broker.run_good [OF run assms])
  show "moves recovery_edge (dm_db m) (dm_db (daemon_exec S E ev m))" by (rule run_moves [OF run assms])
qed

section \<open>Authority\<close>

text \<open>C7: identity comes from the connection, never from the payload. Whatever a frame carries, each operation it
  performs on the database either carries exactly the authority its own connection was given at registration (or names that
  authority's session), or registers a session on this connection after an accepted hello and outside the reserved operator
  session, or writes an audit line, or draws an id. A frame of a connection without authority changes no session, message or
  delivery.\<close>

theorem authority_from_connection:
  "\<exists>ops. dm_db (fst (handle S E conn ft payload m)) = run_ops (dc_config S) (map (Pair E) ops) (dm_db m) \<and>
     list_all (acts_for conn m) ops"
  using handle_does [of S E conn m ft payload] by (simp add: does_def)

text \<open>C10: a connection that has not registered can do nothing but say hello and register. Every other frame, known or
  unknown, leaves the whole daemon as it was, and all it can learn is that it is not registered, the broker's public status,
  an empty diagnosis or a heartbeat.\<close>

theorem unregistered_inert:
  assumes "map_of (connAuth m) conn = None" "ft \<noteq> js ''hello''" "ft \<noteq> js ''register_session''"
  shows "\<exists>r. handle S E conn ft payload m = (m, r) \<and>
    r \<in> {Error_Answer SESSION_NOT_REGISTERED [], Error_Answer PROTOCOL_VIOLATION [], Status_Ack (dc_instanceId S) None,
         Diagnose_Ack None, Heartbeat_Ack}"
proof -
  let ?Q = "\<lambda>r. r \<in> Pair m ` {Inl (xerr SESSION_NOT_REGISTERED), Inr (Error_Answer PROTOCOL_VIOLATION []),
    Inr (Status_Ack (dc_instanceId S) None), Inr (Diagnose_Ack None), Inr Heartbeat_Ack}"
  have no: "with_auth conn k m = (m, Inl (xerr SESSION_NOT_REGISTERED))" for k :: "authority \<Rightarrow> daemon \<Rightarrow> answer handled"
    using assms(1) by (simp add: with_auth_def requireAuth_def)
  have "?Q (dispatch S E conn ft payload m)"
    by (rule dispatch_cases [where Q = ?Q])
      (simp_all add: no assms(1) onAnnounceSession_def onRenameSession_def onRegisterAlias_def onSignalReadiness_def onSetControl_def
        onBlockPeer_def onActivationDiagnose_def onSend_def onCheckpointPull_def onCheckpointPullHook_def onProcessNext_def onAck_def
        onReply_def onInbox_def onRedeliver_def onEnsureDashboard_def onDeadLetter_def onListSessions_def onGetMetrics_def
        onStatus_def onWakePoll_def onShutdown_def assms(2,3) del: js_Cons)
  then show ?thesis by (auto simp: handle_def error_answer_def)
qed

section \<open>The tables of connections\<close>

text \<open>
  Every authority belongs to the connection it is filed under and that connection has said hello, no connection is filed
  twice, and an adapter award is held only by a registered connection.
\<close>

definition conns_ok :: "daemon \<Rightarrow> bool" where
  "conns_ok m \<longleftrightarrow>
     (\<forall>(c, a)\<in>set (connAuth m). a_conn a = c \<and> c \<in> set (connHello m)) \<and>
     distinct (map fst (connAuth m)) \<and> distinct (connHello m) \<and>
     fst ` set (connAwarded m) \<subseteq> fst ` set (connAuth m)"

lemma fst_set_obj_put: "fst ` set (obj_put k v es) = insert k (fst ` set es)"
  by (induction k v es rule: obj_put.induct) auto

lemma distinct_obj_put: "distinct (map fst es) \<Longrightarrow> distinct (map fst (obj_put k v es))"
  by (induction k v es rule: obj_put.induct) (auto simp: fst_set_obj_put [unfolded image_set] simp flip: set_map dest: fst_set_obj_put [THEN equalityD1, THEN subsetD])

lemma set_obj_put: "set (obj_put k v es) \<subseteq> insert (k, v) (set es)"
  by (induction k v es rule: obj_put.induct) auto

lemma set_map_delete: "set (map_delete k es) = {e \<in> set es. fst e \<noteq> k}"
  by (auto simp: map_delete_def)

lemma fst_set_map_delete: "fst ` set (map_delete k es) = fst ` set es - {k}"
  by (auto simp: map_delete_def)

lemma distinct_map_delete: "distinct (map fst es) \<Longrightarrow> distinct (map fst (map_delete k es))"
  by (simp add: map_delete_def distinct_map_filter)

lemma conns_ok_fields [simp]:
  "conns_ok (m\<lparr>dm_db := d\<rparr>) = conns_ok m" "conns_ok (m\<lparr>managedChildren := cs\<rparr>) = conns_ok m"
  "conns_ok (m\<lparr>dm_signalled := g\<rparr>) = conns_ok m" "conns_ok (m\<lparr>dm_stopping := b\<rparr>) = conns_ok m"
  "conns_ok (m\<lparr>trustedEvidence := t\<rparr>) = conns_ok m" "conns_ok (m\<lparr>wakeProbe := w\<rparr>) = conns_ok m"
  "conns_ok (upd_db f m) = conns_ok m" "conns_ok (fst (on_db h m)) = conns_ok m"
  by (simp_all add: conns_ok_def upd_db_def on_db_def split: prod.splits)

lemma conns_ok_db_only: "db_only m m' \<Longrightarrow> conns_ok m \<Longrightarrow> conns_ok m'"
  unfolding db_only_def by (metis conns_ok_fields(1))

lemma register_conn: "register E inp d = (d', Inr r) \<Longrightarrow> a_conn (rd_auth r) = rg_conn inp"
  by (auto simp: register_def Let_def res_simps case_prod_beta split: if_splits)

text \<open>The effect of a registration on the tables.\<close>

lemma onRegister_conns:
  assumes "conns_ok m"
  shows "conns_ok (fst (onRegister E conn p m))"
proof -
  let ?m = "m\<lparr>connAwarded := map_delete conn (connAwarded m)\<rparr>"
  have cleared: "conns_ok ?m" using assms by (auto simp: conns_ok_def set_map_delete)
  have reg: "conns_ok (fst (andThen (on_db (register E (register_input_of conn p pid)) ?m) (\<lambda>reg m.
      let m = m\<lparr>connAuth := obj_put conn (rd_auth reg) (connAuth m)\<rparr> in
      case en of None \<Rightarrow> (m, Inr (Register_Ack reg None))
      | Some r \<Rightarrow> (m\<lparr>connAwarded := obj_put conn (en_awarded r) (connAwarded m)\<rparr>, Inr (Register_Ack reg (Some (en_awarded r)))))))"
    if "conn \<in> set (connHello m)" for pid en
  proof (cases "register E (register_input_of conn p pid) (dm_db m)")
    case (Pair d r)
    show ?thesis
    proof (cases r)
      case (Inl e)
      with Pair cleared show ?thesis by (simp add: on_db_def)
    next
      case (Inr x)
      have "a_conn (rd_auth x) = conn" using register_conn [of E] Pair Inr by (simp add: register_input_of_def)
      with Pair Inr assms that show ?thesis
        by (auto simp: Let_def on_db_def conns_ok_def fst_set_obj_put distinct_obj_put set_map_delete split: option.splits
            dest!: set_obj_put [THEN subsetD])
    qed
  qed
  show ?thesis using cleared reg assms unfolding onRegister_def Let_def by (simp split: sum.split prod.split) blast
qed

lemma onHello_conns: "conns_ok m \<Longrightarrow> conns_ok (fst (onHello S E conn p m))"
  unfolding onHello_def Let_def by (auto simp: conns_ok_def upd_db_def split: sum.splits)

lemma onShutdown_conns: "conns_ok m \<Longrightarrow> conns_ok (fst (onShutdown S E conn p m))"
  by (simp add: onShutdown_def with_auth_def split: sum.splits option.splits)

lemma handle_conns:
  assumes "conns_ok m"
  shows "conns_ok (fst (handle S E conn ft payload m))"
  unfolding fst_handle
  by (rule dispatch_cases; (rule conns_ok_db_only [OF _ assms], rule handlers_db_only)?)
    (simp_all add: assms onHello_conns onRegister_conns onShutdown_conns)

lemma daemon_onConnClose_conns: "conns_ok m \<Longrightarrow> conns_ok (daemon_onConnClose E conn m)"
  unfolding daemon_onConnClose_def conns_ok_def
  by (simp add: fst_set_map_delete distinct_map_delete Diff_mono) (auto simp: set_map_delete)

text \<open>
  A relation between daemons that does not look at the database holds across every statement that only writes the
  database, so across every callback but the one that stops a managed child, and across every frame but \<open>hello\<close>,
  \<open>register_session\<close> and \<open>shutdown\<close>.
\<close>

locale db_insensitive =
  fixes R :: "daemon \<Rightarrow> daemon \<Rightarrow> bool"
  assumes refl: "R m m" and db: "R m m1 \<Longrightarrow> R m (m1\<lparr>dm_db := d\<rparr>)"
begin

lemma calls: "R m m1 \<Longrightarrow> R m (fst (on_db f m1))" "R m m1 \<Longrightarrow> R m (upd_db g m1)"
  by (simp_all add: on_db_def upd_db_def db split: prod.split)

lemma and_then:
  assumes "R m (fst r)" "\<And>m1 x. R m m1 \<Longrightarrow> R m (fst (k x m1))"
  shows "R m (fst (andThen r k))"
  using assms by (cases r; cases "snd r") auto

lemma branches:
  "R m m1 \<Longrightarrow> (\<And>y. R m (fst (k y))) \<Longrightarrow> R m (fst (case r of Inl e \<Rightarrow> (m1, Inl e) | Inr y \<Rightarrow> k y))"
  "R m (fst a) \<Longrightarrow> R m (fst b) \<Longrightarrow> R m (fst (if c then a else b))"
  "R m m1 \<Longrightarrow> R m (fst (m1, x))"
  "R m (fst a) \<Longrightarrow> (\<And>y. R m (fst (h y))) \<Longrightarrow> R m (fst (case v of None \<Rightarrow> a | Some y \<Rightarrow> h y))"
  by (simp_all split: sum.split option.split)

lemma callbacks:
  "R m (fst (daemon_operatorSend S E raw m))" "R m (fst (operatorMarkThreadRead E raw m))"
  "R m (fst (daemon_operatorRedeliver E raw m))" "R m (fst (operatorReplaceCollections E cs ms m))"
  "R m (fst (operatorSchedule S E raw m))"
  unfolding daemon_operatorSend_def operatorMarkThreadRead_def daemon_operatorRedeliver_def
    operatorReplaceCollections_def operatorSchedule_def Let_def case_prod_beta
  by (rule refl branches and_then calls | assumption)+

lemma operator_control:
  assumes "\<And>sid. R m (fst (stopManaged E sid m))"
  shows "R m (fst (operatorControl E raw m))"
  unfolding operatorControl_def control_action_def Let_def case_prod_beta
  by (rule refl branches and_then assms calls | assumption)+

text \<open>The console's control either stops a managed child or is another such callback.\<close>

lemma control_or_stop:
  "(\<exists>sid. get_prop (payload_or_empty raw) ''action'' = Some (JStr (js ''stop_managed'')) \<and>
      get_prop (payload_or_empty raw) ''sessionId'' = Some (JStr sid) \<and> operatorControl E raw m = stopManaged E sid m) \<or>
   R m (fst (operatorControl E raw m))"
proof (cases "get_prop (payload_or_empty raw) ''action'' = Some (JStr (js ''stop_managed''))")
  case True
  then have "control_action E p (Some (js ''stop_managed'')) sid m = stopManaged E sid m" for p sid
    by (simp add: control_action_def)
  with True show ?thesis unfolding operatorControl_def Let_def
    by (auto simp: refl optString_def checked_def require_def truthy_def simp del: js_Cons
        split: sum.split option.split jval.split)
next
  case False
  have "R m (fst (control_action E p action sid m))" if "action \<noteq> Some (js ''stop_managed'')" for p action sid
    unfolding control_action_def if_not_P [OF that] case_prod_beta
    by (rule refl branches and_then calls | assumption)+
  with False show ?thesis unfolding operatorControl_def Let_def
    by (auto simp: refl optString_def checked_def require_def simp del: js_Cons split: sum.split option.split jval.split)
qed

lemma timers: "R m (fst (verifyLedgerNow E m))" "R m (runReaperSweep S E m)" "R m (runSchedulerTick S E m)"
  by (simp_all add: verifyLedgerNow_def runReaperSweep_def runSchedulerTick_def Let_def calls refl)

lemma only_db: "db_only m m' \<Longrightarrow> R m m'"
  unfolding db_only_def by (metis db refl)

lemma frames:
  assumes "\<And>p. R m (fst (onHello S E conn p m))" "\<And>p. R m (fst (onRegister E conn p m))"
    "ft = js ''shutdown'' \<Longrightarrow> R m (fst (onShutdown S E conn (payload_or_empty payload) m))"
  shows "R m (fst (handle S E conn ft payload m))"
  unfolding fst_handle
  by (rule dispatch_cases; (rule only_db, rule handlers_db_only)?; (rule branches(3), rule refl)?; (rule assms; assumption?)?)

lemma events:
  assumes "\<And>conn ft payload. ev = Frame conn ft payload \<Longrightarrow> R m (fst (handle S E conn ft payload m))"
    "\<And>conn. R m (daemon_onConnClose E conn m)" "\<And>raw. ev = Operator_Action raw \<Longrightarrow> R m (fst (operatorControl E raw m))"
    "\<And>sid key pid. R m (registerManagedChild sid key pid m)" "\<And>sid. R m (childExited E sid m)"
    "\<And>b. R m (recordTrustedEvidence b m)" "\<And>w. R m (m\<lparr>wakeProbe := w\<rparr>)"
  shows "R m (daemon_exec S E ev m)"
  by (cases ev) (simp_all add: assms callbacks timers calls refl)

end

definition same_conns :: "daemon \<Rightarrow> daemon \<Rightarrow> bool" where
  "same_conns m m' \<longleftrightarrow> connAuth m' = connAuth m \<and> connHello m' = connHello m \<and> connAwarded m' = connAwarded m"

interpretation conns: db_insensitive same_conns
  by unfold_locales (simp_all add: same_conns_def)

lemma same_conns_fields [simp]:
  "same_conns m (m1\<lparr>managedChildren := cs\<rparr>) = same_conns m m1" "same_conns m (m1\<lparr>dm_signalled := ps\<rparr>) = same_conns m m1"
  "same_conns m (m1\<lparr>trustedEvidence := t\<rparr>) = same_conns m m1" "same_conns m (m1\<lparr>wakeProbe := w\<rparr>) = same_conns m m1"
  by (simp_all add: same_conns_def)

lemma stopManaged_conns: "same_conns m (fst (stopManaged E sid m))"
  unfolding stopManaged_def Let_def by (rule conns.and_then) (simp_all add: conns.calls conns.refl)

lemma children_conns:
  "same_conns m (registerManagedChild sid key pid m)" "same_conns m (childExited E sid m)" "same_conns m (recordTrustedEvidence ev m)"
  by (simp_all add: registerManagedChild_def childExited_def recordTrustedEvidence_def conns.refl conns.calls split: option.splits)

lemma conns_ok_same: "same_conns m m' \<Longrightarrow> conns_ok m \<Longrightarrow> conns_ok m'"
  by (simp add: same_conns_def conns_ok_def)

lemma daemon_exec_conns:
  assumes "conns_ok m"
  shows "conns_ok (daemon_exec S E ev m)"
  by (cases ev)
    (simp_all add: assms handle_conns daemon_onConnClose_conns conns.callbacks [THEN conns_ok_same] conns.timers [THEN conns_ok_same]
      conns.operator_control [OF stopManaged_conns, THEN conns_ok_same] children_conns [THEN conns_ok_same])

inductive daemon_step :: "daemon_setup \<Rightarrow> (js_string \<Rightarrow> js_string) \<Rightarrow> daemon \<Rightarrow> daemon \<Rightarrow> bool" for S H where
  event: "sha256 E = H \<Longrightarrow> daemon_step S H m (daemon_exec S E ev m)"

inductive_cases daemon_stepE: "daemon_step S H m m'"

lemma new_daemon_conns: "conns_ok (new_daemon d)"
  by (simp add: new_daemon_def conns_ok_def)

interpretation daemon: step_system "\<lambda>m. m = new_daemon empty_db" "daemon_step S H"
  "\<lambda>m. broker_ok H (dm_db m) \<and> conns_ok m" for S H
proof unfold_locales
  show "broker_ok H (dm_db m) \<and> conns_ok m" if "m = new_daemon empty_db" for m
    using that new_daemon_conns broker_ok_empty by (simp add: new_daemon_def)
  show "broker_ok H (dm_db m') \<and> conns_ok m'" if "broker_ok H (dm_db m) \<and> conns_ok m" "daemon_step S H m m'" for m m'
    using that by (auto elim!: daemon_stepE intro: event_ok daemon_exec_conns)
qed

text \<open>C9: in every state the daemon reaches from an empty database, each authority is filed under the connection it was
  issued to and that connection has passed the hello, no connection holds two, an adapter award is held only by a registered
  connection, and the database is one the broker can reach.\<close>

theorem daemon_reachable:
  assumes "(daemon_step S H)\<^sup>*\<^sup>* (new_daemon empty_db) m"
  shows "broker_ok H (dm_db m) \<and>
    (\<forall>(c, a)\<in>set (connAuth m). a_conn a = c \<and> c \<in> set (connHello m)) \<and>
    distinct (map fst (connAuth m)) \<and> distinct (connHello m) \<and>
    fst ` set (connAwarded m) \<subseteq> fst ` set (connAuth m)"
  using daemon.reachable_good [OF refl assms] unfolding conns_ok_def .

section \<open>What the answers show\<close>

text \<open>
  The bodies an answer carries to the session of an authority, each with the epoch it goes to. Two requests may be answered
  with a body the epoch has seen: a redelivery, and an inbox read with \<open>markInjected\<close> set to false.
\<close>

fun shows_bodies :: "authority \<Rightarrow> answer \<Rightarrow> (js_string \<times> nat) list" where
  "shows_bodies a (Pull_Ack out) = map (\<lambda>p. (pn_id p, a_epoch a)) out"
| "shows_bodies a (Hook_Pull_Ack out) = map (\<lambda>p. (pn_id p, a_epoch a)) out"
| "shows_bodies a (Process_Ack out) = map (\<lambda>p. (pn_id p, a_epoch a)) out"
| "shows_bodies a (Inbox_Ack out) = map (\<lambda>e. (ie_id e, a_epoch a)) (filter ie_bodyIncluded out)"
| "shows_bodies a (Peek_Ack out) = map (\<lambda>p. (pn_id p, a_epoch a)) out"
| "shows_bodies a (Redeliver_Ack e) = [(ie_id e, a_epoch a)]"
| "shows_bodies a _ = []"

fun asks_again :: "daemon_event \<Rightarrow> bool" where
  "asks_again (Frame conn ft payload) \<longleftrightarrow> ft = js ''redeliver'' \<or>
     ft = js ''inbox'' \<and> get_prop (payload_or_empty payload) ''markInjected'' = Some (JBool False)"
| "asks_again _ \<longleftrightarrow> False"

fun shown :: "daemon_setup \<Rightarrow> env \<Rightarrow> daemon_event \<Rightarrow> daemon \<Rightarrow> (js_string \<times> nat) list" where
  "shown S E (Frame conn ft payload) m =
     (case map_of (connAuth m) conn of None \<Rightarrow> [] | Some a \<Rightarrow> shows_bodies a (snd (handle S E conn ft payload m)))"
| "shown S E _ m = []"

text \<open>What a run shows in answer to the events of a kind.\<close>

fun shown_along :: "(daemon_event \<Rightarrow> bool) \<Rightarrow> daemon_setup \<Rightarrow> (env \<times> daemon_event) list \<Rightarrow> daemon \<Rightarrow> (js_string \<times> nat) list" where
  "shown_along K S [] m = []"
| "shown_along K S ((E, ev) # evs) m = (if K ev then shown S E ev m else []) @ shown_along K S evs (daemon_exec S E ev m)"

text \<open>A handled frame shows only bodies that are new to the epoch.\<close>

definition shows_new :: "authority \<Rightarrow> daemon \<Rightarrow> answer handled \<Rightarrow> bool" where
  "shows_new a m r \<longleftrightarrow>
     (case snd r of Inl _ \<Rightarrow> True | Inr ans \<Rightarrow> first_time (dm_db m) (dm_db (fst r)) (shows_bodies a ans))"

lemma shows_new_auth:
  "map_of (connAuth m) conn = Some a \<Longrightarrow> shows_new a m (k a m) \<Longrightarrow> shows_new a m (with_auth conn k m)"
  by (simp add: with_auth_def requireAuth_def)

text \<open>Handlers whose answers carry no body.\<close>

definition quiet :: "authority \<Rightarrow> answer handled \<Rightarrow> bool" where
  "quiet a r \<longleftrightarrow> (case snd r of Inl _ \<Rightarrow> True | Inr ans \<Rightarrow> shows_bodies a ans = [])"

lemma quiet_shows_new: "quiet a r \<Longrightarrow> shows_new a m r"
  by (simp add: quiet_def shows_new_def split: sum.splits)

lemma quiet_pair: "quiet a (m, Inl e) \<longleftrightarrow> True" "quiet a (m, Inr ans) \<longleftrightarrow> shows_bodies a ans = []"
  by (simp_all add: quiet_def)

lemma quiet_rules:
  "quiet a (m, Inl e)" "shows_bodies a ans = [] \<Longrightarrow> quiet a (m, Inr ans)"
  "(\<And>x m. quiet a (k x m)) \<Longrightarrow> quiet a (andThen r k)"
  "(\<And>b. quiet a (h b m)) \<Longrightarrow> quiet a (with_auth conn h m)"
  "(\<And>y. quiet a (f y)) \<Longrightarrow> quiet a (case c of Inl e \<Rightarrow> (m, Inl e) | Inr y \<Rightarrow> f y)"
  "quiet a r1 \<Longrightarrow> quiet a r2 \<Longrightarrow> quiet a (if b then r1 else r2)"
  "quiet a r1 \<Longrightarrow> (\<And>y. quiet a (g y)) \<Longrightarrow> quiet a (case v of None \<Rightarrow> r1 | Some y \<Rightarrow> g y)"
  by (simp_all add: quiet_pair andThen_def with_auth_def split: sum.split option.split prod.split)

lemma quiet_handlers:
  "quiet a (onHello S E conn p m)" "quiet a (onRegister E conn p m)" "quiet a (onAnnounceSession E conn p m)"
  "quiet a (onRenameSession E conn p m)" "quiet a (onRegisterAlias E conn p m)" "quiet a (onSignalReadiness E conn p m)"
  "quiet a (onSetControl E conn p m)" "quiet a (onBlockPeer E conn p m)" "quiet a (onActivationDiagnose E conn m)"
  "quiet a (onSend S E conn v m)" "quiet a (onAck S E conn p m)" "quiet a (onReply S E conn p m)"
  "quiet a (onEnsureDashboard S conn m)" "quiet a (onDeadLetter conn p m)"
  "quiet a (onListSessions conn m)" "quiet a (onGetMetrics conn m)" "quiet a (onStatus S conn m)"
  "quiet a (onWakePoll E conn m)" "quiet a (onShutdown S E conn p m)"
  unfolding onHello_def onRegister_def onAnnounceSession_def onRenameSession_def onRegisterAlias_def onSignalReadiness_def
    onSetControl_def onBlockPeer_def onActivationDiagnose_def onSend_def send_answer_def onAck_def onReply_def
    onEnsureDashboard_def onDeadLetter_def onListSessions_def onGetMetrics_def onStatus_def onWakePoll_def onShutdown_def Let_def
    case_prod_beta
  by (rule quiet_rules shows_bodies.simps)+

text \<open>Handlers that hand over bodies.\<close>

lemma first_time_later: "first_time d d1 ps \<Longrightarrow> moves R d1 d2 \<Longrightarrow> first_time d d2 ps"
  by (auto simp: first_time_def dest: moves_injected)

lemma first_time_earlier: "first_time d1 d2 ps \<Longrightarrow> moves R d d1 \<Longrightarrow> first_time d d2 ps"
  by (auto simp: first_time_def dest: moves_injected)

lemma first_time_some:
  "first_time d d' (map (\<lambda>i. (i, ep)) xs) \<Longrightarrow> set ys \<subseteq> set xs \<Longrightarrow> distinct ys \<Longrightarrow> first_time d d' (map (\<lambda>i. (i, ep)) ys)"
  by (auto simp: first_time_def distinct_map inj_on_def)

lemma shows_new_andThen: "(\<And>m1 x. r = (m1, Inr x) \<Longrightarrow> shows_new a m (k x m1)) \<Longrightarrow> shows_new a m (andThen r k)"
  by (cases r; cases "snd r") (auto simp: shows_new_def)

lemma shows_new_check:
  "(\<And>y. shows_new a m (k y)) \<Longrightarrow> shows_new a m (case r of Inl e \<Rightarrow> (m1, Inl e) | Inr y \<Rightarrow> k y)"
  by (cases r) (simp_all add: shows_new_def)

lemma shows_new_answer: "first_time (dm_db m) (dm_db m1) (shows_bodies a ans) \<Longrightarrow> shows_new a m (m1, Inr ans)"
  by (simp add: shows_new_def)

lemma on_db_Inr: "on_db f m = (m', Inr x) \<Longrightarrow> f (dm_db m) = (dm_db m', Inr x)"
  by (auto simp: on_db_def split: prod.splits)

lemma does_run:
  assumes "does C E P m m1" "broker_ok (sha256 E) (dm_db m)"
  shows "moves recovery_edge (dm_db m) (dm_db m1)" "broker_ok (sha256 E) (dm_db m1)"
proof -
  obtain ops where ops: "dm_db m1 = run_ops C (map (Pair E) ops) (dm_db m)" using assms(1) by (auto simp: does_def)
  have run: "(broker_step C (sha256 E))\<^sup>*\<^sup>* (dm_db m) (dm_db m1)" unfolding ops by (rule run_ops_run) auto
  show "moves recovery_edge (dm_db m) (dm_db m1)" by (rule run_moves [OF run assms(2)])
  show "broker_ok (sha256 E) (dm_db m1)" by (rule broker.run_good [OF run assms(2)])
qed

text \<open>Statements before and after the one that hands the bodies over do not matter.\<close>

lemma first_time_between:
  assumes "broker_ok (sha256 E) (dm_db m)" "does C E any_op m m1" "does C E any_op m1 m2"
    "first_time (dm_db m1) (dm_db m2) ps" "does C E any_op m2 m3"
  shows "first_time (dm_db m) (dm_db m3) ps"
proof -
  note 1 = does_run [OF assms(2,1)]
  note 2 = does_run [OF assms(3) 1(2)]
  note 3 = does_run [OF assms(5) 2(2)]
  show ?thesis by (rule first_time_earlier [OF first_time_later [OF assms(4) 3(1)] 1(1)])
qed

lemma fst_eqD: "x = (y, z) \<Longrightarrow> y = fst x"
  by simp

lemma id_does:
  "id_or_fresh E x m = (m1, r) \<Longrightarrow> does C E any_op m m1" "fresh_id E m = (m1, r) \<Longrightarrow> does C E any_op m m1"
  by (auto dest!: fst_eqD intro: does_ids)

lemma onCheckpointPullHook_new:
  assumes "map_of (connAuth m) conn = Some a" "broker_ok (sha256 E) (dm_db m)"
  shows "shows_new a m (onCheckpointPullHook S E conn p m)"
  unfolding onCheckpointPullHook_def case_prod_beta
proof (intro shows_new_auth [OF assms(1)] shows_new_check shows_new_andThen shows_new_answer)
  fix y m1 cp m2 out
  assume 1: "id_or_fresh E (snd y) m = (m1, Inr cp)"
    and 2: "on_db (checkpointPull (dc_config S) E a cp (default 10 (fst y))) m1 = (m2, Inr out)"
  have "first_time (dm_db m1) (dm_db m2) (map (\<lambda>p. (pn_id p, a_epoch a)) out)"
    using checkpointPull_presents [OF on_db_Inr [OF 2]] by (rule first_time_presents_of)
  moreover have "does (dc_config S) E any_op m1 m2" using 2 by (auto dest!: fst_eqD intro: does_calls)
  ultimately show "first_time (dm_db m) (dm_db (if out \<noteq> [] then upd_db (touchCheckpoint E (a_session a)) m2 else m2))
     (shows_bodies a (Hook_Pull_Ack out))"
    using first_time_between [OF assms(2) id_does(1) [OF 1]] by (simp add: does_calls)
qed

lemma onProcessNext_new:
  assumes "map_of (connAuth m) conn = Some a" "broker_ok (sha256 E) (dm_db m)"
  shows "shows_new a m (onProcessNext S E conn m)"
  unfolding onProcessNext_def
proof (intro shows_new_auth [OF assms(1)] shows_new_andThen shows_new_answer)
  fix m1 cp m2 out
  assume 1: "fresh_id E m = (m1, Inr cp)" and 2: "on_db (processNext (dc_config S) E a cp) m1 = (m2, Inr out)"
  have "first_time (dm_db m1) (dm_db m2) (map (\<lambda>p. (pn_id p, a_epoch a)) out)"
    using processNext_presents [OF on_db_Inr [OF 2]] by (rule first_time_presents_of)
  moreover have "does (dc_config S) E any_op m1 m2" using 2 by (auto dest!: fst_eqD intro: does_calls)
  ultimately show "first_time (dm_db m) (dm_db m2) (shows_bodies a (Process_Ack out))"
    using first_time_between [OF assms(2) id_does(2) [OF 1]] by simp
qed

lemma onInbox_new:
  assumes "map_of (connAuth m) conn = Some a" "broker_ok (sha256 E) (dm_db m)" "get_prop p ''markInjected'' \<noteq> Some (JBool False)"
  shows "shows_new a m (onInbox S E conn p m)"
proof -
  have inbox: "shows_new a m (andThen (id_or_fresh E cp m) (\<lambda>cp m.
      andThen (on_db (inboxView (dc_config S) E a cp n) m) (\<lambda>out m. (m, Inr (Inbox_Ack out)))))" for cp n
  proof (intro shows_new_andThen shows_new_answer)
    fix m1 c m2 out
    assume 1: "id_or_fresh E cp m = (m1, Inr c)" and 2: "on_db (inboxView (dc_config S) E a c n) m1 = (m2, Inr out)"
    have "first_time (dm_db m1) (dm_db m2) (map (\<lambda>e. (ie_id e, a_epoch a)) (filter ie_bodyIncluded out))"
      using inboxView_presents [OF on_db_Inr [OF 2]] by (rule first_time_presents_of)
    moreover have "does (dc_config S) E any_op m1 m2" using 2 by (auto dest!: fst_eqD intro: does_calls)
    ultimately show "first_time (dm_db m) (dm_db m2) (shows_bodies a (Inbox_Ack out))"
      using first_time_between [OF assms(2) id_does(1) [OF 1]] by simp
  qed
  show ?thesis unfolding onInbox_def case_prod_beta
    by (intro shows_new_auth [OF assms(1)] shows_new_check) (simp add: inbox assms(3))
qed

lemma referenced_subseq: "subseq (map pn_id (fst (referenced E a ps m))) (map pn_id ps)"
  by (induction ps arbitrary: m) (auto simp: split_beta split: option.splits)

lemma subseq_set: "subseq xs ys \<Longrightarrow> set xs \<subseteq> set ys"
  by (induction rule: list_emb.induct) auto

lemma subseq_distinct: "subseq xs ys \<Longrightarrow> distinct ys \<Longrightarrow> distinct xs"
  by (induction rule: list_emb.induct) (auto dest: subseq_set)

lemma ids_referenced:
  "set (map pn_id (fst (referenced E a ps m))) \<subseteq> set (map pn_id ps)"
  "distinct (map pn_id ps) \<Longrightarrow> distinct (map pn_id (fst (referenced E a ps m)))"
  using referenced_subseq [of E a ps m] by (blast dest: subseq_set, rule subseq_distinct)

lemma onCheckpointPull_new:
  assumes "map_of (connAuth m) conn = Some a" "broker_ok (sha256 E) (dm_db m)"
  shows "shows_new a m (onCheckpointPull S E conn p m)"
  unfolding onCheckpointPull_def case_prod_beta Let_def
proof (intro shows_new_auth [OF assms(1)] shows_new_check shows_new_andThen shows_new_answer)
  fix y m1 m2 and pending :: "pending_message list" and marked :: "js_string list"
  let ?C = "dc_config S"
  let ?m3 = "upd_db (touchCheckpoint E (a_session a)) m2"
  let ?m4 = "if marked \<noteq> [] then upd_db (refreshMeaningfulActivity E (a_session a)) ?m3 else ?m3"
  let ?kept = "filter (\<lambda>q. pn_id q \<in> set marked) pending"
  assume 1: "on_db (pendingForSession E a y) m = (m1, Inr pending)"
    and 2: "on_db (markInjected ?C E a (map pn_id pending)) m1 = (m2, Inr marked)"
  have d1: "does ?C E any_op m m1" and d2: "does ?C E any_op m1 m2" using 1 2 by (auto dest!: fst_eqD intro: does_calls)
  have d3: "does ?C E any_op m2 (snd (referenced E a ?kept ?m4))" by (auto intro!: referenced_does does_calls)
  obtain n where pending: "pending = pendingForSessionId E (dm_db m1) (a_session a) n"
    using on_db_Inr [OF 1] by (auto simp: pendingForSession_def res_simps)
  have "distinct (map pn_id pending)"
    unfolding pending using does_run(2) [OF d1 assms(2)] by (intro pending_distinct) (simp add: broker_ok_def)
  then have dist: "distinct (map pn_id (fst (referenced E a ?kept ?m4)))" by (intro ids_referenced distinct_map_filter)
  have sub: "set (map pn_id (fst (referenced E a ?kept ?m4))) \<subseteq> set marked" by (rule order.trans [OF ids_referenced(1)]) auto
  have "first_time (dm_db m1) (dm_db m2) (map (\<lambda>i. (i, a_epoch a)) marked)"
    using on_db_Inr [OF 2] by (auto simp: markInjected_def res_simps dest!: markInjectedFor_presents intro: first_time_presents)
  then have "first_time (dm_db m1) (dm_db m2) (map (\<lambda>i. (i, a_epoch a)) (map pn_id (fst (referenced E a ?kept ?m4))))"
    by (rule first_time_some [OF _ sub dist])
  then show "first_time (dm_db m) (dm_db (snd (referenced E a ?kept ?m4)))
      (shows_bodies a (Pull_Ack (fst (referenced E a ?kept ?m4))))"
    using first_time_between [OF assms(2) d1 d2 _ d3] by (simp add: comp_def)
qed

lemma frame_first_time:
  assumes "broker_ok (sha256 E) (dm_db m)" "\<not> asks_again ev"
  shows "first_time (dm_db m) (dm_db (daemon_exec S E ev m)) (shown S E ev m)"
proof (cases ev)
  case (Frame conn ft payload)
  show ?thesis
  proof (cases "map_of (connAuth m) conn")
    case (Some a)
    note new = onCheckpointPull_new [OF Some assms(1)] onCheckpointPullHook_new [OF Some assms(1)] onProcessNext_new [OF Some assms(1)]
    have inbox: "shows_new a m (onInbox S E conn (payload_or_empty payload) m)" if "ft = js ''inbox''"
      using onInbox_new [OF Some assms(1)] assms(2) that by (simp add: Frame)
    have again: "ft \<noteq> js ''redeliver''" using assms(2) by (simp add: Frame)
    have "shows_new a m (dispatch S E conn ft payload m)"
      by (rule dispatch_cases; (rule new quiet_handlers [THEN quiet_shows_new] quiet_rules(2) [THEN quiet_shows_new] | simp only: inbox again)?)
        simp_all
    then show ?thesis
      using Frame Some
      by (cases "dispatch S E conn ft payload m"; cases "snd (dispatch S E conn ft payload m)")
        (auto simp: shows_new_def handle_def error_answer_def split: xerror.splits)
  qed (simp add: Frame)
qed simp_all

text \<open>What the two requests that may repeat a body are answered with.\<close>

lemma onInbox_peek:
  assumes "map_of (connAuth m) conn = Some a" "get_prop p ''markInjected'' = Some (JBool False)" "onInbox S E conn p m = (m', Inr ans)"
    and "(i, ep) \<in> set (shows_bodies a ans)"
  shows "was_waiting i (dm_db m)"
proof -
  obtain n m1 out where "on_db (pendingForSession E a n) m = (m1, Inr out)" "ans = Peek_Ack out"
    using assms(1-3) by (auto simp: onInbox_def with_auth_def requireAuth_def andThen_eq_Inr split: sum.splits)
  with assms(4) show ?thesis using pendingForSession_Inr [OF on_db_Inr] peek_waiting by fastforce
qed

lemma onRedeliver_again:
  assumes "map_of (connAuth m) conn = Some a" "onRedeliver S E conn p m = (m', Inr ans)" "(i, ep) \<in> set (shows_bodies a ans)"
  shows "\<exists>lg. injected (dm_db m) i ep lg"
proof -
  obtain mid why m1 e where "on_db (redeliver (dc_config S) E a mid why) m = (m1, Inr (Some e))" "ans = Redeliver_Ack e"
    using assms(1,2) by (auto simp: onRedeliver_def with_auth_def requireAuth_def andThen_eq_Inr Let_def split: option.splits)
  with assms(3) show ?thesis using redeliver_injected [OF on_db_Inr] by fastforce
qed

lemma dispatch_again:
  "dispatch S E conn (js ''inbox'') v m = onInbox S E conn (payload_or_empty v) m"
  "dispatch S E conn (js ''redeliver'') v m = onRedeliver S E conn (payload_or_empty v) m"
  by (simp_all add: dispatch_def)

lemma shown_again:
  assumes "asks_again ev" "(i, ep) \<in> set (shown S E ev m)"
  shows "was_waiting i (dm_db m) \<or> (\<exists>lg. injected (dm_db m) i ep lg)"
proof (cases ev)
  case (Frame conn ft v)
  with assms(2) obtain a where a: "map_of (connAuth m) conn = Some a" "(i, ep) \<in> set (shows_bodies a (snd (handle S E conn ft v m)))"
    by (cases "map_of (connAuth m) conn") auto
  then obtain m' ans where ans: "dispatch S E conn ft v m = (m', Inr ans)" "(i, ep) \<in> set (shows_bodies a ans)"
    by (cases "dispatch S E conn ft v m"; cases "snd (dispatch S E conn ft v m)")
      (auto simp: handle_def error_answer_def split: xerror.splits)
  consider "ft = js ''redeliver''" | "ft = js ''inbox''" "get_prop (payload_or_empty v) ''markInjected'' = Some (JBool False)"
    using assms(1) by (auto simp: Frame simp del: js_Cons)
  then show ?thesis
  proof cases
    case 1
    with ans show ?thesis using onRedeliver_again [OF a(1)] by (simp add: dispatch_again del: js_Cons)
  next
    case 2
    with ans show ?thesis using onInbox_peek [OF a(1) 2(2)] by (simp add: dispatch_again del: js_Cons)
  qed
qed (use assms in simp_all)

text \<open>C8: over any run of the daemon no body is shown twice to the same epoch of a session: not by two pulls on one
  connection, not on two connections of the session, and not through different frame types (the MCP pull, the hook pull,
  process_next and the inbox), whatever closes, registers or times out in between. Two requests are excepted, redeliver and the
  inbox with markInjected false; they show only messages that are still waiting or were injected in this epoch before.\<close>

theorem daemon_at_most_once:
  assumes "broker_ok H (dm_db m)" "same_hash H evs"
  shows "distinct (shown_along (\<lambda>ev. \<not> asks_again ev) S evs m) \<and>
    (\<forall>(i, ep)\<in>set (shown_along (\<lambda>ev. \<not> asks_again ev) S evs m). \<not> injected (dm_db m) i ep 1) \<and>
    (\<forall>pre E ev post. evs = pre @ (E, ev) # post \<longrightarrow> asks_again ev \<longrightarrow>
       (\<forall>(i, ep)\<in>set (shown S E ev (run_daemon S pre m)).
          was_waiting i (dm_db (run_daemon S pre m)) \<or> (\<exists>lg. injected (dm_db (run_daemon S pre m)) i ep lg)))"
proof -
  have "distinct (shown_along (\<lambda>ev. \<not> asks_again ev) S evs m) \<and>
    (\<forall>(i, ep)\<in>set (shown_along (\<lambda>ev. \<not> asks_again ev) S evs m). \<not> injected (dm_db m) i ep 1)"
    using assms
  proof (induction evs arbitrary: m)
    case (Cons e evs)
    obtain E ev where e: "e = (E, ev)" and H: "sha256 E = H" using Cons.prems(2) by (cases e) auto
    let ?m = "daemon_exec S E ev m"
    have ok: "broker_ok H (dm_db ?m)" "moves recovery_edge (dm_db m) (dm_db ?m)" using event_ok [of E m S ev] Cons.prems(1) H by auto
    have first: "first_time (dm_db m) (dm_db ?m) (if \<not> asks_again ev then shown S E ev m else [])"
      using frame_first_time Cons.prems(1) H by auto
    from Cons.IH [OF ok(1)] Cons.prems(2) first show ?case
      using moves_injected [OF ok(2)] by (fastforce simp: e first_time_def)
  qed simp
  with shown_again show ?thesis by blast
qed

section \<open>Stopping\<close>

definition same_stopping :: "daemon \<Rightarrow> daemon \<Rightarrow> bool" where
  "same_stopping m m' \<longleftrightarrow> dm_stopping m' = dm_stopping m"

interpretation stopping: db_insensitive same_stopping
  by unfold_locales (simp_all add: same_stopping_def)

lemma stopManaged_stopping: "same_stopping m (fst (stopManaged E sid m))"
  unfolding stopManaged_def Let_def
  by (rule stopping.and_then) (simp_all add: stopping.calls stopping.refl, simp add: same_stopping_def)

lemma children_stopping:
  "same_stopping m (registerManagedChild sid key pid m)" "same_stopping m (childExited E sid m)"
  "same_stopping m (recordTrustedEvidence ev m)" "same_stopping m (daemon_onConnClose E conn m)" "same_stopping m (m\<lparr>wakeProbe := w\<rparr>)"
  by (simp_all add: same_stopping_def registerManagedChild_def childExited_def recordTrustedEvidence_def daemon_onConnClose_def on_db_def
    split: option.splits prod.splits)

lemma hello_register_stopping:
  "same_stopping m (fst (onHello S E conn p m))" "same_stopping m (fst (onRegister E conn p m))"
proof -
  show "same_stopping m (fst (onHello S E conn p m))"
    unfolding onHello_def Let_def by (auto simp: same_stopping_def upd_db_def split: sum.splits)
  show "same_stopping m (fst (onRegister E conn p m))"
    unfolding onRegister_def Let_def case_prod_beta
    by (intro stopping.branches stopping.and_then) (auto simp: same_stopping_def on_db_def upd_db_def split: prod.splits)
qed

lemma shutdown_roles: "isAllowed r Op_Shutdown \<longleftrightarrow> r = ADMIN"
  by (cases r) (simp_all add: isAllowed_def)

text \<open>C12: the broker is stopped only by an administrator who proves which broker is meant: when an event schedules the
  stop, it is a shutdown frame on a connection whose registered role may shut down, echoing this broker's instance id.\<close>

theorem stop_needs_admin:
  assumes "dm_stopping (daemon_exec S E ev m)" "\<not> dm_stopping m"
  shows "\<exists>conn payload a. ev = Frame conn (js ''shutdown'') payload \<and> map_of (connAuth m) conn = Some a \<and> a_role a = ADMIN \<and>
    get_prop (payload_or_empty payload) ''brokerInstanceId'' = Some (JStr (dc_instanceId S))"
proof (rule ccontr)
  assume no: "\<not> ?thesis"
  have "same_stopping m (daemon_exec S E ev m)"
  proof (rule stopping.events)
    fix conn ft payload
    assume ev: "ev = Frame conn ft payload"
    have "same_stopping m (fst (onShutdown S E conn (payload_or_empty payload) m))" if "ft = js ''shutdown''"
      using no shutdown_roles unfolding ev that onShutdown_def
      by (auto simp: with_auth_def requireAuth_def same_stopping_def assertAllowed_def simp del: js_Cons split: option.splits)
    then show "same_stopping m (fst (handle S E conn ft payload m))" by (simp add: stopping.frames hello_register_stopping)
  qed (simp_all add: children_stopping stopping.operator_control stopManaged_stopping)
  with assms show False by (simp add: same_stopping_def)
qed

section \<open>Managed children\<close>

definition same_signals :: "daemon \<Rightarrow> daemon \<Rightarrow> bool" where
  "same_signals m m' \<longleftrightarrow> dm_signalled m' = dm_signalled m"

interpretation signals: db_insensitive same_signals
  by unfold_locales (simp_all add: same_signals_def)

lemma children_signals:
  "same_signals m (registerManagedChild sid key pid m)" "same_signals m (childExited E sid m)"
  "same_signals m (recordTrustedEvidence ev m)" "same_signals m (daemon_onConnClose E conn m)" "same_signals m (m\<lparr>wakeProbe := w\<rparr>)"
  by (simp_all add: same_signals_def registerManagedChild_def childExited_def recordTrustedEvidence_def daemon_onConnClose_def on_db_def
    split: option.splits prod.splits)

lemma frame_signals: "same_signals m (fst (handle S E conn ft payload m))"
proof (rule signals.frames)
  show "same_signals m (fst (onHello S E conn p m))" for p
    unfolding onHello_def Let_def by (auto simp: same_signals_def upd_db_def split: sum.splits)
  show "same_signals m (fst (onRegister E conn p m))" for p
    unfolding onRegister_def Let_def case_prod_beta
    by (intro signals.branches signals.and_then) (auto simp: same_signals_def on_db_def upd_db_def split: prod.splits)
  show "same_signals m (fst (onShutdown S E conn (payload_or_empty payload) m))"
    unfolding onShutdown_def with_auth_def by (auto simp: same_signals_def upd_db_def split: sum.splits option.splits)
qed

text \<open>What the one callback that signals a process does.\<close>

lemma stopManaged_signals:
  assumes "\<not> same_signals m (fst (stopManaged E sid m))"
  shows "\<exists>h s. map_of (managedChildren m) sid = Some h \<and> session_row (dm_db m) sid = Some s \<and> s_managed s \<and>
    s_managedPid s = Some (ch_pid h) \<and> (s_managedKey s = None \<or> s_managedKey s = Some (ch_launchKey h)) \<and>
    dm_signalled (fst (stopManaged E sid m)) = dm_signalled m @ [ch_pid h] \<and>
    map_of (managedChildren (fst (stopManaged E sid m))) sid = None"
proof (cases "clearManagedSession E sid (dm_db m)")
  case (Pair d r)
  show ?thesis
  proof (cases r)
    case (Inl e)
    with Pair assms show ?thesis by (simp add: stopManaged_def on_db_def same_signals_def)
  next
    case (Inr cl)
    then have cleared: "clearManagedSession E sid (dm_db m) = (d, Inr cl)" using Pair by simp
    then obtain s where "session_row (dm_db m) sid = Some s" "s_managed s"
      "mm_pid cl = s_managedPid s" "mm_launchKey cl = s_managedKey s"
      by (auto simp: clearManagedSession_def res_simps Let_def split: option.splits if_splits)
    then show ?thesis using cleared assms
      by (auto simp: stopManaged_def on_db_def same_signals_def may_kill_def Let_def split: option.splits if_splits)
  qed
qed

text \<open>C11: the broker signals only a child it launched itself. When an event sends a signal, the event is the operator's
  stop_managed action for a session, that session is recorded as managed, this process holds a live handle of that session's
  child, the recorded process id is the handle's, and the launch key, when one is recorded, is the handle's; exactly that
  process is signalled, once, and the handle is forgotten, so a recycled process id is never signalled.\<close>

theorem stop_signals_own_child:
  assumes "dm_signalled (daemon_exec S E ev m) \<noteq> dm_signalled m"
  shows "\<exists>raw sid h s. ev = Operator_Action raw \<and>
    get_prop (payload_or_empty raw) ''action'' = Some (JStr (js ''stop_managed'')) \<and>
    get_prop (payload_or_empty raw) ''sessionId'' = Some (JStr sid) \<and>
    map_of (managedChildren m) sid = Some h \<and> session_row (dm_db m) sid = Some s \<and> s_managed s \<and>
    s_managedPid s = Some (ch_pid h) \<and> (s_managedKey s = None \<or> s_managedKey s = Some (ch_launchKey h)) \<and>
    dm_signalled (daemon_exec S E ev m) = dm_signalled m @ [ch_pid h] \<and>
    map_of (managedChildren (daemon_exec S E ev m)) sid = None"
proof -
  have "\<exists>raw. ev = Operator_Action raw \<and> \<not> same_signals m (fst (operatorControl E raw m))"
  proof (rule ccontr)
    assume "\<not> ?thesis"
    then have "same_signals m (daemon_exec S E ev m)" by (intro signals.events) (simp_all add: frame_signals children_signals)
    with assms show False by (simp add: same_signals_def)
  qed
  then obtain raw where ev: "ev = Operator_Action raw" and changed: "\<not> same_signals m (fst (operatorControl E raw m))" by blast
  with signals.control_or_stop [of raw E m] obtain sid where
    asked: "get_prop (payload_or_empty raw) ''action'' = Some (JStr (js ''stop_managed''))"
      "get_prop (payload_or_empty raw) ''sessionId'' = Some (JStr sid)" and stop: "operatorControl E raw m = stopManaged E sid m" by blast
  from stopManaged_signals [of m E sid] changed asked show ?thesis
    unfolding ev daemon_exec.simps stop by blast
qed

section \<open>Samples\<close>

definition sample_setup :: daemon_setup where
  "sample_setup = \<lparr>dc_authSecret = None, dc_instanceId = js ''i1'', dc_config = daemon_config, dc_reaper = default_reaper, dc_cap = 200,
     dc_parseSend = (\<lambda>_. Inr sample_input), dc_parseDate = (\<lambda>_. None), dc_dashboard = None\<rparr>"

definition sample_daemon :: "component_role \<Rightarrow> daemon" where
  "sample_daemon r = (new_daemon queued_db)\<lparr>connHello := [js ''k''], connAuth := [(js ''k'', sample_auth r)]\<rparr>"

lemma dispatch_at:
  "dispatch S E conn (js ''checkpoint_pull_hook'') v m = onCheckpointPullHook S E conn (payload_or_empty v) m"
  "dispatch S E conn (js ''shutdown'') v m = onShutdown S E conn (payload_or_empty v) m"
  "dispatch S E conn (js ''hello'') v m = onHello S E conn (payload_or_empty v) m"
  by (simp_all add: dispatch_def)

text \<open>A hello admitted by the sample broker.\<close>

definition sample_hello :: jval where
  "sample_hello = JObj [(js ''protocolVersion'', JNum 1)]"

lemma hello_admitted: "connHello (fst (onHello sample_setup sample_env (js ''k'') sample_hello (new_daemon empty_db))) = [js ''k'']"
  by (simp add: onHello_def sample_setup_def sample_hello_def or_else_def to_number_def hello_verdict_def Let_def checked_def
    brokerHelloInfo_def num_max_def num_min_def new_daemon_def PROTOCOL_VERSION_def MIN_SUPPORTED_PROTOCOL_VERSION_def SCHEMA_VERSION_def)

theorem daemon_reachable_witness:
  "broker_ok (sha256 sample_env) (dm_db (daemon_exec sample_setup sample_env (Frame (js ''k'') (js ''hello'') (Some sample_hello)) (new_daemon empty_db)))
   \<and> connHello (daemon_exec sample_setup sample_env (Frame (js ''k'') (js ''hello'') (Some sample_hello)) (new_daemon empty_db)) = [js ''k'']"
  (is "broker_ok _ (dm_db ?m) \<and> _")
proof
  have "(daemon_step sample_setup (sha256 sample_env))\<^sup>*\<^sup>* (new_daemon empty_db) ?m"
    by (intro r_into_rtranclp event HOL.refl)
  from daemon_reachable [OF this] show "broker_ok (sha256 sample_env) (dm_db ?m)" by (rule conjunct1)
  show "connHello ?m = [js ''k'']" using hello_admitted
    by (simp add: fst_handle dispatch_at payload_or_empty_def sample_hello_def del: js_Cons)
qed

text \<open>A pull through the hook, then one through the inbox.\<close>

definition pull_request :: jval where
  "pull_request = JObj [(js ''checkpointId'', JStr (js ''c1''))]"

definition two_pulls :: "(env \<times> daemon_event) list" where
  "two_pulls = [(sample_env, Frame (js ''k'') (js ''checkpoint_pull_hook'') (Some pull_request)), (sample_env, Frame (js ''k'') (js ''inbox'') None)]"

lemma sample_pull:
  obtains d out where "checkpointPull daemon_config sample_env (sample_auth HOOK) (js ''c1'') 10 queued_db = (d, Inr out)"
    "map pn_id out = [js ''m1'']"
proof -
  have "(case snd (checkpointPull daemon_config sample_env (sample_auth HOOK) (js ''c1'') 10 queued_db) of
      Inl _ \<Rightarrow> [] | Inr out \<Rightarrow> map pn_id out) = [js ''m1'']" by code_simp
  then show ?thesis using that
    by (cases "checkpointPull daemon_config sample_env (sample_auth HOOK) (js ''c1'') 10 queued_db") (auto split: sum.splits)
qed

lemma first_pull_shows:
  "shown sample_setup sample_env (Frame (js ''k'') (js ''checkpoint_pull_hook'') (Some pull_request)) (sample_daemon HOOK) = [(js ''m1'', 1)]"
proof (rule sample_pull)
  fix d out
  assume pull: "checkpointPull daemon_config sample_env (sample_auth HOOK) (js ''c1'') 10 queued_db = (d, Inr out)"
    and out: "map pn_id out = [js ''m1'']"
  have args: "validatedLimit (get_prop pull_request ''limit'') = Inr None"
    "optString (get_prop pull_request ''checkpointId'') ''checkpointId'' = Inr (Some (js ''c1''))"
    "payload_or_empty (Some pull_request) = pull_request"
    by code_simp+
  have "snd (handle sample_setup sample_env (js ''k'') (js ''checkpoint_pull_hook'') (Some pull_request) (sample_daemon HOOK)) = Hook_Pull_Ack out"
    using pull unfolding handle_def dispatch_at onCheckpointPullHook_def
    by (simp add: args with_auth_def requireAuth_def sample_daemon_def sample_setup_def new_daemon_def on_db_def id_or_fresh_def checked_def
      default_def del: js_Cons)
  with out show ?thesis by (cases out) (auto simp: sample_daemon_def sample_auth_def simp del: js_Cons)
qed

theorem daemon_at_most_once_witness:
  "distinct (shown_along (\<lambda>ev. \<not> asks_again ev) sample_setup two_pulls (sample_daemon HOOK)) \<and>
   (js ''m1'', 1) \<in> set (shown_along (\<lambda>ev. \<not> asks_again ev) sample_setup two_pulls (sample_daemon HOOK))"
proof
  have "broker_ok (sha256 sample_env) (dm_db (sample_daemon HOOK))" using queued_db_broker_ok by (simp add: sample_daemon_def new_daemon_def)
  moreover have "same_hash (sha256 sample_env) two_pulls" by (simp add: two_pulls_def)
  ultimately show "distinct (shown_along (\<lambda>ev. \<not> asks_again ev) sample_setup two_pulls (sample_daemon HOOK))"
    using daemon_at_most_once by blast
  show "(js ''m1'', 1) \<in> set (shown_along (\<lambda>ev. \<not> asks_again ev) sample_setup two_pulls (sample_daemon HOOK))"
    unfolding two_pulls_def shown_along.simps first_pull_shows by simp
qed

theorem unregistered_inert_witness:
  "\<exists>r. handle sample_setup sample_env (js ''x'') (js ''send_message'') None (sample_daemon MCP) = (sample_daemon MCP, r)"
  using unregistered_inert [of "sample_daemon MCP" "js ''x''" "js ''send_message''" sample_setup sample_env None]
  by (auto simp: sample_daemon_def)

text \<open>An administrator's shutdown request.\<close>

definition shutdown_request :: jval where
  "shutdown_request = JObj [(js ''brokerInstanceId'', JStr (js ''i1''))]"

theorem stop_needs_admin_witness:
  "dm_stopping (daemon_exec sample_setup sample_env (Frame (js ''k'') (js ''shutdown'') (Some shutdown_request)) (sample_daemon ADMIN)) \<and>
   (\<exists>a. map_of (connAuth (sample_daemon ADMIN)) (js ''k'') = Some a \<and> a_role a = ADMIN)"
proof -
  have "dm_stopping (daemon_exec sample_setup sample_env (Frame (js ''k'') (js ''shutdown'') (Some shutdown_request)) (sample_daemon ADMIN))"
    by (simp add: fst_handle dispatch_at onShutdown_def with_auth_def requireAuth_def sample_daemon_def new_daemon_def sample_auth_def
      assertAllowed_def isAllowed_def sample_setup_def shutdown_request_def payload_or_empty_def upd_db_def del: js_Cons)
  moreover have "\<not> dm_stopping (sample_daemon ADMIN)" by (simp add: sample_daemon_def new_daemon_def)
  ultimately show ?thesis using stop_needs_admin by blast
qed

text \<open>A managed session with a live child.\<close>

definition managed_db :: db where
  "managed_db = queued_db\<lparr>sessions := [(sample_session (js ''b''))\<lparr>s_managed := True, s_managedPid := Some 42, s_managedKey := Some (js ''l'')\<rparr>]\<rparr>"

definition managing_daemon :: daemon where
  "managing_daemon = (new_daemon managed_db)\<lparr>managedChildren := [(js ''b'', \<lparr>ch_pid = 42, ch_launchKey = js ''l''\<rparr>)]\<rparr>"

definition stop_request :: jval where
  "stop_request = JObj [(js ''action'', JStr (js ''stop_managed'')), (js ''sessionId'', JStr (js ''b''))]"

lemma stop_dispatched: "operatorControl E (Some stop_request) m = stopManaged E (js ''b'') m"
  by (simp add: operatorControl_def control_action_def stop_request_def payload_or_empty_def optString_def checked_def require_def
    truthy_def)

theorem stop_signals_own_child_witness:
  "dm_signalled (daemon_exec sample_setup sample_env (Operator_Action (Some stop_request)) managing_daemon) = [42] \<and>
   (\<exists>sid h. map_of (managedChildren managing_daemon) sid = Some h \<and> ch_pid h = 42)"
proof -
  have stopped: "dm_signalled (daemon_exec sample_setup sample_env (Operator_Action (Some stop_request)) managing_daemon) = [42]"
    unfolding daemon_exec.simps stop_dispatched
    by (simp add: stopManaged_def on_db_def managing_daemon_def new_daemon_def managed_db_def clearManagedSession_def transaction_def
      session_row_def may_kill_def Let_def del: js_Cons)
  have "dm_signalled managing_daemon = []" by (simp add: managing_daemon_def new_daemon_def)
  with stopped stop_signals_own_child [of sample_setup sample_env "Operator_Action (Some stop_request)" managing_daemon] show ?thesis
    by auto
qed

section \<open>Where the handlers deviate\<close>

text \<open>On integer versions the daemon's verdict is the one of \<open>checkCompatibility\<close>.\<close>

lemma hello_verdict_integers:
  "hello_verdict (Fin (of_int (h_minimumProtocolVersion c))) (Fin (of_int (h_maximumProtocolVersion c)))
     (Inr (Fin (of_int (h_schemaVersion c)))) b = Inr (checkCompatibility c b)"
  by (auto simp: hello_verdict_def checkCompatibility_def num_max_def num_min_def checked_def Let_def max_def min_def)

text \<open>A hello whose versions are no numbers compares as nothing and is admitted.\<close>

lemma hello_not_numeric: "hello_verdict NaN y (Inr NaN) b = Inr \<lparr>cv_result = Compatible, cv_ok = True\<rparr>"
  by (cases y) (simp_all add: hello_verdict_def num_max_def num_min_def checked_def Let_def)

text \<open>A repeated send of a completed message to a checkpoint session is reported as queued.\<close>

lemma repeated_send_word: "send_word Completed Ready_Checkpoint (js ''hook_checkpoint'') = ''queued_until_checkpoint''"
  by (simp add: send_word_def)

text \<open>A reply stores metadata under a key that a send must not use.\<close>

lemma reply_keeps_reserved: "reply_metadata (Some (JObj [(k, JStr v)])) = Some [(k, v)]"
  by (simp add: reply_metadata_def truthy_prop_def spread_def)

end
