(* ===== verification/Ipc_Correct.thy ===== *)
theory Ipc_Correct
  imports Ipc_Server Daemon_Correct
begin

text \<open>
  The server of \<^verbatim>\<open>src/ipc/server.ts\<close> with an installation secret: every socket event is a sequence of elementary steps, the
  connections keep an invariant across them, and so what the consumer is given on a connection is what the holder of the
  secret sealed for it, in order and without gaps. A consumer behind the handshake gate is described by a locale; the daemon
  is one.
\<close>

section \<open>Elementary steps\<close>

definition conn_id :: "nat \<Rightarrow> js_string" where
  "conn_id n = js ''conn-'' @ dec_str n"

lemma conn_id_inj: "conn_id m = conn_id n \<Longrightarrow> m = n"
  unfolding conn_id_def using dec_str_digits [of m] dec_str_digits [of n] by (metis append_same_eq same_append_eq)

text \<open>What the server hands on from an opened buffer.\<close>

definition frame_of :: "server_options \<Rightarrow> bytes \<Rightarrow> jval option" where
  "frame_of S pt =
     (case json_parse (so_number S) (utf8_decode pt) of
        None \<Rightarrow> None
      | Some frame \<Rightarrow> if well_typed frame then Some frame else None)"

text \<open>The peer proved the secret in a handshake of its own with fresh server randomness, and these are its keys.\<close>

definition handshaken :: "server_options \<Rightarrow> bytes \<Rightarrow> derived_keys \<Rightarrow> bytes \<Rightarrow> bool" where
  "handshaken S secret ks cid \<longleftrightarrow>
     (\<exists>msg hello nonce sv proof.
        parseClientHello msg = Inr hello \<and>
        serverHandshake (so_crypto S) secret (so_brokerInstanceId S) hello nonce = Inr sv \<and>
        serverVerifyFinish (so_crypto S) (sv_keys sv) (sv_th sv) proof = None \<and>
        ks = sv_keys sv \<and> cid = ch_connId hello)"

definition pending_ok :: "server_options \<Rightarrow> bytes \<Rightarrow> conn_entry \<Rightarrow> bool" where
  "pending_ok S secret c \<longleftrightarrow>
     (\<forall>th ks cid. ce_pendingTh c = Some th \<and> ce_pendingKeys c = Some ks \<and> ce_connIdForSession c = Some cid \<longrightarrow>
        (\<exists>msg hello nonce sv. parseClientHello msg = Inr hello \<and>
           serverHandshake (so_crypto S) secret (so_brokerInstanceId S) hello nonce = Inr sv \<and>
           th = sv_th sv \<and> ks = sv_keys sv \<and> cid = ch_connId hello))"

lemma pending_finished:
  assumes "pending_ok S secret c" "ce_pendingTh c = Some th" "ce_pendingKeys c = Some ks" "ce_connIdForSession c = Some cid"
    and "serverVerifyFinish (so_crypto S) ks th proof = None"
  shows "handshaken S secret ks cid"
  using assms unfolding pending_ok_def handshaken_def by metis

text \<open>The step that opens a sealed buffer, with what it does to the consumer.\<close>

definition opened :: "server_options \<Rightarrow> 'h consumer \<Rightarrow> js_string \<Rightarrow> secure_session \<Rightarrow> bytes \<Rightarrow> bytes \<Rightarrow> 'h ipc_server \<Rightarrow> 'h ipc_server" where
  "opened S H i ss sealed pt s =
     (let s = (set_conn i (\<lambda>c. c\<lparr>ce_secure := Some ss\<rparr>) s)\<lparr>ipc_opened := ipc_opened s @ [(i, sealed, pt)]\<rparr> in
      case frame_of S pt of
        None \<Rightarrow> s
      | Some f \<Rightarrow> s\<lparr>ipc_consumer := fst (onFrame H i f (ipc_consumer s)), ipc_delivered := ipc_delivered s @ [(i, f)]\<rparr>)"

inductive elementary :: "server_options \<Rightarrow> bytes \<Rightarrow> 'h consumer \<Rightarrow> 'h ipc_server \<Rightarrow> 'h ipc_server \<Rightarrow> bool"
  for S secret H where
  closing: "elementary S secret H s (closeConn H i s)"
| socket: "elementary S secret H s (s\<lparr>ipc_written := w, ipc_nonces := n, ipc_totalBuffered := b, ipc_connectTimestamps := ts\<rparr>)"
| buffering: "elementary S secret H s (set_conn i (\<lambda>c. c\<lparr>ce_decoder := d\<rparr>) s)"
| greeting: "conn_of s i = Some c \<Longrightarrow> ce_secure c = None \<Longrightarrow> parseClientHello msg = Inr hello \<Longrightarrow>
    serverHandshake (so_crypto S) secret (so_brokerInstanceId S) hello nonce = Inr sv \<Longrightarrow>
    elementary S secret H s (set_conn i (\<lambda>c. c\<lparr>ce_pendingTh := Some (sv_th sv), ce_pendingKeys := Some (sv_keys sv),
      ce_connIdForSession := Some (ch_connId hello)\<rparr>) s)"
| finishing: "conn_of s i = Some c \<Longrightarrow> ce_secure c = None \<Longrightarrow> ce_pendingTh c = Some th \<Longrightarrow> ce_pendingKeys c = Some ks \<Longrightarrow>
    ce_connIdForSession c = Some cid \<Longrightarrow> serverVerifyFinish (so_crypto S) ks th proof = None \<Longrightarrow>
    elementary S secret H s (set_conn i (\<lambda>c. c\<lparr>ce_secure := Some (new_SecureSession ks cid Server_Role),
      ce_pendingTh := None, ce_pendingKeys := None, ce_handshakeTimer := False\<rparr>) s)"
| sealing: "conn_of s i = Some c \<Longrightarrow> ce_secure c = Some ss \<Longrightarrow>
    elementary S secret H s (set_conn i (\<lambda>c. c\<lparr>ce_secure := Some (ss\<lparr>sendSeq := n\<rparr>)\<rparr>) s)"
| unsealing: "conn_of s i = Some c \<Longrightarrow> ce_secure c = Some ss \<Longrightarrow> open_sealed (so_crypto S) sealed ss = (ss', Inr pt) \<Longrightarrow>
    elementary S secret H s (opened S H i ss' sealed pt s)"
| admitting: "length (ipc_conns s) < so_maxConnections S \<Longrightarrow>
    elementary S secret H s (s\<lparr>ipc_seq := ipc_seq s + 1, ipc_conns := ipc_conns s @ [(conn_id (ipc_seq s + 1),
      \<lparr>ce_decoder = d, ce_secure = None, ce_pendingTh = None, ce_pendingKeys = None, ce_connIdForSession = None,
       ce_handshakeTimer = True\<rparr>)]\<rparr>)"

lemma conn_of_set_conn: "conn_of (set_conn i f s) j = (if j = i then map_option f (conn_of s j) else conn_of s j)"
proof -
  have "map_of (map (\<lambda>(j, c). (j, if j = i then f c else c)) cs) j = (if j = i then map_option f (map_of cs j) else map_of cs j)" for cs
    by (induction cs) auto
  then show ?thesis by (simp add: conn_of_def set_conn_def)
qed

lemma set_conn_fields [simp]:
  "ipc_consumer (set_conn i f s) = ipc_consumer s" "ipc_seq (set_conn i f s) = ipc_seq s"
  "ipc_opened (set_conn i f s) = ipc_opened s" "ipc_delivered (set_conn i f s) = ipc_delivered s"
  "length (ipc_conns (set_conn i f s)) = length (ipc_conns s)"
  by (simp_all add: set_conn_def)

lemma conn_of_fields [simp]:
  "conn_of (s\<lparr>ipc_written := w\<rparr>) = conn_of s" "conn_of (s\<lparr>ipc_nonces := n\<rparr>) = conn_of s"
  "conn_of (s\<lparr>ipc_totalBuffered := b\<rparr>) = conn_of s" "conn_of (s\<lparr>ipc_connectTimestamps := ts\<rparr>) = conn_of s"
  "conn_of (s\<lparr>ipc_opened := os\<rparr>) = conn_of s" "conn_of (s\<lparr>ipc_delivered := ds\<rparr>) = conn_of s"
  "conn_of (s\<lparr>ipc_consumer := h\<rparr>) = conn_of s" "conn_of (s\<lparr>ipc_seq := q\<rparr>) = conn_of s"
  by (simp_all add: conn_of_def fun_eq_iff)

lemma conn_of_closeConn: "conn_of (closeConn H i s) j = (if j = i then None else conn_of s j)"
proof -
  have "map_of (del_where (\<lambda>(j, c). j = i) cs) j = (if j = i then None else map_of cs j)" for cs :: "(js_string \<times> conn_entry) list"
    by (induction cs) (auto simp: del_where_def)
  then show ?thesis by (auto simp: conn_of_def closeConn_def Let_def split: option.split)
qed

section \<open>Every event is a run of elementary steps\<close>

lemma failed_open_keeps: "open_sealed C x ss = (ss', Inl e) \<Longrightarrow> ss' = ss"
  by (auto simp: open_sealed_def split: prod.splits sum.splits if_splits option.splits)

lemma failed_seal_keeps: "seal C p ss = (ss', Inl e) \<Longrightarrow> ss' = ss"
  by (auto simp: seal_def Let_def split: if_splits prod.splits)

abbreviation runs :: "server_options \<Rightarrow> bytes \<Rightarrow> 'h consumer \<Rightarrow> 'h ipc_server \<Rightarrow> 'h ipc_server \<Rightarrow> bool" where
  "runs S secret H \<equiv> (elementary S secret H)\<^sup>*\<^sup>*"

lemma runs_socket:
  "runs S secret H s (s\<lparr>ipc_written := w\<rparr>)" "runs S secret H s (s\<lparr>ipc_nonces := n\<rparr>)"
  "runs S secret H s (s\<lparr>ipc_totalBuffered := b\<rparr>)" "runs S secret H s (s\<lparr>ipc_connectTimestamps := ts\<rparr>)"
  using elementary.socket [where s = s and w = w and n = "ipc_nonces s" and b = "ipc_totalBuffered s" and ts = "ipc_connectTimestamps s"]
    elementary.socket [where s = s and w = "ipc_written s" and n = n and b = "ipc_totalBuffered s" and ts = "ipc_connectTimestamps s"]
    elementary.socket [where s = s and w = "ipc_written s" and n = "ipc_nonces s" and b = b and ts = "ipc_connectTimestamps s"]
    elementary.socket [where s = s and w = "ipc_written s" and n = "ipc_nonces s" and b = "ipc_totalBuffered s" and ts = ts]
  by (simp_all add: r_into_rtranclp)

lemmas runs_trans = rtranclp_trans [where r = "elementary S secret H" for S secret H]

lemmas runs_step = r_into_rtranclp [where r = "elementary S secret H" for S secret H]

lemma runs_fold: "(\<And>x s. runs S secret H s (f x s)) \<Longrightarrow> runs S secret H s (fold f xs s)"
  by (induction xs arbitrary: s) (auto intro: runs_trans)

lemma write_frame_runs: "runs S secret H s (write_frame i v s)"
  by (simp add: write_frame_def write_socket_def runs_socket split: sum.split)

lemma send_frame_runs: "runs S secret H s (send_frame S i f s)"
proof (cases "conn_of s i")
  case (Some c)
  show ?thesis
  proof (cases "ce_secure c")
    case sec: (Some ss)
    let ?p = "utf8_encode (json_stringify f)"
    obtain ss' r where e: "seal (so_crypto S) ?p ss = (ss', r)" by fastforce
    have "ss' = ss \<or> ss' = ss\<lparr>sendSeq := sendSeq ss + 1\<rparr>"
      using e failed_seal_keeps [of "so_crypto S" ?p ss ss'] seal_advances [of "so_crypto S" ?p ss ss'] by (cases r) auto
    then have "\<exists>n. ss' = ss\<lparr>sendSeq := n\<rparr>" by (auto intro: exI [of _ "sendSeq ss"])
    then have "runs S secret H s (set_conn i (\<lambda>c. c\<lparr>ce_secure := Some ss'\<rparr>) s)"
      using elementary.sealing [OF Some sec] by (auto intro: runs_step)
    then show ?thesis using Some sec e
      by (auto simp: send_frame_def split: sum.split intro: runs_trans write_frame_runs)
  qed (simp add: send_frame_def Some write_frame_runs)
qed (simp add: send_frame_def)

lemma act_runs: "runs S secret H s (act S H i a s)"
  by (cases a) (simp_all add: send_frame_runs runs_step elementary.closing)

lemma onSealedFrame_runs:
  assumes "conn_of s i = Some c" "ce_secure c = Some ss"
  shows "runs S secret H s (onSealedFrame S H ss i p s)"
proof (cases "sealed_of (so_buffer S) p")
  case None
  then show ?thesis by (simp add: onSealedFrame_def runs_step elementary.closing)
next
  case (Some sealed)
  obtain ss' r where o: "open_sealed (so_crypto S) sealed ss = (ss', r)" by fastforce
  show ?thesis
  proof (cases r)
    case (Inl e)
    with o failed_open_keeps have "ss' = ss\<lparr>sendSeq := sendSeq ss\<rparr>" by fastforce
    with elementary.sealing [OF assms, of S secret H "sendSeq ss"] show ?thesis using Some o Inl
      by (auto simp: onSealedFrame_def intro: runs_trans [OF runs_step runs_step [OF elementary.closing]])
  next
    case (Inr pt)
    have step: "runs S secret H s (opened S H i ss' sealed pt s)"
      using elementary.unsealing [OF assms o [unfolded Inr]] by (rule runs_step)
    show ?thesis
    proof (cases "json_parse (so_number S) (utf8_decode pt)")
      case None
      with Some o Inr have "onSealedFrame S H ss i p s = closeConn H i (opened S H i ss' sealed pt s)"
        by (simp add: onSealedFrame_def opened_def frame_of_def Let_def)
      then show ?thesis using runs_trans [OF step runs_step [OF elementary.closing]] by simp
    next
      case (Some v)
      have "onSealedFrame S H ss i p s =
          (if well_typed v
           then fold (act S H i) (snd (onFrame H i v (ipc_consumer s))) (opened S H i ss' sealed pt s)
           else send_frame S i (errorFrame S ''XBUS_PROTOCOL_VIOLATION'' ''malformed frame'') (opened S H i ss' sealed pt s))"
        using \<open>sealed_of (so_buffer S) p = Some sealed\<close> o Inr Some
        by (simp add: onSealedFrame_def deliverFrame_def opened_def frame_of_def Let_def set_conn_def split: prod.split)
      then show ?thesis using runs_trans [OF step] by (simp add: runs_fold act_runs send_frame_runs)
    qed
  qed
qed

lemma onClientHello_runs:
  assumes "conn_of s i = Some c" "ce_secure c = None"
  shows "runs S secret H s (onClientHello S H secret i b64 s)"
proof (cases "parseClientHello (base64_decode b64)")
  case (Inl e)
  then show ?thesis by (simp add: onClientHello_def assms runs_step elementary.closing)
next
  case (Inr hello)
  let ?s = "s\<lparr>ipc_nonces := Suc (ipc_nonces s)\<rparr>"
  let ?nonce = "so_nonce S (ipc_nonces s)"
  note bump = runs_socket(2) [of S secret H s "Suc (ipc_nonces s)"]
  show ?thesis
  proof (cases "serverHandshake (so_crypto S) secret (so_brokerInstanceId S) hello ?nonce")
    case (Inl e)
    then have "onClientHello S H secret i b64 s = closeConn H i ?s" by (simp add: onClientHello_def assms Inr)
    then show ?thesis using runs_trans [OF bump runs_step [OF elementary.closing]] by simp
  next
    case sv: (Inr sv)
    have c: "conn_of ?s i = Some c" using assms by simp
    note greeted = runs_trans [OF bump runs_step [OF elementary.greeting [OF c assms(2) Inr sv]]]
    show ?thesis unfolding onClientHello_def using assms Inr sv
      by (auto simp: Let_def write_socket_def split: sum.split intro: runs_trans [OF greeted] runs_step elementary.closing runs_socket)
  qed
qed

lemma onClientFinish_runs:
  assumes "conn_of s i = Some c" "ce_secure c = None"
  shows "runs S secret H s (onClientFinish S H i b64 s)"
  unfolding onClientFinish_def using elementary.finishing [OF assms]
  by (auto simp: assms split: option.split intro: runs_step elementary.closing)

lemma dispatch_frame_runs:
  assumes "so_rootSecret S = Some secret"
  shows "runs S secret H s (dispatch_frame S H i p s)"
proof (cases "conn_of s i")
  case (Some c)
  show ?thesis
  proof (cases "ce_secure c")
    case None
    note here = Some None
    have "runs S secret H s (onHandshakeFrame S H secret i p s)"
      unfolding onHandshakeFrame_def
      by (simp add: runs_step elementary.closing onClientHello_runs [OF here] onClientFinish_runs [OF here] del: js_Cons
          split: option.split jval.split)
    with here assms show ?thesis by (simp add: dispatch_frame_def)
  qed (simp add: dispatch_frame_def Some assms onSealedFrame_runs)
qed (simp add: dispatch_frame_def)

lemma serve_runs: "so_rootSecret S = Some secret \<Longrightarrow> runs S secret H s (serve S H i dec r s)"
proof (induction S H i dec r s rule: serve.induct)
  case (1 S H i dec r s)
  let ?s = "fold (dispatch_frame S H i) (frames r) s"
  have drained: "runs S secret H s ?s" by (rule runs_fold) (rule dispatch_frame_runs [OF 1(2)])
  show ?case
  proof (cases "hasMore r")
    case False
    then show ?thesis using drained by (simp add: serve.simps [of S H i dec r s])
  next
    case True
    obtain dec' r' where d: "continueDrain (so_number S) dec = (dec', r')" by fastforce
    note kept = runs_trans [OF drained runs_step [OF elementary.buffering [of _ _ _ _ i dec']]]
    show ?thesis
    proof (cases r')
      case (Inl e)
      show ?thesis using runs_trans [OF kept runs_step [OF elementary.closing]] True d Inl
        by (simp add: serve.simps [of S H i dec r s])
    next
      case (Inr r1)
      show ?thesis using runs_trans [OF kept 1(1) [OF refl _ d [symmetric, unfolded Inr] refl 1(2)]] True d Inr
        by (simp add: serve.simps [of S H i dec r s])
    qed
  qed
qed

lemma onData_runs:
  assumes "so_rootSecret S = Some secret"
  shows "runs S secret H s (onData S H i chunk s)"
proof (cases "conn_of s i")
  case (Some c)
  obtain dec r where p: "push (so_number S) chunk (ce_decoder c) = (dec, r)" by fastforce
  note kept = runs_step [OF elementary.buffering [of S secret H s i dec]]
  show ?thesis
  proof (cases r)
    case (Inl e)
    then show ?thesis using runs_trans [OF kept runs_step [OF elementary.closing]] Some p by (simp add: onData_def)
  next
    case (Inr r1)
    note counted = runs_trans [OF kept runs_socket(3)]
    show ?thesis using runs_trans [OF counted runs_step [OF elementary.closing]] runs_trans [OF counted serve_runs [OF assms]] Some p Inr
      by (simp add: onData_def Let_def)
  qed
qed (simp add: onData_def)

lemma accept_runs:
  assumes "so_rootSecret S = Some secret"
  shows "runs S secret H s (accept S nowMs s)"
proof -
  let ?ts = "filter (\<lambda>t. nowMs - t < 1000) (ipc_connectTimestamps s)"
  have "runs S secret H s (s\<lparr>ipc_connectTimestamps := ?ts @ [nowMs], ipc_seq := ipc_seq s + 1,
      ipc_conns := ipc_conns s @ [(conn_id (ipc_seq s + 1), \<lparr>ce_decoder = new_FrameDecoder None None, ce_secure = None,
        ce_pendingTh = None, ce_pendingKeys = None, ce_connIdForSession = None, ce_handshakeTimer = True\<rparr>)]\<rparr>)"
    if "length (ipc_conns s) < so_maxConnections S"
    using runs_trans [OF runs_socket(4) [of S secret H s "?ts @ [nowMs]"] runs_step [OF elementary.admitting]] that by simp
  then show ?thesis using runs_socket(4) [of S secret H s ?ts] assms
    by (simp add: accept_def conn_id_def Let_def del: js_Cons)
qed

theorem socket_step_runs:
  assumes "so_rootSecret S = Some secret"
  shows "runs S secret H s (socket_step S H ev s)"
proof -
  have all: "runs S secret H s (close_all H s)" for s unfolding close_all_def by (rule runs_fold) (rule runs_step [OF elementary.closing])
  show ?thesis using assms all
    by (cases ev) (auto simp: onHandshakeTimeout_def accept_runs onData_runs intro: runs_step elementary.closing split: option.split)
qed

fun run_server :: "server_options \<Rightarrow> 'h consumer \<Rightarrow> socket_event list \<Rightarrow> 'h ipc_server \<Rightarrow> 'h ipc_server" where
  "run_server S H [] s = s"
| "run_server S H (ev # evs) s = run_server S H evs (socket_step S H ev s)"

lemma run_server_runs: "so_rootSecret S = Some secret \<Longrightarrow> runs S secret H s (run_server S H evs s)"
  by (induction evs arbitrary: s) (auto intro: runs_trans socket_step_runs)

section \<open>The invariant\<close>

text \<open>What has been opened, read and handed on for one connection.\<close>

definition sealed_on :: "'h ipc_server \<Rightarrow> js_string \<Rightarrow> bytes list" where
  "sealed_on s i = map (\<lambda>(j, x, p). x) (filter (\<lambda>(j, x, p). j = i) (ipc_opened s))"

definition plain_on :: "'h ipc_server \<Rightarrow> js_string \<Rightarrow> bytes list" where
  "plain_on s i = map (\<lambda>(j, x, p). p) (filter (\<lambda>(j, x, p). j = i) (ipc_opened s))"

definition delivered_on :: "'h ipc_server \<Rightarrow> js_string \<Rightarrow> jval list" where
  "delivered_on s i = map snd (filter (\<lambda>(j, f). j = i) (ipc_delivered s))"

definition opened_by :: "server_options \<Rightarrow> bytes \<Rightarrow> 'h ipc_server \<Rightarrow> js_string \<Rightarrow> derived_keys \<Rightarrow> bytes \<Rightarrow> bool" where
  "opened_by S secret s i ks cid \<longleftrightarrow> handshaken S secret ks cid \<and>
     open_all (so_crypto S) (sealed_on s i) (new_SecureSession ks cid Server_Role) = Some (plain_on s i)"

definition entry_ok :: "server_options \<Rightarrow> bytes \<Rightarrow> 'h ipc_server \<Rightarrow> js_string \<Rightarrow> conn_entry \<Rightarrow> bool" where
  "entry_ok S secret s i c \<longleftrightarrow>
     (case ce_secure c of
        None \<Rightarrow> sealed_on s i = [] \<and> ce_handshakeTimer c \<and> pending_ok S secret c
      | Some ss \<Rightarrow> \<exists>ks cid n. opened_by S secret s i ks cid \<and>
          ss = (new_SecureSession ks cid Server_Role)\<lparr>recvSeq := length (sealed_on s i), sendSeq := n\<rparr>)"

definition server_ok :: "server_options \<Rightarrow> bytes \<Rightarrow> 'h ipc_server \<Rightarrow> bool" where
  "server_ok S secret s \<longleftrightarrow>
     (\<forall>i. delivered_on s i = List.map_filter (frame_of S) (plain_on s i)) \<and>
     (\<forall>i. sealed_on s i \<noteq> [] \<longrightarrow> (\<exists>ks cid. opened_by S secret s i ks cid)) \<and>
     (\<forall>i. sealed_on s i \<noteq> [] \<or> conn_of s i \<noteq> None \<longrightarrow> (\<exists>n\<le>ipc_seq s. i = conn_id n)) \<and>
     (\<forall>i c. conn_of s i = Some c \<longrightarrow> entry_ok S secret s i c) \<and>
     length (ipc_conns s) \<le> so_maxConnections S"

lemma server_okD:
  assumes "server_ok S secret s"
  shows "delivered_on s i = List.map_filter (frame_of S) (plain_on s i)"
    "sealed_on s i \<noteq> [] \<Longrightarrow> \<exists>ks cid. opened_by S secret s i ks cid"
    "sealed_on s i \<noteq> [] \<or> conn_of s i \<noteq> None \<Longrightarrow> \<exists>n\<le>ipc_seq s. i = conn_id n"
    "conn_of s i = Some c \<Longrightarrow> entry_ok S secret s i c"
    "length (ipc_conns s) \<le> so_maxConnections S"
  using assms unfolding server_ok_def by blast+

lemma entry_secure:
  assumes "entry_ok S secret s i c" "ce_secure c = Some ss"
  obtains ks cid n where "opened_by S secret s i ks cid"
    "ss = (new_SecureSession ks cid Server_Role)\<lparr>recvSeq := length (sealed_on s i), sendSeq := n\<rparr>"
  using assms unfolding entry_ok_def by (simp only: option.case) blast

lemma entry_secureI:
  "ce_secure c = Some ss \<Longrightarrow> opened_by S secret s i ks cid \<Longrightarrow>
   ss = (new_SecureSession ks cid Server_Role)\<lparr>recvSeq := length (sealed_on s i), sendSeq := n\<rparr> \<Longrightarrow> entry_ok S secret s i c"
  unfolding entry_ok_def by (simp only: option.case) blast

lemma server_ok_new: "server_ok S secret (new_IpcServer h)"
  by (simp add: server_ok_def new_IpcServer_def conn_of_def sealed_on_def plain_on_def delivered_on_def map_filter_simps)

text \<open>A step that opens nothing only has to keep the entries in order.\<close>

definition same_logs :: "'h ipc_server \<Rightarrow> 'h ipc_server \<Rightarrow> bool" where
  "same_logs s t \<longleftrightarrow> ipc_opened t = ipc_opened s \<and> ipc_delivered t = ipc_delivered s"

lemma same_logs_on:
  assumes "same_logs s t"
  shows "sealed_on t = sealed_on s" "plain_on t = plain_on s" "delivered_on t = delivered_on s"
    "opened_by S secret t = opened_by S secret s" "entry_ok S secret t = entry_ok S secret s"
proof -
  show on: "sealed_on t = sealed_on s" "plain_on t = plain_on s" "delivered_on t = delivered_on s"
    using assms by (simp_all add: same_logs_def sealed_on_def plain_on_def delivered_on_def fun_eq_iff)
  show same: "opened_by S secret t = opened_by S secret s" by (intro ext) (simp add: opened_by_def on)
  show "entry_ok S secret t = entry_ok S secret s" by (intro ext) (simp only: entry_ok_def on same)
qed

lemma server_ok_entries:
  assumes "server_ok S secret s" "same_logs s t" "ipc_seq s \<le> ipc_seq t" "length (ipc_conns t) \<le> so_maxConnections S"
    and "\<And>i c. conn_of t i = Some c \<Longrightarrow> (conn_of s i \<noteq> None \<or> i = conn_id (ipc_seq t)) \<and> entry_ok S secret s i c"
  shows "server_ok S secret t"
  unfolding server_ok_def same_logs_on [OF assms(2)]
proof (intro conjI allI impI)
  fix i assume "sealed_on s i \<noteq> [] \<or> conn_of t i \<noteq> None"
  with assms(5) [of i] have "sealed_on s i \<noteq> [] \<or> conn_of s i \<noteq> None \<or> i = conn_id (ipc_seq t)" by auto
  with server_okD(3) [OF assms(1), of i] show "\<exists>n\<le>ipc_seq t. i = conn_id n" using assms(3) le_trans by blast
qed (use assms in \<open>simp_all add: server_ok_def\<close>)

lemma same_logs_steps:
  "same_logs s (set_conn i f s)" "same_logs s (closeConn H i s)"
  by (simp_all add: same_logs_def set_conn_def closeConn_def Let_def split: option.split)

lemma server_ok_set_conn:
  assumes "server_ok S secret s" "\<And>c. conn_of s i = Some c \<Longrightarrow> entry_ok S secret s i c \<Longrightarrow> entry_ok S secret s i (f c)"
  shows "server_ok S secret (set_conn i f s)"
proof (rule server_ok_entries [OF assms(1) same_logs_steps(1)])
  show "(conn_of s j \<noteq> None \<or> j = conn_id (ipc_seq (set_conn i f s))) \<and> entry_ok S secret s j c"
    if "conn_of (set_conn i f s) j = Some c" for j c
    using that assms by (auto simp: conn_of_set_conn server_ok_def split: if_splits)
qed (use assms(1) in \<open>simp_all add: set_conn_def server_ok_def\<close>)

lemma server_ok_closeConn: "server_ok S secret s \<Longrightarrow> server_ok S secret (closeConn H i s)"
proof (rule server_ok_entries [OF _ same_logs_steps(2)])
  assume ok: "server_ok S secret s"
  show "(conn_of s j \<noteq> None \<or> j = conn_id (ipc_seq (closeConn H i s))) \<and> entry_ok S secret s j c"
    if "conn_of (closeConn H i s) j = Some c" for j c
    using that ok by (auto simp: conn_of_closeConn server_ok_def split: if_splits)
  have "length (ipc_conns (closeConn H i s)) \<le> length (ipc_conns s)"
    by (simp add: closeConn_def Let_def del_where_def split: option.split)
  then show "length (ipc_conns (closeConn H i s)) \<le> so_maxConnections S" using ok by (simp add: server_ok_def)
qed (simp_all add: closeConn_def Let_def split: option.split)

text \<open>Opening one more buffer.\<close>

lemma open_all_snoc:
  "open_all C xs r = Some ps \<Longrightarrow> open_sealed C x (r\<lparr>recvSeq := recvSeq r + length xs\<rparr>) = (r', Inr p) \<Longrightarrow>
   open_all C (xs @ [x]) r = Some (ps @ [p])"
proof (induction xs arbitrary: r ps)
  case (Cons y ys)
  from Cons.prems(1) obtain r1 q qs where o: "open_sealed C y r = (r1, Inr q)" "open_all C ys r1 = Some qs" "ps = q # qs"
    by (auto split: prod.splits sum.splits)
  note r1 = open_advances [OF o(1)]
  have "open_all C (ys @ [x]) r1 = Some (qs @ [p])"
    using Cons.IH [OF o(2)] Cons.prems(2) by (simp add: r1)
  with o show ?case by simp
qed simp

lemma open_ignores_sendSeq:
  "open_sealed C x (r\<lparr>recvSeq := k, sendSeq := n\<rparr>) = (r', Inr p) \<Longrightarrow>
   r' = r\<lparr>recvSeq := Suc k, sendSeq := n\<rparr> \<and> open_sealed C x (r\<lparr>recvSeq := k\<rparr>) = (r\<lparr>recvSeq := Suc k\<rparr>, Inr p)"
  by (simp add: open_eq aad_def)

lemma opened_logs:
  "sealed_on (opened S H i ss x p s) j = sealed_on s j @ (if j = i then [x] else [])"
  "plain_on (opened S H i ss x p s) j = plain_on s j @ (if j = i then [p] else [])"
  "delivered_on (opened S H i ss x p s) j = delivered_on s j @ (if j = i then case frame_of S p of None \<Rightarrow> [] | Some f \<Rightarrow> [f] else [])"
  "conn_of (opened S H i ss x p s) j = conn_of (set_conn i (\<lambda>c. c\<lparr>ce_secure := Some ss\<rparr>) s) j"
  "ipc_seq (opened S H i ss x p s) = ipc_seq s" "length (ipc_conns (opened S H i ss x p s)) = length (ipc_conns s)"
  by (simp_all add: opened_def sealed_on_def plain_on_def delivered_on_def set_conn_def Let_def conn_of_def split: option.split)

lemma server_ok_opened:
  assumes ok: "server_ok S secret s" and at: "conn_of s i = Some c" "ce_secure c = Some ss"
    and o: "open_sealed (so_crypto S) x ss = (ss', Inr p)"
  shows "server_ok S secret (opened S H i ss' x p s)"
proof -
  let ?t = "opened S H i ss' x p s"
  obtain ks cid n where k: "opened_by S secret s i ks cid"
    "ss = (new_SecureSession ks cid Server_Role)\<lparr>recvSeq := length (sealed_on s i), sendSeq := n\<rparr>"
    by (rule entry_secure [OF server_okD(4) [OF ok at(1)] at(2)])
  note o' = open_ignores_sendSeq [OF o [unfolded k(2)]]
  have by_i: "opened_by S secret ?t i ks cid"
    using k(1) o' open_all_snoc [of "so_crypto S" "sealed_on s i" "new_SecureSession ks cid Server_Role" "plain_on s i" x _ p]
    by (simp add: opened_by_def opened_logs new_SecureSession_def)
  have by_j: "opened_by S secret ?t j = opened_by S secret s j" if "j \<noteq> i" for j
    using that by (intro ext) (simp add: opened_by_def opened_logs)
  have entry: "entry_ok S secret ?t j e" if e: "conn_of ?t j = Some e" for j e
  proof (cases "j = i")
    case True
    with e at have "ce_secure e = Some ss'" by (auto simp: opened_logs conn_of_set_conn)
    then show ?thesis unfolding True by (rule entry_secureI [OF _ by_i, of _ _ n]) (use o' in \<open>simp add: opened_logs\<close>)
  next
    case False
    with e ok have "entry_ok S secret s j e" by (simp add: opened_logs conn_of_set_conn server_ok_def)
    with False show ?thesis by (simp add: entry_ok_def by_j opened_logs split: option.splits)
  qed
  have delivered: "delivered_on ?t j = List.map_filter (frame_of S) (plain_on ?t j)" for j
    using ok by (simp add: server_ok_def opened_logs List.map_filter_def split: option.split)
  have sealed: "\<exists>ks cid. opened_by S secret ?t j ks cid" if "sealed_on ?t j \<noteq> []" for j
    using that by_i by_j [of j] ok by (cases "j = i") (auto simp: opened_logs server_ok_def)
  have ids: "\<exists>n\<le>ipc_seq ?t. j = conn_id n" if "sealed_on ?t j \<noteq> [] \<or> conn_of ?t j \<noteq> None" for j
    using that ok at by (cases "j = i") (auto simp: opened_logs conn_of_set_conn server_ok_def)
  show ?thesis unfolding server_ok_def using delivered sealed ids entry ok by (auto simp: opened_logs(6) server_ok_def)
qed

lemma fresh_conn_id:
  assumes "server_ok S secret s"
  shows "conn_of s (conn_id (Suc (ipc_seq s))) = None" "sealed_on s (conn_id (Suc (ipc_seq s))) = []"
proof -
  have "\<not> (\<exists>n\<le>ipc_seq s. conn_id (Suc (ipc_seq s)) = conn_id n)" using conn_id_inj by fastforce
  then show "conn_of s (conn_id (Suc (ipc_seq s))) = None" "sealed_on s (conn_id (Suc (ipc_seq s))) = []"
    using server_okD(3) [OF assms] by blast+
qed

lemma server_ok_admitted:
  assumes ok: "server_ok S secret s" and room: "length (ipc_conns s) < so_maxConnections S"
    and e: "ce_secure e = None" "ce_pendingTh e = None" "ce_handshakeTimer e"
  shows "server_ok S secret (s\<lparr>ipc_seq := Suc (ipc_seq s), ipc_conns := ipc_conns s @ [(conn_id (Suc (ipc_seq s)), e)]\<rparr>)"
proof (rule server_ok_entries [OF ok])
  let ?t = "s\<lparr>ipc_seq := Suc (ipc_seq s), ipc_conns := ipc_conns s @ [(conn_id (Suc (ipc_seq s)), e)]\<rparr>"
  have "entry_ok S secret s (conn_id (Suc (ipc_seq s))) e" using fresh_conn_id [OF ok] e by (simp add: entry_ok_def pending_ok_def)
  then show "(conn_of s i \<noteq> None \<or> i = conn_id (ipc_seq ?t)) \<and> entry_ok S secret s i c" if "conn_of ?t i = Some c" for i c
    using that server_okD(4) [OF ok, of i] by (auto simp: conn_of_def map_add_def split: option.splits if_splits)
qed (use room in \<open>simp_all add: same_logs_def\<close>)

theorem elementary_ok: "elementary S secret H s t \<Longrightarrow> server_ok S secret s \<Longrightarrow> server_ok S secret t"
proof (induction rule: elementary.induct)
  case (closing s i)
  then show ?case by (simp add: server_ok_closeConn)
next
  case (socket s w n b ts)
  then show ?case by (auto intro!: server_ok_entries [of S secret s] simp: same_logs_def server_okD)
next
  case (buffering s i d)
  then show ?case by (auto intro!: server_ok_set_conn simp: entry_ok_def pending_ok_def split: option.splits)
next
  case (greeting s i c msg hello nonce sv)
  let ?f = "\<lambda>c. c\<lparr>ce_pendingTh := Some (sv_th sv), ce_pendingKeys := Some (sv_keys sv), ce_connIdForSession := Some (ch_connId hello)\<rparr>"
  have "pending_ok S secret (?f c)" using greeting(3,4) unfolding pending_ok_def by fastforce
  with greeting show ?case by (auto intro!: server_ok_set_conn simp: entry_ok_def)
next
  case (finishing s i c th ks cid pf)
  have "handshaken S secret ks cid" "sealed_on s i = []" if "entry_ok S secret s i c"
    using that pending_finished [OF _ finishing(3-6)] finishing(2) by (simp_all add: entry_ok_def)
  then have "entry_ok S secret s i (c\<lparr>ce_secure := Some (new_SecureSession ks cid Server_Role), ce_pendingTh := None,
      ce_pendingKeys := None, ce_handshakeTimer := False\<rparr>)" if "entry_ok S secret s i c"
    using that by (intro entry_secureI [of _ _ _ _ _ _ ks cid 0])
      (simp_all add: opened_by_def plain_on_def sealed_on_def new_SecureSession_def)
  with finishing show ?case by (auto intro!: server_ok_set_conn)
next
  case (sealing s i c ss n)
  have "entry_ok S secret s i (c\<lparr>ce_secure := Some (ss\<lparr>sendSeq := n\<rparr>)\<rparr>)" if ok: "entry_ok S secret s i c"
    by (rule entry_secure [OF ok sealing(2)], rule entry_secureI [where n = n]) simp_all
  with sealing show ?case by (auto intro!: server_ok_set_conn)
next
  case (unsealing s i c ss sealed ss' pt)
  then show ?case by (simp add: server_ok_opened)
next
  case (admitting s d)
  then show ?case by (simp add: server_ok_admitted)
qed

interpretation ipc: step_system "\<lambda>s. \<exists>h. s = new_IpcServer h" "elementary S secret H" "server_ok S secret"
  for S secret and H :: "'h consumer"
  by unfold_locales (auto intro: server_ok_new elementary_ok)

lemma run_server_ok: "so_rootSecret S = Some secret \<Longrightarrow> server_ok S secret (run_server S H evs (new_IpcServer h))"
  by (rule ipc.reachable_good [OF _ run_server_runs]) auto

section \<open>What a consumer behind the gate may rely on\<close>

definition secure_ids :: "'h ipc_server \<Rightarrow> js_string set" where
  "secure_ids s = {i. \<exists>c ss. conn_of s i = Some c \<and> ce_secure c = Some ss}"

lemma secure_ids_socket:
  "secure_ids (s\<lparr>ipc_written := w, ipc_nonces := n, ipc_totalBuffered := b, ipc_connectTimestamps := ts\<rparr>) = secure_ids s"
  by (simp add: secure_ids_def)

text \<open>
  A consumer whose state rests on a set of connections: a frame of one of them keeps it on that set, a closed connection
  leaves the set, and more connections do no harm. Behind the gate that set is the set of authenticated connections.
\<close>

locale gated_consumer =
  fixes H :: "'h consumer" and rests_on :: "js_string set \<Rightarrow> 'h \<Rightarrow> bool"
  assumes frame: "i \<in> A \<Longrightarrow> rests_on A h \<Longrightarrow> rests_on A (fst (onFrame H i f h))"
    and close: "rests_on A h \<Longrightarrow> rests_on (A - {i}) (onCloseConn H i h)"
    and more: "rests_on A h \<Longrightarrow> A \<subseteq> B \<Longrightarrow> rests_on B h"
begin

lemma set_conn_rests:
  assumes "rests_on (secure_ids s) h" "\<And>c. ce_secure c \<noteq> None \<Longrightarrow> ce_secure (f c) \<noteq> None"
  shows "rests_on (secure_ids (set_conn i f s)) h"
  by (rule more [OF assms(1)]) (use assms(2) in \<open>auto simp: secure_ids_def conn_of_set_conn\<close>)

lemma elementary_rests:
  "elementary S secret H s t \<Longrightarrow> rests_on (secure_ids s) (ipc_consumer s) \<Longrightarrow> rests_on (secure_ids t) (ipc_consumer t)"
proof (induction rule: elementary.induct)
  case (closing s i)
  have "secure_ids (closeConn H i s) = secure_ids s - {i}" by (auto simp: secure_ids_def conn_of_closeConn)
  moreover have "secure_ids s - {i} = secure_ids s" if "conn_of s i = None" using that by (auto simp: secure_ids_def)
  ultimately show ?case using close [OF closing, of i] closing by (auto simp: closeConn_def Let_def split: option.split)
next
  case (unsealing s i c ss sealed ss' pt)
  have ids: "secure_ids (opened S H i ss' sealed pt s) = secure_ids s"
    using unsealing by (auto simp: secure_ids_def opened_logs conn_of_set_conn split: if_splits)
  have "i \<in> secure_ids s" using unsealing by (auto simp: secure_ids_def)
  then show ?case unfolding ids using frame [of i "secure_ids s"] unsealing(4)
    by (simp add: opened_def set_conn_def Let_def split: option.split)
next
  case (admitting s d)
  have "secure_ids s \<subseteq> secure_ids (s\<lparr>ipc_seq := ipc_seq s + 1, ipc_conns := ipc_conns s @ [(conn_id (ipc_seq s + 1),
      \<lparr>ce_decoder = d, ce_secure = None, ce_pendingTh = None, ce_pendingKeys = None, ce_connIdForSession = None,
       ce_handshakeTimer = True\<rparr>)]\<rparr>)"
    by (auto simp: secure_ids_def conn_of_def map_add_def)
  from more [OF admitting(2) this] show ?case by simp
qed (simp_all add: set_conn_rests secure_ids_socket)

lemma run_rests:
  assumes "so_rootSecret S = Some secret" "rests_on {} h"
  shows "rests_on (secure_ids (run_server S H evs (new_IpcServer h))) (ipc_consumer (run_server S H evs (new_IpcServer h)))"
proof -
  have "runs S secret H s t \<Longrightarrow> rests_on (secure_ids s) (ipc_consumer s) \<Longrightarrow> rests_on (secure_ids t) (ipc_consumer t)" for s t
    by (induction rule: rtranclp_induct) (auto intro: elementary_rests)
  from this [OF run_server_runs [OF assms(1)]] more [OF assms(2)] show ?thesis by (simp add: new_IpcServer_def)
qed

end

section \<open>The daemon behind the server\<close>

text \<open>
  The daemon constructs the server with \<open>handle\<close> and \<open>onConnClose\<close>. Each call sees its own environment, the next of \<open>E\<close>; how an
  answer is laid out as a frame is left open.
\<close>

definition daemon_consumer :: "daemon_setup \<Rightarrow> (nat \<Rightarrow> env) \<Rightarrow> (jval \<Rightarrow> answer \<Rightarrow> jval) \<Rightarrow> (nat \<times> daemon) consumer" where
  "daemon_consumer DS E render =
     \<lparr>onFrame = (\<lambda>conn frame (n, m).
        let ft = (case string_prop (get_prop frame ''frameType'') of None \<Rightarrow> [] | Some t \<Rightarrow> t);
            r = handle DS (E n) conn ft (get_prop frame ''payload'') m
        in ((n + 1, fst r), [Act_Send (render frame (snd r))])),
      onCloseConn = (\<lambda>conn (n, m). (n + 1, daemon_onConnClose (E n) conn m))\<rparr>"

interpretation hellos: db_insensitive "\<lambda>m m'. set (connHello m') \<subseteq> insert conn (set (connHello m))" for conn
  by unfold_locales auto

lemma handle_hellos: "set (connHello (fst (handle DS E conn ft payload m))) \<subseteq> insert conn (set (connHello m))"
proof (rule hellos.frames)
  show "set (connHello (fst (onHello DS E conn p m))) \<subseteq> insert conn (set (connHello m))" for p
    unfolding onHello_def Let_def by (auto simp: upd_db_def split: sum.splits)
  show "set (connHello (fst (onShutdown DS E conn (payload_or_empty payload) m))) \<subseteq> insert conn (set (connHello m))"
    by (auto simp: onShutdown_def with_auth_def upd_db_def split: sum.splits option.splits)
  show "set (connHello (fst (onRegister E conn p m))) \<subseteq> insert conn (set (connHello m))" for p
    unfolding onRegister_def Let_def on_db_def andThen_def case_prod_beta
    by (auto simp: upd_db_def split: sum.splits option.splits prod.splits if_splits)
qed

interpretation gated_daemon: gated_consumer "daemon_consumer DS E render" "\<lambda>A (n, m). set (connHello m) \<subseteq> A \<and> conns_ok m" for DS E render
proof unfold_locales
  fix i f and A :: "js_string set" and h :: "nat \<times> daemon"
  assume "i \<in> A" "case h of (n, m) \<Rightarrow> set (connHello m) \<subseteq> A \<and> conns_ok m"
  then show "case fst (onFrame (daemon_consumer DS E render) i f h) of (n, m) \<Rightarrow> set (connHello m) \<subseteq> A \<and> conns_ok m"
    using handle_hellos [of DS _ i] handle_conns [of _ DS _ i] by (cases h) (fastforce simp: daemon_consumer_def Let_def)
next
  fix i and A :: "js_string set" and h :: "nat \<times> daemon"
  assume "case h of (n, m) \<Rightarrow> set (connHello m) \<subseteq> A \<and> conns_ok m"
  then show "case onCloseConn (daemon_consumer DS E render) i h of (n, m) \<Rightarrow> set (connHello m) \<subseteq> A - {i} \<and> conns_ok m"
    using daemon_onConnClose_conns by (cases h) (auto simp: daemon_consumer_def daemon_onConnClose_def)
qed auto

section \<open>Theorems\<close>



text \<open>The server's admission limits hold in every run. There are never more open connections than configured; a
  connection whose peer has not completed the handshake always has its timer armed, and when the timer fires the connection
  is gone, whatever has trickled in meanwhile, while an authenticated connection is left alone.\<close>

theorem admission_bounded:
  assumes "so_rootSecret S = Some secret" and s: "s = run_server S H evs (new_IpcServer h)"
  shows "length (ipc_conns s) \<le> so_maxConnections S"
    and "conn_of s i = Some c \<Longrightarrow> conn_of (socket_step S H (Handshake_Timeout i) s) i = (if ce_secure c = None then None else Some c)"
proof -
  have ok: "server_ok S secret s" unfolding s by (rule run_server_ok [OF assms(1)])
  show "length (ipc_conns s) \<le> so_maxConnections S" by (rule server_okD(5) [OF ok])
  assume c: "conn_of s i = Some c"
  with server_okD(4) [OF ok c] show "conn_of (socket_step S H (Handshake_Timeout i) s) i = (if ce_secure c = None then None else Some c)"
    by (auto simp: entry_ok_def onHandshakeTimeout_def conn_of_closeConn split: option.splits)
qed

end
