(* ===== verification/Ipc_Served.thy ===== *)
theory Ipc_Served
  imports Ipc_Client Ipc_Correct
begin

text \<open>
  The client of \<^verbatim>\<open>src/ipc/client.ts\<close> against the server of \<^verbatim>\<open>src/ipc/server.ts\<close>: with the same secret they complete the
  handshake, and from then on a request is answered as if the consumer had been called directly.
\<close>

section \<open>Sizes on the wire\<close>

lemma json_chars_plain: "list_all plain_char s \<Longrightarrow> json_chars s = s"
  by (induction s) (auto simp: plain_char_def high_surrogate_def low_surrogate_def)

lemma length_utf8_ascii: "list_all (\<lambda>c. c < 128) s \<Longrightarrow> length (utf8_encode s) = length s"
  by (induction s) auto

lemma plain_string:
  "list_all plain_char s \<Longrightarrow> json_string s = 34 # s @ [34]" "list_all plain_char s \<Longrightarrow> list_all (\<lambda>c. c < 128) s"
  "list_all plain_char s \<Longrightarrow> code_units s"
  by (simp add: json_string_def json_chars_plain) (auto simp: plain_char_def code_units_def list_all_iff)

definition sealed_message :: "bytes \<Rightarrow> jval" where
  "sealed_message x = JObj [(js ''d'', JStr (base64_encode x))]"

lemma fits_sealed_message: "fits FRAME_BYTES (sealed_message x) \<longleftrightarrow> length x \<le> 786426"
proof -
  note p = plain_string [OF plain_base64 [of x]]
  have "json_stringify (sealed_message x) = [123, 34, 100, 34, 58, 34] @ base64_encode x @ [34, 125]"
    by (simp add: sealed_message_def stringify_object field_text_def p plain_string plain_char_def)
  then have "length (frame_text (sealed_message x)) = 8 + 4 * ((length x + 2) div 3)"
    using p(2) by (simp add: frame_text_def length_utf8_ascii length_base64_encode)
  moreover have "json_value (sealed_message x)" using p(3) by (simp add: sealed_message_def code_units_def)
  ultimately show ?thesis by (auto simp: fits_def FRAME_BYTES_def)
qed

lemma encode_sealed:
  "length x \<le> 786426 \<Longrightarrow> encodeFrame (JObj [(js ''d'', JStr (base64_encode x))]) FRAME_BYTES = Inr (frame_bytes (sealed_message x))"
  using encodeFrame_fits [of FRAME_BYTES "sealed_message x"] by (simp add: fits_sealed_message) (simp add: sealed_message_def)

lemma fits_hello_message:
  assumes "list_all plain_char (js h)" "length (js h) = 2" "length x \<le> 786000"
  shows "fits FRAME_BYTES (hello_message h x)"
proof -
  note p = plain_string [OF plain_base64 [of x]] and q = plain_string [OF assms(1)]
  have "json_stringify (hello_message h x) = [123, 34, 104, 34, 58, 34] @ js h @ [34, 44, 34, 100, 34, 58, 34] @ base64_encode x @ [34, 125]"
    by (simp add: hello_message_def stringify_object field_text_def p q plain_string plain_char_def)
  then have "length (frame_text (hello_message h x)) = 17 + 4 * ((length x + 2) div 3)"
    using p(2) q(2) assms(2) by (simp add: frame_text_def length_utf8_ascii length_base64_encode)
  moreover have "json_value (hello_message h x)" using p(3) q(3) by (simp add: hello_message_def code_units_def)
  ultimately show ?thesis using assms(3) by (auto simp: fits_def FRAME_BYTES_def)
qed

text \<open>A value that can travel sealed.\<close>

definition sendable :: "jval \<Rightarrow> bool" where
  "sendable v \<longleftrightarrow> json_value v \<and> length (frame_text v) \<le> 786394"

section \<open>One frame through a decoder\<close>

definition idle :: "frame_decoder \<Rightarrow> bool" where
  "idle f \<longleftrightarrow> buf f = [] \<and> maxFrameBytes f = FRAME_BYTES \<and> drainCap f = 32"

lemma idle_new: "idle (new_FrameDecoder None None)"
  by (simp add: idle_def new_FrameDecoder_def)

lemma push_one:
  assumes "idle f" "fits FRAME_BYTES v"
  shows "push fl (frame_bytes v) f = (f, Inr \<lparr>frames = [v], hasMore = False\<rparr>)"
proof -
  have "take_frame fl FRAME_BYTES (frame_bytes v) = Take v []"
    using take_frame_bytes [OF assms(2), of fl "[]"] by (simp add: FRAME_BYTES_def)
  moreover have "take_frame fl FRAME_BYTES [] = Wait" by (simp add: take_frame_def)
  ultimately show ?thesis using assms(1)
    by (simp add: idle_def push_append drain_def drain_loop.simps [of fl "[]"] drain_loop.simps [of fl "[v]"])
qed

section \<open>One sealed buffer from end to end\<close>

lemma seal_open:
  assumes "crypto_ok C" "in_step s r" "length p \<le> MAX_PLAINTEXT" "sendSeq s < MAX_SEQ"
  obtains x where "seal C p s = (s\<lparr>sendSeq := sendSeq s + 1\<rparr>, Inr x)" "open_sealed C x r = (r\<lparr>recvSeq := recvSeq r + 1\<rparr>, Inr p)"
    "length x = length p + 32"
proof -
  let ?iv = "session_iv (encIvBase s) (sendSeq s)"
  obtain ct tag where e: "cr_encrypt C (encKey s) ?iv (aad s (sendDir s) (sendSeq s) (length p)) p = (ct, tag)" by fastforce
  note l = crypto_encrypt_lengths [OF assms(1) e]
  let ?x = "sealed_bytes (sendSeq s) ?iv tag ct"
  have "seal C p s = (s\<lparr>sendSeq := sendSeq s + 1\<rparr>, Inr ?x)" using e assms(3,4) by (auto simp: seal_eq)
  moreover from this have "open_sealed C ?x r = (r\<lparr>recvSeq := recvSeq r + 1\<rparr>, Inr p)" by (simp only: opened_iff_sealed [OF assms])
  moreover have "length ?x = length p + 32" using l by (simp add: sealed_bytes_def u32_bytes_def stp_constants)
  ultimately show thesis by (rule that)
qed

lemma parse_frame_text: "json_value v \<Longrightarrow> json_parse fl (utf8_decode (frame_text v)) = Some v"
  by (simp add: frame_text_def utf16_ok_stringify)

lemma sealed_of_message [simp]: "sealed_of b (sealed_message x) = Some x" "sealed_of b (hello_message h x) = Some x"
  by (simp_all add: sealed_of_def sealed_message_def hello_message_def)

section \<open>The server's half\<close>

definition ready :: "server_options \<Rightarrow> js_string \<Rightarrow> conn_entry \<Rightarrow> 'h ipc_server \<Rightarrow> bool" where
  "ready S i c s \<longleftrightarrow> conn_of s i = Some c \<and> idle (ce_decoder c) \<and> ipc_totalBuffered s \<le> so_globalBudget S"

text \<open>What stays when nothing reaches the consumer.\<close>

definition undisturbed :: "'h ipc_server \<Rightarrow> 'h ipc_server \<Rightarrow> bool" where
  "undisturbed s t \<longleftrightarrow> same_logs s t \<and> ipc_consumer t = ipc_consumer s"

lemma ready_set_conn: "ready S i c s \<Longrightarrow> idle (ce_decoder (f c)) \<Longrightarrow> ready S i (f c) (set_conn i f s)"
  by (simp add: ready_def conn_of_set_conn) (simp add: set_conn_def)

lemma undisturbed_set_conn: "undisturbed s (set_conn i f s)"
  by (simp add: undisturbed_def same_logs_steps)

lemma onData_one:
  assumes "ready S i c s" "fits FRAME_BYTES v"
  shows "\<exists>t. onData S H i (frame_bytes v) s = dispatch_frame S H i v t \<and> ready S i c t \<and> undisturbed s t
    \<and> ipc_written t = ipc_written s \<and> ipc_nonces t = ipc_nonces s"
proof (intro exI conjI)
  let ?f = "\<lambda>e. e\<lparr>ce_decoder := ce_decoder c\<rparr>"
  let ?t = "set_conn i ?f s"
  have r: "conn_of s i = Some c" "idle (ce_decoder c)" "\<not> so_globalBudget S < ipc_totalBuffered s" using assms(1) by (simp_all add: ready_def)
  have "?t\<lparr>ipc_totalBuffered := ipc_totalBuffered s\<rparr> = ?t" by (simp add: set_conn_def)
  then show "onData S H i (frame_bytes v) s = dispatch_frame S H i v ?t"
    using r push_one [OF r(2) assms(2), of "so_number S"] by (simp add: onData_def serve.simps Let_def set_conn_def)
  show "ready S i c ?t" using ready_set_conn [OF assms(1), of ?f] r(2) by simp
  show "undisturbed s ?t" by (rule undisturbed_set_conn)
qed (simp_all add: set_conn_def)

lemma server_hello_step:
  assumes r: "ready S i c s" "ce_secure c = None" "so_rootSecret S = Some secret"
    and h: "parseClientHello msg = Inr hello" "length msg \<le> 786000"
    and sv: "serverHandshake (so_crypto S) secret (so_brokerInstanceId S) hello (so_nonce S (ipc_nonces s)) = Inr sv"
      "length (sv_serverHelloBytes sv) \<le> 786000"
  defines "c' \<equiv> c\<lparr>ce_pendingTh := Some (sv_th sv), ce_pendingKeys := Some (sv_keys sv), ce_connIdForSession := Some (ch_connId hello)\<rparr>"
  shows "\<exists>t. onData S H i (frame_bytes (hello_message ''ch'' msg)) s = t \<and> ready S i c' t \<and> undisturbed s t
    \<and> ipc_written t = ipc_written s @ [(i, frame_bytes (hello_message ''sh'' (sv_serverHelloBytes sv)))]"
proof -
  have fit: "fits FRAME_BYTES (hello_message ''ch'' msg)" "fits FRAME_BYTES (hello_message ''sh'' (sv_serverHelloBytes sv))"
    using h sv by (simp_all add: fits_hello_message plain_char_def)
  obtain t where t: "onData S H i (frame_bytes (hello_message ''ch'' msg)) s = dispatch_frame S H i (hello_message ''ch'' msg) t"
    "ready S i c t" "undisturbed s t" "ipc_written t = ipc_written s" "ipc_nonces t = ipc_nonces s"
    using onData_one [OF r(1) fit(1)] by blast
  let ?f = "\<lambda>c. c\<lparr>ce_pendingTh := Some (sv_th sv), ce_pendingKeys := Some (sv_keys sv), ce_connIdForSession := Some (ch_connId hello)\<rparr>"
  let ?t = "set_conn i ?f (t\<lparr>ipc_nonces := Suc (ipc_nonces s)\<rparr>)"
  have "conn_of t i = Some c" using t(2) by (simp add: ready_def)
  then have "dispatch_frame S H i (hello_message ''ch'' msg) t =
      write_socket i (frame_bytes (hello_message ''sh'' (sv_serverHelloBytes sv))) ?t"
    using r h sv t(5) encodeFrame_fits [OF fit(2)]
    by (simp add: dispatch_frame_def onHandshakeFrame_def onClientHello_def hello_message_def Let_def)
  moreover have "ready S i c' ?t" unfolding c'_def
    by (rule ready_set_conn [where f = ?f]) (use t(2) in \<open>simp_all add: ready_def\<close>)
  moreover have "undisturbed s ?t" using t(3) by (simp add: undisturbed_def same_logs_def)
  moreover have "ipc_written ?t = ipc_written s" using t(4) by (simp add: set_conn_def)
  ultimately show ?thesis using t(1) by (simp add: write_socket_def ready_def undisturbed_def same_logs_def)
qed

lemma server_finish_step:
  assumes r: "ready S i c s" "ce_secure c = None" "so_rootSecret S = Some secret"
    and p: "ce_pendingTh c = Some th" "ce_pendingKeys c = Some ks" "ce_connIdForSession c = Some cid"
    and f: "serverVerifyFinish (so_crypto S) ks th pf = None" "length pf \<le> 786000"
  shows "\<exists>t c'. onData S H i (frame_bytes (hello_message ''cf'' pf)) s = t \<and> ready S i c' t \<and> undisturbed s t
    \<and> ce_secure c' = Some (new_SecureSession ks cid Server_Role) \<and> ipc_written t = ipc_written s"
proof -
  have fit: "fits FRAME_BYTES (hello_message ''cf'' pf)" using f by (simp add: fits_hello_message plain_char_def)
  obtain t where t: "onData S H i (frame_bytes (hello_message ''cf'' pf)) s = dispatch_frame S H i (hello_message ''cf'' pf) t"
    "ready S i c t" "undisturbed s t" "ipc_written t = ipc_written s"
    using onData_one [OF r(1) fit] by blast
  let ?f = "\<lambda>c. c\<lparr>ce_secure := Some (new_SecureSession ks cid Server_Role), ce_pendingTh := None, ce_pendingKeys := None,
    ce_handshakeTimer := False\<rparr>"
  have "conn_of t i = Some c" using t(2) by (simp add: ready_def)
  then have "dispatch_frame S H i (hello_message ''cf'' pf) t = set_conn i ?f t"
    using r p f by (simp add: dispatch_frame_def onHandshakeFrame_def onClientFinish_def hello_message_def)
  moreover have "ready S i (?f c) (set_conn i ?f t)"
    by (rule ready_set_conn [where f = ?f]) (use t(2) in \<open>simp_all add: ready_def\<close>)
  moreover have "undisturbed s (set_conn i ?f t)" using t(3) by (simp add: undisturbed_def same_logs_def)
  moreover have "ipc_written (set_conn i ?f t) = ipc_written s" using t(4) by (simp add: set_conn_def)
  moreover have "ce_secure (?f c) = Some (new_SecureSession ks cid Server_Role)" by simp
  ultimately show ?thesis using t(1) by metis
qed

lemma send_frame_step:
  assumes r: "ready S i c s" "ce_secure c = Some ss" and x: "seal (so_crypto S) (frame_text v) ss = (ss', Inr x)" "length x \<le> 786426"
  shows "\<exists>t. send_frame S i v s = t \<and> ready S i (c\<lparr>ce_secure := Some ss'\<rparr>) t \<and> undisturbed s t
    \<and> ipc_written t = ipc_written s @ [(i, frame_bytes (sealed_message x))]"
proof -
  let ?t = "set_conn i (\<lambda>c. c\<lparr>ce_secure := Some ss'\<rparr>) s"
  have "send_frame S i v s = write_socket i (frame_bytes (sealed_message x)) ?t"
    using r x by (simp add: send_frame_def ready_def write_frame_def encode_sealed del: js_Cons flip: frame_text_def)
  moreover have "ready S i (c\<lparr>ce_secure := Some ss'\<rparr>) ?t"
    by (rule ready_set_conn [where f = "\<lambda>c. c\<lparr>ce_secure := Some ss'\<rparr>"]) (use r in \<open>simp_all add: ready_def\<close>)
  moreover have "undisturbed s ?t" by (rule undisturbed_set_conn)
  moreover have "ipc_written ?t = ipc_written s" by (simp add: set_conn_def)
  ultimately show ?thesis by (simp add: write_socket_def ready_def undisturbed_def same_logs_def)
qed

text \<open>A sealed frame reaches the consumer, and its answer goes out sealed.\<close>

lemma server_request_step:
  assumes r: "ready S i c s" "ce_secure c = Some ss" "so_rootSecret S = Some secret"
    and x: "open_sealed (so_crypto S) x ss = (ss1, Inr (frame_text f))" "length x \<le> 786426" and f: "json_value f" "well_typed f"
    and h: "onFrame H i f (ipc_consumer s) = (h', [Act_Send ans])"
    and y: "seal (so_crypto S) (frame_text ans) ss1 = (ss2, Inr y)" "length y \<le> 786426"
  shows "\<exists>t. onData S H i (frame_bytes (sealed_message x)) s = t \<and> ready S i (c\<lparr>ce_secure := Some ss2\<rparr>) t
    \<and> ipc_consumer t = h' \<and> ipc_delivered t = ipc_delivered s @ [(i, f)] \<and> ipc_opened t = ipc_opened s @ [(i, x, frame_text f)]
    \<and> ipc_written t = ipc_written s @ [(i, frame_bytes (sealed_message y))]"
proof -
  obtain t where t: "onData S H i (frame_bytes (sealed_message x)) s = dispatch_frame S H i (sealed_message x) t"
    "ready S i c t" "undisturbed s t" "ipc_written t = ipc_written s"
    using onData_one [OF r(1), of "sealed_message x"] x(2) fits_sealed_message by blast
  let ?f = "\<lambda>c. c\<lparr>ce_secure := Some ss1\<rparr>"
  define u where "u = (set_conn i ?f t)\<lparr>ipc_opened := ipc_opened t @ [(i, x, frame_text f)], ipc_consumer := h',
    ipc_delivered := ipc_delivered t @ [(i, f)]\<rparr>"
  have q: "conn_of t i = Some c" "ipc_consumer t = ipc_consumer s" "ipc_delivered t = ipc_delivered s"
    "ipc_opened t = ipc_opened s" using t(2,3) by (simp_all add: ready_def undisturbed_def same_logs_def)
  have "dispatch_frame S H i (sealed_message x) t = send_frame S i ans u"
    using q r x f h by (simp add: dispatch_frame_def onSealedFrame_def deliverFrame_def Let_def parse_frame_text u_def)
  moreover have "ready S i (?f c) u"
    using ready_set_conn [where f = ?f, OF t(2)] t(2) by (simp add: u_def ready_def)
  from send_frame_step [OF this _ y] obtain w where "send_frame S i ans u = w"
    "ready S i (?f c\<lparr>ce_secure := Some ss2\<rparr>) w" "undisturbed u w" "ipc_written w = ipc_written u @ [(i, frame_bytes (sealed_message y))]"
    by auto
  ultimately show ?thesis using t(1,4) q by (auto simp: undisturbed_def same_logs_def u_def set_conn_def)
qed

section \<open>The client's half\<close>

text \<open>A client with an open socket, waiting for frames with nothing on the way.\<close>

definition listening :: "client_options \<Rightarrow> secure_session \<Rightarrow> ipc_client \<Rightarrow> bool" where
  "listening K ss c \<longleftrightarrow> cl_socket c = Socket_Open \<and> cl_listener c = Frame_Listener \<and> idle (cl_decoder c) \<and> cl_secure c = Some ss"

lemma request_step:
  assumes l: "listening K ss c" "cl_written c = []" "cl_pending c = []"
    and f: "f = makeFrame frameType payload (Some requestId) nowIso"
    and x: "seal (co_crypto K) (frame_text f) ss = (ss', Inr x)" "length x \<le> 786426"
  shows "request K requestId nowIso frameType payload c =
    c\<lparr>cl_pending := [requestId], cl_secure := Some ss', cl_written := [frame_bytes (sealed_message x)]\<rparr>"
  using l x by (simp add: request_def writeFrame_def client_write_def listening_def encode_sealed del: js_Cons flip: f frame_text_def)

lemma answer_step:
  assumes l: "listening K ss c" "cl_pending c = [requestId]" "requestId \<noteq> []"
    and y: "open_sealed (co_crypto K) y ss = (ss', Inr (frame_text ans))" "length y \<le> 786426"
    and a: "json_value ans" "get_prop ans ''requestId'' = Some (JStr requestId)"
  shows "receive K (frame_bytes (sealed_message y)) c =
    c\<lparr>cl_secure := Some ss', cl_pending := [], cl_settled := cl_settled c @ [(requestId, Inr ans)]\<rparr>"
proof -
  have null: "ans \<noteq> JNull" using a(2) by (auto simp: get_prop_def)
  have "push (co_number K) (frame_bytes (sealed_message y)) (cl_decoder c) = (cl_decoder c, Inr \<lparr>frames = [sealed_message y], hasMore = False\<rparr>)"
    using l(1) y(2) by (intro push_one) (simp_all add: listening_def fits_sealed_message)
  with l y a null show ?thesis
    by (simp add: receive_def client_onData_def client_loop.simps open_frame_def parse_frame_text client_onFrame_def settle_def listening_def)
qed

lemma client_finish_step:
  assumes l: "cl_socket c = Socket_Open" "cl_listener c = Handshake_Listener state dec" "idle dec" "co_rootSecret K = Some secret"
    "cl_written c = []" "cl_handshake c = None"
    and sh: "parseServerHello msg = Inr sh" "length msg \<le> 786000" and fin: "clientFinish (co_crypto K) secret state sh = Inr fin"
    "length (cf_clientProof fin) \<le> 786000"
  shows "receive K (frame_bytes (hello_message ''sh'' msg)) c =
    c\<lparr>cl_listener := Frame_Listener, cl_secure := Some (new_SecureSession (cf_keys fin) (cf_connId fin) Client_Role),
      cl_handshake := Some (Inr ()), cl_written := [frame_bytes (hello_message ''cf'' (cf_clientProof fin))]\<rparr>"
proof -
  have fit: "fits FRAME_BYTES (hello_message ''sh'' msg)" "fits FRAME_BYTES (hello_message ''cf'' (cf_clientProof fin))"
    using sh fin by (simp_all add: fits_hello_message plain_char_def)
  show ?thesis using push_one [OF l(3) fit(1), of "co_number K"] encodeFrame_fits [OF fit(2)] l sh fin
    by (simp add: receive_def onHsData_def finish_handshake_def settle_handshake_def client_write_def Let_def)
qed

section \<open>A session\<close>

text \<open>The network: what the client has written reaches the server in order, then what the server wrote to it reaches the client.\<close>

definition exchange ::
  "server_options \<Rightarrow> 'h consumer \<Rightarrow> client_options \<Rightarrow> js_string \<Rightarrow> ipc_client \<times> 'h ipc_server \<Rightarrow> ipc_client \<times> 'h ipc_server" where
  "exchange S H K i = (\<lambda>(c, s).
     let t = fold (\<lambda>bs. socket_step S H (Socket_Data i bs)) (cl_written c) s;
         new = drop (length (ipc_written s)) (ipc_written t)
     in (fold (receive K) (map snd (filter (\<lambda>(j, bs). j = i) new)) (c\<lparr>cl_written := []\<rparr>), t))"

text \<open>A request: its id, time, frame type and payload.\<close>

type_synonym client_request = "js_string \<times> js_string \<times> js_string \<times> jval"

fun request_frame :: "client_request \<Rightarrow> jval" where
  "request_frame (requestId, nowIso, frameType, payload) = makeFrame frameType payload (Some requestId) nowIso"

fun ask :: "client_options \<Rightarrow> client_request \<Rightarrow> ipc_client \<Rightarrow> ipc_client" where
  "ask K (requestId, nowIso, frameType, payload) c = request K requestId nowIso frameType payload c"

definition open_session ::
  "server_options \<Rightarrow> 'h consumer \<Rightarrow> client_options \<Rightarrow> int \<Rightarrow> bytes \<Rightarrow> bytes \<Rightarrow> 'h ipc_server \<Rightarrow> ipc_client \<times> 'h ipc_server" where
  "open_session S H K nowMs nonce connId s =
     (let s = accept S nowMs s; i = conn_id (ipc_seq s)
      in exchange S H K i (exchange S H K i (connect K nonce connId new_IpcClient, s)))"

fun dialogue ::
  "server_options \<Rightarrow> 'h consumer \<Rightarrow> client_options \<Rightarrow> js_string \<Rightarrow> client_request list \<Rightarrow> ipc_client \<times> 'h ipc_server \<Rightarrow> ipc_client \<times> 'h ipc_server" where
  "dialogue S H K i [] cs = cs"
| "dialogue S H K i (r # rs) (c, s) = dialogue S H K i rs (exchange S H K i (ask K r c, s))"

text \<open>The specification: the consumer called directly, with its answers.\<close>

fun served :: "'h consumer \<Rightarrow> js_string \<Rightarrow> jval list \<Rightarrow> 'h \<Rightarrow> 'h \<times> conn_action list" where
  "served H i [] h = (h, [])"
| "served H i (f # fs) h = (case onFrame H i f h of (h, acts) \<Rightarrow> case served H i fs h of (h, rest) \<Rightarrow> (h, acts @ rest))"

definition proper_request :: "client_request \<Rightarrow> bool" where
  "proper_request r \<longleftrightarrow> sendable (request_frame r) \<and> fst r \<noteq> []"

text \<open>The consumer answers a request with one frame that carries the id of the request and is not too large.\<close>

definition answers_requests :: "'h consumer \<Rightarrow> bool" where
  "answers_requests H \<longleftrightarrow> (\<forall>i r h. proper_request r \<longrightarrow> (\<exists>ans. snd (onFrame H i (request_frame r) h) = [Act_Send ans] \<and>
     sendable ans \<and> get_prop ans ''requestId'' = Some (JStr (fst r))))"

text \<open>The two ends agree on keys and counters, and nothing is on the way.\<close>

definition linked :: "server_options \<Rightarrow> client_options \<Rightarrow> js_string \<Rightarrow> nat \<Rightarrow> ipc_client \<times> 'h ipc_server \<Rightarrow> bool" where
  "linked S K i n = (\<lambda>(c, s). \<exists>cs e ss. listening K cs c \<and> cl_written c = [] \<and> cl_pending c = [] \<and> ready S i e s \<and> ce_secure e = Some ss
     \<and> in_step cs ss \<and> in_step ss cs \<and> sendSeq cs = n \<and> sendSeq ss = n)"

lemma request_frame_props:
  "well_typed (request_frame r)" "get_prop (request_frame r) ''requestId'' = Some (JStr (fst r))"
  by (cases r; simp add: well_typed_def makeFrame_def string_prop_def)+

lemma exchange_one:
  assumes "cl_written c = [b]" "onData S H i b s = t" "ipc_written t = ipc_written s @ [(i, w)]"
  shows "exchange S H K i (c, s) = (receive K w (c\<lparr>cl_written := []\<rparr>), t)"
  using assms by (simp add: exchange_def Let_def)

lemma linked_request:
  assumes k: "crypto_ok C" "so_crypto S = C" "co_crypto K = C" "so_rootSecret S = Some secret"
    and h: "answers_requests H" "proper_request r" and n: "n < MAX_SEQ" and l: "linked S K i n (c, s)"
  shows "\<exists>c' s' ans. exchange S H K i (ask K r c, s) = (c', s') \<and> linked S K i (n + 1) (c', s')
    \<and> onFrame H i (request_frame r) (ipc_consumer s) = (ipc_consumer s', [Act_Send ans])
    \<and> cl_settled c' = cl_settled c @ [(fst r, Inr ans)] \<and> cl_handshake c' = cl_handshake c
    \<and> delivered_on s' i = delivered_on s i @ [request_frame r] \<and> plain_on s' i = plain_on s i @ [frame_text (request_frame r)]"
proof -
  let ?f = "request_frame r"
  obtain requestId nowIso frameType payload where r: "r = (requestId, nowIso, frameType, payload)" by (cases r)
  obtain cs e ss where l: "listening K cs c" "cl_written c = []" "cl_pending c = []" "ready S i e s" "ce_secure e = Some ss"
    "in_step cs ss" "in_step ss cs" "sendSeq cs = n" "sendSeq ss = n"
    using l by (auto simp: linked_def)
  obtain h' ans where a: "onFrame H i ?f (ipc_consumer s) = (h', [Act_Send ans])" "sendable ans"
    "get_prop ans ''requestId'' = Some (JStr requestId)"
    using h unfolding answers_requests_def r by (metis fst_conv prod.collapse)
  have small: "length (frame_text ?f) \<le> 786394" "json_value ?f" "length (frame_text ans) \<le> 786394" "json_value ans" "requestId \<noteq> []"
    using h(2) a(2) by (simp_all add: proper_request_def sendable_def r)
  obtain x where x: "seal C (frame_text ?f) cs = (cs\<lparr>sendSeq := sendSeq cs + 1\<rparr>, Inr x)"
    "open_sealed C x ss = (ss\<lparr>recvSeq := recvSeq ss + 1\<rparr>, Inr (frame_text ?f))" "length x = length (frame_text ?f) + 32"
    by (rule seal_open [OF k(1) l(6), of "frame_text ?f"]) (use small n l in \<open>simp_all add: MAX_PLAINTEXT_def\<close>)
  let ?ss = "ss\<lparr>recvSeq := recvSeq ss + 1\<rparr>" and ?cs = "cs\<lparr>sendSeq := sendSeq cs + 1\<rparr>"
  have step: "in_step ?ss ?cs" using l(6,7) by (simp add: in_step_def)
  obtain y where y: "seal C (frame_text ans) ?ss = (?ss\<lparr>sendSeq := sendSeq ?ss + 1\<rparr>, Inr y)"
    "open_sealed C y ?cs = (?cs\<lparr>recvSeq := recvSeq ?cs + 1\<rparr>, Inr (frame_text ans))" "length y = length (frame_text ans) + 32"
    by (rule seal_open [OF k(1) step, of "frame_text ans"]) (use small n l in \<open>simp_all add: MAX_PLAINTEXT_def\<close>)
  let ?c = "c\<lparr>cl_pending := [requestId], cl_secure := Some ?cs, cl_written := [frame_bytes (sealed_message x)]\<rparr>"
  have asked: "ask K r c = ?c" unfolding r ask.simps
    by (rule request_step [OF l(1-3)]) (use x small k in \<open>simp_all add: r\<close>)
  from server_request_step [OF l(4,5) k(4), of x ?ss ?f H h' ans _ y] obtain t where t:
    "onData S H i (frame_bytes (sealed_message x)) s = t"
    "ready S i (e\<lparr>ce_secure := Some (?ss\<lparr>sendSeq := sendSeq ?ss + 1\<rparr>)\<rparr>) t"
    "ipc_consumer t = h'" "ipc_delivered t = ipc_delivered s @ [(i, ?f)]" "ipc_opened t = ipc_opened s @ [(i, x, frame_text ?f)]"
    "ipc_written t = ipc_written s @ [(i, frame_bytes (sealed_message y))]"
    using x y small a k request_frame_props(1) by auto
  let ?c' = "c\<lparr>cl_written := [], cl_secure := Some (?cs\<lparr>recvSeq := recvSeq ?cs + 1\<rparr>), cl_pending := [], cl_settled := cl_settled c @ [(requestId, Inr ans)]\<rparr>"
  have "receive K (frame_bytes (sealed_message y)) (?c\<lparr>cl_written := []\<rparr>) = ?c'"
    by (subst answer_step [where ss = ?cs and requestId = requestId and ans = ans])
      (use l y small a k in \<open>simp_all add: listening_def\<close>)
  with asked t exchange_one [of ?c _ S H i s t] have ex: "exchange S H K i (ask K r c, s) = (?c', t)" by simp
  have "linked S K i (n + 1) (?c', t)" unfolding linked_def
    using l t(2) by (auto simp: listening_def in_step_def intro!: exI [of _ "e\<lparr>ce_secure := Some (?ss\<lparr>sendSeq := sendSeq ?ss + 1\<rparr>)\<rparr>"])
  with ex a(1) t show ?thesis by (auto simp: r plain_on_def delivered_on_def)
qed

lemma linked_dialogue:
  assumes k: "crypto_ok C" "so_crypto S = C" "co_crypto K = C" "so_rootSecret S = Some secret"
    and h: "answers_requests H"
  shows "list_all proper_request rs \<Longrightarrow> n + length rs \<le> MAX_SEQ \<Longrightarrow> linked S K i n (c, s) \<Longrightarrow>
    dialogue S H K i rs (c, s) = (c', s') \<Longrightarrow>
    \<exists>as. served H i (map request_frame rs) (ipc_consumer s) = (ipc_consumer s', map Act_Send as)
      \<and> cl_settled c' = cl_settled c @ zip (map fst rs) (map Inr as) \<and> length as = length rs
      \<and> cl_handshake c' = cl_handshake c \<and> cl_pending c' = []
      \<and> delivered_on s' i = delivered_on s i @ map request_frame rs
      \<and> plain_on s' i = plain_on s i @ map (frame_text \<circ> request_frame) rs"
proof (induction rs arbitrary: n c s)
  case Nil
  then show ?case by (auto simp: linked_def)
next
  case (Cons r rs)
  have r: "proper_request r" "n < MAX_SEQ" using Cons.prems by simp_all
  obtain c1 s1 a where 1: "exchange S H K i (ask K r c, s) = (c1, s1)" "linked S K i (n + 1) (c1, s1)"
    "onFrame H i (request_frame r) (ipc_consumer s) = (ipc_consumer s1, [Act_Send a])"
    "cl_settled c1 = cl_settled c @ [(fst r, Inr a)]" "cl_handshake c1 = cl_handshake c"
    "delivered_on s1 i = delivered_on s i @ [request_frame r]" "plain_on s1 i = plain_on s i @ [frame_text (request_frame r)]"
    using linked_request [OF k h r Cons.prems(3)] by blast
  obtain as where "served H i (map request_frame rs) (ipc_consumer s1) = (ipc_consumer s', map Act_Send as)"
    "cl_settled c' = cl_settled c1 @ zip (map fst rs) (map Inr as)" "length as = length rs"
    "cl_handshake c' = cl_handshake c1" "cl_pending c' = []"
    "delivered_on s' i = delivered_on s1 i @ map request_frame rs"
    "plain_on s' i = plain_on s1 i @ map (frame_text \<circ> request_frame) rs"
    using Cons.IH [OF _ _ 1(2)] Cons.prems 1(1) by auto
  with 1 show ?case by (intro exI [of _ "a # as"]) simp
qed

text \<open>The server and the client of one installation, and a server with room for one more connection.\<close>

definition same_installation :: "server_options \<Rightarrow> client_options \<Rightarrow> bytes \<Rightarrow> bool" where
  "same_installation S K secret \<longleftrightarrow> crypto_ok (so_crypto S) \<and> co_crypto K = so_crypto S
     \<and> so_rootSecret S = Some secret \<and> co_rootSecret K = Some secret
     \<and> short_str (so_brokerInstanceId S) \<and> (\<forall>n. length (so_nonce S n) = NONCE_BYTES)"

definition admits :: "server_options \<Rightarrow> int \<Rightarrow> 'h ipc_server \<Rightarrow> bool" where
  "admits S nowMs s \<longleftrightarrow> length (ipc_conns s) < so_maxConnections S
     \<and> length (filter (\<lambda>t. nowMs - t < 1000) (ipc_connectTimestamps s)) < so_connectRatePerSec S
     \<and> ipc_totalBuffered s \<le> so_globalBudget S"

lemma accept_ready:
  assumes "server_ok S secret s" "so_rootSecret S = Some secret" "admits S nowMs s"
  shows "\<exists>t e. accept S nowMs s = t \<and> ready S (conn_id (Suc (ipc_seq s))) e t \<and> ce_secure e = None \<and> undisturbed s t
    \<and> ipc_nonces t = ipc_nonces s \<and> ipc_seq t = Suc (ipc_seq s)"
proof -
  let ?i = "conn_id (Suc (ipc_seq s))"
  define e where "e = \<lparr>ce_decoder = new_FrameDecoder None None, ce_secure = None, ce_pendingTh = None, ce_pendingKeys = None,
    ce_connIdForSession = None, ce_handshakeTimer = True\<rparr>"
  let ?t = "s\<lparr>ipc_connectTimestamps := filter (\<lambda>t. nowMs - t < 1000) (ipc_connectTimestamps s) @ [nowMs], ipc_seq := Suc (ipc_seq s),
      ipc_conns := ipc_conns s @ [(?i, e)]\<rparr>"
  have "accept S nowMs s = ?t"
    using assms(2,3) by (simp add: e_def admits_def accept_def conn_id_def Let_def del: js_Cons)
  moreover have "map_of (ipc_conns s) ?i = None" using fresh_conn_id(1) [OF assms(1)] by (simp add: conn_of_def)
  then have "ready S ?i e ?t" using assms(3) idle_new by (simp add: admits_def ready_def conn_of_def map_add_def e_def)
  ultimately show ?thesis by (simp add: undisturbed_def same_logs_def) (auto simp: e_def)
qed

text \<open>The handshake of the two ends.\<close>

lemma open_session_linked:
  assumes k: "same_installation S K secret" and ok: "server_ok S secret s" "admits S nowMs s"
    and st: "startClientHandshake (case co_keyVersion K of None \<Rightarrow> 1 | Some v \<Rightarrow> v) (hello_identity_of K) nonce connId = (state, msg)"
      "hello_ok (hs_hello state)" "length msg \<le> 786000"
  shows "\<exists>c s'. open_session S H K nowMs nonce connId s = (c, s') \<and> linked S K (conn_id (Suc (ipc_seq s))) 0 (c, s')
    \<and> cl_handshake c = Some (Inr ()) \<and> cl_settled c = [] \<and> undisturbed s s'"
proof -
  let ?i = "conn_id (Suc (ipc_seq s))" and ?C = "so_crypto S"
  have k: "crypto_ok ?C" "co_crypto K = ?C" "so_rootSecret S = Some secret" "co_rootSecret K = Some secret"
    "short_str (so_brokerInstanceId S)" "length (so_nonce S (ipc_nonces s)) = NONCE_BYTES"
    using k by (simp_all add: same_installation_def)
  obtain s1 e where s1: "accept S nowMs s = s1" "ready S ?i e s1" "ce_secure e = None" "undisturbed s s1"
    "ipc_nonces s1 = ipc_nonces s" "ipc_seq s1 = Suc (ipc_seq s)" using accept_ready [OF ok(1) k(3) ok(2)] by blast
  obtain hello sv sh fin where hs: "parseClientHello msg = Inr hello"
    "serverHandshake ?C secret (so_brokerInstanceId S) hello (so_nonce S (ipc_nonces s)) = Inr sv"
    "parseServerHello (sv_serverHelloBytes sv) = Inr sh" "clientFinish ?C secret state sh = Inr fin"
    "serverVerifyFinish ?C (sv_keys sv) (sv_th sv) (cf_clientProof fin) = None"
    "cf_keys fin = sv_keys sv" "cf_connId fin = ch_connId hello"
    and len: "length (sv_serverHelloBytes sv) = 73 + length (utf8_encode (so_brokerInstanceId S))"
    using honest_handshake [OF k(1) st(1,2) k(6,5)] by blast
  have sizes: "length (sv_serverHelloBytes sv) \<le> 786000" "length (cf_clientProof fin) \<le> 786000"
    using len k(5) clientFinish_result(4) [OF hs(4)] k(1)
    by (simp_all add: short_str_def length_utf8_encode crypto_ok_def case_prod_beta stp_constants)
  define c0 where "c0 = new_IpcClient\<lparr>cl_socket := Socket_Open, cl_listener := Handshake_Listener state (new_FrameDecoder None None),
    cl_written := [frame_bytes (hello_message ''ch'' msg)]\<rparr>"
  have "fits FRAME_BYTES (hello_message ''ch'' msg)" using st(3) by (simp add: fits_hello_message plain_char_def)
  from encodeFrame_fits [OF this] have c0: "connect K nonce connId new_IpcClient = c0"
    using k(4) st(1) by (simp add: connect_def performHandshake_def client_write_def new_IpcClient_def c0_def)
  from server_hello_step [OF s1(2,3) k(3) hs(1) st(3), of sv] obtain t1 where t1:
    "onData S H ?i (frame_bytes (hello_message ''ch'' msg)) s1 = t1"
    "ready S ?i (e\<lparr>ce_pendingTh := Some (sv_th sv), ce_pendingKeys := Some (sv_keys sv), ce_connIdForSession := Some (ch_connId hello)\<rparr>) t1"
    "undisturbed s1 t1" "ipc_written t1 = ipc_written s1 @ [(?i, frame_bytes (hello_message ''sh'' (sv_serverHelloBytes sv)))]"
    using hs(2) sizes(1) s1(5) by auto
  let ?cs = "new_SecureSession (sv_keys sv) (ch_connId hello) Client_Role"
  define c1 where "c1 = c0\<lparr>cl_listener := Frame_Listener, cl_secure := Some ?cs, cl_handshake := Some (Inr ()),
    cl_written := [frame_bytes (hello_message ''cf'' (cf_clientProof fin))]\<rparr>"
  have "receive K (frame_bytes (hello_message ''sh'' (sv_serverHelloBytes sv))) (c0\<lparr>cl_written := []\<rparr>) = c1"
    by (subst client_finish_step [OF _ _ _ k(4) _ _ hs(3) sizes(1), of _ state "new_FrameDecoder None None" fin])
      (use k(2) hs sizes idle_new in \<open>simp_all add: c0_def c1_def new_IpcClient_def\<close>)
  then have ex1: "exchange S H K ?i (c0, s1) = (c1, t1)"
    using exchange_one [OF _ t1(1,4), of c0 K] by (simp add: c0_def)
  let ?e1 = "e\<lparr>ce_pendingTh := Some (sv_th sv), ce_pendingKeys := Some (sv_keys sv), ce_connIdForSession := Some (ch_connId hello)\<rparr>"
  have "ce_secure ?e1 = None" using s1(3) by simp
  from server_finish_step [OF t1(2) this k(3), of "sv_th sv" "sv_keys sv" "ch_connId hello" "cf_clientProof fin" H]
  obtain t2 e2 where t2: "onData S H ?i (frame_bytes (hello_message ''cf'' (cf_clientProof fin))) t1 = t2"
    "ready S ?i e2 t2" "undisturbed t1 t2" "ce_secure e2 = Some (new_SecureSession (sv_keys sv) (ch_connId hello) Server_Role)" "ipc_written t2 = ipc_written t1"
    using hs(5) sizes(2) by auto
  have ex2: "exchange S H K ?i (c1, t1) = (c1\<lparr>cl_written := []\<rparr>, t2)" using t2(1,5) by (simp add: exchange_def c1_def)
  have "linked S K ?i 0 (c1\<lparr>cl_written := []\<rparr>, t2)" unfolding linked_def
    using t2(2,4) new_sessions_in_step idle_new
    by (auto simp: listening_def c1_def c0_def new_IpcClient_def new_SecureSession_def in_step_def intro!: exI [of _ e2])
  moreover have "open_session S H K nowMs nonce connId s = (c1\<lparr>cl_written := []\<rparr>, t2)"
    using s1(1,6) ex1 ex2 by (simp add: open_session_def c0)
  moreover have "undisturbed s t2" using t1(3) t2(3) s1(4) by (simp add: undisturbed_def same_logs_def)
  ultimately show ?thesis by (simp add: c1_def c0_def new_IpcClient_def)
qed


text \<open>Such a session is a run of the server.\<close>

lemma run_server_append: "run_server S H (xs @ ys) s = run_server S H ys (run_server S H xs s)"
  by (induction xs arbitrary: s) simp_all

lemma exchange_run: "\<exists>evs. snd (exchange S H K i (c, s)) = run_server S H evs s"
proof -
  have "fold (\<lambda>bs. socket_step S H (Socket_Data i bs)) bss s = run_server S H (map (Socket_Data i) bss) s" for bss s
    by (induction bss arbitrary: s) simp_all
  then show ?thesis by (auto simp: exchange_def Let_def)
qed

lemma dialogue_run: "\<exists>evs. snd (dialogue S H K i rs (c, s)) = run_server S H evs s"
proof (induction rs arbitrary: c s)
  case Nil
  show ?case by (rule exI [of _ "[]"]) simp
next
  case (Cons r rs)
  obtain c' s' where e: "exchange S H K i (ask K r c, s) = (c', s')" by fastforce
  with exchange_run [of S H K i "ask K r c" s] Cons [of c' s'] show ?case by (auto simp flip: run_server_append)
qed

lemma session_run: "\<exists>evs. snd (dialogue S H K i rs (open_session S H K nowMs nonce connId s)) = run_server S H evs s"
proof -
  let ?s = "accept S nowMs s" let ?i = "conn_id (ipc_seq ?s)"
  obtain c1 s1 where 1: "exchange S H K ?i (connect K nonce connId new_IpcClient, ?s) = (c1, s1)" by fastforce
  obtain c2 s2 where 2: "exchange S H K ?i (c1, s1) = (c2, s2)" by fastforce
  obtain e1 e2 e3 where "s1 = run_server S H e1 ?s" "s2 = run_server S H e2 s1"
    "snd (dialogue S H K i rs (c2, s2)) = run_server S H e3 s2"
    using exchange_run [of S H K ?i] dialogue_run [of S H K i rs c2 s2] 1 2 by (metis snd_conv)
  then have "snd (dialogue S H K i rs (open_session S H K nowMs nonce connId s)) = run_server S H (Socket_Accept nowMs # e1 @ e2 @ e3) s"
    using 1 2 by (simp add: open_session_def Let_def run_server_append)
  then show ?thesis by blast
qed

end
