(* ===== verification/Ipc_Limits.thy ===== *)
theory Ipc_Limits
  imports Ipc_Served
begin

text \<open>
  Two limits of \<^verbatim>\<open>src/ipc/server.ts\<close> that do not fit together: an answer that can be sealed but not framed breaks its
  session, and bytes that are drained in a second round stay on the count of buffered bytes.
\<close>

section \<open>Answers too large for a frame\<close>

text \<open>
  Sealing accepts a megabyte of plaintext, but a frame takes a sealed buffer only up to three quarters of that: base64 makes it
  longer. An answer in between is sealed, which uses up a sequence number, and then not written. The peer refuses every
  buffer sealed afterwards.
\<close>

lemma oversized_answer_breaks_session:
  assumes r: "ready S i c s" "ce_secure c = Some ss" "sendSeq ss < MAX_SEQ" and C: "crypto_ok (so_crypto S)"
    and v: "786394 < length (frame_text v)" "length (frame_text v) \<le> MAX_PLAINTEXT"
    and peer: "in_step ss cs"
  shows "ipc_written (send_frame S i v s) = ipc_written s"
    and "conn_of (send_frame S i v s) i = Some (c\<lparr>ce_secure := Some (ss\<lparr>sendSeq := sendSeq ss + 1\<rparr>)\<rparr>)"
    and "seal (so_crypto S) p (ss\<lparr>sendSeq := sendSeq ss + 1\<rparr>) = (ss', Inr y) \<Longrightarrow> \<exists>e. open_sealed (so_crypto S) y cs = (cs, Inl e)"
proof -
  obtain x where x: "seal (so_crypto S) (frame_text v) ss = (ss\<lparr>sendSeq := sendSeq ss + 1\<rparr>, Inr x)" "length x = length (frame_text v) + 32"
    using seal_open [OF C peer v(2) r(3)] by metis
  let ?t = "set_conn i (\<lambda>c. c\<lparr>ce_secure := Some (ss\<lparr>sendSeq := sendSeq ss + 1\<rparr>)\<rparr>) s"
  have "\<not> fits FRAME_BYTES (sealed_message x)" using x(2) v(1) by (simp add: fits_sealed_message)
  moreover have "json_value (sealed_message x)" using plain_string(3) [OF plain_base64] by (simp add: sealed_message_def code_units_def)
  ultimately obtain e where "encodeFrame (sealed_message x) FRAME_BYTES = Inl e"
    by (auto simp: fits_def encodeFrame_def frame_text_def Let_def)
  then have "send_frame S i v s = ?t"
    using r x by (simp add: send_frame_def ready_def write_frame_def sealed_message_def del: js_Cons flip: frame_text_def)
  then show "ipc_written (send_frame S i v s) = ipc_written s"
    "conn_of (send_frame S i v s) i = Some (c\<lparr>ce_secure := Some (ss\<lparr>sendSeq := sendSeq ss + 1\<rparr>)\<rparr>)"
    using r(1) by (simp_all add: conn_of_set_conn ready_def) (simp add: set_conn_def)
  assume y: "seal (so_crypto S) p (ss\<lparr>sendSeq := sendSeq ss + 1\<rparr>) = (ss', Inr y)"
  then have "readUInt32BE (take 4 y) = sendSeq ss + 1"
    by (auto simp: seal_eq MAX_SEQ_def readUInt32BE_sealed)
  moreover have "sendSeq ss = recvSeq cs" using peer by (simp add: in_step_def)
  ultimately have "\<not> (\<exists>cs' q. open_sealed (so_crypto S) y cs = (cs', Inr q))" by (simp add: open_eq)
  then obtain e cs' where "open_sealed (so_crypto S) y cs = (cs', Inl e)" by (metis prod.exhaust sum.exhaust)
  with failed_open_keeps show "\<exists>e. open_sealed (so_crypto S) y cs = (cs, Inl e)" by blast
qed

section \<open>The count of buffered bytes\<close>

text \<open>Dispatching on a connection that stays open changes neither the count nor the decoder.\<close>

definition count_kept :: "js_string \<Rightarrow> 'h ipc_server \<Rightarrow> 'h ipc_server \<Rightarrow> bool" where
  "count_kept i s t \<longleftrightarrow> conn_of t i = None \<or>
     ipc_totalBuffered t = ipc_totalBuffered s \<and> map_option ce_decoder (conn_of t i) = map_option ce_decoder (conn_of s i)"

lemma count_kept_refl [simp]: "count_kept i s s"
  by (simp add: count_kept_def)

lemma count_kept_trans: "count_kept i s t \<Longrightarrow> count_kept i t u \<Longrightarrow> count_kept i s u"
  by (auto simp: count_kept_def)

lemma count_kept_steps:
  assumes "count_kept i s t"
  shows "count_kept i s (closeConn H i t)" "count_kept i s (write_socket i bs t)"
    "(\<And>c. ce_decoder (f c) = ce_decoder c) \<Longrightarrow> count_kept i s (set_conn i f t)"
    "count_kept i s (t\<lparr>ipc_nonces := n\<rparr>)" "count_kept i s (t\<lparr>ipc_opened := os\<rparr>)"
    "count_kept i s (t\<lparr>ipc_consumer := h, ipc_delivered := ds\<rparr>)"
  using assms by (auto simp: count_kept_def conn_of_closeConn write_socket_def conn_of_set_conn option.map_comp comp_def) (simp add: set_conn_def)

lemma count_kept_send: "count_kept i s t \<Longrightarrow> count_kept i s (send_frame S i v t)"
  by (auto simp: send_frame_def write_frame_def split: option.split prod.split sum.split intro!: count_kept_steps)

lemma count_kept_fold: "(\<And>x t. count_kept i s t \<Longrightarrow> count_kept i s (f x t)) \<Longrightarrow> count_kept i s t \<Longrightarrow> count_kept i s (fold f xs t)"
  by (induction xs arbitrary: t) auto

lemma count_kept_act: "count_kept i s t \<Longrightarrow> count_kept i s (act S H i a t)"
  by (cases a) (simp_all add: count_kept_send count_kept_steps)

lemma count_kept_deliver: "count_kept i s t \<Longrightarrow> count_kept i s (deliverFrame S H i v t)"
  unfolding deliverFrame_def
  by (auto split: prod.split intro!: count_kept_send count_kept_fold count_kept_act count_kept_steps)

lemma count_kept_dispatch:
  assumes "count_kept i s t"
  shows "count_kept i s (dispatch_frame S H i v t)"
proof -
  have hello: "count_kept i s (onClientHello S H secret i d t)" for secret d
    unfolding onClientHello_def Let_def using assms by (auto split: option.split sum.split intro!: count_kept_steps)
  have finish: "count_kept i s (onClientFinish S H i d t)" for d
    unfolding onClientFinish_def using assms by (auto split: option.split intro!: count_kept_steps)
  have "count_kept i s (onHandshakeFrame S H secret i v t)" for secret
    unfolding onHandshakeFrame_def by (simp add: assms hello finish count_kept_steps del: js_Cons split: option.split jval.split)
  moreover have "count_kept i s (onSealedFrame S H ss i v t)" for ss
    unfolding onSealedFrame_def Let_def using assms
    by (auto split: option.split prod.split sum.split intro!: count_kept_deliver count_kept_steps)
  ultimately show ?thesis by (simp add: assms dispatch_frame_def count_kept_deliver split: option.split)
qed

lemmas count_kept_frames = count_kept_fold [where f = "dispatch_frame S H i" for S H i, OF count_kept_dispatch]

text \<open>A full drain of the decoder.\<close>

lemma drain_full:
  assumes "list_all (fits (maxFrameBytes f)) us" "maxFrameBytes f < 4294967296" "taken + length us = drainCap f" "us \<noteq> []"
  shows "drain_loop fl out taken (f\<lparr>buf := stream us @ rest\<rparr>) =
    (f\<lparr>buf := rest\<rparr>, Inr \<lparr>frames = out @ us, hasMore = hasCompleteFrame (f\<lparr>buf := rest\<rparr>)\<rparr>)"
  using assms
proof (induction us arbitrary: out taken)
  case (Cons u us)
  have t: "take_frame fl (maxFrameBytes f) (stream (u # us) @ rest) = Take u (stream us @ rest)"
    using take_frame_bytes [of "maxFrameBytes f" u fl "stream us @ rest"] Cons.prems by simp
  show ?case
  proof (cases "us = []")
    case True
    with t Cons.prems show ?thesis by (simp add: drain_loop.simps [of fl out] Let_def)
  next
    case False
    then have "\<not> drainCap f \<le> Suc taken" using Cons.prems by (cases us) simp_all
    moreover have "drain_loop fl (out @ [u]) (Suc taken) (f\<lparr>buf := stream us @ rest\<rparr>) =
        (f\<lparr>buf := rest\<rparr>, Inr \<lparr>frames = (out @ [u]) @ us, hasMore = hasCompleteFrame (f\<lparr>buf := rest\<rparr>)\<rparr>)"
      using Cons.prems False by (intro Cons.IH) simp_all
    ultimately show ?thesis using t by (simp add: drain_loop.simps [of fl out] Let_def)
  qed
qed simp

text \<open>
  When a chunk holds one frame more than the decoder hands out at a time, the last frame is counted as buffered and never
  taken off the count again: the connection has an empty buffer, and even after it is closed its bytes stay on the count. The
  budget is shared by all connections and is never recomputed.
\<close>

lemma buffered_count_leaks:
  assumes r: "ready S i c s" "0 \<le> ipc_totalBuffered s" and us: "list_all (fits FRAME_BYTES) us" "length us = 32" "fits FRAME_BYTES v"
    and budget: "ipc_totalBuffered s + int (length (frame_bytes v)) \<le> so_globalBudget S"
    and t: "t = onData S H i (stream us @ frame_bytes v) s" "conn_of t i = Some c'"
  shows "bufferedBytes (ce_decoder c') = 0" "ipc_totalBuffered t = ipc_totalBuffered s + int (length (frame_bytes v))"
    "ipc_totalBuffered (closeConn H i t) = ipc_totalBuffered s + int (length (frame_bytes v))"
proof -
  let ?d = "ce_decoder c" let ?full = "?d\<lparr>buf := frame_bytes v\<rparr>"
  have c: "conn_of s i = Some c" "idle ?d" using r by (simp_all add: ready_def)
  then have d: "?d\<lparr>buf := []\<rparr> = ?d" "buf ?d = []" "maxFrameBytes ?d = FRAME_BYTES" "drainCap ?d = 32" by (simp_all add: idle_def)
  have "take_frame (so_number S) FRAME_BYTES (frame_bytes v) = Take v []"
    using take_frame_bytes [OF us(3), of _ "[]"] by (simp add: FRAME_BYTES_def)
  then have more: "hasCompleteFrame ?full" using take_frame_complete(2) [of "so_number S" ?full] d by simp
  have ne: "us \<noteq> []" using us(2) by auto
  have push: "push (so_number S) (stream us @ frame_bytes v) ?d = (?full, Inr \<lparr>frames = us, hasMore = True\<rparr>)"
    using drain_full [of ?d us 0 "so_number S" "[]" "frame_bytes v"] us more d ne
    by (simp add: push_append drain_def FRAME_BYTES_def)
  have rest: "continueDrain (so_number S) ?full = (?d, Inr \<lparr>frames = [v], hasMore = False\<rparr>)"
    using push_one [OF c(2) us(3), of "so_number S"] d by (simp add: push_append continueDrain_def)
  let ?s1 = "(set_conn i (\<lambda>c. c\<lparr>ce_decoder := ?full\<rparr>) s)\<lparr>ipc_totalBuffered := ipc_totalBuffered s + int (length (frame_bytes v))\<rparr>"
  let ?s2 = "fold (dispatch_frame S H i) us ?s1"
  let ?s3 = "set_conn i (\<lambda>c. c\<lparr>ce_decoder := ?d\<rparr>) ?s2"
  have "t = dispatch_frame S H i v ?s3"
    using c push rest budget d unfolding t(1) by (simp add: onData_def bufferedBytes_def serve.simps Let_def set_conn_def)
  with count_kept_dispatch [of i ?s3 ?s3 S H v] t(2) have 3: "ipc_totalBuffered t = ipc_totalBuffered ?s3"
    "map_option ce_decoder (conn_of ?s3 i) = Some (ce_decoder c')" by (simp_all add: count_kept_def)
  from 3(2) have open2: "conn_of ?s2 i \<noteq> None" and dec: "ce_decoder c' = ?d" by (auto simp: conn_of_set_conn)
  with count_kept_frames [of i ?s1 ?s1 S H us] have "ipc_totalBuffered ?s2 = ipc_totalBuffered ?s1" by (simp add: count_kept_def)
  with 3(1) show total: "ipc_totalBuffered t = ipc_totalBuffered s + int (length (frame_bytes v))" by (simp add: set_conn_def)
  show empty: "bufferedBytes (ce_decoder c') = 0" using dec d by (simp add: bufferedBytes_def)
  show "ipc_totalBuffered (closeConn H i t) = ipc_totalBuffered s + int (length (frame_bytes v))"
    using total empty t(2) r(2) by (simp add: closeConn_def Let_def)
qed

end
