(* ===== verification/Ipc_Samples.thy ===== *)
theory Ipc_Samples
  imports Ipc_Served
begin

text \<open>
  A sample installation: a client that completes the handshake and sends requests to a consumer that echoes them, and one
  that registers a session with the sample broker. The theorems about the server and the client are applied to these runs.
\<close>

section \<open>Samples\<close>

definition sample_server :: server_options where
  "sample_server = \<lparr>so_maxConnections = 64, so_globalBudget = 16777216, so_connectRatePerSec = 50, so_rootSecret = Some (replicate 32 1),
     so_brokerInstanceId = js ''broker'', so_crypto = sample_crypto, so_number = (\<lambda>s. JNull), so_nonce = (\<lambda>n. replicate 32 4),
     so_buffer = (\<lambda>v. None), so_timestamp = js ''t''\<rparr>"

definition sample_client :: client_options where
  "sample_client = \<lparr>co_rootSecret = Some (replicate 32 1), co_keyVersion = None,
     co_helloIdentity = \<lparr>pi_buildId = None, pi_appProtoRange = None, pi_claimedRole = None, pi_claimedSessionId = None,
       pi_claimedEpoch = None, pi_capabilities = None\<rparr>,
     co_buildId = js ''dev'', co_crypto = sample_crypto, co_number = (\<lambda>s. JNull), co_buffer = (\<lambda>v. None)\<rparr>"

lemma sample_installation: "same_installation sample_server sample_client (replicate 32 1)"
  using sample_crypto_ok sample_broker_short by (simp add: same_installation_def sample_server_def sample_client_def NONCE_BYTES_def)

lemma sample_client_start:
  "startClientHandshake (case co_keyVersion sample_client of None \<Rightarrow> 1 | Some v \<Rightarrow> v) (hello_identity_of sample_client) (replicate 32 2) (replicate 16 3)
   = (fst sample_start, snd sample_start)"
  by (simp add: sample_start_def sample_client_def hello_identity_of_def sample_identity_def Let_def)

lemma sample_hello_size: "length (snd sample_start) \<le> 786000"
  by (simp add: sample_start_def startClientHandshake_def sample_identity_def Let_def encodeClientHello_def write_simps
      prefixed_def u16_bytes_def u32_bytes_def STP_MAGIC_def stp_constants)

lemma ipc_seq_new: "ipc_seq (new_IpcServer h) = 0"
  by (simp add: new_IpcServer_def)

lemma sample_admits: "admits sample_server 0 (new_IpcServer h)"
  by (simp add: admits_def sample_server_def new_IpcServer_def)

lemmas sample_session = sample_installation sample_client_start sample_hello_ok sample_hello_size sample_admits

text \<open>A consumer that counts the frames and sends them back.\<close>

definition echo :: "nat consumer" where
  "echo = \<lparr>onFrame = (\<lambda>i f n. (n + 1, [Act_Send f])), onCloseConn = (\<lambda>i n. n)\<rparr>"

lemma echo_answers: "answers_requests echo"
  by (simp add: answers_requests_def echo_def proper_request_def request_frame_props)

definition sample_requests :: "client_request list" where
  "sample_requests = [(js ''req-1'', js ''t'', js ''heartbeat'', JNull), (js ''req-2'', js ''u'', js ''get_status'', JObj [])]"

lemma sample_requests_proper: "list_all proper_request sample_requests"
  by (simp add: sample_requests_def proper_request_def sendable_def makeFrame_def PROTOCOL_VERSION_def frame_text_def stringify_object
      field_text_def json_string_def json_number_def dec_str.simps dec_digit_def code_units_def MAX_INTEGER_def high_surrogate_def low_surrogate_def)


text \<open>A session with the sample server as a run of the server.\<close>

lemma sample_run:
  assumes "answers_requests H" "list_all proper_request rs" "length rs \<le> MAX_SEQ"
  obtains evs s where "s = run_server sample_server H evs (new_IpcServer h)"
    "ipc_consumer s = fst (served H (conn_id 1) (map request_frame rs) h)"
    "plain_on s (conn_id 1) = map (frame_text \<circ> request_frame) rs" "delivered_on s (conn_id 1) = map request_frame rs"
proof -
  let ?open = "open_session sample_server H sample_client 0 (replicate 32 2) (replicate 16 3) (new_IpcServer h)"
  obtain c s where run: "dialogue sample_server H sample_client (conn_id 1) rs ?open = (c, s)" by fastforce
  obtain evs where evs: "s = run_server sample_server H evs (new_IpcServer h)" using session_run run by (metis snd_conv)
  obtain c1 s1 where 1: "?open = (c1, s1)" "linked sample_server sample_client (conn_id 1) 0 (c1, s1)" "undisturbed (new_IpcServer h) s1"
    using open_session_linked [OF sample_session(1) server_ok_new sample_session(5,2-4), of H h] by (auto simp: ipc_seq_new)
  have k: "crypto_ok (so_crypto sample_server)" "co_crypto sample_client = so_crypto sample_server"
    "so_rootSecret sample_server = Some (replicate 32 1)" using sample_installation by (simp_all add: same_installation_def)
  have "plain_on s1 i = []" "delivered_on s1 i = []" "ipc_consumer s1 = h" for i
    using 1(3) by (simp_all add: undisturbed_def same_logs_def plain_on_def delivered_on_def new_IpcServer_def)
  with linked_dialogue [OF k(1) refl k(2,3) assms(1,2) _ 1(2)] assms(3) run 1(1) evs that show thesis by fastforce
qed

lemma sample_texts_small: "list_all (\<lambda>p. length p \<le> MAX_PLAINTEXT) (map (frame_text \<circ> request_frame) sample_requests)"
  using sample_requests_proper by (auto simp: list_all_iff proper_request_def sendable_def MAX_PLAINTEXT_def)


theorem admission_bounded_witness:
  "length (ipc_conns (run_server sample_server echo [Socket_Accept 0] (new_IpcServer 0))) = 1 \<and>
   conn_of (socket_step sample_server echo (Handshake_Timeout (conn_id 1)) (run_server sample_server echo [Socket_Accept 0] (new_IpcServer 0))) (conn_id 1) = None"
proof -
  let ?s = "run_server sample_server echo [Socket_Accept 0] (new_IpcServer 0)"
  have root: "so_rootSecret sample_server = Some (replicate 32 1)" by (simp add: sample_server_def)
  obtain e where e: "ready sample_server (conn_id 1) e ?s" "ce_secure e = None"
    using accept_ready [OF server_ok_new root sample_admits, of 0] by (auto simp: ipc_seq_new)
  have "length (ipc_conns ?s) = 1"
    by (simp add: accept_def new_IpcServer_def sample_server_def)
  moreover have "conn_of ?s (conn_id 1) = Some e" using e(1) by (simp add: ready_def)
  ultimately show ?thesis using admission_bounded(2) [OF root refl, where H = echo and evs = "[Socket_Accept 0]" and h = 0 and i = "conn_id 1" and c = e] e(2)
    by (simp only: if_True simp_thms)
qed

text \<open>A client that says hello to the sample broker and registers a session.\<close>

definition registering_daemon :: "(nat \<times> daemon) consumer" where
  "registering_daemon = daemon_consumer sample_setup (\<lambda>n. sample_env) (\<lambda>f a. f)"

definition registration_payload :: jval where
  "registration_payload = JObj [(js ''sessionId'', JStr (js ''s1'')), (js ''instanceId'', JStr (js ''p1'')), (js ''projectId'', JStr (js ''p'')),
     (js ''cwd'', JStr (js ''/w'')), (js ''receiveMode'', JStr (js ''hook'')), (js ''processId'', JNum 7)]"

definition register_requests :: "client_request list" where
  "register_requests = [(js ''req-1'', js ''t'', js ''hello'', sample_hello), (js ''req-2'', js ''u'', js ''register_session'', registration_payload)]"

lemma registering_answers: "answers_requests registering_daemon"
  by (auto simp: answers_requests_def registering_daemon_def daemon_consumer_def proper_request_def request_frame_props Let_def)

lemma register_requests_proper: "list_all proper_request register_requests"
  by (simp add: register_requests_def registration_payload_def sample_hello_def proper_request_def sendable_def makeFrame_def PROTOCOL_VERSION_def
      frame_text_def stringify_object field_text_def json_string_def json_number_def dec_str.simps dec_digit_def code_units_def MAX_INTEGER_def
      high_surrogate_def low_surrogate_def)

lemma sample_registers:
  obtains d r where "register sample_env (register_input_of (conn_id 1) registration_payload 7) empty_db = (d, Inr r)"
proof -
  have "(case snd (register sample_env (register_input_of (js ''conn-1'') registration_payload 7) empty_db) of Inl _ \<Rightarrow> False | Inr r \<Rightarrow> True)"
    by code_simp
  moreover have "conn_id 1 = js ''conn-1''" by (simp add: conn_id_def dec_str.simps dec_digit_def)
  ultimately show thesis using that
    by (cases "register sample_env (register_input_of (conn_id 1) registration_payload 7) empty_db") (auto split: sum.splits simp del: js_Cons)
qed

lemma registered_authority:
  "\<exists>a. connAuth (snd (fst (served registering_daemon (conn_id 1) (map request_frame register_requests) (0, new_daemon empty_db)))) = [(conn_id 1, a)]"
proof (rule sample_registers)
  fix d r
  assume reg: "register sample_env (register_input_of (conn_id 1) registration_payload 7) empty_db = (d, Inr r)"
  let ?m = "(new_daemon empty_db)\<lparr>connHello := [conn_id 1]\<rparr>"
  have hello: "fst (handle sample_setup sample_env (conn_id 1) (js ''hello'') (Some sample_hello) (new_daemon empty_db)) = ?m"
    unfolding fst_handle dispatch_at
    by (simp add: payload_or_empty_def onHello_def sample_setup_def sample_hello_def or_else_def to_number_def hello_verdict_def Let_def checked_def
      brokerHelloInfo_def num_max_def num_min_def new_daemon_def PROTOCOL_VERSION_def MIN_SUPPORTED_PROTOCOL_VERSION_def SCHEMA_VERSION_def)
  have checks: "require_strings registration_payload [''sessionId'', ''instanceId'', ''projectId'', ''cwd'', ''receiveMode''] = Inr ()"
    "\<not> isOperatorSession (the_string registration_payload ''sessionId'')" "register_checks [] registration_payload = Inr (7, None)"
    and pay: "payload_or_empty (Some registration_payload) = registration_payload" by code_simp+
  have "dispatch sample_setup sample_env (conn_id 1) (js ''register_session'') (Some registration_payload) ?m =
      onRegister sample_env (conn_id 1) registration_payload ?m" by (simp add: dispatch_def pay)
  then have "connAuth (fst (handle sample_setup sample_env (conn_id 1) (js ''register_session'') (Some registration_payload) ?m)) = [(conn_id 1, rd_auth r)]"
    unfolding fst_handle using reg checks
    by (simp add: onRegister_def new_daemon_def map_delete_def on_db_def Let_def del: require_strings.simps)
  with hello show ?thesis
    by (simp add: register_requests_def registering_daemon_def daemon_consumer_def makeFrame_def string_prop_def Let_def case_prod_beta)
qed


end
