(* ===== verification/Spec2Isabelle.thy ===== *)
theory Spec2Isabelle
  imports Broker_Correct Session_Correct Reaper_Correct Scheduler_Correct Ipc_Limits Ipc_Samples
begin

text \<open>
  A model of the XBus broker.
\<close>

end
